(* ===== verification/Effect_Programs.thy ===== *)
theory Effect_Programs
  imports Main
begin

text \<open>
  Asynchronous code by its requests to the world outside. A program returns a value, or sends a
  request, awaits the answer and goes on with it; \<open>OnDrop\<close> is a value with a destructor, whose
  request is sent when the rest of the program has returned or been dropped.

  \<open>runs p t r\<close>: against some environment, the program sends the requests of the trace
  \<open>t\<close> with these answers and ends with \<open>r\<close>. The environment may answer in any way; the
  future of the program may be dropped at any request (a timeout, a client that has gone), which
  then may or may not have had its effect. A program that cannot make sense of an answer is
  \<open>Stuck\<close> and has no runs: the requests and answers of one program are sums, and an answer
  belongs to its request.
\<close>

datatype ('q, 'r, 'a) effect_prog =
    Return 'a
  | Ask 'q "'r \<Rightarrow> ('q, 'r, 'a) effect_prog"
  | OnDrop 'q "('q, 'r, 'a) effect_prog"
  | Stuck

datatype 'a effect_end = Returned 'a | Abandoned

type_synonym ('q, 'r) trace = "('q \<times> 'r option) list"

inductive runs :: "('q, 'r, 'a) effect_prog \<Rightarrow> ('q, 'r) trace \<Rightarrow> 'a effect_end \<Rightarrow> bool" where
  run_Return: "runs (Return x) [] (Returned x)"
| run_Ask: "runs (k r) t e \<Longrightarrow> runs (Ask q k) ((q, Some r) # t) e"
| run_dropped: "runs (Ask q k) [(q, None)] Abandoned"
| run_OnDrop: "runs p t e \<Longrightarrow> runs (OnDrop q p) (t @ [(q, None)]) e"

inductive_simps runs_Return [simp]: "runs (Return x) t e"
inductive_simps runs_Stuck [simp]: "runs Stuck t e"
inductive_simps runs_Ask: "runs (Ask q k) t e"
inductive_simps runs_OnDrop: "runs (OnDrop q p) t e"

section \<open>Requests and what precedes them\<close>

text \<open>
  \<open>guarded P h p\<close>: after the history \<open>h\<close>, whatever is answered, every request \<open>q\<close> of
  \<open>p\<close> is sent after a history \<open>h'\<close> with \<open>P h' q\<close>. A destructor's request is sent
  after any extension of the history.
\<close>

primrec guarded ::
  "(('q, 'r) trace \<Rightarrow> 'q \<Rightarrow> bool) \<Rightarrow> ('q, 'r, 'a) effect_prog \<Rightarrow> ('q, 'r) trace \<Rightarrow> bool" where
  "guarded P (Return x) = (\<lambda>h. True)"
| "guarded P (Ask q k) = (\<lambda>h. P h q \<and> (\<forall>r. guarded P (k r) (h @ [(q, Some r)])))"
| "guarded P (OnDrop q p) = (\<lambda>h. guarded P p h \<and> (\<forall>t. P (h @ t) q))"
| "guarded P Stuck = (\<lambda>h. True)"

lemma guarded_runs:
  assumes "runs p t e" "guarded P p h" "t = t1 @ (q, r) # t2"
  shows "P (h @ t1) q"
  using assms
proof (induction arbitrary: h t1 t2 rule: runs.induct)
  case (run_Ask k r' t e q')
  show ?case
  proof (cases t1)
    case Nil
    then show ?thesis using run_Ask.prems by simp
  next
    case (Cons x t1')
    then have "P ((h @ [(q', Some r')]) @ t1') q"
      using run_Ask.prems by (intro run_Ask.IH) auto
    then show ?thesis using Cons run_Ask.prems by simp
  qed
next
  case (run_dropped q' k)
  then show ?case by (auto simp: Cons_eq_append_conv)
next
  case (run_OnDrop p t e q')
  show ?case
  proof (cases t2 rule: rev_cases)
    case Nil
    then show ?thesis using run_OnDrop.prems by simp
  next
    case (snoc t2' x)
    then have "t = t1 @ (q, r) # t2'" using run_OnDrop.prems by simp
    then show ?thesis using run_OnDrop.IH run_OnDrop.prems by simp
  qed
qed simp

lemma guarded_weaken:
  assumes "guarded P p h" "\<And>t q. P (h @ t) q \<Longrightarrow> P' (h @ t) q"
  shows "guarded P' p h"
  using assms
proof (induction p arbitrary: h)
  case (Ask q k)
  have "guarded P' (k r) (h @ [(q, Some r)])" for r
    using Ask.prems by (intro Ask.IH) auto
  then show ?case using Ask.prems(1) Ask.prems(2) [of "[]"] by simp
qed auto

text \<open>
  \<open>finishes_with Q d p\<close>: once a request with \<open>Q\<close> has been sent, the run ends with the
  request \<open>d\<close>, whether the program returns or is dropped.
\<close>

primrec silent :: "('q \<Rightarrow> bool) \<Rightarrow> ('q, 'r, 'a) effect_prog \<Rightarrow> bool" where
  "silent Q (Return x) \<longleftrightarrow> True"
| "silent Q (Ask q k) \<longleftrightarrow> \<not> Q q \<and> (\<forall>r. silent Q (k r))"
| "silent Q (OnDrop q p) \<longleftrightarrow> \<not> Q q \<and> silent Q p"
| "silent Q Stuck \<longleftrightarrow> True"

primrec finishes_with :: "('q \<Rightarrow> bool) \<Rightarrow> 'q \<Rightarrow> ('q, 'r, 'a) effect_prog \<Rightarrow> bool" where
  "finishes_with Q d (Return x) \<longleftrightarrow> True"
| "finishes_with Q d (Ask q k) \<longleftrightarrow> \<not> Q q \<and> (\<forall>r. finishes_with Q d (k r))"
| "finishes_with Q d (OnDrop q p) \<longleftrightarrow> q = d \<or> \<not> Q q \<and> silent Q p"
| "finishes_with Q d Stuck \<longleftrightarrow> True"

lemma silent_runs: "runs p t e \<Longrightarrow> silent Q p \<Longrightarrow> (q, r) \<in> set t \<Longrightarrow> \<not> Q q"
  by (induction rule: runs.induct) auto

lemma finishes_with_runs:
  assumes "runs p t e" "finishes_with Q d p" "(q, r) \<in> set t" "Q q"
  shows "\<exists>t'. t = t' @ [(d, None)]"
  using assms
proof (induction rule: runs.induct)
  case (run_OnDrop p t e q')
  then show ?case using silent_runs [of p t e Q] by fastforce
qed auto

text \<open>
  \<open>ensures P p H\<close>: when \<open>p\<close> returns \<open>x\<close>, having started after the requests of \<open>H\<close>,
  the requests that have been answered by then and \<open>x\<close> satisfy \<open>P\<close>.
\<close>

primrec ensures ::
  "(('q \<times> 'r option) set \<Rightarrow> 'a \<Rightarrow> bool) \<Rightarrow> ('q, 'r, 'a) effect_prog \<Rightarrow> ('q \<times> 'r option) set \<Rightarrow> bool" where
  "ensures P (Return x) = (\<lambda>H. P H x)"
| "ensures P (Ask q k) = (\<lambda>H. \<forall>r. ensures P (k r) (insert (q, Some r) H))"
| "ensures P (OnDrop q p) = (\<lambda>H. ensures P p H)"
| "ensures P Stuck = (\<lambda>H. True)"

lemma ensures_runs:
  assumes "runs p t e" "ensures P p H" "e = Returned x"
    and mono: "\<And>H H' x. P H x \<Longrightarrow> H \<subseteq> H' \<Longrightarrow> P H' x"
  shows "P (H \<union> set t) x"
  using assms(1,2,3)
proof (induction arbitrary: H rule: runs.induct)
  case (run_Ask k r t e q)
  then have "P (insert (q, Some r) H \<union> set t) x" by (intro run_Ask.IH) auto
  then show ?case by simp
next
  case (run_OnDrop p t e q)
  then have "P (H \<union> set t) x" by (intro run_OnDrop.IH) auto
  then show ?case by (rule mono) auto
qed auto

text \<open>When no request is dropped and every answer makes sense, a program returns: here for an
  environment that answers by a function.\<close>

primrec answered :: "('q \<Rightarrow> 'r) \<Rightarrow> ('q, 'r, 'a) effect_prog \<Rightarrow> ('q, 'r) trace \<times> 'a option" where
  "answered env (Return x) = ([], Some x)"
| "answered env (Ask q k) = map_prod (\<lambda>t. (q, Some (env q)) # t) id (answered env (k (env q)))"
| "answered env (OnDrop q p) = map_prod (\<lambda>t. t @ [(q, None)]) id (answered env p)"
| "answered env Stuck = ([], None)"

lemma answered_runs: "answered env p = (t, Some x) \<Longrightarrow> runs p t (Returned x)"
proof (induction p arbitrary: t)
  case (Ask q k)
  then obtain t' where "answered env (k (env q)) = (t', Some x)" "t = (q, Some (env q)) # t'"
    by (auto simp: map_prod_def split: prod.splits)
  then show ?case using Ask.IH by (auto intro: run_Ask)
next
  case (OnDrop q p)
  then obtain t' where "answered env p = (t', Some x)" "t = t' @ [(q, None)]"
    by (auto simp: map_prod_def split: prod.splits)
  then show ?case using OnDrop.IH by (auto intro: run_OnDrop)
qed simp_all

end
