(* ===== verification/Harbor_Prelude.thy ===== *)
theory Harbor_Prelude
  imports Main "HOL-Library.Word" "HOL-Library.Sublist" "HOL-Library.AList"
begin

text \<open>
  The prelude of the development: the types the components share, the parts of Rust's
  standard library that the source uses on strings, integers and maps, and the generic
  lemmas about them.

  A Rust \<open>String\<close> or \<open>&str\<close> is a \<^typ>\<open>string\<close>: the list of its UTF-8 bytes,
  one \<^typ>\<open>char\<close> per byte, so that \<^const>\<open>length\<close> is Rust's \<open>len()\<close>. A
  byte is an \<open>8 word\<close> and a byte buffer a list of bytes; \<open>i16\<close>, \<open>i32\<close> and
  \<open>i64\<close> are words of their width, read as signed numbers by \<^const>\<open>sint\<close>.
  \<open>usize\<close> values are natural numbers: the source runs on 64-bit targets and every
  \<open>usize\<close> it computes is bounded by the size of a buffer in memory.
  A \<open>HashMap\<close> is an association list with distinct keys (its iteration order is
  unspecified in Rust and no definition here depends on it).
\<close>

unbundle bit_operations_syntax

section \<open>Types and proof collections\<close>

type_synonym u8 = "8 word"
type_synonym i16 = "16 word"
type_synonym i32 = "32 word"
type_synonym i64 = "64 word"
type_synonym bytes = "u8 list"

text \<open>Points in time (\<open>Instant\<close>) and durations (\<open>Duration\<close>) are counted in nanoseconds.\<close>

type_synonym instant = nat
type_synonym duration = nat

text \<open>
  \<open>parse_rules\<close> collects the composition rules that run a reader over an encoding,
  \<open>progress_rules\<close> the rules that bound how far a reader moves.
\<close>

named_theorems parse_rules
named_theorems progress_rules
named_theorems wire_rules "encodings of Thrift values"
named_theorems inv_rules

section \<open>ASCII case\<close>

definition ascii_lower_char :: "char \<Rightarrow> char" where
  "ascii_lower_char c =
     (let n = (of_char c :: nat) in if 65 \<le> n \<and> n \<le> 90 then char_of (n + 32) else c)"

definition ascii_upper_char :: "char \<Rightarrow> char" where
  "ascii_upper_char c =
     (let n = (of_char c :: nat) in if 97 \<le> n \<and> n \<le> 122 then char_of (n - 32) else c)"

definition to_ascii_lowercase :: "string \<Rightarrow> string" where
  "to_ascii_lowercase s = map ascii_lower_char s"

definition to_ascii_uppercase :: "string \<Rightarrow> string" where
  "to_ascii_uppercase s = map ascii_upper_char s"

definition eq_ignore_ascii_case :: "string \<Rightarrow> string \<Rightarrow> bool" where
  "eq_ignore_ascii_case a b \<longleftrightarrow> to_ascii_lowercase a = to_ascii_lowercase b"

section \<open>Prefixes, suffixes, splitting and joining\<close>

definition starts_with :: "string \<Rightarrow> string \<Rightarrow> bool" where
  "starts_with s p \<longleftrightarrow> take (length p) s = p"

definition ends_with :: "string \<Rightarrow> string \<Rightarrow> bool" where
  "ends_with s p \<longleftrightarrow> length p \<le> length s \<and> drop (length s - length p) s = p"

definition strip_prefix :: "string \<Rightarrow> string \<Rightarrow> string option" where
  "strip_prefix s p = (if starts_with s p then Some (drop (length p) s) else None)"

definition strip_suffix :: "string \<Rightarrow> string \<Rightarrow> string option" where
  "strip_suffix s p = (if ends_with s p then Some (take (length s - length p) s) else None)"

text \<open>\<open>s.split(c)\<close> for an ASCII character \<open>c\<close>: always at least one part.\<close>

fun split_char :: "char \<Rightarrow> string \<Rightarrow> string list" where
  "split_char c [] = [[]]"
| "split_char c (x # xs) =
     (if x = c then [] # split_char c xs
      else (case split_char c xs of [] \<Rightarrow> [[x]] | p # ps \<Rightarrow> (x # p) # ps))"

fun join :: "string \<Rightarrow> string list \<Rightarrow> string" where
  "join sep [] = []"
| "join sep [x] = x"
| "join sep (x # y # zs) = x @ sep @ join sep (y # zs)"

text \<open>\<open>s.split_once(c)\<close>: the parts before and after the first \<open>c\<close>.\<close>

definition split_once :: "char \<Rightarrow> string \<Rightarrow> (string \<times> string) option" where
  "split_once c s =
     (if c \<in> set s then Some (takeWhile (\<lambda>x. x \<noteq> c) s, tl (dropWhile (\<lambda>x. x \<noteq> c) s))
      else None)"

definition contains_str :: "string \<Rightarrow> string \<Rightarrow> bool" where
  "contains_str s p \<longleftrightarrow> sublist p s"

definition trim_end_matches :: "char \<Rightarrow> string \<Rightarrow> string" where
  "trim_end_matches c s = rev (dropWhile (\<lambda>x. x = c) (rev s))"

section \<open>Unicode white space and trim\<close>

text \<open>
  The UTF-8 encodings of the characters with the Unicode property \<open>White_Space\<close>, which
  are those that \<open>str::trim\<close> removes.
\<close>

definition utf8_white_space :: "string list" where
  "utf8_white_space =
     [[CHR 0x09], [CHR 0x0A], [CHR 0x0B], [CHR 0x0C], [CHR 0x0D], [CHR 0x20],
      [CHR 0xC2, CHR 0x85], [CHR 0xC2, CHR 0xA0],
      [CHR 0xE1, CHR 0x9A, CHR 0x80],
      [CHR 0xE2, CHR 0x80, CHR 0x80], [CHR 0xE2, CHR 0x80, CHR 0x81],
      [CHR 0xE2, CHR 0x80, CHR 0x82], [CHR 0xE2, CHR 0x80, CHR 0x83],
      [CHR 0xE2, CHR 0x80, CHR 0x84], [CHR 0xE2, CHR 0x80, CHR 0x85],
      [CHR 0xE2, CHR 0x80, CHR 0x86], [CHR 0xE2, CHR 0x80, CHR 0x87],
      [CHR 0xE2, CHR 0x80, CHR 0x88], [CHR 0xE2, CHR 0x80, CHR 0x89],
      [CHR 0xE2, CHR 0x80, CHR 0x8A], [CHR 0xE2, CHR 0x80, CHR 0xA8],
      [CHR 0xE2, CHR 0x80, CHR 0xA9], [CHR 0xE2, CHR 0x80, CHR 0xAF],
      [CHR 0xE2, CHR 0x81, CHR 0x9F], [CHR 0xE3, CHR 0x80, CHR 0x80]]"

fun strip_some_prefix :: "string list \<Rightarrow> string \<Rightarrow> string option" where
  "strip_some_prefix [] s = None"
| "strip_some_prefix (w # ws) s =
     (if starts_with s w \<and> w \<noteq> [] then Some (drop (length w) s) else strip_some_prefix ws s)"

lemma strip_some_prefix_shorter: "strip_some_prefix ws s = Some t \<Longrightarrow> length t < length s"
proof (induction ws)
  case (Cons w ws)
  then show ?case
    by (cases s; cases w) (auto simp: starts_with_def split: if_splits)
qed simp

function strip_while_prefix :: "string list \<Rightarrow> string \<Rightarrow> string" where
  "strip_while_prefix ws s =
     (case strip_some_prefix ws s of None \<Rightarrow> s | Some t \<Rightarrow> strip_while_prefix ws t)"
  by pat_completeness auto
termination
  by (relation "measure (\<lambda>(ws, s). length s)") (auto dest: strip_some_prefix_shorter)

declare strip_while_prefix.simps [simp del]

definition trim_start :: "string \<Rightarrow> string" where
  "trim_start s = strip_while_prefix utf8_white_space s"

definition trim_end :: "string \<Rightarrow> string" where
  "trim_end s = rev (strip_while_prefix (map rev utf8_white_space) (rev s))"

definition trim :: "string \<Rightarrow> string" where
  "trim s = trim_end (trim_start s)"

section \<open>Decimal numerals\<close>

definition digit_char :: "nat \<Rightarrow> char" where
  "digit_char d = char_of (48 + d)"

fun show_nat :: "nat \<Rightarrow> string" where
  "show_nat n = (if n < 10 then [digit_char n] else show_nat (n div 10) @ [digit_char (n mod 10)])"

declare show_nat.simps [simp del]

definition show_int :: "int \<Rightarrow> string" where
  "show_int i = (if i < 0 then CHR ''-'' # show_nat (nat (- i)) else show_nat (nat i))"

definition is_ascii_digit :: "char \<Rightarrow> bool" where
  "is_ascii_digit c \<longleftrightarrow> 48 \<le> (of_char c :: nat) \<and> (of_char c :: nat) \<le> 57"

fun digits_value :: "nat \<Rightarrow> string \<Rightarrow> nat" where
  "digits_value acc [] = acc"
| "digits_value acc (c # cs) = digits_value (acc * 10 + (of_char c - 48)) cs"

text \<open>
  \<open>str::parse\<close> for an unsigned integer type whose largest value is \<open>bound\<close>: an
  optional plus sign and one or more digits, no white space, \<open>Err\<close> when too large.
\<close>

definition parse_unsigned :: "nat \<Rightarrow> string \<Rightarrow> nat option" where
  "parse_unsigned bound s =
     (let ds = (case s of [] \<Rightarrow> [] | c # cs \<Rightarrow> if c = CHR ''+'' then cs else s)
      in if ds \<noteq> [] \<and> list_all is_ascii_digit ds \<and> digits_value 0 ds \<le> bound
         then Some (digits_value 0 ds) else None)"

definition usize_max :: nat where
  "usize_max = 2 ^ 64 - 1"

section \<open>Strings as bytes, and UTF-8\<close>

definition str_bytes :: "string \<Rightarrow> bytes" where
  "str_bytes s = map of_char s"

definition bytes_str :: "bytes \<Rightarrow> string" where
  "bytes_str bs = map (\<lambda>b. char_of (unat b)) bs"

definition utf8_cont :: "u8 \<Rightarrow> bool" where
  "utf8_cont b \<longleftrightarrow> 128 \<le> unat b \<and> unat b < 192"

text \<open>The characters of a string: a byte that starts a character and its continuation bytes.\<close>

definition is_continuation :: "char \<Rightarrow> bool" where
  "is_continuation c \<longleftrightarrow> utf8_cont (of_char c)"

fun utf8_chars :: "string \<Rightarrow> string list" where
  "utf8_chars [] = []"
| "utf8_chars (c # cs) =
     (case utf8_chars cs of
        (d # ds) # rest \<Rightarrow> if is_continuation d then (c # d # ds) # rest else [c] # (d # ds) # rest
      | _ \<Rightarrow> [[c]])"

text \<open>The second byte of a three- and of a four-byte sequence, by its first byte.\<close>

definition utf8_second3 :: "nat \<Rightarrow> u8 \<Rightarrow> bool" where
  "utf8_second3 n b \<longleftrightarrow> utf8_cont b \<and> (n = 224 \<longrightarrow> 160 \<le> unat b) \<and> (n = 237 \<longrightarrow> unat b < 160)"

definition utf8_second4 :: "nat \<Rightarrow> u8 \<Rightarrow> bool" where
  "utf8_second4 n b \<longleftrightarrow> utf8_cont b \<and> (n = 240 \<longrightarrow> 144 \<le> unat b) \<and> (n = 244 \<longrightarrow> unat b < 144)"

text \<open>
  The check of \<open>String::from_utf8\<close>: \<open>None\<close> for well-formed UTF-8 (no overlong
  forms, no surrogates, nothing above U+10FFFF), otherwise the fields of \<open>Utf8Error\<close>:
  \<open>valid_up_to\<close> and, unless the input ends inside a sequence, \<open>error_len\<close>.
\<close>

fun utf8_error :: "nat \<Rightarrow> bytes \<Rightarrow> (nat \<times> nat option) option" where
  "utf8_error i [] = None"
| "utf8_error i (a # r) =
     (let n = unat a in
      if n < 128 then utf8_error (i + 1) r
      else if 194 \<le> n \<and> n < 224 then
        (case r of [] \<Rightarrow> Some (i, None)
         | b # r1 \<Rightarrow> if \<not> utf8_cont b then Some (i, Some 1) else utf8_error (i + 2) r1)
      else if 224 \<le> n \<and> n < 240 then
        (case r of [] \<Rightarrow> Some (i, None)
         | b # r1 \<Rightarrow> if \<not> utf8_second3 n b then Some (i, Some 1)
             else (case r1 of [] \<Rightarrow> Some (i, None)
                   | c # r2 \<Rightarrow> if \<not> utf8_cont c then Some (i, Some 2) else utf8_error (i + 3) r2))
      else if 240 \<le> n \<and> n < 245 then
        (case r of [] \<Rightarrow> Some (i, None)
         | b # r1 \<Rightarrow> if \<not> utf8_second4 n b then Some (i, Some 1)
             else (case r1 of [] \<Rightarrow> Some (i, None)
                   | c # r2 \<Rightarrow> if \<not> utf8_cont c then Some (i, Some 2)
                       else (case r2 of [] \<Rightarrow> Some (i, None)
                             | d # r3 \<Rightarrow> if \<not> utf8_cont d then Some (i, Some 3)
                                 else utf8_error (i + 4) r3)))
      else Some (i, Some 1))"

definition utf8_valid :: "bytes \<Rightarrow> bool" where
  "utf8_valid bs \<longleftrightarrow> utf8_error 0 bs = None"

text \<open>The \<open>Display\<close> rendering of \<open>Utf8Error\<close>.\<close>

fun utf8_error_display :: "nat \<times> nat option \<Rightarrow> string" where
  "utf8_error_display (i, Some n) =
     ''invalid utf-8 sequence of '' @ show_nat n @ '' bytes from index '' @ show_nat i"
| "utf8_error_display (i, None) = ''incomplete utf-8 byte sequence from index '' @ show_nat i"

definition valid_str :: "string \<Rightarrow> bool" where
  "valid_str s \<longleftrightarrow> utf8_valid (str_bytes s)"

section \<open>Lemmas\<close>

lemma length_str_bytes [simp]: "length (str_bytes s) = length s"
  by (simp add: str_bytes_def)

lemma unat_of_char_u8 [simp]: "unat (of_char c :: u8) = of_char c"
proof -
  have "(of_char c :: u8) = of_nat (of_char c)" by (simp add: of_nat_of_char)
  then show ?thesis by (simp add: unat_of_nat)
qed

lemma bytes_str_str_bytes [simp]: "bytes_str (str_bytes s) = s"
  by (simp add: bytes_str_def str_bytes_def comp_def)

lemma str_bytes_inj: "str_bytes a = str_bytes b \<Longrightarrow> a = b"
  by (metis bytes_str_str_bytes)

lemma utf8_error_ascii: "list_all (\<lambda>b. unat b < 128) bs \<Longrightarrow> utf8_error i bs = None"
  by (induction bs arbitrary: i) (auto simp: Let_def)

lemma utf8_valid_ascii: "list_all (\<lambda>b. unat b < 128) bs \<Longrightarrow> utf8_valid bs"
  by (simp add: utf8_valid_def utf8_error_ascii)

lemma valid_str_ascii: "list_all (\<lambda>c. (of_char c :: nat) < 128) s \<Longrightarrow> valid_str s"
  by (simp add: valid_str_def utf8_valid_ascii str_bytes_def list_all_length)

lemma eq_ignore_ascii_case_refl [simp]: "eq_ignore_ascii_case a a"
  by (simp add: eq_ignore_ascii_case_def)

lemma eq_ignore_ascii_case_sym: "eq_ignore_ascii_case a b = eq_ignore_ascii_case b a"
  by (auto simp: eq_ignore_ascii_case_def)

lemma eq_ignore_ascii_case_trans:
  "eq_ignore_ascii_case a b \<Longrightarrow> eq_ignore_ascii_case b c \<Longrightarrow> eq_ignore_ascii_case a c"
  by (simp add: eq_ignore_ascii_case_def)

lemma split_char_nonempty [simp]: "split_char c s \<noteq> []"
  by (induction s) (auto split: list.splits)

lemma join_split_char [simp]: "join [c] (split_char c s) = s"
proof (induction s)
  case Nil
  then show ?case by simp
next
  case (Cons x xs)
  obtain p ps where split: "split_char c xs = p # ps"
    by (meson neq_Nil_conv split_char_nonempty)
  with Cons have "join [c] (p # ps) = xs" by simp
  with split show ?case by (cases ps) auto
qed

lemma split_char_no_sep: "c \<notin> set s \<Longrightarrow> split_char c s = [s]"
  by (induction s) auto

lemma strip_prefix_Some: "strip_prefix s p = Some t \<longleftrightarrow> s = p @ t"
  by (auto simp: strip_prefix_def starts_with_def) (metis append_take_drop_id)

lemma strip_suffix_Some: "strip_suffix s p = Some t \<longleftrightarrow> s = t @ p"
  by (auto simp: strip_suffix_def ends_with_def) (metis append_take_drop_id)

lemma digits_value_append: "digits_value acc (xs @ ys) = digits_value (digits_value acc xs) ys"
  by (induction xs arbitrary: acc) auto

lemma of_char_digit_char: "d < 10 \<Longrightarrow> of_char (digit_char d) = (48 + d :: nat)"
  by (simp add: digit_char_def)

lemma digits_value_show_nat: "digits_value 0 (show_nat n) = n"
proof (induction n rule: show_nat.induct)
  case (1 n)
  show ?case
  proof (cases "n < 10")
    case True
    then show ?thesis by (simp add: show_nat.simps [of n] of_char_digit_char)
  next
    case False
    with 1 have "digits_value 0 (show_nat (n div 10)) = n div 10" by simp
    with False show ?thesis
      by (simp add: show_nat.simps [of n] digits_value_append of_char_digit_char)
  qed
qed

lemma show_nat_digits: "list_all is_ascii_digit (show_nat n) \<and> show_nat n \<noteq> []"
proof (induction n rule: show_nat.induct)
  case (1 n)
  have d: "is_ascii_digit (digit_char (n mod 10))" "n < 10 \<Longrightarrow> is_ascii_digit (digit_char n)"
    by (auto simp: is_ascii_digit_def of_char_digit_char)
  with 1 show ?case by (cases "n < 10") (auto simp: show_nat.simps [of n])
qed

lemma parse_unsigned_show_nat: "n \<le> bound \<Longrightarrow> parse_unsigned bound (show_nat n) = Some n"
proof -
  assume le: "n \<le> bound"
  have "hd (show_nat n) \<noteq> CHR ''+''"
    using show_nat_digits [of n] by (cases "show_nat n") (auto simp: is_ascii_digit_def)
  then have "(case show_nat n of [] \<Rightarrow> [] | c # cs \<Rightarrow> if c = CHR ''+'' then cs else show_nat n)
      = show_nat n"
    by (cases "show_nat n") auto
  with le show_nat_digits [of n] show ?thesis
    by (simp add: parse_unsigned_def digits_value_show_nat)
qed

lemma parse_unsigned_bound: "parse_unsigned bound s = Some n \<Longrightarrow> n \<le> bound"
  by (auto simp: parse_unsigned_def Let_def split: if_splits)

subsection \<open>Characters of a string\<close>

text \<open>\<open>char_chunks chs\<close>: characters as \<open>utf8_chars\<close> finds them in a string.\<close>

fun whole_char :: "string \<Rightarrow> bool" where
  "whole_char [] = False"
| "whole_char (c # cs) \<longleftrightarrow> list_all is_continuation cs"

definition starts_char :: "string \<Rightarrow> bool" where
  "starts_char ch \<longleftrightarrow> (case ch of [] \<Rightarrow> False | c # _ \<Rightarrow> \<not> is_continuation c)"

definition char_chunks :: "string list \<Rightarrow> bool" where
  "char_chunks chs \<longleftrightarrow> list_all whole_char chs \<and> list_all starts_char (tl chs)"

lemma utf8_chars_chunks: "char_chunks (utf8_chars s)"
  by (induction s rule: utf8_chars.induct)
     (auto simp: char_chunks_def starts_char_def split: list.splits)

lemma utf8_chars_Nil_iff [simp]: "utf8_chars s = [] \<longleftrightarrow> s = []"
  by (cases s) (auto split: list.splits)

lemma utf8_chars_head: "s \<noteq> [] \<Longrightarrow> \<exists>ds rest. utf8_chars s = (hd s # ds) # rest"
  by (cases s) (auto split: list.splits)

lemma utf8_chars_append:
  assumes "list_all is_continuation cs" "s = [] \<or> \<not> is_continuation (hd s)"
  shows "utf8_chars (c # cs @ s) = (c # cs) # utf8_chars s"
  using assms(1)
proof (induction cs arbitrary: c)
  case Nil
  then show ?case using assms(2) utf8_chars_head [of s] by (cases "s = []") auto
next
  case (Cons d ds)
  then show ?case by (simp del: utf8_chars.simps add: utf8_chars.simps(2) [of c "d # ds @ s"])
qed

lemma utf8_chars_concat: "char_chunks chs \<Longrightarrow> utf8_chars (concat chs) = chs"
proof (induction chs)
  case (Cons ch chs)
  then obtain c cs where ch: "ch = c # cs" "list_all is_continuation cs"
    by (cases ch) (auto simp: char_chunks_def)
  have "char_chunks chs" using Cons.prems by (cases chs) (auto simp: char_chunks_def)
  moreover have "concat chs = [] \<or> \<not> is_continuation (hd (concat chs))"
    using Cons.prems by (cases chs) (auto simp: char_chunks_def starts_char_def split: list.splits)
  ultimately show ?case using utf8_chars_append [OF ch(2)] Cons.IH by (simp add: ch(1))
qed simp

lemma concat_utf8_chars [simp]: "concat (utf8_chars s) = s"
proof (induction s)
  case (Cons c cs)
  then show ?case using utf8_chars_chunks [of cs] by (auto simp: char_chunks_def split: list.splits)
qed simp

subsection \<open>Association lists with distinct keys\<close>

abbreviation distinct_keys :: "('k \<times> 'v) list \<Rightarrow> bool" where
  "distinct_keys m \<equiv> distinct (map fst m)"

lemma distinct_keys_filter [simp]: "distinct_keys m \<Longrightarrow> distinct_keys (filter P m)"
  by (rule distinct_map_filter)

lemma distinct_keys_update [simp]: "distinct_keys m \<Longrightarrow> distinct_keys (AList.update k v m)"
  by (rule distinct_update)

lemma distinct_keys_delete [simp]: "distinct_keys m \<Longrightarrow> distinct_keys (AList.delete k m)"
  by (rule distinct_delete)

lemma map_of_filter_distinct:
  "distinct_keys m \<Longrightarrow>
   map_of (filter P m) k = (case map_of m k of None \<Rightarrow> None | Some v \<Rightarrow> if P (k, v) then Some v else None)"
  by (induction m) (auto split: option.splits dest: map_of_SomeD simp: rev_image_eqI)

lemma length_update_le: "length (AList.update k v m) \<le> Suc (length m)"
  by (induction m) auto

lemma length_update_present:
  "k \<in> fst ` set m \<Longrightarrow> length (AList.update k v m) = length m"
  by (induction m) auto

lemma length_delete_alist_le: "length (AList.delete k m) \<le> length m"
  by (induction m) auto

end
