(* ===== verification/Harbor_Error.thy ===== *)
theory Harbor_Error
  imports Harbor_Prelude
begin

text \<open>
  The error type of the server (\<open>src/src/error.rs\<close>) and how errors leave it: the HTTP
  status, the fixed client-facing code and message, the truncation of upstream messages, and
  the recovery of a HarborSQL error from DataFusion's chain of causes
  (\<open>src/src/engine.rs\<close>). An error of a foreign crate is carried as its rendered text.
\<close>

datatype harbor_error =
    Config string
  | MissingBearerToken
  | UnsupportedSql string
  | Unity string
  | Query string
  | UnsupportedResultType string
  | Thrift string
  | Http string
  | Url string
  | Delta string
  | DataFusion string
  | ArrowJson string
  | Json string
  | Logger string
  | Io string

type_synonym 'a res = "harbor_error + 'a"

text \<open>The \<open>?\<close> operator on results, and \<open>collect::<Result<Vec<_>>>\<close>: the first error wins.\<close>

definition sbind :: "'a res \<Rightarrow> ('a \<Rightarrow> 'b res) \<Rightarrow> 'b res" where
  "sbind m k = (case m of Inl e \<Rightarrow> Inl e | Inr x \<Rightarrow> k x)"

lemma sbind_simps [simp]: "sbind (Inl e) k = Inl e" "sbind (Inr x) k = k x"
  by (simp_all add: sbind_def)

lemma sbind_cong [fundef_cong]:
  "m = m' \<Longrightarrow> (\<And>x. m' = Inr x \<Longrightarrow> k x = k' x) \<Longrightarrow> sbind m k = sbind m' k'"
  by (cases m') auto

lemma sbind_Inr_iff: "sbind m k = Inr y \<longleftrightarrow> (\<exists>x. m = Inr x \<and> k x = Inr y)"
  by (cases m) auto

fun collect_res :: "'a res list \<Rightarrow> 'a list res" where
  "collect_res [] = Inr []"
| "collect_res (m # ms) = sbind m (\<lambda>x. sbind (collect_res ms) (\<lambda>xs. Inr (x # xs)))"

lemma collect_res_Inr:
  "collect_res ms = Inr xs \<longleftrightarrow> list_all2 (\<lambda>m x. m = Inr x) ms xs"
  by (induction ms arbitrary: xs) (auto simp: sbind_Inr_iff list_all2_Cons1)

fun error_to_string :: "harbor_error \<Rightarrow> string" where
  "error_to_string (Config m) = ''configuration error: '' @ m"
| "error_to_string MissingBearerToken = ''authorization header is missing or is not a bearer token''"
| "error_to_string (UnsupportedSql m) = ''unsupported SQL for MVP: '' @ m"
| "error_to_string (Unity m) = ''Unity Catalog error: '' @ m"
| "error_to_string (Query m) = ''query execution error: '' @ m"
| "error_to_string (UnsupportedResultType m) = ''unsupported result type: '' @ m"
| "error_to_string (Thrift m) = ''Databricks Thrift protocol error: '' @ m"
| "error_to_string (Http m) = ''HTTP client error: '' @ m"
| "error_to_string (Url m) = ''URL error: '' @ m"
| "error_to_string (Delta m) = ''Delta error: '' @ m"
| "error_to_string (DataFusion m) = ''DataFusion error: '' @ m"
| "error_to_string (ArrowJson m) = ''Arrow JSON error: '' @ m"
| "error_to_string (Json m) = ''JSON error: '' @ m"
| "error_to_string (Logger m) = ''logger setup error: '' @ m"
| "error_to_string (Io m) = ''I/O error: '' @ m"

fun status_code :: "harbor_error \<Rightarrow> nat" where
  "status_code MissingBearerToken = 401"
| "status_code (Config _) = 400"
| "status_code (UnsupportedSql _) = 400"
| "status_code (Thrift _) = 400"
| "status_code (Unity _) = 502"
| "status_code (Query _) = 422"
| "status_code (UnsupportedResultType _) = 422"
| "status_code (Delta _) = 422"
| "status_code (DataFusion _) = 422"
| "status_code (ArrowJson _) = 422"
| "status_code (Http _) = 500"
| "status_code (Url _) = 500"
| "status_code (Json _) = 500"
| "status_code (Logger _) = 500"
| "status_code (Io _) = 500"

record client_err =
  ce_code :: string
  ce_message :: string

definition client_error_new :: "string \<Rightarrow> string \<Rightarrow> client_err" where
  "client_error_new code message = \<lparr>ce_code = code, ce_message = message\<rparr>"

definition client_error_internal :: client_err where
  "client_error_internal = client_error_new ''INTERNAL_ERROR'' ''internal server error''"

fun client_error :: "harbor_error \<Rightarrow> client_err" where
  "client_error (Config _) = client_error_new ''CONFIG_INVALID'' ''invalid configuration''"
| "client_error MissingBearerToken = client_error_new ''UNAUTHORIZED'' ''missing bearer token''"
| "client_error (UnsupportedSql _) = client_error_new ''UNSUPPORTED_SQL'' ''unsupported SQL''"
| "client_error (Unity _) = client_error_new ''UNITY_CATALOG_ERROR'' ''Unity Catalog request failed''"
| "client_error (Query _) = client_error_new ''QUERY_FAILED'' ''query execution failed''"
| "client_error (UnsupportedResultType _) =
     client_error_new ''UNSUPPORTED_RESULT_TYPE'' ''unsupported result column type''"
| "client_error (Thrift _) = client_error_new ''THRIFT_PROTOCOL_ERROR'' ''invalid Thrift request''"
| "client_error (Http _) = client_error_new ''UPSTREAM_HTTP_ERROR'' ''upstream HTTP request failed''"
| "client_error (Url _) = client_error_new ''INVALID_URL'' ''invalid URL''"
| "client_error (Delta _) = client_error_new ''DELTA_TABLE_ERROR'' ''Delta table operation failed''"
| "client_error (DataFusion _) =
     client_error_new ''DATAFUSION_ERROR'' ''query planning or execution failed''"
| "client_error (ArrowJson _) = client_error_new ''RESULT_ENCODING_ERROR'' ''result encoding failed''"
| "client_error (Json _) = client_error_new ''JSON_ERROR'' ''JSON processing failed''"
| "client_error (Logger _) = client_error_internal"
| "client_error (Io _) = client_error_internal"

definition status_message :: "client_err \<Rightarrow> string" where
  "status_message e = ce_code e @ '': '' @ ce_message e"

text \<open>The HTTP response of a failed request: status and the two fields of the JSON body.\<close>

record error_response =
  er_status :: nat
  er_error :: string
  er_message :: string

definition into_response :: "harbor_error \<Rightarrow> error_response" where
  "into_response e =
     \<lparr>er_status = status_code e, er_error = ce_code (client_error e),
      er_message = ce_message (client_error e)\<rparr>"

section \<open>Redaction and truncation\<close>

text \<open>
  The compiled patterns and \<open>Regex::replace_all\<close> belong to the \<open>regex\<close> crate and
  are parameters; the loop over them is the source's.
\<close>

definition redact_sensitive :: "('re \<Rightarrow> string \<Rightarrow> string \<Rightarrow> string) \<Rightarrow> ('re \<times> string) list \<Rightarrow> string \<Rightarrow> string" where
  "redact_sensitive replace_all patterns value =
     foldl (\<lambda>redacted (pattern, replacement). replace_all pattern redacted replacement) value patterns"

text \<open>\<open>str::is_char_boundary\<close> on the UTF-8 bytes of a string.\<close>

definition is_char_boundary :: "string \<Rightarrow> nat \<Rightarrow> bool" where
  "is_char_boundary s i \<longleftrightarrow>
     i = 0 \<or> i = length s \<or>
     (i < length s \<and> \<not> (128 \<le> (of_char (s ! i) :: nat) \<and> (of_char (s ! i) :: nat) < 192))"

fun char_boundary_below :: "string \<Rightarrow> nat \<Rightarrow> nat" where
  "char_boundary_below s 0 = 0"
| "char_boundary_below s (Suc e) =
     (if is_char_boundary s (Suc e) then Suc e else char_boundary_below s e)"

definition truncate :: "string \<Rightarrow> nat \<Rightarrow> string" where
  "truncate s max_len =
     (if length s \<le> max_len then s
      else take (char_boundary_below s max_len) s @ ''...'')"

definition redact_and_truncate ::
  "('re \<Rightarrow> string \<Rightarrow> string \<Rightarrow> string) \<Rightarrow> ('re \<times> string) list \<Rightarrow> string \<Rightarrow> nat \<Rightarrow> string" where
  "redact_and_truncate replace_all patterns value max_len =
     truncate (redact_sensitive replace_all patterns value) max_len"

section \<open>Errors that pass through DataFusion\<close>

fun clone_harbor_error :: "harbor_error \<Rightarrow> harbor_error" where
  "clone_harbor_error (Config m) = Config m"
| "clone_harbor_error MissingBearerToken = MissingBearerToken"
| "clone_harbor_error (UnsupportedSql m) = UnsupportedSql m"
| "clone_harbor_error (Unity m) = Unity m"
| "clone_harbor_error (Query m) = Query m"
| "clone_harbor_error (UnsupportedResultType m) = UnsupportedResultType m"
| "clone_harbor_error (Thrift m) = Thrift m"
| "clone_harbor_error e = Query (error_to_string e)"

text \<open>
  The chain \<open>error.source()\<close>, \<open>source.source()\<close>, \<open>\<dots>\<close> of a DataFusion error:
  each cause is a \<open>HarborError\<close> (\<open>Some\<close>) or an error of another type.
\<close>

fun harbor_error_source :: "harbor_error option list \<Rightarrow> harbor_error option" where
  "harbor_error_source [] = None"
| "harbor_error_source (Some e # _) = Some (clone_harbor_error e)"
| "harbor_error_source (None # causes) = harbor_error_source causes"

definition harbor_error_from_datafusion :: "string \<Rightarrow> harbor_error option list \<Rightarrow> harbor_error" where
  "harbor_error_from_datafusion rendered causes =
     (case harbor_error_source causes of Some e \<Rightarrow> e | None \<Rightarrow> DataFusion rendered)"

section \<open>Lemmas\<close>

lemma char_boundary_below_le: "char_boundary_below s e \<le> e"
  by (induction e) (auto simp: le_Suc_eq)

lemma char_boundary_below_boundary: "is_char_boundary s (char_boundary_below s e)"
  by (induction e) (auto simp: is_char_boundary_def)

lemma char_boundary_below_greatest:
  "is_char_boundary s i \<Longrightarrow> i \<le> e \<Longrightarrow> i \<le> char_boundary_below s e"
  by (induction e) (auto simp: le_Suc_eq)

end
