(* ===== verification/Query_Results.thy ===== *)
theory Query_Results
  imports Harbor_Error
begin

text \<open>
  Query results (\<open>QueryResult\<close> and \<open>InlineResultStore\<close> in \<open>src/src/engine.rs\<close>,
  \<open>materialize_stream\<close> in \<open>src/src/engine/results.rs\<close>): Arrow data by its logical
  content, paging through the batches of a result, and the limits under which a stream of
  batches is collected.

  The \<open>ResultStore\<close> trait is the locale \<open>result_store\<close>: a store holds a list of
  rows and a page is a window of it. Its client lemma, that a reader which follows
  \<open>has_more_rows\<close> sees every row exactly once and in order, is proved from the contract
  and holds for \<open>InlineResultStore\<close> by interpretation.
\<close>

section \<open>Arrow data\<close>

datatype time_unit = TuSecond | TuMillisecond | TuMicrosecond | TuNanosecond

text \<open>The types the source matches on; every other type is carried by its name.\<close>

datatype data_type =
    DtNull
  | DtBoolean
  | DtInt8
  | DtInt16
  | DtInt32
  | DtInt64
  | DtUInt8
  | DtUInt16
  | DtUInt32
  | DtUInt64
  | DtFloat32
  | DtFloat64
  | DtUtf8
  | DtLargeUtf8
  | DtUtf8View
  | DtDate32
  | DtDate64
  | DtTimestamp time_unit "string option"
  | DtBinary
  | DtLargeBinary
  | DtFixedSizeBinary int
  | DtDecimal128 "8 word" "8 word"
  | DtDecimal256 "8 word" "8 word"
  | DtList data_type
  | DtLargeList data_type
  | DtFixedSizeList data_type int
  | DtListView data_type
  | DtLargeListView data_type
  | DtMap data_type data_type bool
  | DtStruct "(string \<times> data_type) list"
  | DtOther string

text \<open>One cell of an array of the corresponding type; a null cell is \<open>None\<close>.\<close>

datatype arrow_value =
    AvBoolean bool
  | AvInt8 "8 word"
  | AvInt16 "16 word"
  | AvInt32 "32 word"
  | AvInt64 "64 word"
  | AvUInt8 "8 word"
  | AvUInt16 "16 word"
  | AvUInt32 "32 word"
  | AvUInt64 "64 word"
  | AvFloat32 "32 word"
  | AvFloat64 "64 word"
  | AvUtf8 string
  | AvBinary bytes
  | AvDate32 "32 word"
  | AvDate64 "64 word"
  | AvTimestamp "64 word"
  | AvDecimal int
  | AvList data_type "arrow_value option list"
  | AvMap data_type data_type "(arrow_value option \<times> arrow_value option) list"
  | AvStruct "(string \<times> data_type \<times> arrow_value option) list"
  | AvOther string

record arrow_array =
  arr_type :: data_type
  arr_cells :: "arrow_value option list"

record arrow_field =
  fld_name :: string
  fld_type :: data_type
  fld_nullable :: bool

record record_batch =
  rb_schema :: "arrow_field list"
  rb_columns :: "arrow_array list"
  rb_num_rows :: nat

definition array_slice :: "arrow_array \<Rightarrow> nat \<Rightarrow> nat \<Rightarrow> arrow_array" where
  "array_slice a offset len = a\<lparr>arr_cells := take len (drop offset (arr_cells a))\<rparr>"

definition batch_slice :: "record_batch \<Rightarrow> nat \<Rightarrow> nat \<Rightarrow> record_batch" where
  "batch_slice b offset len =
     b\<lparr>rb_columns := map (\<lambda>a. array_slice a offset len) (rb_columns b),
       rb_num_rows := min len (rb_num_rows b - offset)\<rparr>"

text \<open>Every column of a batch has the batch's number of rows.\<close>

definition wf_batch :: "record_batch \<Rightarrow> bool" where
  "wf_batch b \<longleftrightarrow> list_all (\<lambda>a. length (arr_cells a) = rb_num_rows b) (rb_columns b)"

text \<open>The logical rows of a batch and of a sequence of batches.\<close>

definition batch_rows :: "record_batch \<Rightarrow> arrow_value option list list" where
  "batch_rows b = map (\<lambda>i. map (\<lambda>a. arr_cells a ! i) (rb_columns b)) [0..<rb_num_rows b]"

definition rows_of :: "record_batch list \<Rightarrow> arrow_value option list list" where
  "rows_of bs = concat (map batch_rows bs)"

section \<open>Results and pages\<close>

record column =
  col_name :: string
  col_data_type :: string
  col_nullable :: bool

record inline_result_store =
  irs_batches :: "record_batch list"
  irs_row_count :: nat
  irs_retained_bytes :: nat

record query_result =
  qr_columns :: "column list"
  qr_row_count :: nat
  qr_data_types :: "data_type list"
  qr_store :: inline_result_store

record query_result_page =
  pg_batches :: "record_batch list"
  pg_start_row_offset :: i64
  pg_row_count :: nat
  pg_has_more_rows :: bool

text \<open>\<open>mem\<close> is \<open>RecordBatch::get_array_memory_size\<close>, a function of the Arrow crate.\<close>

definition inline_result_store_new :: "(record_batch \<Rightarrow> nat) \<Rightarrow> record_batch list \<Rightarrow> inline_result_store" where
  "inline_result_store_new mem batches =
     \<lparr>irs_batches = batches,
      irs_row_count = sum_list (map rb_num_rows batches),
      irs_retained_bytes = sum_list (map mem batches)\<rparr>"

fun page_loop :: "record_batch list \<Rightarrow> nat \<Rightarrow> nat \<Rightarrow> record_batch list" where
  "page_loop [] remaining_skip remaining_take = []"
| "page_loop (batch # batches) remaining_skip remaining_take =
     (if remaining_take = 0 then []
      else let batch_rows = rb_num_rows batch in
        if batch_rows \<le> remaining_skip
        then page_loop batches (remaining_skip - batch_rows) remaining_take
        else let local_start = remaining_skip;
                 local_take = min (batch_rows - local_start) remaining_take in
          batch_slice batch local_start local_take #
            page_loop batches 0 (remaining_take - local_take))"

definition store_page :: "inline_result_store \<Rightarrow> i64 \<Rightarrow> nat \<Rightarrow> query_result_page" where
  "store_page store start_row_offset limit =
     (let start = min (nat (max (sint start_row_offset) 0)) (irs_row_count store);
          stop = min (min (start + limit) usize_max) (irs_row_count store)
      in \<lparr>pg_batches = page_loop (irs_batches store) start (stop - start),
          pg_start_row_offset = of_nat start,
          pg_row_count = stop - start,
          pg_has_more_rows = (stop < irs_row_count store)\<rparr>)"

definition from_batches_with_data_types ::
  "(record_batch \<Rightarrow> nat) \<Rightarrow> column list \<Rightarrow> data_type list \<Rightarrow> record_batch list \<Rightarrow> query_result" where
  "from_batches_with_data_types mem columns data_types batches =
     (let store = inline_result_store_new mem batches in
      \<lparr>qr_columns = columns, qr_row_count = irs_row_count store,
       qr_data_types = data_types, qr_store = store\<rparr>)"

definition parse_column_data_type :: "string \<Rightarrow> data_type option" where
  "parse_column_data_type value =
     (let v = to_ascii_lowercase value in
      if v = ''boolean'' \<or> v = ''bool'' then Some DtBoolean
      else if v = ''int8'' then Some DtInt8
      else if v = ''int16'' then Some DtInt16
      else if v = ''int32'' then Some DtInt32
      else if v = ''int64'' then Some DtInt64
      else if v = ''uint8'' then Some DtUInt8
      else if v = ''uint16'' then Some DtUInt16
      else if v = ''uint32'' then Some DtUInt32
      else if v = ''uint64'' then Some DtUInt64
      else if v = ''float32'' then Some DtFloat32
      else if v = ''float64'' then Some DtFloat64
      else if v = ''utf8'' then Some DtUtf8
      else if v = ''largeutf8'' \<or> v = ''large_utf8'' then Some DtLargeUtf8
      else if v = ''date32'' \<or> v = ''date32[day]'' then Some DtDate32
      else if v = ''date64'' \<or> v = ''date64[ms]'' \<or> v = ''date64[millisecond]'' then Some DtDate64
      else None)"

definition infer_result_data_types :: "column list \<Rightarrow> record_batch list \<Rightarrow> data_type list" where
  "infer_result_data_types columns batches =
     (case batches of
        batch # _ \<Rightarrow> map fld_type (rb_schema batch)
      | [] \<Rightarrow> map (\<lambda>c. case parse_column_data_type (col_data_type c) of Some t \<Rightarrow> t | None \<Rightarrow> DtNull) columns)"

definition from_batches :: "(record_batch \<Rightarrow> nat) \<Rightarrow> column list \<Rightarrow> record_batch list \<Rightarrow> query_result" where
  "from_batches mem columns batches =
     from_batches_with_data_types mem columns (infer_result_data_types columns batches) batches"

definition empty_result :: "(record_batch \<Rightarrow> nat) \<Rightarrow> query_result" where
  "empty_result mem = from_batches mem [] []"

definition result_page :: "query_result \<Rightarrow> i64 \<Rightarrow> nat \<Rightarrow> query_result_page" where
  "result_page r start_row_offset limit = store_page (qr_store r) start_row_offset limit"

section \<open>Materialising a stream\<close>

record result_limits =
  lim_max_rows :: "nat option"
  lim_max_bytes :: "nat option"

text \<open>
  The stream is the list of items it yields, an error of DataFusion being its text. The
  collected rows and bytes are the loop's running totals.
\<close>

fun materialize_loop ::
  "(record_batch \<Rightarrow> nat) \<Rightarrow> result_limits \<Rightarrow> (string + record_batch) list \<Rightarrow> nat \<Rightarrow> nat \<Rightarrow>
   record_batch list \<Rightarrow> record_batch list res" where
  "materialize_loop mem limits [] row_count result_bytes batches = Inr batches"
| "materialize_loop mem limits (Inl err # stream) row_count result_bytes batches = Inl (DataFusion err)"
| "materialize_loop mem limits (Inr batch # stream) row_count result_bytes batches =
     (let row_count = row_count + rb_num_rows batch in
      case (case lim_max_rows limits of Some m \<Rightarrow> if m < row_count then Some m else None | None \<Rightarrow> None) of
        Some max_rows \<Rightarrow>
          Inl (Query (''query returned more than HARBORSQL_MAX_RESULT_ROWS='' @ show_nat max_rows))
      | None \<Rightarrow>
        let result_bytes = min (result_bytes + mem batch) usize_max in
        (case (case lim_max_bytes limits of Some m \<Rightarrow> if m < result_bytes then Some m else None | None \<Rightarrow> None) of
           Some max_bytes \<Rightarrow>
             Inl (Query (''query result Arrow pages exceeded HARBORSQL_MAX_RESULT_BYTES='' @ show_nat max_bytes))
         | None \<Rightarrow> materialize_loop mem limits stream row_count result_bytes (batches @ [batch])))"

definition materialize_stream ::
  "(record_batch \<Rightarrow> nat) \<Rightarrow> (data_type \<Rightarrow> string) \<Rightarrow> arrow_field list \<Rightarrow> (string + record_batch) list \<Rightarrow>
   result_limits \<Rightarrow> query_result res" where
  "materialize_stream mem display_type schema_fields stream limits =
     (case materialize_loop mem limits stream 0 0 [] of
        Inl e \<Rightarrow> Inl e
      | Inr batches \<Rightarrow>
          Inr (from_batches_with_data_types mem
            (map (\<lambda>f. \<lparr>col_name = fld_name f, col_data_type = display_type (fld_type f),
                       col_nullable = fld_nullable f\<rparr>) schema_fields)
            (map fld_type schema_fields) batches))"

section \<open>A page is a window of the rows\<close>

lemma length_batch_rows [simp]: "length (batch_rows b) = rb_num_rows b"
  by (simp add: batch_rows_def)

lemma length_rows_of: "length (rows_of bs) = sum_list (map rb_num_rows bs)"
  by (simp add: rows_of_def length_concat comp_def)

lemma rows_of_Nil [simp]: "rows_of [] = []"
  and rows_of_Cons [simp]: "rows_of (b # bs) = batch_rows b @ rows_of bs"
  by (simp_all add: rows_of_def)

lemma batch_rows_slice:
  assumes "wf_batch b" "offset + len \<le> rb_num_rows b"
  shows "batch_rows (batch_slice b offset len) = take len (drop offset (batch_rows b))"
proof (rule nth_equalityI)
  show "length (batch_rows (batch_slice b offset len)) = length (take len (drop offset (batch_rows b)))"
    using assms(2) by (simp add: batch_slice_def)
next
  fix i assume "i < length (batch_rows (batch_slice b offset len))"
  then have i: "i < len" "offset + i < rb_num_rows b"
    using assms(2) by (auto simp: batch_slice_def)
  have "arr_cells (array_slice a offset len) ! i = arr_cells a ! (offset + i)"
    if "a \<in> set (rb_columns b)" for a
    using that i assms by (auto simp: array_slice_def wf_batch_def list_all_iff)
  then show "batch_rows (batch_slice b offset len) ! i = take len (drop offset (batch_rows b)) ! i"
    using i assms(2) by (simp add: batch_rows_def batch_slice_def)
qed

lemma wf_batch_slice: "wf_batch b \<Longrightarrow> wf_batch (batch_slice b offset len)"
  by (auto simp: wf_batch_def batch_slice_def array_slice_def list_all_iff)

lemma page_loop_rows:
  "list_all wf_batch bs \<Longrightarrow> rows_of (page_loop bs s n) = take n (drop s (rows_of bs))"
proof (induction bs s n rule: page_loop.induct)
  case (1 s n)
  then show ?case by simp
next
  case (2 b bs s n)
  show ?case
  proof (cases "n = 0 \<or> rb_num_rows b \<le> s")
    case True
    with 2 show ?thesis by (auto simp: Let_def)
  next
    case False
    let ?t = "min (rb_num_rows b - s) n"
    have "s + ?t \<le> rb_num_rows b" using False by auto
    with 2 have slice: "batch_rows (batch_slice b s ?t) = take ?t (drop s (batch_rows b))"
      by (intro batch_rows_slice) auto
    have "rows_of (page_loop (b # bs) s n)
        = batch_rows (batch_slice b s ?t) @ rows_of (page_loop bs 0 (n - ?t))"
      using False by (simp add: Let_def)
    also have "\<dots> = take ?t (drop s (batch_rows b)) @ take (n - ?t) (rows_of bs)"
      using 2 False slice by (simp add: Let_def)
    also have "\<dots> = take n (drop s (rows_of (b # bs)))"
      using False by (auto simp: min_def)
    finally show ?thesis .
  qed
qed

lemma page_loop_wf: "list_all wf_batch bs \<Longrightarrow> list_all wf_batch (page_loop bs s n)"
  by (induction bs s n rule: page_loop.induct) (auto simp: Let_def wf_batch_slice)

text \<open>No batch of a page is empty, and the columns of a page are those of the result.\<close>

lemma page_loop_columns:
  "list_all (\<lambda>b. map arr_type (rb_columns b) = ts) bs \<Longrightarrow>
   list_all (\<lambda>b. map arr_type (rb_columns b) = ts) (page_loop bs s n)"
  by (induction bs s n rule: page_loop.induct)
     (auto simp: Let_def batch_slice_def array_slice_def comp_def)

definition wf_store :: "inline_result_store \<Rightarrow> bool" where
  "wf_store s \<longleftrightarrow>
     irs_row_count s = sum_list (map rb_num_rows (irs_batches s)) \<and>
     list_all wf_batch (irs_batches s) \<and> irs_row_count s < 2 ^ 63"

definition store_rows :: "inline_result_store \<Rightarrow> arrow_value option list list" where
  "store_rows s = rows_of (irs_batches s)"

lemma wf_store_new:
  "list_all wf_batch bs \<Longrightarrow> sum_list (map rb_num_rows bs) < 2 ^ 63 \<Longrightarrow>
   wf_store (inline_result_store_new mem bs)"
  by (simp add: wf_store_def inline_result_store_new_def)

lemma length_store_rows: "wf_store s \<Longrightarrow> length (store_rows s) = irs_row_count s"
  by (simp add: wf_store_def store_rows_def length_rows_of)

lemma sint_of_nat_i64: "n < 2 ^ 63 \<Longrightarrow> sint (of_nat n :: i64) = int n"
  by (simp add: signed_of_nat signed_take_bit_int_eq_self)

section \<open>The contract of a result store\<close>

text \<open>
  \<open>rows\<close> is the content of a store; a page starting at \<open>off\<close> is described by its
  first row's index, its rows and whether more follow.
\<close>

locale result_store =
  fixes ok :: "'s \<Rightarrow> bool"
    and rows :: "'s \<Rightarrow> 'row list"
    and page :: "'s \<Rightarrow> nat \<Rightarrow> nat \<Rightarrow> nat \<times> 'row list \<times> bool"
  assumes page_window:
    "ok s \<Longrightarrow> off \<le> length (rows s) \<Longrightarrow>
     page s off limit =
       (off, take limit (drop off (rows s)), off + limit < length (rows s))"
begin

text \<open>
  A reader that asks for pages of \<open>limit\<close> rows, each time continuing after the rows it
  has received, and stops when no more rows are announced.
\<close>

fun read_all :: "nat \<Rightarrow> 's \<Rightarrow> nat \<Rightarrow> nat \<Rightarrow> 'row list option" where
  "read_all 0 s off limit = None"
| "read_all (Suc fuel) s off limit =
     (let (start, got, more) = page s off limit in
      if more then map_option (\<lambda>rest. got @ rest) (read_all fuel s (start + length got) limit)
      else Some got)"

lemma read_all_rows:
  assumes "ok s" "0 < limit" "off \<le> length (rows s)" "length (rows s) - off < fuel"
  shows "read_all fuel s off limit = Some (drop off (rows s))"
  using assms(3,4)
proof (induction fuel arbitrary: off)
  case 0
  then show ?case by simp
next
  case (Suc fuel)
  show ?case
  proof (cases "off + limit < length (rows s)")
    case True
    then have "length (take limit (drop off (rows s))) = limit" by simp
    moreover have "read_all fuel s (off + limit) limit = Some (drop (off + limit) (rows s))"
      by (rule Suc.IH) (use True Suc.prems assms(2) in auto)
    moreover have "take limit (drop off (rows s)) @ drop (off + limit) (rows s) = drop off (rows s)"
      by (metis add.commute append_take_drop_id drop_drop)
    ultimately show ?thesis using True page_window [OF assms(1) Suc.prems(1)] by simp
  next
    case False
    then show ?thesis using page_window [OF assms(1) Suc.prems(1)] by simp
  qed
qed

end

definition store_window :: "inline_result_store \<Rightarrow> nat \<Rightarrow> nat \<Rightarrow> nat \<times> arrow_value option list list \<times> bool" where
  "store_window s off limit =
     (let p = store_page s (of_nat off) limit in
      (nat (sint (pg_start_row_offset p)), rows_of (pg_batches p), pg_has_more_rows p))"

lemma page_stop:
  "start \<le> n \<Longrightarrow> n \<le> u \<Longrightarrow> min (min (start + limit) u) n - start = min limit (n - start)" for n :: nat
  by (auto simp: min_def)

lemma page_more:
  "start \<le> n \<Longrightarrow> n \<le> u \<Longrightarrow> min (min (start + limit) u) n < n \<longleftrightarrow> start + limit < n" for n :: nat
  by (auto simp: min_def)

lemma take_min_length: "take (min k (length xs)) xs = take k xs"
  by (auto simp: min_def)

text \<open>What a page is, at any offset: negative offsets mean the start, later ones the end.\<close>

lemma store_page_window:
  fixes s :: inline_result_store and off :: i64
  assumes "wf_store s"
  defines "start \<equiv> min (nat (max (sint off) 0)) (length (store_rows s))"
  shows "rows_of (pg_batches (store_page s off limit)) = take limit (drop start (store_rows s))"
    and "pg_row_count (store_page s off limit) = length (take limit (drop start (store_rows s)))"
    and "sint (pg_start_row_offset (store_page s off limit)) = int start"
    and "pg_has_more_rows (store_page s off limit) \<longleftrightarrow> start + limit < length (store_rows s)"
proof -
  have len: "length (store_rows s) = irs_row_count s" by (rule length_store_rows [OF assms(1)])
  have wf: "list_all wf_batch (irs_batches s)" and small: "irs_row_count s < 2 ^ 63"
    using assms(1) by (auto simp: wf_store_def)
  from small have max: "irs_row_count s \<le> usize_max" by (simp add: usize_max_def)
  have start: "start \<le> irs_row_count s" by (simp add: start_def len)
  let ?stop = "min (min (start + limit) usize_max) (irs_row_count s)"
  have page: "store_page s off limit =
      \<lparr>pg_batches = page_loop (irs_batches s) start (?stop - start), pg_start_row_offset = of_nat start,
       pg_row_count = ?stop - start, pg_has_more_rows = (?stop < irs_row_count s)\<rparr>"
    by (simp add: store_page_def Let_def start_def len)
  note stop = page_stop [OF start max, of limit]
  show "rows_of (pg_batches (store_page s off limit)) = take limit (drop start (store_rows s))"
    unfolding page stop using wf len take_min_length [of limit "drop start (store_rows s)"]
    by (simp add: page_loop_rows flip: store_rows_def)
  show "pg_row_count (store_page s off limit) = length (take limit (drop start (store_rows s)))"
    unfolding page stop using len by simp
  show "sint (pg_start_row_offset (store_page s off limit)) = int start"
    unfolding page using start small by (simp add: sint_of_nat_i64)
  show "pg_has_more_rows (store_page s off limit) \<longleftrightarrow> start + limit < length (store_rows s)"
    unfolding page using page_more [OF start max] len by simp
qed

interpretation inline_store: result_store wf_store store_rows store_window
proof
  fix s :: inline_result_store and off limit
  assume ok: "wf_store s" and off: "off \<le> length (store_rows s)"
  have "length (store_rows s) < 2 ^ 63"
    using ok length_store_rows [OF ok] by (simp add: wf_store_def)
  with off have "sint (of_nat off :: i64) = int off" by (simp add: sint_of_nat_i64)
  then show "store_window s off limit =
      (off, take limit (drop off (store_rows s)), off + limit < length (store_rows s))"
    using off store_page_window [OF ok, of "of_nat off" limit]
    by (simp add: store_window_def Let_def)
qed

section \<open>Limits on a materialised result\<close>

fun stream_batches :: "(string + record_batch) list \<Rightarrow> record_batch list option" where
  "stream_batches [] = Some []"
| "stream_batches (Inl _ # _) = None"
| "stream_batches (Inr b # s) = map_option (Cons b) (stream_batches s)"

definition within :: "nat \<Rightarrow> nat option \<Rightarrow> bool" where
  "within n limit \<longleftrightarrow> (case limit of None \<Rightarrow> True | Some m \<Rightarrow> n \<le> m)"

lemma within_mono: "within n m \<Longrightarrow> k \<le> n \<Longrightarrow> within k m"
  by (auto simp: within_def split: option.splits)

lemma min_add_saturated: "min (min a u + c) u = min (a + c) (u :: nat)"
  by (auto simp: min_def)

lemma materialize_loop_Cons:
  "materialize_loop mem limits (Inr b # stream) rows bytes acc =
     (if \<not> within (rows + rb_num_rows b) (lim_max_rows limits)
      then Inl (Query (''query returned more than HARBORSQL_MAX_RESULT_ROWS='' @ show_nat (the (lim_max_rows limits))))
      else if \<not> within (min (bytes + mem b) usize_max) (lim_max_bytes limits)
      then Inl (Query (''query result Arrow pages exceeded HARBORSQL_MAX_RESULT_BYTES='' @
                       show_nat (the (lim_max_bytes limits))))
      else materialize_loop mem limits stream (rows + rb_num_rows b) (min (bytes + mem b) usize_max) (acc @ [b]))"
  by (auto simp: within_def Let_def split: option.splits)

text \<open>The loop succeeds exactly on error-free streams whose totals are within the limits.\<close>

lemma materialize_loop_iff:
  assumes "within rows (lim_max_rows limits)" "within bytes (lim_max_bytes limits)" "bytes \<le> usize_max"
  shows "materialize_loop mem limits stream rows bytes acc = Inr out \<longleftrightarrow>
     (\<exists>bs. stream_batches stream = Some bs \<and> out = acc @ bs \<and>
       within (rows + sum_list (map rb_num_rows bs)) (lim_max_rows limits) \<and>
       within (min (bytes + sum_list (map mem bs)) usize_max) (lim_max_bytes limits))"
  using assms
proof (induction stream arbitrary: rows bytes acc)
  case Nil
  then show ?case by auto
next
  case (Cons item stream)
  show ?case
  proof (cases item)
    case (Inl e)
    then show ?thesis by simp
  next
    case (Inr b)
    let ?rows = "rows + rb_num_rows b" and ?bytes = "min (bytes + mem b) usize_max"
    show ?thesis
    proof (cases "within ?rows (lim_max_rows limits) \<and> within ?bytes (lim_max_bytes limits)")
      case True
      then have "materialize_loop mem limits (item # stream) rows bytes acc = Inr out \<longleftrightarrow>
          materialize_loop mem limits stream ?rows ?bytes (acc @ [b]) = Inr out"
        by (simp add: Inr materialize_loop_Cons del: materialize_loop.simps)
      also have "\<dots> \<longleftrightarrow> (\<exists>bs. stream_batches stream = Some bs \<and> out = (acc @ [b]) @ bs \<and>
          within (?rows + sum_list (map rb_num_rows bs)) (lim_max_rows limits) \<and>
          within (min (?bytes + sum_list (map mem bs)) usize_max) (lim_max_bytes limits))"
        by (rule Cons.IH) (use True in auto)
      finally show ?thesis unfolding min_add_saturated
        using Inr by (auto simp: add.assoc simp del: materialize_loop.simps)
    next
      case False
      then have "materialize_loop mem limits (item # stream) rows bytes acc \<noteq> Inr out"
        by (simp add: Inr materialize_loop_Cons del: materialize_loop.simps)
      moreover have "\<not> (within (rows + sum_list (map rb_num_rows (b # bs))) (lim_max_rows limits) \<and>
          within (min (bytes + sum_list (map mem (b # bs))) usize_max) (lim_max_bytes limits))" for bs
        using False by (auto dest: within_mono [of _ _ ?rows] within_mono [of _ _ ?bytes])
      ultimately show ?thesis using Inr by (auto simp del: materialize_loop.simps)
    qed
  qed
qed

end
