(* ===== verification/Udfs.thy ===== *)
theory Udfs
  imports Query_Results
begin

text \<open>
  The SQL functions HarborSQL registers with DataFusion (\<open>src/src/udf.rs\<close>):
  \<open>raise_error\<close>, \<open>length\<close>, the minute of a timestamp and the replacement of a
  regular expression's first match by one of its capture groups.

  A column is an Arrow array by its logical content, or a dictionary: keys into another column.
  The kernels \<open>length\<close>, \<open>date_part\<close> and \<open>take\<close> of the Arrow crate and regular
  expressions are parameters (\<open>udf_fns\<close>), \<open>take\<close> apart, whose meaning on cells is its
  documentation. Strings are byte strings in UTF-8; their characters are the bytes that do not
  continue another one.
\<close>

section \<open>Columns and scalars\<close>

datatype udf_array = Plain arrow_array | Dictionary "nat option list" udf_array

datatype udf_type = PlainType data_type | DictionaryType string udf_type

datatype scalar_value =
    SvNull
  | SvInt32 "32 word option"
  | SvInt64 "64 word option"
  | SvUtf8 "string option"
  | SvLargeUtf8 "string option"
  | SvUtf8View "string option"
  | SvBinary "bytes option"
  | SvLargeBinary "bytes option"
  | SvBinaryView "bytes option"
  | SvFixedSizeBinary int "bytes option"
  | SvOther string

datatype columnar_value = ScalarColumn scalar_value | ArrayColumn udf_array

datatype udf_error = Plan string | Execution string | ExternalFailure string | ArrowFailure string

type_synonym 'a udf = "udf_error + 'a"

text \<open>\<open>Match\<close>: the bytes where the first match starts and ends, and its capture groups.\<close>

record regex_match =
  rm_start :: nat
  rm_end :: nat
  rm_groups :: "string option list"

record 're udf_fns =
  ud_length :: "arrow_array \<Rightarrow> udf_error + arrow_array"
  ud_date_part_minute :: "udf_array \<Rightarrow> udf_error + udf_array"
  ud_scalar_to_array :: "scalar_value \<Rightarrow> udf_error + udf_array"
  ud_scalar_from_array :: "udf_array \<Rightarrow> udf_error + scalar_value"
  ud_regex_new :: "string \<Rightarrow> string + 're"
  ud_captures :: "'re \<Rightarrow> string \<Rightarrow> regex_match option"
  ud_show_type :: "data_type \<Rightarrow> string"
  ud_debug_scalar :: "scalar_value \<Rightarrow> string"
  ud_debug_column :: "columnar_value \<Rightarrow> string"
  ud_debug_type :: "udf_array \<Rightarrow> string"

fun type_of_array :: "udf_array \<Rightarrow> data_type" where
  "type_of_array (Plain a) = arr_type a"
| "type_of_array (Dictionary _ values) = type_of_array values"

section \<open>\<open>raise_error\<close>\<close>

definition raise_error_invoke :: "nat \<Rightarrow> columnar_value udf" where
  "raise_error_invoke number_rows =
     (if number_rows = 0 then Inr (ArrayColumn (Plain \<lparr>arr_type = DtUtf8, arr_cells = []\<rparr>))
      else Inl (Execution ''[USER_RAISED_EXCEPTION] raise_error invoked''))"

section \<open>\<open>length\<close>\<close>

definition LENGTH_UDF :: string where
  "LENGTH_UDF = ''length''"

fun length_return_type :: "'re udf_fns \<Rightarrow> udf_type \<Rightarrow> data_type udf" where
  "length_return_type uf (DictionaryType _ value_type) = length_return_type uf value_type"
| "length_return_type uf (PlainType t) =
     (case t of
        DtUtf8 \<Rightarrow> Inr DtInt32
      | DtUtf8View \<Rightarrow> Inr DtInt32
      | DtBinary \<Rightarrow> Inr DtInt32
      | DtFixedSizeBinary _ \<Rightarrow> Inr DtInt32
      | DtNull \<Rightarrow> Inr DtInt32
      | DtLargeUtf8 \<Rightarrow> Inr DtInt64
      | DtLargeBinary \<Rightarrow> Inr DtInt64
      | other \<Rightarrow>
          if other = DtOther ''BinaryView'' then Inr DtInt32
          else Inl (Plan (LENGTH_UDF @ '' expects a string or binary argument, got '' @ ud_show_type uf other)))"

definition char_count :: "string \<Rightarrow> nat" where
  "char_count s = length (utf8_chars s)"

text \<open>\<open>i32::try_from\<close> and \<open>i64::try_from\<close> of a length, on an optional value.\<close>

definition checked_i32 :: "nat option \<Rightarrow> 32 word option udf" where
  "checked_i32 n =
     (case n of
        None \<Rightarrow> Inr None
      | Some k \<Rightarrow> if k < 2 ^ 31 then Inr (Some (of_nat k)) else Inl (Execution (LENGTH_UDF @ '' result exceeded Int32'')))"

definition checked_i64 :: "nat option \<Rightarrow> 64 word option udf" where
  "checked_i64 n =
     (case n of
        None \<Rightarrow> Inr None
      | Some k \<Rightarrow> if k < 2 ^ 63 then Inr (Some (of_nat k)) else Inl (Execution (LENGTH_UDF @ '' result exceeded Int64'')))"

definition optional_char_count_i32 :: "string option \<Rightarrow> 32 word option udf" where
  "optional_char_count_i32 s = checked_i32 (map_option char_count s)"

definition optional_byte_len_i32 :: "bytes option \<Rightarrow> 32 word option udf" where
  "optional_byte_len_i32 b = checked_i32 (map_option length b)"

definition optional_char_count_i64 :: "string option \<Rightarrow> 64 word option udf" where
  "optional_char_count_i64 s = checked_i64 (map_option char_count s)"

definition optional_byte_len_i64 :: "bytes option \<Rightarrow> 64 word option udf" where
  "optional_byte_len_i64 b = checked_i64 (map_option length b)"

definition length_scalar :: "'re udf_fns \<Rightarrow> scalar_value \<Rightarrow> scalar_value udf" where
  "length_scalar uf scalar =
     (case scalar of
        SvUtf8 v \<Rightarrow> map_sum id SvInt32 (optional_char_count_i32 v)
      | SvUtf8View v \<Rightarrow> map_sum id SvInt32 (optional_char_count_i32 v)
      | SvLargeUtf8 v \<Rightarrow> map_sum id SvInt64 (optional_char_count_i64 v)
      | SvBinary v \<Rightarrow> map_sum id SvInt32 (optional_byte_len_i32 v)
      | SvBinaryView v \<Rightarrow> map_sum id SvInt32 (optional_byte_len_i32 v)
      | SvFixedSizeBinary _ v \<Rightarrow> map_sum id SvInt32 (optional_byte_len_i32 v)
      | SvLargeBinary v \<Rightarrow> map_sum id SvInt64 (optional_byte_len_i64 v)
      | SvNull \<Rightarrow> Inr (SvInt32 None)
      | other \<Rightarrow> Inl (Execution (LENGTH_UDF @ '' expects a string or binary argument, got '' @ ud_debug_scalar uf other)))"

text \<open>The first error of a list of results, or all the values; \<open>collect\<close> on an iterator of results.\<close>

fun collect_udf :: "'a udf list \<Rightarrow> 'a list udf" where
  "collect_udf [] = Inr []"
| "collect_udf (Inl e # _) = Inl e"
| "collect_udf (Inr x # xs) = (case collect_udf xs of Inl e \<Rightarrow> Inl e | Inr ys \<Rightarrow> Inr (x # ys))"

text \<open>The strings of a string array.\<close>

fun cell_string :: "arrow_value option \<Rightarrow> string option" where
  "cell_string (Some (AvUtf8 s)) = Some s"
| "cell_string _ = None"

definition string_length_array_i32 :: "string option list \<Rightarrow> arrow_array udf" where
  "string_length_array_i32 values =
     (case collect_udf (map optional_char_count_i32 values) of
        Inl e \<Rightarrow> Inl e
      | Inr ns \<Rightarrow> Inr \<lparr>arr_type = DtInt32, arr_cells = map (map_option AvInt32) ns\<rparr>)"

text \<open>
  \<open>take\<close>: the cells at the keys; a null key, or a null cell, gives a null. The keys of a
  dictionary lie inside its values (\<open>wf_udf_array\<close>).
\<close>

definition take_cells :: "arrow_array \<Rightarrow> nat option list \<Rightarrow> arrow_array" where
  "take_cells a keys = a\<lparr>arr_cells := map (\<lambda>k. case k of Some i \<Rightarrow> arr_cells a ! i | None \<Rightarrow> None) keys\<rparr>"

fun length_array :: "'re udf_fns \<Rightarrow> udf_array \<Rightarrow> arrow_array udf" where
  "length_array uf (Dictionary keys values) =
     (case length_array uf values of Inl e \<Rightarrow> Inl e | Inr lengths \<Rightarrow> Inr (take_cells lengths keys))"
| "length_array uf (Plain a) =
     (case arr_type a of
        DtUtf8 \<Rightarrow> string_length_array_i32 (map cell_string (arr_cells a))
      | DtLargeUtf8 \<Rightarrow>
          (case collect_udf (map (\<lambda>c. optional_char_count_i64 (cell_string c)) (arr_cells a)) of
             Inl e \<Rightarrow> Inl e
           | Inr ns \<Rightarrow> Inr \<lparr>arr_type = DtInt64, arr_cells = map (map_option AvInt64) ns\<rparr>)
      | DtUtf8View \<Rightarrow> string_length_array_i32 (map cell_string (arr_cells a))
      | DtBinary \<Rightarrow> ud_length uf a
      | DtLargeBinary \<Rightarrow> ud_length uf a
      | DtFixedSizeBinary _ \<Rightarrow> ud_length uf a
      | DtNull \<Rightarrow> Inr \<lparr>arr_type = DtInt32, arr_cells = replicate (length (arr_cells a)) None\<rparr>
      | other \<Rightarrow>
          if other = DtOther ''BinaryView'' then ud_length uf a
          else Inl (Execution (LENGTH_UDF @ '' expects a string or binary array, got '' @ ud_show_type uf other)))"

definition length_invoke :: "'re udf_fns \<Rightarrow> columnar_value list \<Rightarrow> columnar_value udf" where
  "length_invoke uf args =
     (case args of
        [ScalarColumn scalar] \<Rightarrow> map_sum id ScalarColumn (length_scalar uf scalar)
      | [ArrayColumn a] \<Rightarrow> map_sum id (\<lambda>b. ArrayColumn (Plain b)) (length_array uf a)
      | _ \<Rightarrow> Inl (Execution (LENGTH_UDF @ '' expects one argument'')))"

definition length_type :: "'re udf_fns \<Rightarrow> udf_type list \<Rightarrow> data_type udf" where
  "length_type uf arg_types =
     (case arg_types of
        [t] \<Rightarrow> length_return_type uf t
      | _ \<Rightarrow> Inl (Plan (LENGTH_UDF @ '' expects one argument'')))"

section \<open>The minute of a timestamp\<close>

definition EXTRACT_MINUTE_UDF :: string where
  "EXTRACT_MINUTE_UDF = ''harborsql_extract_minute''"

definition is_utc_timezone :: "string option \<Rightarrow> bool" where
  "is_utc_timezone timezone = (case timezone of None \<Rightarrow> True | Some tz \<Rightarrow> eq_ignore_ascii_case tz ''UTC'')"

text \<open>
  \<open>div_euclid\<close> and \<open>rem_euclid\<close> by a positive number are \<open>div\<close> and \<open>mod\<close> on the
  integers and never leave the range of \<open>i64\<close>.
\<close>

definition minute_of :: "int \<Rightarrow> 64 word \<Rightarrow> 32 word" where
  "minute_of units_per_second value =
     (let second = sint value div units_per_second in of_int (second mod (60 * 60) div 60))"

fun cell_timestamp :: "arrow_value option \<Rightarrow> 64 word option" where
  "cell_timestamp (Some (AvTimestamp t)) = Some t"
| "cell_timestamp _ = None"

definition extract_timestamp_minute :: "arrow_array \<Rightarrow> int \<Rightarrow> arrow_array udf" where
  "extract_timestamp_minute a units_per_second =
     Inr \<lparr>arr_type = DtInt32,
          arr_cells = map (\<lambda>c. map_option (\<lambda>t. AvInt32 (minute_of units_per_second t)) (cell_timestamp c)) (arr_cells a)\<rparr>"

definition units_per_second :: "time_unit \<Rightarrow> int" where
  "units_per_second unit =
     (case unit of TuSecond \<Rightarrow> 1 | TuMillisecond \<Rightarrow> 1000 | TuMicrosecond \<Rightarrow> 1000000 | TuNanosecond \<Rightarrow> 1000000000)"

definition extract_minute_array :: "'re udf_fns \<Rightarrow> udf_array \<Rightarrow> udf_array udf" where
  "extract_minute_array uf array =
     (case array of
        Plain a \<Rightarrow>
          (case arr_type a of
             DtTimestamp unit timezone \<Rightarrow>
               if is_utc_timezone timezone then map_sum id Plain (extract_timestamp_minute a (units_per_second unit))
               else ud_date_part_minute uf array
           | _ \<Rightarrow> ud_date_part_minute uf array)
      | _ \<Rightarrow> ud_date_part_minute uf array)"

definition extract_minute_invoke :: "'re udf_fns \<Rightarrow> columnar_value list \<Rightarrow> columnar_value udf" where
  "extract_minute_invoke uf args =
     (case args of
        [ScalarColumn scalar] \<Rightarrow>
          (case ud_scalar_to_array uf scalar of
             Inl e \<Rightarrow> Inl e
           | Inr input \<Rightarrow>
               (case extract_minute_array uf input of
                  Inl e \<Rightarrow> Inl e
                | Inr output \<Rightarrow> map_sum id ScalarColumn (ud_scalar_from_array uf output)))
      | [ArrayColumn a] \<Rightarrow> map_sum id ArrayColumn (extract_minute_array uf a)
      | _ \<Rightarrow> Inl (Execution (EXTRACT_MINUTE_UDF @ '' expects one argument'')))"

section \<open>Replacement by a capture group\<close>

definition REGEXP_REPLACE_CAPTURE_UDF :: string where
  "REGEXP_REPLACE_CAPTURE_UDF = ''harborsql_regexp_replace_capture''"

definition scalar_string_arg :: "'re udf_fns \<Rightarrow> columnar_value \<Rightarrow> string \<Rightarrow> string udf" where
  "scalar_string_arg uf arg name =
     (let null = Inl (Execution (REGEXP_REPLACE_CAPTURE_UDF @ '' '' @ name @ '' cannot be NULL''));
          other = Inl (Execution (REGEXP_REPLACE_CAPTURE_UDF @ '' expects scalar string '' @ name @ '', got '' @ ud_debug_column uf arg))
      in case arg of
           ScalarColumn (SvUtf8 v) \<Rightarrow> (case v of Some s \<Rightarrow> Inr s | None \<Rightarrow> null)
         | ScalarColumn (SvLargeUtf8 v) \<Rightarrow> (case v of Some s \<Rightarrow> Inr s | None \<Rightarrow> null)
         | ScalarColumn (SvUtf8View v) \<Rightarrow> (case v of Some s \<Rightarrow> Inr s | None \<Rightarrow> null)
         | _ \<Rightarrow> other)"

definition scalar_i64_arg :: "'re udf_fns \<Rightarrow> columnar_value \<Rightarrow> string \<Rightarrow> 64 word udf" where
  "scalar_i64_arg uf arg name =
     (case arg of
        ScalarColumn (SvInt64 (Some v)) \<Rightarrow> Inr v
      | ScalarColumn (SvInt64 None) \<Rightarrow> Inl (Execution (REGEXP_REPLACE_CAPTURE_UDF @ '' '' @ name @ '' cannot be NULL''))
      | _ \<Rightarrow> Inl (Execution (REGEXP_REPLACE_CAPTURE_UDF @ '' expects scalar Int64 '' @ name @ '', got '' @ ud_debug_column uf arg)))"

definition replace_capture :: "'re udf_fns \<Rightarrow> 're \<Rightarrow> nat \<Rightarrow> string \<Rightarrow> string" where
  "replace_capture uf regex capture_index value =
     (case ud_captures uf regex value of
        None \<Rightarrow> value
      | Some m \<Rightarrow>
          (let group = (\<lambda>i. if i < length (rm_groups m) then rm_groups m ! i else None)
           in case group 0 of
                None \<Rightarrow> value
              | Some _ \<Rightarrow>
                  take (rm_start m) value @ (case group capture_index of Some c \<Rightarrow> c | None \<Rightarrow> []) @ drop (rm_end m) value))"

definition replace_scalar :: "'re udf_fns \<Rightarrow> scalar_value \<Rightarrow> 're \<Rightarrow> nat \<Rightarrow> scalar_value udf" where
  "replace_scalar uf scalar regex capture_index =
     (case scalar of
        SvUtf8 v \<Rightarrow> Inr (SvUtf8 (map_option (replace_capture uf regex capture_index) v))
      | SvLargeUtf8 v \<Rightarrow> Inr (SvLargeUtf8 (map_option (replace_capture uf regex capture_index) v))
      | SvUtf8View v \<Rightarrow> Inr (SvUtf8View (map_option (replace_capture uf regex capture_index) v))
      | other \<Rightarrow> Inl (Execution (REGEXP_REPLACE_CAPTURE_UDF @ '' expects a string source, got '' @ ud_debug_scalar uf other)))"

definition replace_array :: "'re udf_fns \<Rightarrow> udf_array \<Rightarrow> 're \<Rightarrow> nat \<Rightarrow> udf_array udf" where
  "replace_array uf array regex capture_index =
     (let replaced = (\<lambda>a. Inr (Plain (a\<lparr>arr_cells :=
            map (\<lambda>c. map_option (\<lambda>s. AvUtf8 (replace_capture uf regex capture_index s)) (cell_string c)) (arr_cells a)\<rparr>)))
      in case array of
           Plain a \<Rightarrow>
             (case arr_type a of
                DtUtf8 \<Rightarrow> replaced a
              | DtLargeUtf8 \<Rightarrow> replaced a
              | DtUtf8View \<Rightarrow> replaced a
              | _ \<Rightarrow> Inl (Execution (REGEXP_REPLACE_CAPTURE_UDF @ '' expects a string array, got '' @ ud_debug_type uf array)))
         | _ \<Rightarrow> Inl (Execution (REGEXP_REPLACE_CAPTURE_UDF @ '' expects a string array, got '' @ ud_debug_type uf array)))"

definition regexp_replace_capture_invoke :: "'re udf_fns \<Rightarrow> columnar_value list \<Rightarrow> columnar_value udf" where
  "regexp_replace_capture_invoke uf args =
     (case args of
        [source, pattern_arg, index_arg] \<Rightarrow>
          (case scalar_string_arg uf pattern_arg ''pattern'' of
             Inl e \<Rightarrow> Inl e
           | Inr pattern \<Rightarrow>
               (case scalar_i64_arg uf index_arg ''capture_index'' of
                  Inl e \<Rightarrow> Inl e
                | Inr capture_index \<Rightarrow>
                    if sint capture_index < 0
                    then Inl (Execution (REGEXP_REPLACE_CAPTURE_UDF @ '' capture index must be non-negative''))
                    else (case ud_regex_new uf pattern of
                        Inl err \<Rightarrow> Inl (ExternalFailure err)
                      | Inr regex \<Rightarrow>
                          (case source of
                             ScalarColumn scalar \<Rightarrow> map_sum id ScalarColumn (replace_scalar uf scalar regex (unat capture_index))
                           | ArrayColumn a \<Rightarrow> map_sum id ArrayColumn (replace_array uf a regex (unat capture_index))))))
      | _ \<Rightarrow> Inl (Execution (REGEXP_REPLACE_CAPTURE_UDF @ '' expects three arguments'')))"

section \<open>What the functions compute\<close>

text \<open>The cells of a column with its dictionaries expanded, and its stored cells.\<close>

fun expand :: "udf_array \<Rightarrow> arrow_value option list" where
  "expand (Plain a) = arr_cells a"
| "expand (Dictionary keys values) = map (\<lambda>k. case k of Some i \<Rightarrow> expand values ! i | None \<Rightarrow> None) keys"

fun stored_cells :: "udf_array \<Rightarrow> arrow_value option list" where
  "stored_cells (Plain a) = arr_cells a"
| "stored_cells (Dictionary _ values) = stored_cells values"

fun wf_udf_array :: "udf_array \<Rightarrow> bool" where
  "wf_udf_array (Plain _) \<longleftrightarrow> True"
| "wf_udf_array (Dictionary keys values) \<longleftrightarrow>
     wf_udf_array values \<and> list_all (\<lambda>k. case k of Some i \<Rightarrow> i < length (expand values) | None \<Rightarrow> True) keys"

lemma collect_udf_map: "(\<And>x. x \<in> set xs \<Longrightarrow> f x = Inr (g x)) \<Longrightarrow> collect_udf (map f xs) = Inr (map g xs)"
  by (induction xs) auto

text \<open>For a text, the number of characters is the number of bytes that do not continue one.\<close>

lemma utf8_chars_Cons:
  "utf8_chars (c # cs) = (if cs \<noteq> [] \<and> is_continuation (hd cs) then (c # hd (utf8_chars cs)) # tl (utf8_chars cs) else [c] # utf8_chars cs)"
  "cs \<noteq> [] \<Longrightarrow> \<exists>x xs. utf8_chars cs = (hd cs # x) # xs"
  by (induction cs arbitrary: c) (auto split: list.splits if_splits)

lemma char_count_bytes:
  assumes "s = [] \<or> \<not> is_continuation (hd s)"
  shows "char_count s = length (filter (\<lambda>c. \<not> is_continuation c) s)"
proof -
  have "length (utf8_chars s) = (if s = [] then 0 else 1) + length (filter (\<lambda>c. \<not> is_continuation c) (tl s))"
  proof (induction s)
    case (Cons c cs)
    then show ?case
      using utf8_chars_Cons(2) [of cs] by (cases cs) (auto simp: utf8_chars_Cons(1) simp del: utf8_chars.simps(2))
  qed simp
  with assms show ?thesis by (cases s) (auto simp: char_count_def)
qed

lemma checked_i32_small: "k < 2 ^ 31 \<Longrightarrow> checked_i32 (Some k) = Inr (Some (of_nat k))"
  by (simp add: checked_i32_def)

definition length_cell :: "arrow_value option \<Rightarrow> arrow_value option" where
  "length_cell c = map_option (\<lambda>s. AvInt32 (of_nat (char_count s))) (cell_string c)"

lemma length_array_plain:
  assumes "list_all (\<lambda>c. \<forall>s. cell_string c = Some s \<longrightarrow> char_count s < 2 ^ 31) (arr_cells a)" "arr_type a = DtUtf8 \<or> arr_type a = DtUtf8View"
  shows "length_array uf (Plain a) = Inr \<lparr>arr_type = DtInt32, arr_cells = map length_cell (arr_cells a)\<rparr>"
proof -
  have "collect_udf (map optional_char_count_i32 (map cell_string (arr_cells a))) =
      Inr (map (map_option (\<lambda>s. of_nat (char_count s))) (map cell_string (arr_cells a)))"
    using assms(1)
    by (intro collect_udf_map) (auto simp: optional_char_count_i32_def checked_i32_def list_all_iff split: option.split)
  then have "string_length_array_i32 (map cell_string (arr_cells a)) =
      Inr \<lparr>arr_type = DtInt32, arr_cells = map length_cell (arr_cells a)\<rparr>"
    by (simp add: string_length_array_i32_def length_cell_def option.map_comp comp_def)
  then show ?thesis using assms(2) by auto
qed

lemma length_array_expand:
  assumes "wf_udf_array a" "list_all (\<lambda>c. \<forall>s. cell_string c = Some s \<longrightarrow> char_count s < 2 ^ 31) (stored_cells a)"
    "type_of_array a = DtUtf8 \<or> type_of_array a = DtUtf8View"
  shows "length_array uf a = Inr \<lparr>arr_type = DtInt32, arr_cells = map length_cell (expand a)\<rparr>"
  using assms
proof (induction a)
  case (Plain a)
  then show ?case using length_array_plain [of a uf] by simp
next
  case (Dictionary keys vals)
  then have "length_array uf vals = Inr \<lparr>arr_type = DtInt32, arr_cells = map length_cell (expand vals)\<rparr>" by simp
  moreover have "map (\<lambda>k. case k of Some i \<Rightarrow> map length_cell (expand vals) ! i | None \<Rightarrow> None) keys =
      map length_cell (expand (Dictionary keys vals))"
    using Dictionary.prems(1) by (auto simp: list_all_iff length_cell_def split: option.splits)
  ultimately show ?case by (simp add: take_cells_def)
qed

text \<open>The minute \<open>m\<close> of an instant: the instant is in the \<open>m\<close>-th minute of some hour.\<close>

definition in_minute :: "int \<Rightarrow> int \<Rightarrow> int \<Rightarrow> bool" where
  "in_minute units instant m \<longleftrightarrow>
     0 \<le> m \<and> m < 60 \<and> (\<exists>h. units * (3600 * h + 60 * m) \<le> instant \<and> instant < units * (3600 * h + 60 * (m + 1)))"

lemma minute_of_range: "0 \<le> sint (minute_of u v) \<and> sint (minute_of u v) = sint v div u mod 3600 div 60"
proof -
  let ?m = "sint v div u mod 3600 div 60"
  have "0 \<le> ?m" "?m < 60" by (auto intro: pos_imp_zdiv_nonneg_iff [THEN iffD2])
  then show ?thesis by (simp add: minute_of_def signed_of_int signed_take_bit_int_eq_self)
qed

lemma minute_of_in_minute:
  assumes "0 < u"
  shows "in_minute u (sint v) (sint (minute_of u v))"
proof -
  let ?s = "sint v div u" and ?m = "sint v div u mod 3600 div 60"
  have m: "0 \<le> ?m" "?m < 60" by (auto intro: pos_imp_zdiv_nonneg_iff [THEN iffD2])
  have s: "u * ?s \<le> sint v" "sint v < u * (?s + 1)"
  proof -
    have "u * ?s + sint v mod u = sint v" "0 \<le> sint v mod u" "sint v mod u < u" using assms by simp_all
    then show "u * ?s \<le> sint v" "sint v < u * (?s + 1)" unfolding distrib_left mult_1_right by linarith+
  qed
  have bounds: "3600 * q + 60 * m \<le> s" "s + 1 \<le> 3600 * q + 60 * (m + 1)"
    if "3600 * q + r = s" "60 * m + t = r" "0 \<le> t" "t < 60" for s q r m t :: int
    using that by auto
  have h: "3600 * (?s div 3600) + 60 * ?m \<le> ?s" "?s + 1 \<le> 3600 * (?s div 3600) + 60 * (?m + 1)"
    by (rule bounds [OF mult_div_mod_eq mult_div_mod_eq]; simp)+
  have "u * (3600 * (?s div 3600) + 60 * ?m) \<le> sint v"
    using mult_left_mono [OF h(1), of u] s(1) assms by linarith
  moreover have "sint v < u * (3600 * (?s div 3600) + 60 * (?m + 1))"
    using mult_left_mono [OF h(2), of u] s(2) assms by linarith
  ultimately show ?thesis
    using m minute_of_range [of u v] unfolding in_minute_def by auto
qed

text \<open>An instant is in one minute only.\<close>

lemma in_minute_unique:
  assumes "0 < u" "in_minute u v m" "in_minute u v n"
  shows "m = n"
proof -
  obtain h k where h: "u * (3600 * h + 60 * m) \<le> v" "v < u * (3600 * h + 60 * (m + 1))"
      and k: "u * (3600 * k + 60 * n) \<le> v" "v < u * (3600 * k + 60 * (n + 1))"
      and m: "0 \<le> m" "m < 60" "0 \<le> n" "n < 60"
    using assms(2,3) by (auto simp: in_minute_def)
  have "3600 * h + 60 * m < 3600 * k + 60 * (n + 1)" "3600 * k + 60 * n < 3600 * h + 60 * (m + 1)"
    using le_less_trans [OF h(1) k(2)] le_less_trans [OF k(1) h(2)] mult_less_cancel_left_pos [OF assms(1)] by simp_all
  then have "60 * h + m < 60 * k + n + 1" "60 * k + n < 60 * h + m + 1" by auto
  then have "60 * h + m = 60 * k + n" by linarith
  then have "(60 * h + m) mod 60 = (60 * k + n) mod 60" by simp
  then show ?thesis using m by simp
qed

end
