(* ===== verification/Sql_Rewrite.thy ===== *)
theory Sql_Rewrite
  imports Udfs
begin

text \<open>
  The rewriting of SQL before it is planned (\<open>src/src/engine.rs\<close>,
  \<open>rewrite_sql_fast_paths_with_options\<close> and the functions below it): Databricks functions
  that DataFusion does not have become expressions that it has, some expressions become calls
  of faster functions, and unnamed projections get Databricks' column names.

  The syntax tree is the part of the \<open>sqlparser\<close> crate's that the source looks into. Every
  other variant, and the parts of a node that the source only carries along or tests for
  presence, is its text. The parser and the texts of nodes are parameters (\<open>sql_fns\<close>).
  A function that rewrites a node in place and reports whether it changed it returns the report
  and the new node.
\<close>

section \<open>Syntax\<close>

type_synonym ident = "string \<times> char option"

datatype sql_literal =
    LitNumber string bool
  | LitSingleQuoted string
  | LitEscaped string
  | LitDoubleQuoted string
  | LitOther string

datatype binary_operator = OpPlus | OpMinus | OpMultiply | OpDivide | OpModulo | OpLt | OpOther string

datatype unary_operator = OpNot | OpUnaryOther string

datatype is_test =
    IsFalse | IsNotFalse | IsTrue | IsNotTrue | IsNull | IsNotNull | IsUnknown | IsNotUnknown

datatype date_time_field = Minute | Minutes | OtherField string

datatype duplicate_treatment = Distinct | All

datatype name_part = NameIdent ident | NameFunction string

datatype expr =
    Identifier ident
  | CompoundIdentifier "ident list"
  | ValueExpr sql_literal
  | BinaryOp expr binary_operator expr
  | IsDistinctFrom expr expr
  | IsNotDistinctFrom expr expr
  | UnaryOp unary_operator expr
  | Is is_test expr
  | Nested expr
  | OuterJoin expr
  | Prior expr
  | CompoundFieldAccess expr "access_expr list"
  | Extract date_time_field string expr
  | FunctionExpr func
  | Like bool bool expr expr "sql_literal option"
  | CaseExpr "expr option" "(expr \<times> expr) list" "expr option"
  | OtherExpr string
and access_expr =
    Dot expr
  | SubscriptIndex expr
  | SubscriptSlice "expr option" "expr option" "expr option"
and func =
    Function (fn_name: "name_part list") (fn_uses_odbc_syntax: bool) (fn_parameters: "string option")
      (fn_args: func_args) (fn_filter: "string option") (fn_null_treatment: "string option")
      (fn_over: "string option") (fn_within_group: "string list")
and func_args =
    ArgsNone
  | ArgsSubquery string
  | ArgsList "duplicate_treatment option" "func_arg list" "string list"
and func_arg =
    Named string func_arg_expr
  | ExprNamed string func_arg_expr
  | Unnamed func_arg_expr
and func_arg_expr =
    ArgExpr expr
  | QualifiedWildcard string
  | Wildcard

datatype select_item =
    UnnamedExpr expr
  | ExprWithAlias expr ident
  | QualifiedWildcardItem string
  | WildcardItem string

datatype group_by_expr = GroupByAll string | GroupByExpressions "expr list" string

record select =
  sel_projection :: "select_item list"
  sel_selection :: "expr option"
  sel_prewhere :: "expr option"
  sel_group_by :: group_by_expr
  sel_cluster_by :: "expr list"
  sel_distribute_by :: "expr list"
  sel_sort_by :: "(expr \<times> string) list"
  sel_having :: "expr option"
  sel_qualify :: "expr option"
  sel_rest :: string

datatype order_by = OrderByExpressions "(expr \<times> string) list" string | OrderByAll string

datatype query = Query "(string \<times> query) list option" set_expr "order_by option" string
and set_expr =
    SelectSet select
  | QuerySet query
  | SetOperation set_expr string set_expr
  | OtherSet string

datatype sql_statement =
    QueryStatement query
  | ExplainStatement string sql_statement
  | OtherStatement string

datatype datafusion_statement =
    DfStatement sql_statement
  | DfExplain datafusion_statement
  | CreateExternalTable string
  | CopyTo string
  | DfReset string

record rewrite_options =
  ro_count_star_alias :: bool
  ro_expression_alias :: bool

record sql_fns =
  sf_expr :: "expr \<Rightarrow> string"
  sf_function :: "func \<Rightarrow> string"
  sf_name :: "name_part list \<Rightarrow> string"
  sf_arg :: "func_arg \<Rightarrow> string"
  sf_literal :: "sql_literal \<Rightarrow> string"
  sf_binary :: "binary_operator \<Rightarrow> string"
  sf_unary :: "unary_operator \<Rightarrow> string"
  sf_statement :: "sql_statement \<Rightarrow> string"
  sf_parse :: "string \<Rightarrow> sql_statement list option"

section \<open>Building expressions\<close>

definition simple_call :: "string \<Rightarrow> expr list \<Rightarrow> expr" where
  "simple_call name args =
     FunctionExpr (Function [NameIdent (name, None)] False None
       (ArgsList None (map (\<lambda>e. Unnamed (ArgExpr e)) args) []) None None None [])"

definition number_expr :: "string \<Rightarrow> expr" where
  "number_expr value = ValueExpr (LitNumber value False)"

definition single_quoted_string_expr :: "string \<Rightarrow> expr" where
  "single_quoted_string_expr value = ValueExpr (LitSingleQuoted value)"

definition extract_minute_expr :: "expr \<Rightarrow> expr" where
  "extract_minute_expr source = simple_call EXTRACT_MINUTE_UDF [source]"

definition array_element_expr :: "expr \<Rightarrow> expr \<Rightarrow> expr" where
  "array_element_expr array one_based_index = simple_call ''array_element'' [array, one_based_index]"

definition map_extract_expr :: "expr \<Rightarrow> expr \<Rightarrow> expr" where
  "map_extract_expr map_expr key = simple_call ''map_extract'' [map_expr, key]"

definition databricks_get_array_index_expr :: "expr \<Rightarrow> expr" where
  "databricks_get_array_index_expr index =
     CaseExpr None [(BinaryOp index OpLt (number_expr ''0''), number_expr ''0'')]
       (Some (BinaryOp index OpPlus (number_expr ''1'')))"

definition databricks_get_array_expr :: "expr \<Rightarrow> expr \<Rightarrow> expr" where
  "databricks_get_array_expr array zero_based_index =
     array_element_expr array (databricks_get_array_index_expr zero_based_index)"

definition databricks_element_at_map_expr :: "expr \<Rightarrow> expr \<Rightarrow> expr" where
  "databricks_element_at_map_expr map_expr key =
     array_element_expr (map_extract_expr map_expr key) (number_expr ''1'')"

definition regexp_replace_capture_expr :: "expr \<Rightarrow> string \<Rightarrow> nat \<Rightarrow> expr" where
  "regexp_replace_capture_expr source pattern capture_index =
     simple_call REGEXP_REPLACE_CAPTURE_UDF
       [source, single_quoted_string_expr pattern, number_expr (show_nat capture_index)]"

definition contains_expr :: "expr \<Rightarrow> string \<Rightarrow> bool \<Rightarrow> expr" where
  "contains_expr haystack needle negated =
     (let contains = simple_call ''contains'' [haystack, single_quoted_string_expr needle]
      in if negated then UnaryOp OpNot contains else contains)"

section \<open>Recognising expressions\<close>

definition function_name_eq :: "func \<Rightarrow> string \<Rightarrow> bool" where
  "function_name_eq f expected =
     (case fn_name f of [NameIdent (value, _)] \<Rightarrow> eq_ignore_ascii_case value expected | _ \<Rightarrow> False)"

definition function_arg_expr :: "func_arg \<Rightarrow> expr option" where
  "function_arg_expr arg = (case arg of Unnamed (ArgExpr e) \<Rightarrow> Some e | _ \<Rightarrow> None)"

text \<open>
  The test that starts five of the functions: a call of the function by its plain name, without
  any of the optional clauses; it returns the arguments.
\<close>

definition no_clauses :: "func \<Rightarrow> bool" where
  "no_clauses f \<longleftrightarrow> \<not> fn_uses_odbc_syntax f \<and> fn_parameters f = None \<and> fn_filter f = None \<and>
     fn_null_treatment f = None \<and> fn_over f = None \<and> fn_within_group f = []"

definition plain_args :: "func \<Rightarrow> string \<Rightarrow> func_arg list option" where
  "plain_args f expected =
     (if function_name_eq f expected \<and> no_clauses f
      then (case fn_args f of ArgsList None args [] \<Rightarrow> Some args | _ \<Rightarrow> None)
      else None)"

definition is_count_wildcard_function :: "func \<Rightarrow> bool" where
  "is_count_wildcard_function f = (plain_args f ''count'' = Some [Unnamed Wildcard])"

definition databricks_if_expr :: "func \<Rightarrow> expr option" where
  "databricks_if_expr f =
     (case plain_args f ''if'' of
        Some [a, b, c] \<Rightarrow>
          (case (function_arg_expr a, function_arg_expr b, function_arg_expr c) of
             (Some condition, Some result, Some else_result) \<Rightarrow> Some (CaseExpr None [(condition, result)] (Some else_result))
           | _ \<Rightarrow> None)
      | _ \<Rightarrow> None)"

definition two_args :: "func \<Rightarrow> string \<Rightarrow> (expr \<times> expr) option" where
  "two_args f expected =
     (case plain_args f expected of
        Some [a, b] \<Rightarrow>
          (case (function_arg_expr a, function_arg_expr b) of
             (Some x, Some y) \<Rightarrow> Some (x, y)
           | _ \<Rightarrow> None)
      | _ \<Rightarrow> None)"

definition databricks_get_array_args :: "func \<Rightarrow> (expr \<times> expr) option" where
  "databricks_get_array_args f = two_args f ''get''"

definition databricks_element_at_map_args :: "func \<Rightarrow> (expr \<times> expr) option" where
  "databricks_element_at_map_args f = two_args f ''element_at''"

definition string_literal_value :: "expr \<Rightarrow> string option" where
  "string_literal_value e =
     (case e of
        ValueExpr (LitSingleQuoted value) \<Rightarrow> Some value
      | ValueExpr (LitEscaped value) \<Rightarrow> Some value
      | ValueExpr (LitDoubleQuoted value) \<Rightarrow> Some value
      | _ \<Rightarrow> None)"

definition capture_replacement_index :: "string \<Rightarrow> nat option" where
  "capture_replacement_index replacement =
     (case (case strip_prefix replacement ''$'' of Some d \<Rightarrow> Some d | None \<Rightarrow> strip_prefix replacement [CHR 0x5C]) of
        None \<Rightarrow> None
      | Some rest \<Rightarrow>
          (let digits = (case strip_prefix rest ''{'' of
                Some d \<Rightarrow> (case strip_suffix d ''}'' of Some d' \<Rightarrow> d' | None \<Rightarrow> rest)
              | None \<Rightarrow> rest)
           in if digits = [] \<or> \<not> list_all is_ascii_digit digits then None
              else parse_unsigned (2 ^ 64 - 1) digits))"

definition regexp_replace_capture_fast_path_args :: "func \<Rightarrow> (expr \<times> string \<times> nat) option" where
  "regexp_replace_capture_fast_path_args f =
     (case plain_args f ''regexp_replace'' of
        Some [a, b, c] \<Rightarrow>
          (case (function_arg_expr a, Option.bind (function_arg_expr b) string_literal_value,
                 Option.bind (function_arg_expr c) string_literal_value) of
             (Some source, Some pattern, Some replacement) \<Rightarrow>
               map_option (\<lambda>capture_index. (source, pattern, capture_index)) (capture_replacement_index replacement)
           | _ \<Rightarrow> None)
      | _ \<Rightarrow> None)"

definition contains_needle_from_like_pattern :: "expr \<Rightarrow> string option" where
  "contains_needle_from_like_pattern pattern =
     (case string_literal_value pattern of
        None \<Rightarrow> None
      | Some p \<Rightarrow>
          (case strip_prefix p ''%'' of
             None \<Rightarrow> None
           | Some rest \<Rightarrow>
               (case strip_suffix rest ''%'' of
                  None \<Rightarrow> None
                | Some needle \<Rightarrow> if CHR ''%'' \<in> set needle \<or> CHR ''_'' \<in> set needle then None else Some needle)))"

definition is_databricks_get_array_expr :: "expr \<Rightarrow> bool" where
  "is_databricks_get_array_expr e =
     (case e of FunctionExpr f \<Rightarrow> databricks_get_array_args f \<noteq> None | _ \<Rightarrow> False)"

section \<open>Rewriting expressions\<close>

fun rewrite_dot_access :: "access_expr \<Rightarrow> bool \<times> access_expr" where
  "rewrite_dot_access (Dot (Identifier (value, _))) = (True, SubscriptIndex (single_quoted_string_expr value))"
| "rewrite_dot_access access = (False, access)"

definition rewrite_dot_accesses_as_named_field_subscripts :: "access_expr list \<Rightarrow> bool \<times> access_expr list" where
  "rewrite_dot_accesses_as_named_field_subscripts access_chain =
     (list_ex (\<lambda>a. fst (rewrite_dot_access a)) access_chain, map (\<lambda>a. snd (rewrite_dot_access a)) access_chain)"

text \<open>The replacement of a function call whose arguments have been rewritten.\<close>

definition function_replacement :: "func \<Rightarrow> expr option" where
  "function_replacement f =
     (case databricks_if_expr f of
        Some e \<Rightarrow> Some e
      | None \<Rightarrow>
          (case databricks_get_array_args f of
             Some (array, index) \<Rightarrow> Some (databricks_get_array_expr array index)
           | None \<Rightarrow>
               (case databricks_element_at_map_args f of
                  Some (m, key) \<Rightarrow> Some (databricks_element_at_map_expr m key)
                | None \<Rightarrow>
                    (case regexp_replace_capture_fast_path_args f of
                       Some (source, pattern, capture_index) \<Rightarrow> Some (regexp_replace_capture_expr source pattern capture_index)
                     | None \<Rightarrow> None))))"

text \<open>
  \<open>rewrite_expr_fast_paths\<close> tries \<open>rewrite_leaf_expr_fast_paths\<close> first, which only
  looks at \<open>EXTRACT\<close>, function calls and \<open>LIKE\<close>; these are not traversed any
  further, so the two functions are one here. \<open>rewrite_accesses named\<close> is the loop over the
  accesses of a compound field access, after
  \<open>rewrite_dot_accesses_as_named_field_subscripts\<close> where \<open>named\<close> says so: the
  subscripts that this makes are string literals, which the loop leaves alone
  (\<open>rewrite_accesses_named\<close> below).
\<close>

fun rewrite_expr_fast_paths :: "expr \<Rightarrow> bool \<times> expr"
  and rewrite_arg :: "func_arg \<Rightarrow> bool \<times> func_arg"
  and rewrite_arg_expr :: "func_arg_expr \<Rightarrow> bool \<times> func_arg_expr"
  and rewrite_args :: "func_arg list \<Rightarrow> bool \<times> func_arg list"
  and rewrite_function_fast_paths :: "func \<Rightarrow> bool \<times> func"
  and rewrite_access_expr_fast_paths :: "access_expr \<Rightarrow> bool \<times> access_expr"
  and rewrite_accesses :: "bool \<Rightarrow> access_expr list \<Rightarrow> bool \<times> access_expr list"
  and rewrite_bound :: "expr option \<Rightarrow> bool \<times> expr option" where
  "rewrite_expr_fast_paths (Extract field syntax source) =
     (if field = Minute \<or> field = Minutes then (True, extract_minute_expr source) else (False, Extract field syntax source))"
| "rewrite_expr_fast_paths (FunctionExpr f) =
     (let (changed_args, f') = rewrite_function_fast_paths f in
      case function_replacement f' of
        Some replacement \<Rightarrow> (True, replacement)
      | None \<Rightarrow> (changed_args, FunctionExpr f'))"
| "rewrite_expr_fast_paths (Like negated any like_expr pattern escape_char) =
     (if any \<or> escape_char \<noteq> None then (False, Like negated any like_expr pattern escape_char)
      else (case contains_needle_from_like_pattern pattern of
          Some needle \<Rightarrow> (True, contains_expr like_expr needle negated)
        | None \<Rightarrow> (False, Like negated any like_expr pattern escape_char)))"
| "rewrite_expr_fast_paths (BinaryOp left op right) =
     (let (c1, left') = rewrite_expr_fast_paths left; (c2, right') = rewrite_expr_fast_paths right
      in (c1 \<or> c2, BinaryOp left' op right'))"
| "rewrite_expr_fast_paths (IsDistinctFrom left right) =
     (let (c1, left') = rewrite_expr_fast_paths left; (c2, right') = rewrite_expr_fast_paths right
      in (c1 \<or> c2, IsDistinctFrom left' right'))"
| "rewrite_expr_fast_paths (IsNotDistinctFrom left right) =
     (let (c1, left') = rewrite_expr_fast_paths left; (c2, right') = rewrite_expr_fast_paths right
      in (c1 \<or> c2, IsNotDistinctFrom left' right'))"
| "rewrite_expr_fast_paths (UnaryOp op e) = map_prod id (UnaryOp op) (rewrite_expr_fast_paths e)"
| "rewrite_expr_fast_paths (Is test e) = map_prod id (Is test) (rewrite_expr_fast_paths e)"
| "rewrite_expr_fast_paths (Nested e) = map_prod id Nested (rewrite_expr_fast_paths e)"
| "rewrite_expr_fast_paths (OuterJoin e) = map_prod id OuterJoin (rewrite_expr_fast_paths e)"
| "rewrite_expr_fast_paths (Prior e) = map_prod id Prior (rewrite_expr_fast_paths e)"
| "rewrite_expr_fast_paths (CompoundFieldAccess root access_chain) =
     (let (c1, root') = rewrite_expr_fast_paths root;
          (c2, chain') = rewrite_accesses (is_databricks_get_array_expr root) access_chain
      in (c1 \<or> c2, CompoundFieldAccess root' chain'))"
| "rewrite_expr_fast_paths e = (False, e)"
| "rewrite_arg (Named name arg) = map_prod id (Named name) (rewrite_arg_expr arg)"
| "rewrite_arg (ExprNamed name arg) = map_prod id (ExprNamed name) (rewrite_arg_expr arg)"
| "rewrite_arg (Unnamed arg) = map_prod id Unnamed (rewrite_arg_expr arg)"
| "rewrite_arg_expr (ArgExpr e) = map_prod id ArgExpr (rewrite_expr_fast_paths e)"
| "rewrite_arg_expr arg = (False, arg)"
| "rewrite_args [] = (False, [])"
| "rewrite_args (arg # args) =
     (let (c1, arg') = rewrite_arg arg; (c2, args') = rewrite_args args in (c1 \<or> c2, arg' # args'))"
| "rewrite_function_fast_paths (Function name odbc parameters fargs flt null_treatment over within_group) =
     (case fargs of
        ArgsList dup args clauses \<Rightarrow>
          (let (changed, args') = rewrite_args args
           in (changed, Function name odbc parameters (ArgsList dup args' clauses) flt null_treatment over within_group))
      | _ \<Rightarrow> (False, Function name odbc parameters fargs flt null_treatment over within_group))"
| "rewrite_access_expr_fast_paths (Dot e) = map_prod id Dot (rewrite_expr_fast_paths e)"
| "rewrite_access_expr_fast_paths (SubscriptIndex e) = map_prod id SubscriptIndex (rewrite_expr_fast_paths e)"
| "rewrite_access_expr_fast_paths (SubscriptSlice l u s) =
     (let (c1, l') = rewrite_bound l; (c2, u') = rewrite_bound u; (c3, s') = rewrite_bound s
      in (c1 \<or> c2 \<or> c3, SubscriptSlice l' u' s'))"
| "rewrite_accesses named [] = (False, [])"
| "rewrite_accesses named (a # as) =
     (let (c1, a') = (if named \<and> fst (rewrite_dot_access a) then rewrite_dot_access a else rewrite_access_expr_fast_paths a);
          (c2, as') = rewrite_accesses named as
      in (c1 \<or> c2, a' # as'))"
| "rewrite_bound None = (False, None)"
| "rewrite_bound (Some e) = map_prod id Some (rewrite_expr_fast_paths e)"

lemma rewrite_accesses_named:
  "rewrite_accesses True chain =
     (let (c1, chain1) = rewrite_dot_accesses_as_named_field_subscripts chain;
          (c2, chain2) = rewrite_accesses False chain1
      in (c1 \<or> c2, chain2))"
proof (induction chain)
  case (Cons a chain)
  show ?case
  proof (cases "fst (rewrite_dot_access a)")
    case True
    then obtain v q where "a = Dot (Identifier (v, q))" by (cases a rule: rewrite_dot_access.cases) auto
    then show ?thesis
      using Cons by (auto simp: rewrite_dot_accesses_as_named_field_subscripts_def single_quoted_string_expr_def split: prod.splits)
  next
    case False
    then have "rewrite_dot_access a = (False, a)" by (cases a rule: rewrite_dot_access.cases) auto
    then show ?thesis
      using Cons by (auto simp: rewrite_dot_accesses_as_named_field_subscripts_def split: prod.splits)
  qed
qed (simp add: rewrite_dot_accesses_as_named_field_subscripts_def)

section \<open>Names of projections\<close>

fun is_count_wildcard_projection :: "expr \<Rightarrow> bool" where
  "is_count_wildcard_projection (FunctionExpr f) = is_count_wildcard_function f"
| "is_count_wildcard_projection (Nested e) = is_count_wildcard_projection e"
| "is_count_wildcard_projection _ = False"

fun should_alias_databricks_expression :: "expr \<Rightarrow> bool" where
  "should_alias_databricks_expression (FunctionExpr _) = True"
| "should_alias_databricks_expression (BinaryOp _ _ _) = True"
| "should_alias_databricks_expression (ValueExpr _) = True"
| "should_alias_databricks_expression (Nested e) = should_alias_databricks_expression e"
| "should_alias_databricks_expression _ = False"

definition databricks_value_name :: "sql_fns \<Rightarrow> sql_literal \<Rightarrow> string" where
  "databricks_value_name sf literal = (case literal of LitNumber v _ \<Rightarrow> v | _ \<Rightarrow> sf_literal sf literal)"

definition databricks_binary_operator_name :: "sql_fns \<Rightarrow> binary_operator \<Rightarrow> string" where
  "databricks_binary_operator_name sf op =
     (case op of
        OpPlus \<Rightarrow> ''+''
      | OpMinus \<Rightarrow> ''-''
      | OpMultiply \<Rightarrow> ''*''
      | OpDivide \<Rightarrow> ''/''
      | OpModulo \<Rightarrow> ''%''
      | _ \<Rightarrow> sf_binary sf op)"

definition duplicate_treatment_name :: "duplicate_treatment option \<Rightarrow> string" where
  "duplicate_treatment_name dup = (case dup of Some Distinct \<Rightarrow> ''DISTINCT '' | Some All \<Rightarrow> ''ALL '' | None \<Rightarrow> [])"

fun databricks_expr_name :: "sql_fns \<Rightarrow> expr \<Rightarrow> string"
  and databricks_function_name :: "sql_fns \<Rightarrow> func \<Rightarrow> string"
  and databricks_function_arg_name :: "sql_fns \<Rightarrow> func_arg \<Rightarrow> string"
  and databricks_function_arg_names :: "sql_fns \<Rightarrow> func_arg list \<Rightarrow> string list" where
  "databricks_expr_name sf (Identifier i) = fst i"
| "databricks_expr_name sf (CompoundIdentifier idents) = join ''.'' (map fst idents)"
| "databricks_expr_name sf (ValueExpr literal) = databricks_value_name sf literal"
| "databricks_expr_name sf (BinaryOp left op right) =
     ''('' @ databricks_expr_name sf left @ '' '' @ databricks_binary_operator_name sf op @ '' '' @
     databricks_expr_name sf right @ '')''"
| "databricks_expr_name sf (FunctionExpr f) = databricks_function_name sf f"
| "databricks_expr_name sf (Nested e) = ''('' @ databricks_expr_name sf e @ '')''"
| "databricks_expr_name sf (UnaryOp op e) = sf_unary sf op @ databricks_expr_name sf e"
| "databricks_expr_name sf e = sf_expr sf e"
| "databricks_function_name sf (Function name odbc parameters fargs flt null_treatment over within_group) =
     (case fargs of
        ArgsList dup args clauses \<Rightarrow>
          (if no_clauses (Function name odbc parameters fargs flt null_treatment over within_group) \<and> clauses = []
           then to_ascii_lowercase (sf_name sf name) @ ''('' @ duplicate_treatment_name dup @
             join '', '' (databricks_function_arg_names sf args) @ '')''
           else sf_function sf (Function name odbc parameters fargs flt null_treatment over within_group))
      | _ \<Rightarrow> sf_function sf (Function name odbc parameters fargs flt null_treatment over within_group))"
| "databricks_function_arg_name sf (Unnamed (ArgExpr e)) = databricks_expr_name sf e"
| "databricks_function_arg_name sf (Unnamed Wildcard) = ''*''"
| "databricks_function_arg_name sf (Unnamed (QualifiedWildcard name)) = name @ ''.*''"
| "databricks_function_arg_name sf arg = sf_arg sf arg"
| "databricks_function_arg_names sf [] = []"
| "databricks_function_arg_names sf (arg # args) =
     databricks_function_arg_name sf arg # databricks_function_arg_names sf args"

definition databricks_projection_alias :: "sql_fns \<Rightarrow> rewrite_options \<Rightarrow> expr \<Rightarrow> string option" where
  "databricks_projection_alias sf options e =
     (if ro_count_star_alias options \<and> is_count_wildcard_projection e then Some ''count(1)''
      else if ro_expression_alias options \<and> should_alias_databricks_expression e then Some (databricks_expr_name sf e)
      else None)"

section \<open>Rewriting statements\<close>

definition rewrite_item :: "sql_fns \<Rightarrow> rewrite_options \<Rightarrow> select_item \<Rightarrow> bool \<times> select_item" where
  "rewrite_item sf options item =
     (case item of
        UnnamedExpr e \<Rightarrow>
          (let (changed, e') = rewrite_expr_fast_paths e in
           case databricks_projection_alias sf options e' of
             Some alias \<Rightarrow> (True, ExprWithAlias e' (alias, Some (CHR 0x22)))
           | None \<Rightarrow> (changed, UnnamedExpr e'))
      | ExprWithAlias e alias \<Rightarrow> (let (changed, e') = rewrite_expr_fast_paths e in (changed, ExprWithAlias e' alias))
      | _ \<Rightarrow> (False, item))"

text \<open>The loops over a list, an option and a list of order-by expressions.\<close>

definition rewrite_list :: "('a \<Rightarrow> bool \<times> 'a) \<Rightarrow> 'a list \<Rightarrow> bool \<times> 'a list" where
  "rewrite_list f xs = (list_ex (\<lambda>x. fst (f x)) xs, map (\<lambda>x. snd (f x)) xs)"

definition rewrite_option :: "('a \<Rightarrow> bool \<times> 'a) \<Rightarrow> 'a option \<Rightarrow> bool \<times> 'a option" where
  "rewrite_option f x = (case x of Some y \<Rightarrow> map_prod id Some (f y) | None \<Rightarrow> (False, None))"

definition rewrite_order_by_expr :: "expr \<times> string \<Rightarrow> bool \<times> (expr \<times> string)" where
  "rewrite_order_by_expr o_expr = (let (changed, e) = rewrite_expr_fast_paths (fst o_expr) in (changed, (e, snd o_expr)))"

definition rewrite_order_by_fast_paths :: "order_by \<Rightarrow> bool \<times> order_by" where
  "rewrite_order_by_fast_paths ob =
     (case ob of
        OrderByExpressions expressions rest \<Rightarrow>
          map_prod id (\<lambda>es. OrderByExpressions es rest) (rewrite_list rewrite_order_by_expr expressions)
      | OrderByAll _ \<Rightarrow> (False, ob))"

definition rewrite_group_by :: "group_by_expr \<Rightarrow> bool \<times> group_by_expr" where
  "rewrite_group_by gb =
     (case gb of
        GroupByExpressions expressions rest \<Rightarrow>
          map_prod id (\<lambda>es. GroupByExpressions es rest) (rewrite_list rewrite_expr_fast_paths expressions)
      | GroupByAll _ \<Rightarrow> (False, gb))"

definition rewrite_select_fast_paths :: "sql_fns \<Rightarrow> rewrite_options \<Rightarrow> select \<Rightarrow> bool \<times> select" where
  "rewrite_select_fast_paths sf options s =
     (let (c1, projection) = rewrite_list (rewrite_item sf options) (sel_projection s);
          (c2, selection) = rewrite_option rewrite_expr_fast_paths (sel_selection s);
          (c3, prewhere) = rewrite_option rewrite_expr_fast_paths (sel_prewhere s);
          (c4, group_by) = rewrite_group_by (sel_group_by s);
          (c5, cluster_by) = rewrite_list rewrite_expr_fast_paths (sel_cluster_by s);
          (c6, distribute_by) = rewrite_list rewrite_expr_fast_paths (sel_distribute_by s);
          (c7, sort_by) = rewrite_list rewrite_order_by_expr (sel_sort_by s);
          (c8, having) = rewrite_option rewrite_expr_fast_paths (sel_having s);
          (c9, qualify) = rewrite_option rewrite_expr_fast_paths (sel_qualify s)
      in (c1 \<or> c2 \<or> c3 \<or> c4 \<or> c5 \<or> c6 \<or> c7 \<or> c8 \<or> c9,
          \<lparr>sel_projection = projection, sel_selection = selection, sel_prewhere = prewhere, sel_group_by = group_by,
           sel_cluster_by = cluster_by, sel_distribute_by = distribute_by, sel_sort_by = sort_by,
           sel_having = having, sel_qualify = qualify, sel_rest = sel_rest s\<rparr>))"

fun rewrite_query_fast_paths :: "sql_fns \<Rightarrow> rewrite_options \<Rightarrow> query \<Rightarrow> bool \<times> query"
  and rewrite_ctes :: "sql_fns \<Rightarrow> rewrite_options \<Rightarrow> (string \<times> query) list \<Rightarrow> bool \<times> (string \<times> query) list"
  and rewrite_set_expr_fast_paths :: "sql_fns \<Rightarrow> rewrite_options \<Rightarrow> set_expr \<Rightarrow> bool \<times> set_expr" where
  "rewrite_query_fast_paths sf options (Query ctes body ob rest) =
     (let (c1, ctes') = (case ctes of Some cs \<Rightarrow> map_prod id Some (rewrite_ctes sf options cs) | None \<Rightarrow> (False, None));
          (c2, body') = rewrite_set_expr_fast_paths sf options body;
          (c3, ob') = rewrite_option rewrite_order_by_fast_paths ob
      in (c1 \<or> c2 \<or> c3, Query ctes' body' ob' rest))"
| "rewrite_ctes sf options [] = (False, [])"
| "rewrite_ctes sf options ((name, q) # ctes) =
     (let (c1, q') = rewrite_query_fast_paths sf options q; (c2, ctes') = rewrite_ctes sf options ctes
      in (c1 \<or> c2, (name, q') # ctes'))"
| "rewrite_set_expr_fast_paths sf options (SelectSet s) = map_prod id SelectSet (rewrite_select_fast_paths sf options s)"
| "rewrite_set_expr_fast_paths sf options (QuerySet q) = map_prod id QuerySet (rewrite_query_fast_paths sf options q)"
| "rewrite_set_expr_fast_paths sf options (SetOperation left op right) =
     (let (c1, left') = rewrite_set_expr_fast_paths sf options left; (c2, right') = rewrite_set_expr_fast_paths sf options right
      in (c1 \<or> c2, SetOperation left' op right'))"
| "rewrite_set_expr_fast_paths sf options (OtherSet t) = (False, OtherSet t)"

fun rewrite_statement_fast_paths :: "sql_fns \<Rightarrow> rewrite_options \<Rightarrow> sql_statement \<Rightarrow> bool \<times> sql_statement" where
  "rewrite_statement_fast_paths sf options (QueryStatement q) =
     map_prod id QueryStatement (rewrite_query_fast_paths sf options q)"
| "rewrite_statement_fast_paths sf options (ExplainStatement t s) =
     map_prod id (ExplainStatement t) (rewrite_statement_fast_paths sf options s)"
| "rewrite_statement_fast_paths sf options (OtherStatement t) = (False, OtherStatement t)"

definition rewrite_sql_fast_paths_with_options :: "sql_fns \<Rightarrow> rewrite_options \<Rightarrow> string \<Rightarrow> string" where
  "rewrite_sql_fast_paths_with_options sf options sql =
     (case sf_parse sf sql of
        Some [statement] \<Rightarrow>
          (let (changed, statement') = rewrite_statement_fast_paths sf options statement
           in if changed then sf_statement sf statement' else sql)
      | _ \<Rightarrow> sql)"

fun is_read_only_query_statement :: "sql_statement \<Rightarrow> bool" where
  "is_read_only_query_statement (QueryStatement _) = True"
| "is_read_only_query_statement (ExplainStatement _ s) = is_read_only_query_statement s"
| "is_read_only_query_statement (OtherStatement _) = False"

fun is_read_only_datafusion_statement :: "datafusion_statement \<Rightarrow> bool" where
  "is_read_only_datafusion_statement (DfStatement s) = is_read_only_query_statement s"
| "is_read_only_datafusion_statement (DfExplain s) = is_read_only_datafusion_statement s"
| "is_read_only_datafusion_statement (CreateExternalTable _) = False"
| "is_read_only_datafusion_statement (CopyTo _) = False"
| "is_read_only_datafusion_statement (DfReset _) = False"

text \<open>\<open>validate_read_only_statement\<close>: the parser of the session is a parameter.\<close>

definition validate_read_only_statement ::
  "(string \<Rightarrow> harbor_error + datafusion_statement) \<Rightarrow> string \<Rightarrow> unit res" where
  "validate_read_only_statement sql_to_statement sql =
     sbind (sql_to_statement sql) (\<lambda>statement.
       if is_read_only_datafusion_statement statement then Inr ()
       else Inl (UnsupportedSql ''only read-only SELECT queries are supported''))"

section \<open>The report of a change is right\<close>

text \<open>\<open>faithful f\<close>: when a rewriting function reports no change, it has made none.\<close>

definition faithful :: "('a \<Rightarrow> bool \<times> 'a) \<Rightarrow> bool" where
  "faithful f \<longleftrightarrow> (\<forall>x. fst (f x) \<or> snd (f x) = x)"

lemma faithfulD: "faithful f \<Longrightarrow> f x = (False, y) \<Longrightarrow> y = x"
  by (metis faithful_def fst_conv snd_conv)

lemma faithfulI: "(\<And>x y. f x = (False, y) \<Longrightarrow> y = x) \<Longrightarrow> faithful f"
  unfolding faithful_def by (metis (full_types) surjective_pairing)

lemma faithful_list: "faithful f \<Longrightarrow> faithful (rewrite_list f)"
  by (fastforce simp: faithful_def rewrite_list_def list_ex_iff intro: map_idI)

lemma faithful_option: "faithful f \<Longrightarrow> faithful (rewrite_option f)"
  by (auto simp: faithful_def rewrite_option_def split: option.splits)

lemma map_prod_report: "map_prod id g p = (c, y) \<longleftrightarrow> (\<exists>x. p = (c, x) \<and> y = g x)"
  by (cases p) auto

lemmas rewrite_induct =
  rewrite_expr_fast_paths_rewrite_arg_rewrite_arg_expr_rewrite_args_rewrite_function_fast_paths_rewrite_access_expr_fast_paths_rewrite_accesses_rewrite_bound.induct

lemma rewrite_unchanged:
  "rewrite_expr_fast_paths e = (False, e') \<Longrightarrow> e' = e"
  "rewrite_arg a = (False, a') \<Longrightarrow> a' = a"
  "rewrite_arg_expr ae = (False, ae') \<Longrightarrow> ae' = ae"
  "rewrite_args as = (False, as') \<Longrightarrow> as' = as"
  "rewrite_function_fast_paths f = (False, f') \<Longrightarrow> f' = f"
  "rewrite_access_expr_fast_paths x = (False, x') \<Longrightarrow> x' = x"
  "rewrite_accesses named xs = (False, xs') \<Longrightarrow> xs' = xs"
  "rewrite_bound b = (False, b') \<Longrightarrow> b' = b"
proof (induction e and a and ae and as and f and x and named xs and b
    arbitrary: e' and a' and ae' and as' and f' and x' and xs' and b' rule: rewrite_induct)
qed (auto simp: map_prod_report split: prod.splits if_splits option.splits func_args.splits)

lemma faithful_expr: "faithful rewrite_expr_fast_paths"
  by (rule faithfulI) (rule rewrite_unchanged)

lemma faithful_item: "faithful (rewrite_item sf options)"
  by (rule faithfulI) (auto simp: rewrite_item_def dest!: rewrite_unchanged(1) split: select_item.splits prod.splits option.splits)

lemma faithful_order_by_expr: "faithful rewrite_order_by_expr"
  by (rule faithfulI) (auto simp: rewrite_order_by_expr_def dest!: rewrite_unchanged(1) split: prod.splits)

lemma faithful_order_by: "faithful rewrite_order_by_fast_paths"
  using faithful_list [OF faithful_order_by_expr] unfolding faithful_def
  by (auto simp: rewrite_order_by_fast_paths_def split: order_by.splits)

lemma faithful_group_by: "faithful rewrite_group_by"
  using faithful_list [OF faithful_expr] unfolding faithful_def
  by (auto simp: rewrite_group_by_def split: group_by_expr.splits)

lemmas select_parts =
  faithful_list [OF faithful_item, THEN faithfulD] faithful_option [OF faithful_expr, THEN faithfulD]
  faithful_group_by [THEN faithfulD] faithful_list [OF faithful_expr, THEN faithfulD]
  faithful_list [OF faithful_order_by_expr, THEN faithfulD]

lemma faithful_select: "faithful (rewrite_select_fast_paths sf options)"
  by (rule faithfulI) (auto simp: rewrite_select_fast_paths_def dest!: select_parts split: prod.splits)

lemma rewrite_query_unchanged:
  "rewrite_query_fast_paths sf options q = (False, q') \<Longrightarrow> q' = q"
  "rewrite_ctes sf options cs = (False, cs') \<Longrightarrow> cs' = cs"
  "rewrite_set_expr_fast_paths sf options se = (False, se') \<Longrightarrow> se' = se"
proof (induction sf options q and sf options cs and sf options se arbitrary: q' and cs' and se'
    rule: rewrite_query_fast_paths_rewrite_ctes_rewrite_set_expr_fast_paths.induct)
qed (auto simp: map_prod_report dest!: faithful_select [THEN faithfulD] faithful_option [OF faithful_order_by, THEN faithfulD]
       split: prod.splits option.splits)

lemma rewrite_statement_unchanged: "rewrite_statement_fast_paths sf options s = (False, s') \<Longrightarrow> s' = s"
  by (induction sf options s arbitrary: s' rule: rewrite_statement_fast_paths.induct)
     (auto simp: map_prod_report dest: rewrite_query_unchanged(1))

lemma rewrite_statement_read_only:
  "is_read_only_query_statement (snd (rewrite_statement_fast_paths sf options s)) = is_read_only_query_statement s"
  by (induction sf options s rule: rewrite_statement_fast_paths.induct) auto

end
