(* ===== verification/Table_Cache.thy ===== *)
theory Table_Cache
  imports Harbor_Error
begin

text \<open>
  The cache of opened tables (\<open>src/src/table_cache.rs\<close>). The map and every slot have
  their own lock, so the code between two locks is one step: the operations under a lock are
  functions on the cache, and \<open>cache_step\<close> interleaves the clients that run
  \<open>get_or_load\<close>, invalidations and the clock. A slot (\<open>Arc<EntrySlot>\<close>) is its
  position in \<open>c_slots\<close>, so \<open>Arc::ptr_eq\<close> is equality of positions.

  \<open>Notify\<close> counts the calls of \<open>notify_waiters\<close>: a \<open>Notified\<close> future completes
  when the count has moved since it was created. The HMAC of a token is a parameter, and so is
  the relation \<open>loads\<close> between a key and what loading that table may return. A provider and
  an object store are the identities of their \<open>Arc\<close>s. The mutexes are never poisoned: no
  code under them panics.
\<close>

section \<open>Data\<close>

record cache_key =
  ck_principal_fingerprint :: bytes
  ck_full_name :: string
  ck_aws_region :: string

record cached_table =
  ct_provider :: nat
  ct_object_store_url :: string
  ct_object_prefix :: string
  ct_object_store :: nat
  ct_expires_at :: instant

datatype entry_state = Empty | Loading | Ready cached_table

type_synonym slot_id = nat

text \<open>\<open>sl_key\<close> is a ghost field: the key a slot was made for.\<close>

record entry_slot =
  sl_state :: entry_state
  sl_notified :: nat
  sl_key :: cache_key

record cache_config =
  cc_max_entries :: nat
  cc_ttl :: duration
  cc_fingerprint_key :: bytes

section \<open>Deadlines\<close>

text \<open>The largest \<open>Instant\<close>: signed 64-bit seconds and nanoseconds.\<close>

definition instant_max :: instant where
  "instant_max = 2 ^ 63 * 1000000000 - 1"

definition checked_deadline :: "instant \<Rightarrow> duration \<Rightarrow> instant" where
  "checked_deadline now d = (if now + d \<le> instant_max then now + d else now)"

text \<open>\<open>now_system\<close> is the system time in nanoseconds relative to the Unix epoch.\<close>

definition expires_at_from_unity_expiration_ms_at :: "i64 \<Rightarrow> duration \<Rightarrow> int \<Rightarrow> instant \<Rightarrow> instant" where
  "expires_at_from_unity_expiration_ms_at expiration_time_ms safety_skew now_system now_instant =
     (if sint expiration_time_ms < 0 then now_instant
      else let credential_expiry = sint expiration_time_ms * 1000000;
               remaining = nat (credential_expiry - now_system) - safety_skew
           in checked_deadline now_instant remaining)"

definition is_expired :: "cached_table \<Rightarrow> instant \<Rightarrow> bool" where
  "is_expired cached now \<longleftrightarrow> ct_expires_at cached \<le> now"

definition cap_expires_at :: "cached_table \<Rightarrow> instant \<Rightarrow> cached_table" where
  "cap_expires_at cached max_expires_at = cached\<lparr>ct_expires_at := min (ct_expires_at cached) max_expires_at\<rparr>"

section \<open>Operations under a lock\<close>

datatype pc =
    Start
  | Got slot_id
  | Subscribed slot_id nat
  | Waiting slot_id nat
  | Loads slot_id
  | LoadsUncached
  | Removing slot_id "cached_table res"
  | Notifying slot_id "cached_table res"
  | Done "cached_table res"
  | Dropped

record client =
  cl_key :: cache_key
  cl_pc :: pc

record cache =
  c_now :: instant
  c_entries :: "(cache_key \<times> slot_id) list"
  c_slots :: "entry_slot list"
  c_clients :: "client list"

definition table_cache_new :: "instant \<Rightarrow> cache" where
  "table_cache_new now = \<lparr>c_now = now, c_entries = [], c_slots = [], c_clients = []\<rparr>"

definition cache_is_enabled :: "cache_config \<Rightarrow> bool" where
  "cache_is_enabled cfg \<longleftrightarrow> 0 < cc_max_entries cfg \<and> cc_ttl cfg \<noteq> 0"

definition make_cache_key :: "(bytes \<Rightarrow> string \<Rightarrow> bytes) \<Rightarrow> cache_config \<Rightarrow> string \<Rightarrow> string \<Rightarrow> string \<Rightarrow> cache_key" where
  "make_cache_key hmac cfg bearer_token full_name aws_region =
     \<lparr>ck_principal_fingerprint = hmac (cc_fingerprint_key cfg) bearer_token,
      ck_full_name = full_name, ck_aws_region = aws_region\<rparr>"

definition prunable :: "instant \<Rightarrow> entry_state \<Rightarrow> bool" where
  "prunable now st = (case st of Empty \<Rightarrow> True | Ready cached \<Rightarrow> is_expired cached now | Loading \<Rightarrow> False)"

definition prune_expired_entries ::
  "entry_slot list \<Rightarrow> instant \<Rightarrow> (cache_key \<times> slot_id) list \<Rightarrow> (cache_key \<times> slot_id) list" where
  "prune_expired_entries slots now entries =
     filter (\<lambda>(_, slot). \<not> prunable now (sl_state (slots ! slot))) entries"

definition slot_for_key :: "cache_config \<Rightarrow> cache_key \<Rightarrow> cache \<Rightarrow> slot_id option \<times> cache" where
  "slot_for_key cfg key c =
     (let entries = prune_expired_entries (c_slots c) (c_now c) (c_entries c) in
      case map_of entries key of
        Some slot \<Rightarrow> (Some slot, c\<lparr>c_entries := entries\<rparr>)
      | None \<Rightarrow>
          if cc_max_entries cfg \<le> length entries then (None, c\<lparr>c_entries := entries\<rparr>)
          else (Some (length (c_slots c)),
                c\<lparr>c_entries := AList.update key (length (c_slots c)) entries,
                  c_slots := c_slots c @ [\<lparr>sl_state = Empty, sl_notified = 0, sl_key = key\<rparr>]\<rparr>))"

definition set_slot :: "slot_id \<Rightarrow> entry_state \<Rightarrow> cache \<Rightarrow> cache" where
  "set_slot slot st c = c\<lparr>c_slots := (c_slots c)[slot := (c_slots c ! slot)\<lparr>sl_state := st\<rparr>]\<rparr>"

definition notify_waiters :: "slot_id \<Rightarrow> cache \<Rightarrow> cache" where
  "notify_waiters slot c =
     c\<lparr>c_slots := (c_slots c)[slot := (c_slots c ! slot)\<lparr>sl_notified := Suc (sl_notified (c_slots c ! slot))\<rparr>]\<rparr>"

definition remove_slot :: "cache_key \<Rightarrow> slot_id \<Rightarrow> cache \<Rightarrow> cache" where
  "remove_slot key slot c =
     (if map_of (c_entries c) key = Some slot
      then c\<lparr>c_entries := AList.delete key (c_entries c)\<rparr> else c)"

definition invalidate_table :: "string \<Rightarrow> cache \<Rightarrow> cache" where
  "invalidate_table full_name c =
     c\<lparr>c_entries := filter (\<lambda>(key, _). \<not> eq_ignore_ascii_case (ck_full_name key) full_name) (c_entries c)\<rparr>"

text \<open>
  The decision taken under the slot's lock, and the next step of the client: a result, waiting
  with the subscription made before the lock, or loading.
\<close>

definition check_slot :: "slot_id \<Rightarrow> nat \<Rightarrow> cache \<Rightarrow> pc \<times> cache" where
  "check_slot slot epoch c =
     (case sl_state (c_slots c ! slot) of
        Ready cached \<Rightarrow>
          if \<not> is_expired cached (c_now c) then (Done (Inr cached), c)
          else (Loads slot, set_slot slot Loading c)
      | Loading \<Rightarrow> (Waiting slot epoch, c)
      | Empty \<Rightarrow> (Loads slot, set_slot slot Loading c))"

text \<open>The first part of \<open>finish_load\<close>, under the slot's lock.\<close>

definition finish_load :: "cache_config \<Rightarrow> slot_id \<Rightarrow> cached_table res \<Rightarrow> cache \<Rightarrow> pc \<times> cache" where
  "finish_load cfg slot loaded c =
     (case loaded of
        Inr table \<Rightarrow>
          let cached = cap_expires_at table (checked_deadline (c_now c) (cc_ttl cfg)) in
          if is_expired cached (c_now c)
          then (Removing slot (Inr cached), set_slot slot Empty c)
          else (Notifying slot (Inr cached), set_slot slot (Ready cached) c)
      | Inl err \<Rightarrow> (Removing slot (Inl err), set_slot slot Empty c))"

section \<open>Interleaving\<close>

definition set_pc :: "nat \<Rightarrow> pc \<Rightarrow> cache \<Rightarrow> cache" where
  "set_pc i p c = c\<lparr>c_clients := (c_clients c)[i := (c_clients c ! i)\<lparr>cl_pc := p\<rparr>]\<rparr>"

definition at_pc :: "cache \<Rightarrow> nat \<Rightarrow> pc \<Rightarrow> bool" where
  "at_pc c i p \<longleftrightarrow> i < length (c_clients c) \<and> cl_pc (c_clients c ! i) = p"

text \<open>
  A client enters with the cache enabled; one that finds it disabled only loads. With
  \<open>drops\<close> a client may disappear where it awaits something: its caller's future was
  dropped.
\<close>

inductive cache_step ::
  "cache_config \<Rightarrow> (cache_key \<Rightarrow> cached_table res \<Rightarrow> bool) \<Rightarrow> bool \<Rightarrow> cache \<Rightarrow> cache \<Rightarrow> bool"
  for cfg loads drops where
  tick: "c_now c \<le> now \<Longrightarrow> cache_step cfg loads drops c (c\<lparr>c_now := now\<rparr>)"
| enter: "cache_step cfg loads drops c
    (c\<lparr>c_clients := c_clients c @ [\<lparr>cl_key = key, cl_pc = (if cache_is_enabled cfg then Start else LoadsUncached)\<rparr>]\<rparr>)"
| lookup: "at_pc c i Start \<Longrightarrow> slot_for_key cfg (cl_key (c_clients c ! i)) c = (found, c') \<Longrightarrow>
    cache_step cfg loads drops c (set_pc i (case found of Some slot \<Rightarrow> Got slot | None \<Rightarrow> LoadsUncached) c')"
| subscribe: "at_pc c i (Got slot) \<Longrightarrow>
    cache_step cfg loads drops c (set_pc i (Subscribed slot (sl_notified (c_slots c ! slot))) c)"
| check: "at_pc c i (Subscribed slot epoch) \<Longrightarrow> check_slot slot epoch c = (p, c') \<Longrightarrow>
    cache_step cfg loads drops c (set_pc i p c')"
| wake: "at_pc c i (Waiting slot epoch) \<Longrightarrow> epoch < sl_notified (c_slots c ! slot) \<Longrightarrow>
    cache_step cfg loads drops c (set_pc i Start c)"
| loaded: "at_pc c i (Loads slot) \<Longrightarrow> loads (cl_key (c_clients c ! i)) result \<Longrightarrow>
    finish_load cfg slot result c = (p, c') \<Longrightarrow> cache_step cfg loads drops c (set_pc i p c')"
| removed: "at_pc c i (Removing slot result) \<Longrightarrow>
    cache_step cfg loads drops c (set_pc i (Notifying slot result) (remove_slot (cl_key (c_clients c ! i)) slot c))"
| notified: "at_pc c i (Notifying slot result) \<Longrightarrow>
    cache_step cfg loads drops c (set_pc i (Done result) (notify_waiters slot c))"
| loaded_uncached: "at_pc c i LoadsUncached \<Longrightarrow> loads (cl_key (c_clients c ! i)) result \<Longrightarrow>
    cache_step cfg loads drops c (set_pc i (Done result) c)"
| invalidate: "cache_step cfg loads drops c (invalidate_table full_name c)"
| dropped: "drops \<Longrightarrow> at_pc c i p \<Longrightarrow> p = Waiting slot epoch \<or> p = Loads slot \<or> p = LoadsUncached \<Longrightarrow>
    cache_step cfg loads drops c (set_pc i Dropped c)"

definition cache_reachable ::
  "cache_config \<Rightarrow> (cache_key \<Rightarrow> cached_table res \<Rightarrow> bool) \<Rightarrow> bool \<Rightarrow> cache \<Rightarrow> bool" where
  "cache_reachable cfg loads drops c \<longleftrightarrow> (\<exists>start. (cache_step cfg loads drops)\<^sup>*\<^sup>* (table_cache_new start) c)"

section \<open>The invariant\<close>

text \<open>What the cache hands out for a loaded table: the same table, for no longer than allowed.\<close>

definition same_table :: "cached_table \<Rightarrow> cached_table \<Rightarrow> bool" where
  "same_table a b \<longleftrightarrow>
     a\<lparr>ct_expires_at := 0\<rparr> = b\<lparr>ct_expires_at := 0\<rparr> \<and> ct_expires_at b \<le> ct_expires_at a"

definition loaded_for :: "(cache_key \<Rightarrow> cached_table res \<Rightarrow> bool) \<Rightarrow> cache_key \<Rightarrow> cached_table \<Rightarrow> bool" where
  "loaded_for loads key t \<longleftrightarrow> (\<exists>t0. loads key (Inr t0) \<and> same_table t0 t)"

definition result_for :: "(cache_key \<Rightarrow> cached_table res \<Rightarrow> bool) \<Rightarrow> cache_key \<Rightarrow> cached_table res \<Rightarrow> bool" where
  "result_for loads key r \<longleftrightarrow> (case r of Inr t \<Rightarrow> loaded_for loads key t | Inl e \<Rightarrow> loads key (Inl e))"

definition slot_is :: "cache \<Rightarrow> slot_id \<Rightarrow> cache_key \<Rightarrow> bool" where
  "slot_is c s key \<longleftrightarrow> s < length (c_slots c) \<and> sl_key (c_slots c ! s) = key"

definition pc_ok :: "(cache_key \<Rightarrow> cached_table res \<Rightarrow> bool) \<Rightarrow> cache \<Rightarrow> cache_key \<Rightarrow> pc \<Rightarrow> bool" where
  "pc_ok loads c key p =
     (case p of
        Got s \<Rightarrow> slot_is c s key
      | Subscribed s e \<Rightarrow> slot_is c s key
      | Waiting s e \<Rightarrow> slot_is c s key
      | Loads s \<Rightarrow> slot_is c s key \<and> sl_state (c_slots c ! s) = Loading
      | Removing s r \<Rightarrow> slot_is c s key \<and> result_for loads key r
      | Notifying s r \<Rightarrow> slot_is c s key \<and> result_for loads key r
      | Done r \<Rightarrow> result_for loads key r
      | _ \<Rightarrow> True)"

definition entries_ok :: "cache_config \<Rightarrow> cache \<Rightarrow> bool" where
  "entries_ok cfg c \<longleftrightarrow>
     distinct_keys (c_entries c) \<and> length (c_entries c) \<le> cc_max_entries cfg \<and>
     (\<forall>(key, s) \<in> set (c_entries c). slot_is c s key)"

definition slots_ok :: "cache_config \<Rightarrow> (cache_key \<Rightarrow> cached_table res \<Rightarrow> bool) \<Rightarrow> cache \<Rightarrow> bool" where
  "slots_ok cfg loads c \<longleftrightarrow>
     (\<forall>s < length (c_slots c). \<forall>t. sl_state (c_slots c ! s) = Ready t \<longrightarrow>
        loaded_for loads (sl_key (c_slots c ! s)) t \<and> ct_expires_at t \<le> c_now c + cc_ttl cfg)"

definition clients_ok :: "(cache_key \<Rightarrow> cached_table res \<Rightarrow> bool) \<Rightarrow> cache \<Rightarrow> bool" where
  "clients_ok loads c \<longleftrightarrow>
     (\<forall>i < length (c_clients c). pc_ok loads c (cl_key (c_clients c ! i)) (cl_pc (c_clients c ! i))) \<and>
     (\<forall>i j s. at_pc c i (Loads s) \<longrightarrow> at_pc c j (Loads s) \<longrightarrow> i = j)"

definition cache_inv :: "cache_config \<Rightarrow> (cache_key \<Rightarrow> cached_table res \<Rightarrow> bool) \<Rightarrow> cache \<Rightarrow> bool" where
  "cache_inv cfg loads c \<longleftrightarrow> entries_ok cfg c \<and> slots_ok cfg loads c \<and> clients_ok loads c"

lemma same_table_refl [simp]: "same_table a a"
  by (simp add: same_table_def)

lemma same_table_cap: "same_table t (cap_expires_at t d)"
  by (simp add: same_table_def cap_expires_at_def)

lemma nth_list_update_split: "xs[i := x] ! j = (if i = j \<and> i < length xs then x else xs ! j)"
  by (cases "i < length xs") (auto simp: nth_list_update list_update_beyond)

text \<open>Slots are only ever added; a slot keeps its key.\<close>

definition extends :: "cache \<Rightarrow> cache \<Rightarrow> bool" where
  "extends c c' \<longleftrightarrow> (\<forall>s key. slot_is c s key \<longrightarrow> slot_is c' s key)"

lemma extends_refl [simp]: "c_slots c' = c_slots c \<Longrightarrow> extends c c'"
  by (simp add: extends_def slot_is_def)

lemma extends_set_slot [simp]: "extends c (set_slot s st c)"
  by (auto simp: extends_def slot_is_def set_slot_def nth_list_update_split)

lemma extends_notify [simp]: "extends c (notify_waiters s c)"
  by (auto simp: extends_def slot_is_def notify_waiters_def nth_list_update_split)

lemma extends_slot_for_key: "slot_for_key cfg key c = (found, c') \<Longrightarrow> extends c c'"
  by (auto simp: slot_for_key_def extends_def slot_is_def Let_def nth_append split: option.splits if_splits)

lemma entries_ok_mono:
  assumes "entries_ok cfg c" "extends c c'" "set (c_entries c') \<subseteq> set (c_entries c)"
    "distinct_keys (c_entries c')" "length (c_entries c') \<le> length (c_entries c)"
  shows "entries_ok cfg c'"
  using assms unfolding entries_ok_def extends_def by fastforce

lemma pc_ok_mono:
  assumes "pc_ok loads c key p" "extends c c'" "\<And>s. p = Loads s \<Longrightarrow> sl_state (c_slots c' ! s) = Loading"
  shows "pc_ok loads c' key p"
  using assms unfolding extends_def by (cases p) (auto simp: pc_ok_def)

lemma pc_ok_frame: "c_slots c' = c_slots c \<Longrightarrow> pc_ok loads c' = pc_ok loads c"
  by (intro ext) (simp add: pc_ok_def slot_is_def split: pc.split)

lemma at_pc_set_pc:
  "i < length (c_clients c) \<Longrightarrow> at_pc (set_pc i p c) j q \<longleftrightarrow> (if j = i then q = p else at_pc c j q)"
  by (auto simp: at_pc_def set_pc_def)

lemma at_pc_frame: "c_clients c' = c_clients c \<Longrightarrow> at_pc c' = at_pc c"
  by (intro ext) (simp add: at_pc_def)

text \<open>One client moves; the others' loads are not disturbed.\<close>

lemma clients_ok_step:
  assumes ok: "clients_ok loads c" and grow: "extends c c'" and same: "c_clients c' = c_clients c"
    and i: "i < length (c_clients c)" and new: "pc_ok loads c' (cl_key (c_clients c ! i)) p"
    and mine: "\<And>s j. p = Loads s \<Longrightarrow> at_pc c j (Loads s) \<Longrightarrow> j = i"
    and others: "\<And>s j. at_pc c j (Loads s) \<Longrightarrow> j \<noteq> i \<Longrightarrow> sl_state (c_slots c' ! s) = Loading"
  shows "clients_ok loads (set_pc i p c')"
proof -
  have mono: "pc_ok loads c' (cl_key (c_clients c ! j)) (cl_pc (c_clients c ! j))"
    if j: "j < length (c_clients c)" "j \<noteq> i" for j
  proof (rule pc_ok_mono [OF _ grow])
    show "pc_ok loads c (cl_key (c_clients c ! j)) (cl_pc (c_clients c ! j))"
      using ok j by (simp add: clients_ok_def)
    show "sl_state (c_slots c' ! s) = Loading" if "cl_pc (c_clients c ! j) = Loads s" for s
      using others [of j s] j that by (simp add: at_pc_def)
  qed
  have slots: "pc_ok loads (set_pc i p c') = pc_ok loads c'"
    by (rule pc_ok_frame) (simp add: set_pc_def)
  have at: "at_pc (set_pc i p c') j q \<longleftrightarrow> (if j = i then q = p else at_pc c j q)" for j q
    using i by (simp add: at_pc_set_pc same at_pc_frame [OF same])
  have "\<forall>j < length (c_clients c). pc_ok loads c' (cl_key (c_clients (set_pc i p c') ! j)) (cl_pc (c_clients (set_pc i p c') ! j))"
    using new mono i by (simp add: set_pc_def same nth_list_update_split)
  moreover have "\<forall>j k s. at_pc (set_pc i p c') j (Loads s) \<longrightarrow> at_pc (set_pc i p c') k (Loads s) \<longrightarrow> j = k"
    using ok mine unfolding at clients_ok_def by metis
  moreover have "length (c_clients (set_pc i p c')) = length (c_clients c)"
    by (simp add: set_pc_def same)
  ultimately show ?thesis
    unfolding clients_ok_def slots by metis
qed

lemma set_pc_frame [simp]:
  "c_slots (set_pc i p c) = c_slots c" "c_entries (set_pc i p c) = c_entries c" "c_now (set_pc i p c) = c_now c"
  by (simp_all add: set_pc_def)

lemma set_slot_frame [simp]:
  "c_clients (set_slot s st c) = c_clients c" "c_entries (set_slot s st c) = c_entries c"
  "c_now (set_slot s st c) = c_now c"
  by (simp_all add: set_slot_def)

lemma notify_frame [simp]:
  "c_clients (notify_waiters s c) = c_clients c" "c_entries (notify_waiters s c) = c_entries c"
  by (simp_all add: notify_waiters_def)

lemma remove_frame [simp]:
  "c_clients (remove_slot key s c) = c_clients c" "c_slots (remove_slot key s c) = c_slots c"
  "c_now (remove_slot key s c) = c_now c"
  by (simp_all add: remove_slot_def)

lemma checked_deadline_le: "checked_deadline now d \<le> now + d"
  by (simp add: checked_deadline_def)

lemma slots_ok_set:
  "slots_ok cfg loads c \<Longrightarrow>
   (\<And>t. st = Ready t \<Longrightarrow> s < length (c_slots c) \<Longrightarrow>
      loaded_for loads (sl_key (c_slots c ! s)) t \<and> ct_expires_at t \<le> c_now c + cc_ttl cfg) \<Longrightarrow>
   slots_ok cfg loads (set_slot s st c)"
  by (auto simp: slots_ok_def set_slot_def nth_list_update_split)

lemma slots_ok_notify: "slots_ok cfg loads c \<Longrightarrow> slots_ok cfg loads (notify_waiters s c)"
  by (auto simp: slots_ok_def notify_waiters_def nth_list_update_split)

lemma slots_ok_later:
  "slots_ok cfg loads c \<Longrightarrow> c_slots c' = c_slots c \<Longrightarrow> c_now c \<le> c_now c' \<Longrightarrow> slots_ok cfg loads c'"
  by (fastforce simp: slots_ok_def)

lemma entries_ok_same:
  "entries_ok cfg c \<Longrightarrow> extends c c' \<Longrightarrow> c_entries c' = c_entries c \<Longrightarrow> entries_ok cfg c'"
  by (rule entries_ok_mono) (auto simp: entries_ok_def)

lemma entries_ok_filter:
  "entries_ok cfg c \<Longrightarrow> entries_ok cfg (c\<lparr>c_entries := filter P (c_entries c)\<rparr>)"
  by (rule entries_ok_mono) (auto simp: entries_ok_def)

lemma entries_ok_remove: "entries_ok cfg c \<Longrightarrow> entries_ok cfg (remove_slot key s c)"
  unfolding remove_slot_def AList.delete_eq by (simp add: entries_ok_filter)

lemma set_update_cases: "x \<in> set (AList.update k v m) \<Longrightarrow> x = (k, v) \<or> x \<in> set m"
  by (induction m) (auto split: if_splits)

lemma slot_for_key_clients: "slot_for_key cfg key c = (found, c') \<Longrightarrow> c_clients c' = c_clients c \<and> c_now c' = c_now c"
  by (auto simp: slot_for_key_def Let_def split: option.splits if_splits)

lemma slot_for_key_states:
  "slot_for_key cfg key c = (found, c') \<Longrightarrow> s < length (c_slots c) \<Longrightarrow> c_slots c' ! s = c_slots c ! s"
  by (auto simp: slot_for_key_def Let_def nth_append split: option.splits if_splits)

lemma slot_for_key_slots:
  assumes "slots_ok cfg loads c" "slot_for_key cfg' key c = (found, c')"
  shows "slots_ok cfg loads c'"
  using assms by (auto simp: slot_for_key_def slots_ok_def Let_def nth_append less_Suc_eq split: option.splits if_splits)

lemma slot_for_key_entries:
  assumes ok: "entries_ok cfg c" and found: "slot_for_key cfg key c = (found, c')"
  shows "entries_ok cfg c'" and "found = Some s \<Longrightarrow> slot_is c' s key"
proof -
  define live where "live = prune_expired_entries (c_slots c) (c_now c) (c_entries c)"
  have pruned: "entries_ok cfg (c\<lparr>c_entries := live\<rparr>)"
    using entries_ok_filter [OF ok] by (simp add: live_def prune_expired_entries_def)
  consider (hit) t where "map_of live key = Some t" "found = Some t" "c' = c\<lparr>c_entries := live\<rparr>"
    | (full) "found = None" "c' = c\<lparr>c_entries := live\<rparr>"
    | (fresh) "length live < cc_max_entries cfg" "map_of live key = None" "found = Some (length (c_slots c))"
        "c' = c\<lparr>c_entries := AList.update key (length (c_slots c)) live,
               c_slots := c_slots c @ [\<lparr>sl_state = Empty, sl_notified = 0, sl_key = key\<rparr>]\<rparr>"
    using found by (auto simp: slot_for_key_def live_def Let_def split: option.splits if_splits)
  then have "entries_ok cfg c' \<and> (\<forall>s. found = Some s \<longrightarrow> slot_is c' s key)"
  proof cases
    case hit
    then show ?thesis
      using pruned map_of_SomeD [OF hit(1)] by (auto simp: entries_ok_def slot_is_def)
  next
    case full
    then show ?thesis using pruned by simp
  next
    case fresh
    have "length (AList.update key (length (c_slots c)) live) \<le> cc_max_entries cfg"
      using fresh(1) length_update_le [of key "length (c_slots c)" live] by linarith
    moreover have "slot_is c' s k" if "(k, s) \<in> set (AList.update key (length (c_slots c)) live)" for k s
      using that pruned fresh(4) set_update_cases [of "(k, s)" key "length (c_slots c)" live]
      by (fastforce simp: entries_ok_def slot_is_def nth_append)
    ultimately show ?thesis
      using pruned fresh by (auto simp: entries_ok_def slot_is_def)
  qed
  then show "entries_ok cfg c'" and "found = Some s \<Longrightarrow> slot_is c' s key" by auto
qed

lemma sl_set_slot [simp]:
  "s < length (c_slots c) \<Longrightarrow> sl_state (c_slots (set_slot s st c) ! s) = st"
  "s' \<noteq> s \<Longrightarrow> c_slots (set_slot s st c) ! s' = c_slots c ! s'"
  "slot_is (set_slot s st c) s' key = slot_is c s' key"
  by (auto simp: set_slot_def slot_is_def nth_list_update_split)

lemma slot_is_bound: "slot_is c s key \<Longrightarrow> s < length (c_slots c)"
  by (simp add: slot_is_def)

lemma sl_notify [simp]:
  "sl_state (c_slots (notify_waiters s c) ! s') = sl_state (c_slots c ! s')"
  "slot_is (notify_waiters s c) s' key = slot_is c s' key"
  by (auto simp: notify_waiters_def slot_is_def nth_list_update_split)

lemma loads_state:
  "clients_ok loads c \<Longrightarrow> at_pc c j (Loads s) \<Longrightarrow> sl_state (c_slots c ! s) = Loading \<and> s < length (c_slots c)"
  by (fastforce simp: clients_ok_def at_pc_def pc_ok_def slot_is_def)

lemma pc_ok_at:
  "clients_ok loads c \<Longrightarrow> at_pc c i p \<Longrightarrow> i < length (c_clients c) \<and> pc_ok loads c (cl_key (c_clients c ! i)) p"
  by (auto simp: clients_ok_def at_pc_def)

text \<open>The preservation of \<open>clients_ok\<close> when no slot changes its state.\<close>

lemma clients_ok_move:
  assumes "clients_ok loads c" "at_pc c i q" "extends c c'" "c_clients c' = c_clients c"
    "\<And>s. s < length (c_slots c) \<Longrightarrow> sl_state (c_slots c' ! s) = sl_state (c_slots c ! s)"
    "pc_ok loads c' (cl_key (c_clients c ! i)) p" "\<And>s. p \<noteq> Loads s"
  shows "clients_ok loads (set_pc i p c')"
  using assms(2,7) loads_state [OF assms(1)]
  by (intro clients_ok_step [OF assms(1,3,4) _ assms(6)]) (auto simp: at_pc_def assms(5))

lemma check_slot_clients:
  assumes ok: "clients_ok loads c" "slots_ok cfg loads c" and at: "at_pc c i (Subscribed slot epoch)"
    and step: "check_slot slot epoch c = (p, c')"
  shows "clients_ok loads (set_pc i p c')"
proof -
  let ?key = "cl_key (c_clients c ! i)" and ?st = "sl_state (c_slots c ! slot)"
  have slot: "i < length (c_clients c)" "slot_is c slot ?key"
    using pc_ok_at [OF ok(1) at] by (simp_all add: pc_ok_def)
  consider (hit) t where "?st = Ready t" "p = Done (Inr t)" "c' = c"
    | (wait) "?st = Loading" "p = Waiting slot epoch" "c' = c"
    | (load) "?st \<noteq> Loading" "p = Loads slot" "c' = set_slot slot Loading c"
    using step by (auto simp: check_slot_def split: entry_state.splits if_splits)
  then show ?thesis
  proof cases
    case hit
    then show ?thesis
      using ok slot at
      by (intro clients_ok_move) (auto simp: pc_ok_def result_for_def slots_ok_def slot_is_def)
  next
    case wait
    then show ?thesis
      using ok slot at by (intro clients_ok_move) (auto simp: pc_ok_def)
  next
    case load
    have none: "\<not> at_pc c j (Loads slot)" for j
      using loads_state [OF ok(1)] load(1) by blast
    show ?thesis
    proof (rule clients_ok_step [OF ok(1)])
      show "sl_state (c_slots c' ! s) = Loading" if "at_pc c j (Loads s)" for s j
        using that none loads_state [OF ok(1) that] load(3) by (cases "s = slot") auto
    qed (use slot load none in \<open>auto simp: pc_ok_def dest: slot_is_bound\<close>)
  qed
qed

lemma result_for_cap: "loads key (Inr t) \<Longrightarrow> loaded_for loads key (cap_expires_at t d)"
  unfolding loaded_for_def using same_table_cap by blast

lemma result_for_loaded: "loads key r \<Longrightarrow> result_for loads key r"
  by (auto simp: result_for_def loaded_for_def intro: same_table_refl split: sum.split)

lemma cap_expires_le: "ct_expires_at (cap_expires_at t (checked_deadline now d)) \<le> now + d"
  using checked_deadline_le [of now d] by (simp add: cap_expires_at_def)

lemma finish_load_cases:
  assumes "finish_load cfg slot loaded c = (p, c')"
  obtains (expired) t where "loaded = Inr t"
      "p = Removing slot (Inr (cap_expires_at t (checked_deadline (c_now c) (cc_ttl cfg))))" "c' = set_slot slot Empty c"
  | (ready) t u where "loaded = Inr t" "u = cap_expires_at t (checked_deadline (c_now c) (cc_ttl cfg))"
      "p = Notifying slot (Inr u)" "c' = set_slot slot (Ready u) c"
  | (failed) e where "loaded = Inl e" "p = Removing slot (Inl e)" "c' = set_slot slot Empty c"
  using assms by (cases loaded) (auto simp: finish_load_def Let_def split: if_splits)

lemma finish_load_ok:
  assumes ok: "clients_ok loads c" "slots_ok cfg loads c" and at: "at_pc c i (Loads slot)"
    and result: "loads (cl_key (c_clients c ! i)) loaded" and step: "finish_load cfg slot loaded c = (p, c')"
  shows "clients_ok loads (set_pc i p c')" and "slots_ok cfg loads c'"
proof -
  let ?key = "cl_key (c_clients c ! i)"
  have slot: "i < length (c_clients c)" "slot_is c slot ?key"
    using pc_ok_at [OF ok(1) at] by (simp_all add: pc_ok_def)
  have "\<exists>st r. (p = Removing slot r \<or> p = Notifying slot r) \<and> c' = set_slot slot st c \<and> result_for loads ?key r \<and>
      (\<forall>t. st = Ready t \<longrightarrow> loaded_for loads ?key t \<and> ct_expires_at t \<le> c_now c + cc_ttl cfg)"
    using step
  proof (cases rule: finish_load_cases)
    case expired
    then show ?thesis using result by (intro exI [of _ Empty]) (auto simp: result_for_def result_for_cap)
  next
    case (ready t u)
    then show ?thesis
      using result cap_expires_le by (intro exI [of _ "Ready u"]) (auto simp: result_for_def result_for_cap)
  next
    case failed
    then show ?thesis using result by (intro exI [of _ Empty]) (auto simp: result_for_def)
  qed
  then obtain st r where p: "p = Removing slot r \<or> p = Notifying slot r" and c': "c' = set_slot slot st c"
    and r: "result_for loads ?key r"
    and st: "\<And>t. st = Ready t \<Longrightarrow> loaded_for loads ?key t \<and> ct_expires_at t \<le> c_now c + cc_ttl cfg"
    by blast
  have mine: "s \<noteq> slot" if "at_pc c j (Loads s)" "j \<noteq> i" for j s
    using ok(1) at that unfolding clients_ok_def by blast
  show "clients_ok loads (set_pc i p c')"
  proof (rule clients_ok_step [OF ok(1)])
    show "sl_state (c_slots c' ! s) = Loading" if "at_pc c j (Loads s)" "j \<noteq> i" for s j
      using mine [OF that] loads_state [OF ok(1) that(1)] c' by simp
  qed (use slot p c' r in \<open>auto simp: pc_ok_def\<close>)
  show "slots_ok cfg loads c'"
    unfolding c' using st slot by (intro slots_ok_set [OF ok(2)]) (auto simp: slot_is_def)
qed

lemma clients_ok_frame:
  "clients_ok loads c \<Longrightarrow> c_clients c' = c_clients c \<Longrightarrow> c_slots c' = c_slots c \<Longrightarrow> clients_ok loads c'"
  unfolding clients_ok_def using pc_ok_frame [of c' c loads] at_pc_frame [of c' c] by metis

lemma clients_ok_enter:
  assumes "clients_ok loads c" "p = Start \<or> p = LoadsUncached"
  shows "clients_ok loads (c\<lparr>c_clients := c_clients c @ [\<lparr>cl_key = key, cl_pc = p\<rparr>]\<rparr>)" (is "clients_ok _ ?c")
proof -
  have slots: "pc_ok loads ?c = pc_ok loads c"
    by (rule pc_ok_frame) simp
  have at: "at_pc ?c i (Loads s) = at_pc c i (Loads s)" for i s
    using assms(2) by (auto simp: at_pc_def nth_append less_Suc_eq)
  have pcs: "pc_ok loads c (cl_key (c_clients ?c ! i)) (cl_pc (c_clients ?c ! i))" if "i < length (c_clients ?c)" for i
  proof (cases "i < length (c_clients c)")
    case True
    then show ?thesis using assms(1) by (simp add: clients_ok_def nth_append)
  next
    case False
    then have "i = length (c_clients c)" using that by simp
    then show ?thesis using assms(2) by (auto simp: pc_ok_def)
  qed
  show ?thesis
    using assms(1) pcs unfolding clients_ok_def at slots by blast
qed

lemma check_slot_frame:
  "check_slot slot epoch c = (p, c') \<Longrightarrow> c' = c \<or> c' = set_slot slot Loading c"
  by (auto simp: check_slot_def split: entry_state.splits if_splits)

lemma finish_load_frame:
  "finish_load cfg slot loaded c = (p, c') \<Longrightarrow> \<exists>st. c' = set_slot slot st c"
  by (erule finish_load_cases) auto

lemma lookup_ok:
  assumes inv: "cache_inv cfg loads c" and at: "at_pc c i Start"
    and found: "slot_for_key cfg (cl_key (c_clients c ! i)) c = (found, c')"
    and p: "p = (case found of Some slot \<Rightarrow> Got slot | None \<Rightarrow> LoadsUncached)"
  shows "cache_inv cfg loads (set_pc i p c')"
proof -
  have new: "pc_ok loads c' (cl_key (c_clients c ! i)) p"
    using slot_for_key_entries(2) [OF _ found] inv p by (auto simp: pc_ok_def cache_inv_def split: option.splits)
  have "clients_ok loads (set_pc i p c')"
    using inv p slot_for_key_clients [OF found] slot_for_key_states [OF found]
    by (intro clients_ok_move [OF _ at extends_slot_for_key [OF found] _ _ new])
       (auto simp: cache_inv_def split: option.splits)
  moreover have "entries_ok cfg (set_pc i p c')"
    by (rule entries_ok_same [of cfg c']) (use slot_for_key_entries(1) [OF _ found] inv in \<open>auto simp: cache_inv_def\<close>)
  moreover have "slots_ok cfg loads (set_pc i p c')"
    by (rule slots_ok_later [of cfg loads c']) (use slot_for_key_slots [OF _ found] inv in \<open>auto simp: cache_inv_def\<close>)
  ultimately show ?thesis by (simp add: cache_inv_def)
qed

lemma cache_inv_frame:
  assumes "entries_ok cfg c" "slots_ok cfg loads c" "clients_ok loads (set_pc i p c)"
  shows "cache_inv cfg loads (set_pc i p c)"
  using entries_ok_same [OF assms(1), of "set_pc i p c"] slots_ok_later [OF assms(2), of "set_pc i p c"] assms(3)
  by (simp add: cache_inv_def)

lemma cache_inv_step:
  assumes "cache_step cfg loads drops c c'" "cache_inv cfg loads c"
  shows "cache_inv cfg loads c'"
proof -
  have inv: "entries_ok cfg c" "slots_ok cfg loads c" "clients_ok loads c"
    using assms(2) by (simp_all add: cache_inv_def)
  note frame = cache_inv_frame clients_ok_move [OF inv(3)] entries_ok_same [OF inv(1)] slots_ok_later [OF inv(2)]
  show ?thesis
    using assms(1)
  proof (cases rule: cache_step.cases)
    case (tick now)
    then show ?thesis
      using assms(2) entries_ok_same [of cfg c c'] slots_ok_later [of cfg loads c c'] clients_ok_frame [of loads c c']
      by (simp add: cache_inv_def)
  next
    case (enter key)
    then show ?thesis
      using assms(2) entries_ok_same [of cfg c c'] slots_ok_later [of cfg loads c c'] clients_ok_enter [of loads c]
      by (simp add: cache_inv_def)
  next
    case (lookup i found c'')
    then show ?thesis using lookup_ok [OF assms(2)] by blast
  next
    case (subscribe i slot)
    then show ?thesis
      using inv pc_ok_at [OF inv(3) subscribe(2)]
      by (auto simp: pc_ok_def intro!: frame)
  next
    case (check i slot epoch p c'')
    have "clients_ok loads (set_pc i p c'')"
      by (rule check_slot_clients [OF inv(3,2) check(2,3)])
    then show ?thesis
      using check_slot_frame [OF check(3)] inv check(1)
      by (auto intro!: frame slots_ok_set)
  next
    case (wake i slot epoch)
    then show ?thesis
      using inv by (auto simp: pc_ok_def intro!: frame)
  next
    case (loaded i slot result p c'')
    then show ?thesis
      using finish_load_ok [OF inv(3,2) loaded(2-4)] finish_load_frame [OF loaded(4)] inv
      by (auto intro!: frame)
  next
    case (removed i slot result)
    then show ?thesis
      using inv pc_ok_at [OF inv(3) removed(2)]
      by (auto simp: pc_ok_def slot_is_def intro!: frame entries_ok_remove)
  next
    case (notified i slot result)
    then show ?thesis
      using inv pc_ok_at [OF inv(3) notified(2)]
      by (auto simp: pc_ok_def intro!: frame slots_ok_notify)
  next
    case (loaded_uncached i result)
    then show ?thesis
      using inv
      by (auto simp: pc_ok_def result_for_loaded intro!: frame)
  next
    case (invalidate full_name)
    then show ?thesis
      using assms(2) entries_ok_filter [of cfg c]
      by (auto simp: cache_inv_def invalidate_table_def intro: slots_ok_later [of cfg loads c] clients_ok_frame [of loads c])
  next
    case (dropped i p slot epoch)
    then show ?thesis
      using inv by (auto simp: pc_ok_def intro!: frame)
  qed
qed

lemma cache_inv_new: "cache_inv cfg loads (table_cache_new now)"
  by (simp add: cache_inv_def entries_ok_def slots_ok_def clients_ok_def at_pc_def table_cache_new_def)

lemma cache_inv_reachable: "cache_reachable cfg loads drops c \<Longrightarrow> cache_inv cfg loads c"
  unfolding cache_reachable_def
  by (erule exE, erule rtranclp_induct) (auto intro: cache_inv_new cache_inv_step)

end
