(* ===== verification/Object_Routing.thy ===== *)
theory Object_Routing
  imports Table_Cache
begin

text \<open>
  The object stores of a query: \<open>table_object_store_route\<close> and
  \<open>ObjectStoreRouteRegistry\<close> of \<open>src/src/engine/catalog.rs\<close>, and
  \<open>PrefixRoutingObjectStore\<close> of \<open>src/src/engine.rs\<close>. Every table of a query is
  read with credentials of its own, through its own store; the tables of one bucket share a
  router that picks the store by the longest path prefix.

  A store is the identity of its \<open>Arc\<close>, an object path the normalized path as a string.
  The \<open>url\<close> crate and the path normalization of \<open>object_store\<close> are parameters; a URL
  is its serialization. What a store does is a parameter too, a function on a state of the
  caller's choice.
\<close>

section \<open>The route of a table\<close>

record url_fns =
  uf_parse :: "string \<Rightarrow> string + string"
  uf_host_str :: "string \<Rightarrow> string option"
  uf_path :: "string \<Rightarrow> string"
  uf_set_path :: "string \<Rightarrow> string \<Rightarrow> string"
  uf_set_query :: "string option \<Rightarrow> string \<Rightarrow> string"
  uf_set_fragment :: "string option \<Rightarrow> string \<Rightarrow> string"
  uf_from_url_path :: "string \<Rightarrow> string + string"

definition table_object_store_route :: "url_fns \<Rightarrow> string \<Rightarrow> (string \<times> string) res" where
  "table_object_store_route uf table_url =
     (case uf_parse uf table_url of
        Inl err \<Rightarrow> Inl (Url err)
      | Inr parsed \<Rightarrow>
          (if uf_host_str uf parsed = None
           then Inl (Query (''table storage URL has no host: '' @ table_url))
           else (case uf_from_url_path uf (uf_path uf parsed) of
               Inl err \<Rightarrow> Inl (Query (''invalid table storage path: '' @ err))
             | Inr object_prefix \<Rightarrow>
                 Inr (uf_set_fragment uf None (uf_set_query uf None (uf_set_path uf '''' parsed)), object_prefix))))"

section \<open>The registry\<close>

record object_store_route =
  osr_prefix :: string
  osr_store :: nat

type_synonym route_registry = "(string \<times> string \<times> object_store_route list) list"

definition registry_new :: route_registry where
  "registry_new = []"

definition record_store :: "string \<Rightarrow> string \<Rightarrow> nat \<Rightarrow> route_registry \<Rightarrow> route_registry" where
  "record_store url object_prefix store registry =
     (let (entry_url, routes) = (case map_of registry url of Some e \<Rightarrow> e | None \<Rightarrow> (url, []))
      in AList.update url
           (entry_url, filter (\<lambda>r. osr_prefix r \<noteq> object_prefix) routes @
              [\<lparr>osr_prefix = object_prefix, osr_store = store\<rparr>]) registry)"

definition record_table :: "cached_table \<Rightarrow> route_registry \<Rightarrow> route_registry" where
  "record_table cached_table registry =
     record_store (ct_object_store_url cached_table) (ct_object_prefix cached_table)
       (ct_object_store cached_table) registry"

definition registry_routes :: "route_registry \<Rightarrow> (string \<times> object_store_route list) list" where
  "registry_routes registry = map snd registry"

section \<open>The router\<close>

datatype object_store_error =
    PermissionDenied string string
  | Generic string string
  | NotSupported string
  | StoreError string

definition path_has_prefix :: "string \<Rightarrow> string \<Rightarrow> bool" where
  "path_has_prefix path pre \<longleftrightarrow>
     pre = [] \<or> path = pre \<or>
     (case strip_prefix path pre of Some rest \<Rightarrow> starts_with rest ''/'' | None \<Rightarrow> False)"

definition no_route_error :: "string \<Rightarrow> object_store_error" where
  "no_route_error location =
     PermissionDenied location (''no Unity table credential route matched object path '' @ location)"

definition route_store_for_location ::
  "object_store_route list \<Rightarrow> string \<Rightarrow> object_store_error + nat" where
  "route_store_for_location routes location =
     (case find (\<lambda>route. path_has_prefix location (osr_prefix route)) routes of
        Some route \<Rightarrow> Inr (osr_store route)
      | None \<Rightarrow> Inl (no_route_error location))"

text \<open>\<open>PrefixRoutingObjectStore::new\<close>: a stable sort by decreasing length of the prefix.\<close>

definition prefix_routing_new :: "object_store_route list \<Rightarrow> object_store_route list" where
  "prefix_routing_new routes = sort_key (\<lambda>route. - int (length (osr_prefix route))) routes"

definition first_store :: "object_store_route list \<Rightarrow> string \<Rightarrow> object_store_error + nat" where
  "first_store routes operation =
     (case routes of
        route # _ \<Rightarrow> Inr (osr_store route)
      | [] \<Rightarrow> Inl (Generic ''prefix-routing'' (''no object stores registered for '' @ operation)))"

definition store_for_prefix ::
  "object_store_route list \<Rightarrow> string option \<Rightarrow> object_store_error + nat" where
  "store_for_prefix routes pre =
     (case pre of
        None \<Rightarrow> first_store routes ''root list''
      | Some p \<Rightarrow>
          (case route_store_for_location routes p of
             Inr store \<Rightarrow> Inr store
           | Inl _ \<Rightarrow>
               (case find (\<lambda>route. path_has_prefix (osr_prefix route) p) routes of
                  Some route \<Rightarrow> Inr (osr_store route)
                | None \<Rightarrow> Inl (no_route_error p))))"

text \<open>
  The operations of the \<open>ObjectStore\<close> trait, with the payload and the options they pass on
  as \<open>'o\<close>. \<open>Delete\<close> is the call that \<open>delete_stream\<close> makes for one location.
\<close>

datatype 'o store_call =
    PutOpts string 'o
  | PutMultipartOpts string 'o
  | GetOpts string 'o
  | Delete string
  | List "string option"
  | ListWithOffset "string option" string
  | ListWithDelimiter "string option"
  | CopyOpts string string 'o

definition routed_store :: "object_store_route list \<Rightarrow> 'o store_call \<Rightarrow> object_store_error + nat" where
  "routed_store routes call =
     (case call of
        PutOpts location _ \<Rightarrow> route_store_for_location routes location
      | PutMultipartOpts location _ \<Rightarrow> route_store_for_location routes location
      | GetOpts location _ \<Rightarrow> route_store_for_location routes location
      | Delete location \<Rightarrow> route_store_for_location routes location
      | List pre \<Rightarrow> store_for_prefix routes pre
      | ListWithOffset pre _ \<Rightarrow> store_for_prefix routes pre
      | ListWithDelimiter pre \<Rightarrow> store_for_prefix routes pre
      | CopyOpts from to _ \<Rightarrow>
          (case route_store_for_location routes from of
             Inl e \<Rightarrow> Inl e
           | Inr from_store \<Rightarrow>
               (case route_store_for_location routes to of
                  Inl e \<Rightarrow> Inl e
                | Inr to_store \<Rightarrow>
                    if from_store \<noteq> to_store
                    then Inl (NotSupported ''cross-prefix copy is not supported by prefix routing object store'')
                    else Inr from_store)))"

text \<open>\<open>backend\<close> is what a store does with a call.\<close>

definition routed_call ::
  "object_store_route list \<Rightarrow> (nat \<Rightarrow> 'o store_call \<Rightarrow> 's \<Rightarrow> (object_store_error + 'r) \<times> 's) \<Rightarrow>
   'o store_call \<Rightarrow> 's \<Rightarrow> (object_store_error + 'r) \<times> 's" where
  "routed_call routes backend call s =
     (case routed_store routes call of
        Inl e \<Rightarrow> (Inl e, s)
      | Inr store \<Rightarrow> backend store call s)"

text \<open>
  \<open>delete_stream\<close>, for the schedule that finishes the deletions in their order: up to ten
  run at a time, and the results come in the order of the locations.
\<close>

fun delete_stream ::
  "object_store_route list \<Rightarrow> (nat \<Rightarrow> 'o store_call \<Rightarrow> 's \<Rightarrow> (object_store_error + 'r) \<times> 's) \<Rightarrow>
   (object_store_error + string) list \<Rightarrow> 's \<Rightarrow> (object_store_error + string) list \<times> 's" where
  "delete_stream routes backend [] s = ([], s)"
| "delete_stream routes backend (location # locations) s =
     (let (r, s') = (case location of
            Inl e \<Rightarrow> (Inl e, s)
          | Inr path \<Rightarrow>
              (case routed_call routes backend (Delete path) s of
                 (Inl e, s1) \<Rightarrow> (Inl e, s1)
               | (Inr _, s1) \<Rightarrow> (Inr path, s1)));
          (rs, s'') = delete_stream routes backend locations s'
      in (r # rs, s''))"

section \<open>Paths as components\<close>

lemma split_char_append: "split_char c (s @ c # t) = split_char c s @ split_char c t"
  by (induction s) (auto split: list.splits)

lemma join_append: "xs \<noteq> [] \<Longrightarrow> ys \<noteq> [] \<Longrightarrow> join sep (xs @ ys) = join sep xs @ sep @ join sep ys"
proof (induction sep xs rule: join.induct)
  case (2 sep x)
  then show ?case by (cases ys) auto
qed auto

text \<open>The prefix test of the router is the prefix order on the components of a path.\<close>

lemma path_has_prefix_components:
  "path_has_prefix path pre \<longleftrightarrow> pre = [] \<or> prefix (split_char CHR ''/'' pre) (split_char CHR ''/'' path)"
proof
  assume "path_has_prefix path pre"
  then consider "pre = []" | "path = pre" | rest where "path = pre @ CHR ''/'' # rest"
    by (auto simp: path_has_prefix_def strip_prefix_Some starts_with_def neq_Nil_conv split: option.splits)
       (metis append_Cons self_append_conv2 take_Suc_Cons take_eq_Nil list.inject neq_Nil_conv)
  then show "pre = [] \<or> prefix (split_char CHR ''/'' pre) (split_char CHR ''/'' path)"
    by cases (simp_all add: split_char_append)
next
  assume *: "pre = [] \<or> prefix (split_char CHR ''/'' pre) (split_char CHR ''/'' path)"
  show "path_has_prefix path pre"
  proof (cases "pre = []")
    case False
    with * obtain rest where rest: "split_char CHR ''/'' path = split_char CHR ''/'' pre @ rest"
      by (auto simp: prefix_def)
    have path: "path = join ''/'' (split_char CHR ''/'' pre @ rest)"
      by (metis join_split_char rest)
    show ?thesis
    proof (cases "rest = []")
      case True
      then show ?thesis using path by (simp add: path_has_prefix_def)
    next
      case rest_ne: False
      then have "path = pre @ ''/'' @ join ''/'' rest"
        using path by (simp add: join_append)
      then show ?thesis by (simp add: path_has_prefix_def strip_prefix_def starts_with_def)
    qed
  qed (simp add: path_has_prefix_def)
qed

lemma path_has_prefix_take: "path_has_prefix path pre \<Longrightarrow> take (length pre) path = pre"
  by (auto simp: path_has_prefix_def strip_prefix_def starts_with_def split: if_splits)

section \<open>What the registry holds\<close>

text \<open>
  \<open>record_stores\<close> is the registry of a query that has recorded the given URLs, prefixes and
  stores, in this order; \<open>registered\<close> is what it should hold: the last store recorded for
  a URL and a prefix.
\<close>

definition record_stores :: "(string \<times> string \<times> nat) list \<Rightarrow> route_registry" where
  "record_stores recs = fold (\<lambda>(url, pre, store). record_store url pre store) recs registry_new"

definition registered :: "(string \<times> string \<times> nat) list \<Rightarrow> string \<Rightarrow> string \<Rightarrow> nat \<Rightarrow> bool" where
  "registered recs url pre store \<longleftrightarrow> map_of (rev (map (\<lambda>(u, p, st). ((u, p), st)) recs)) (url, pre) = Some store"

definition routes_of :: "route_registry \<Rightarrow> string \<Rightarrow> object_store_route list" where
  "routes_of registry url = (case map_of registry url of Some (_, routes) \<Rightarrow> routes | None \<Rightarrow> [])"

lemma registered_snoc:
  "registered (recs @ [(u, p, st)]) url pre store \<longleftrightarrow>
     (if url = u \<and> pre = p then store = st else registered recs url pre store)"
  by (auto simp: registered_def)

lemma record_stores_snoc: "record_stores (recs @ [(u, p, st)]) = record_store u p st (record_stores recs)"
  by (simp add: record_stores_def)

lemma routes_of_record:
  "routes_of (record_store u p st reg) url =
     (if url = u then filter (\<lambda>r. osr_prefix r \<noteq> p) (routes_of reg u) @ [\<lparr>osr_prefix = p, osr_store = st\<rparr>]
      else routes_of reg url)"
  by (auto simp: routes_of_def record_store_def update_conv' split: option.splits)

lemma routes_of_registered:
  "distinct (map osr_prefix (routes_of (record_stores recs) url)) \<and>
   (r \<in> set (routes_of (record_stores recs) url) \<longleftrightarrow> registered recs url (osr_prefix r) (osr_store r))"
proof (induction recs arbitrary: r rule: rev_induct)
  case Nil
  then show ?case by (simp add: record_stores_def registry_new_def routes_of_def registered_def)
next
  case (snoc rec recs)
  obtain u p st where rec: "rec = (u, p, st)" by (cases rec)
  have "distinct (map osr_prefix (filter (\<lambda>r. osr_prefix r \<noteq> p) (routes_of (record_stores recs) u)))" if "url = u"
    using snoc.IH that by (simp add: distinct_map_filter)
  moreover have "r = \<lparr>osr_prefix = p, osr_store = st\<rparr> \<longleftrightarrow> osr_prefix r = p \<and> osr_store r = st"
    by (cases r) auto
  ultimately show ?case
    unfolding rec record_stores_snoc routes_of_record registered_snoc using snoc.IH by auto
qed

lemma set_update_subset: "x \<in> set (AList.update k v al) \<Longrightarrow> x = (k, v) \<or> x \<in> set al"
  by (induction al) (auto split: if_splits)

lemma registry_urls:
  "distinct (map fst (record_stores recs)) \<and>
   (\<forall>(key, url, routes) \<in> set (record_stores recs). key = url)"
proof (induction recs rule: rev_induct)
  case Nil
  then show ?case by (simp add: record_stores_def registry_new_def)
next
  case (snoc rec recs)
  obtain u p st where rec: "rec = (u, p, st)" by (cases rec)
  let ?reg = "record_stores recs"
  have url: "case map_of ?reg u of Some e \<Rightarrow> fst e = u | None \<Rightarrow> True"
    using snoc.IH by (auto dest!: map_of_SomeD split: option.splits)
  obtain rs where "record_store u p st ?reg = AList.update u (u, rs) ?reg"
    using url by (auto simp: record_store_def Let_def split: option.splits prod.splits)
  moreover have "\<forall>x \<in> set (AList.update u (u, rs) ?reg). x = (u, u, rs) \<or> x \<in> set ?reg"
    by (blast dest: set_update_subset)
  ultimately show ?case
    unfolding rec record_stores_snoc using snoc.IH by (auto simp: distinct_update)
qed

lemma registry_routesD:
  assumes "(url, routes) \<in> set (registry_routes (record_stores recs))"
  shows "routes = routes_of (record_stores recs) url"
proof -
  obtain key where "(key, url, routes) \<in> set (record_stores recs)"
    using assms by (auto simp: registry_routes_def)
  then show ?thesis
    using registry_urls [of recs] by (force simp: routes_of_def map_of_eq_Some_iff)
qed

section \<open>The longest prefix wins\<close>

lemma find_sort_key_least:
  assumes "find P (sort_key f xs) = Some x"
  shows "x \<in> set xs \<and> P x \<and> (\<forall>y \<in> set xs. P y \<longrightarrow> f x \<le> f y)"
proof -
  obtain i where i: "i < length (sort_key f xs)" "P (sort_key f xs ! i)" "x = sort_key f xs ! i"
      "\<forall>j < i. \<not> P (sort_key f xs ! j)"
    using assms unfolding find_Some_iff by blast
  have "f x \<le> f y" if y: "y \<in> set xs" "P y" for y
  proof -
    obtain j where j: "j < length (sort_key f xs)" "y = sort_key f xs ! j"
      using y(1) by (metis in_set_conv_nth set_sort)
    then have "i \<le> j" using i(4) y(2) by (metis not_le)
    then show ?thesis
      using sorted_nth_mono [of "map f (sort_key f xs)" i j] i(3) j by simp
  qed
  then show ?thesis using i nth_mem [OF i(1)] by simp
qed

lemma covering_prefix_unique:
  "path_has_prefix location p \<Longrightarrow> path_has_prefix location q \<Longrightarrow> length p = length q \<Longrightarrow> p = q"
  by (metis path_has_prefix_take)

text \<open>
  \<open>serves\<close>: the store registered for the longest prefix that a location lies under.
\<close>

definition serves :: "(string \<times> string \<times> nat) list \<Rightarrow> string \<Rightarrow> string \<Rightarrow> nat \<Rightarrow> bool" where
  "serves recs url location store \<longleftrightarrow>
     (\<exists>pre. registered recs url pre store \<and> path_has_prefix location pre \<and>
        (\<forall>pre' store'. registered recs url pre' store' \<and> path_has_prefix location pre' \<longrightarrow> length pre' \<le> length pre))"

lemma registered_functional: "registered recs url pre st1 \<Longrightarrow> registered recs url pre st2 \<Longrightarrow> st1 = st2"
  by (simp add: registered_def)

lemma serves_functional: "serves recs url location st1 \<Longrightarrow> serves recs url location st2 \<Longrightarrow> st1 = st2"
  unfolding serves_def by (metis covering_prefix_unique le_antisym registered_functional)

lemma route_store_serves:
  assumes "(url, routes) \<in> set (registry_routes (record_stores recs))"
  shows "case route_store_for_location (prefix_routing_new routes) location of
      Inr store \<Rightarrow> serves recs url location store
    | Inl e \<Rightarrow> e = no_route_error location \<and> (\<forall>pre store. registered recs url pre store \<longrightarrow> \<not> path_has_prefix location pre)"
proof -
  have reg: "r \<in> set routes \<longleftrightarrow> registered recs url (osr_prefix r) (osr_store r)" for r
    using registry_routesD [OF assms] routes_of_registered [of recs url r] by simp
  let ?find = "find (\<lambda>route. path_has_prefix location (osr_prefix route)) (prefix_routing_new routes)"
  show ?thesis
  proof (cases ?find)
    case None
    then have "\<not> path_has_prefix location pre" if "registered recs url pre store" for pre store
      using reg [of "\<lparr>osr_prefix = pre, osr_store = store\<rparr>"] that
      by (force simp: find_None_iff prefix_routing_new_def)
    with None show ?thesis by (auto simp: route_store_for_location_def)
  next
    case (Some r)
    have least: "r \<in> set routes" "path_has_prefix location (osr_prefix r)"
        "\<forall>q \<in> set routes. path_has_prefix location (osr_prefix q) \<longrightarrow> length (osr_prefix q) \<le> length (osr_prefix r)"
      using find_sort_key_least [OF Some [unfolded prefix_routing_new_def]] by auto
    have "length pre' \<le> length (osr_prefix r)" if "registered recs url pre' store'" "path_has_prefix location pre'" for pre' store'
      using least(3) reg [of "\<lparr>osr_prefix = pre', osr_store = store'\<rparr>"] that by force
    with least(1,2) show ?thesis
      using Some by (auto simp: route_store_for_location_def serves_def reg)
  qed
qed

lemma route_store_eq:
  assumes "(url, routes) \<in> set (registry_routes (record_stores recs))"
  shows "route_store_for_location (prefix_routing_new routes) location = Inr store \<longleftrightarrow> serves recs url location store"
    and "route_store_for_location (prefix_routing_new routes) location = Inl e \<longleftrightarrow>
      e = no_route_error location \<and> (\<nexists>store. serves recs url location store)"
proof -
  have none: "\<not> serves recs url location store" if "\<forall>pre store. registered recs url pre store \<longrightarrow> \<not> path_has_prefix location pre" for store
    using that by (auto simp: serves_def)
  show "route_store_for_location (prefix_routing_new routes) location = Inr store \<longleftrightarrow> serves recs url location store"
    using route_store_serves [OF assms, of location] none serves_functional
    by (auto split: sum.splits)
  show "route_store_for_location (prefix_routing_new routes) location = Inl e \<longleftrightarrow>
      e = no_route_error location \<and> (\<nexists>store. serves recs url location store)"
    using route_store_serves [OF assms, of location] none
    by (auto split: sum.splits)
qed

section \<open>Calls\<close>

text \<open>The locations a call reads or writes; the listing calls are routed by their prefix.\<close>

fun call_locations :: "'o store_call \<Rightarrow> string list" where
  "call_locations (PutOpts location _) = [location]"
| "call_locations (PutMultipartOpts location _) = [location]"
| "call_locations (GetOpts location _) = [location]"
| "call_locations (Delete location) = [location]"
| "call_locations (CopyOpts from to _) = [from, to]"
| "call_locations _ = []"

lemma routed_call_serves:
  assumes "(url, routes) \<in> set (registry_routes (record_stores recs))" "call_locations call \<noteq> []"
  shows "(\<forall>location \<in> set (call_locations call). serves recs url location store) \<Longrightarrow>
      routed_call (prefix_routing_new routes) backend call s = backend store call s"
    and "(\<nexists>store. \<forall>location \<in> set (call_locations call). serves recs url location store) \<Longrightarrow>
      \<exists>e. routed_call (prefix_routing_new routes) backend call s = (Inl e, s)"
proof -
  note eqs = route_store_eq(1) [OF assms(1), symmetric]
  show "routed_call (prefix_routing_new routes) backend call s = backend store call s"
    if "\<forall>location \<in> set (call_locations call). serves recs url location store"
    using that assms(2) by (cases call) (simp_all add: routed_call_def routed_store_def eqs)
  show "\<exists>e. routed_call (prefix_routing_new routes) backend call s = (Inl e, s)"
    if "\<nexists>store. \<forall>location \<in> set (call_locations call). serves recs url location store"
    using that assms(2) by (cases call) (auto simp: routed_call_def routed_store_def eqs split: sum.splits)
qed

end
