(* ===== verification/Unity_Catalog.thy ===== *)
theory Unity_Catalog
  imports Harbor_Error
begin

text \<open>
  The client of Unity Catalog (\<open>src/src/unity.rs\<close>): the records of the service, the
  decoding of its answers, and the three listings, which follow \<open>next_page_token\<close> until the
  service returns none.

  The HTTP client is a parameter: \<open>send\<close> answers a request, or fails with the text of the
  transport error. Decoding a JSON body into a record is generated code, so the decoders are
  parameters, and so are percent encoding, the text of a status and the redaction patterns.
\<close>

section \<open>Records\<close>

record column_info =
  ci_name :: string
  ci_position :: "i32 option"
  ci_type_name :: "string option"
  ci_type_text :: "string option"
  ci_type_precision :: "i32 option"
  ci_type_scale :: "i32 option"
  ci_nullable :: "bool option"
  ci_comment :: "string option"

record table_info =
  ti_table_id :: "string option"
  ti_full_name :: string
  ti_name :: "string option"
  ti_catalog_name :: "string option"
  ti_schema_name :: "string option"
  ti_table_type :: "string option"
  ti_data_source_format :: "string option"
  ti_storage_location :: "string option"
  ti_comment :: "string option"
  ti_owner :: "string option"
  ti_created_at :: "i64 option"
  ti_created_by :: "string option"
  ti_updated_at :: "i64 option"
  ti_updated_by :: "string option"
  ti_columns :: "column_info list"

record catalog_info =
  cat_name :: string
  cat_catalog_type :: "string option"

record schema_info =
  si_name :: string
  si_full_name :: "string option"

record 'a list_response =
  lr_items :: "'a list"
  lr_next_page_token :: "string option"

record temporary_table_credentials =
  tc_access_key_id :: string
  tc_secret_access_key :: string
  tc_session_token :: string
  tc_expiration_time :: i64
  tc_url :: string

record databricks_error =
  de_error_code :: "string option"
  de_message :: string

section \<open>Requests\<close>

text \<open>The values of \<open>serde_json\<close>, numbers being the integers that the source uses.\<close>

datatype json =
    JNull
  | JBool bool
  | JNumber int
  | JString string
  | JArray "json list"
  | JObject "(string \<times> json) list"

text \<open>Indexing and reading JSON values, as \<open>serde_json::Value\<close> does.\<close>

definition json_index :: "json \<Rightarrow> string \<Rightarrow> json" where
  "json_index v key =
     (case v of JObject entries \<Rightarrow> (case map_of entries key of Some w \<Rightarrow> w | None \<Rightarrow> JNull) | _ \<Rightarrow> JNull)"

definition as_str :: "json \<Rightarrow> string option" where
  "as_str v = (case v of JString s \<Rightarrow> Some s | _ \<Rightarrow> None)"

definition as_array :: "json \<Rightarrow> json list option" where
  "as_array v = (case v of JArray vs \<Rightarrow> Some vs | _ \<Rightarrow> None)"

datatype http_body = TableCredentials string string | PathCredentials string string | ExternalTable json

datatype http_request =
    HttpGet string string
  | HttpPost string string http_body

record http_response =
  hr_status :: nat
  hr_body :: string

text \<open>\<open>http_fns\<close>: the services of the HTTP, JSON and encoding crates.\<close>

record http_fns =
  hf_send :: "http_request \<Rightarrow> string + http_response"
  hf_encode :: "string \<Rightarrow> string"
  hf_status_text :: "nat \<Rightarrow> string"
  hf_error :: "string \<Rightarrow> databricks_error option"
  hf_redact :: "string \<Rightarrow> nat \<Rightarrow> string"
  hf_catalogs :: "string \<Rightarrow> string + catalog_info list_response"
  hf_schemas :: "string \<Rightarrow> string + schema_info list_response"
  hf_tables :: "string \<Rightarrow> string + table_info list_response"
  hf_table :: "string \<Rightarrow> string + table_info"
  hf_credentials :: "string \<Rightarrow> string + temporary_table_credentials"
  hf_json :: "string \<Rightarrow> string + json"

record unity_client =
  uc_host :: string

definition is_success :: "nat \<Rightarrow> bool" where
  "is_success status \<longleftrightarrow> 200 \<le> status \<and> status < 300"

definition decode_response :: "http_fns \<Rightarrow> (string \<Rightarrow> string + 'a) \<Rightarrow> http_response \<Rightarrow> 'a res" where
  "decode_response hf decode response =
     (if is_success (hr_status response)
      then (case decode (hr_body response) of Inl err \<Rightarrow> Inl (Http err) | Inr x \<Rightarrow> Inr x)
      else (case hf_error hf (hr_body response) of
          Some error \<Rightarrow>
            Inl (Unity (hf_redact hf
              ((case de_error_code error of Some code \<Rightarrow> code | None \<Rightarrow> hf_status_text hf (hr_status response)) @
               '': '' @ de_message error) 600))
        | None \<Rightarrow>
            Inl (Unity (hf_redact hf
              (''HTTP '' @ hf_status_text hf (hr_status response) @ '' from Unity Catalog: '' @ hr_body response) 600))))"

definition unity_get :: "http_fns \<Rightarrow> (string \<Rightarrow> string + 'a) \<Rightarrow> string \<Rightarrow> string \<Rightarrow> 'a res" where
  "unity_get hf decode bearer_token url =
     (case hf_send hf (HttpGet bearer_token url) of
        Inl err \<Rightarrow> Inl (Http err)
      | Inr response \<Rightarrow> decode_response hf decode response)"

definition unity_post :: "http_fns \<Rightarrow> (string \<Rightarrow> string + 'a) \<Rightarrow> string \<Rightarrow> string \<Rightarrow> http_body \<Rightarrow> 'a res" where
  "unity_post hf decode bearer_token url body =
     (case hf_send hf (HttpPost bearer_token url body) of
        Inl err \<Rightarrow> Inl (Http err)
      | Inr response \<Rightarrow> decode_response hf decode response)"

definition append_page_token :: "http_fns \<Rightarrow> string \<Rightarrow> string option \<Rightarrow> string" where
  "append_page_token hf url page_token =
     (case page_token of Some t \<Rightarrow> url @ ''&page_token='' @ hf_encode hf t | None \<Rightarrow> url)"

section \<open>Listings\<close>

text \<open>
  The loop of the three listings: \<open>get_page\<close> is the request for a page token. It may run for
  ever if the service never stops handing out tokens.
\<close>

partial_function (option) list_loop ::
  "(string option \<Rightarrow> 'a list_response res) \<Rightarrow> string option \<Rightarrow> 'a list \<Rightarrow> 'a list res option" where
  "list_loop get_page page_token items =
     (case get_page page_token of
        Inl e \<Rightarrow> Some (Inl e)
      | Inr response \<Rightarrow>
          (let items = items @ lr_items response in
           case lr_next_page_token response of
             Some next_page_token \<Rightarrow>
               if next_page_token = [] then Some (Inr items)
               else list_loop get_page (Some next_page_token) items
           | None \<Rightarrow> Some (Inr items)))"

definition catalogs_page :: "http_fns \<Rightarrow> unity_client \<Rightarrow> string \<Rightarrow> string option \<Rightarrow> catalog_info list_response res" where
  "catalogs_page hf client bearer_token page_token =
     unity_get hf (hf_catalogs hf) bearer_token
       (append_page_token hf (uc_host client @ ''/api/2.1/unity-catalog/catalogs?max_results=0'') page_token)"

definition unity_catalogs :: "http_fns \<Rightarrow> unity_client \<Rightarrow> string \<Rightarrow> catalog_info list res option" where
  "unity_catalogs hf client bearer_token = list_loop (catalogs_page hf client bearer_token) None []"

definition schemas_page ::
  "http_fns \<Rightarrow> unity_client \<Rightarrow> string \<Rightarrow> string \<Rightarrow> string option \<Rightarrow> schema_info list_response res" where
  "schemas_page hf client bearer_token catalog_name page_token =
     unity_get hf (hf_schemas hf) bearer_token
       (append_page_token hf (uc_host client @ ''/api/2.1/unity-catalog/schemas?catalog_name='' @
          hf_encode hf catalog_name @ ''&max_results=0'') page_token)"

definition unity_schemas :: "http_fns \<Rightarrow> unity_client \<Rightarrow> string \<Rightarrow> string \<Rightarrow> schema_info list res option" where
  "unity_schemas hf client bearer_token catalog_name =
     list_loop (schemas_page hf client bearer_token catalog_name) None []"

definition tables_page ::
  "http_fns \<Rightarrow> unity_client \<Rightarrow> string \<Rightarrow> string \<Rightarrow> string \<Rightarrow> string option \<Rightarrow> table_info list_response res" where
  "tables_page hf client bearer_token catalog_name schema_name page_token =
     unity_get hf (hf_tables hf) bearer_token
       (append_page_token hf (uc_host client @ ''/api/2.1/unity-catalog/tables?catalog_name='' @
          hf_encode hf catalog_name @ ''&schema_name='' @ hf_encode hf schema_name @
          ''&max_results=0&omit_columns=true&omit_properties=true&omit_username=false'') page_token)"

definition unity_tables ::
  "http_fns \<Rightarrow> unity_client \<Rightarrow> string \<Rightarrow> string \<Rightarrow> string \<Rightarrow> table_info list res option" where
  "unity_tables hf client bearer_token catalog_name schema_name =
     list_loop (tables_page hf client bearer_token catalog_name schema_name) None []"

section \<open>Tables and credentials\<close>

definition unity_table :: "http_fns \<Rightarrow> unity_client \<Rightarrow> string \<Rightarrow> string \<Rightarrow> table_info res" where
  "unity_table hf client bearer_token full_name =
     unity_get hf (hf_table hf) bearer_token
       (uc_host client @ ''/api/2.1/unity-catalog/tables/'' @ hf_encode hf full_name @
        ''?include_delta_metadata=true&include_manifest_capabilities=true'')"

definition unity_table_details :: "http_fns \<Rightarrow> unity_client \<Rightarrow> string \<Rightarrow> string \<Rightarrow> json res" where
  "unity_table_details hf client bearer_token full_name =
     unity_get hf (hf_json hf) bearer_token
       (uc_host client @ ''/api/2.1/unity-catalog/tables/'' @ hf_encode hf full_name @
        ''?include_delta_metadata=true&include_manifest_capabilities=true'')"

definition table_credentials ::
  "http_fns \<Rightarrow> unity_client \<Rightarrow> string \<Rightarrow> string \<Rightarrow> string \<Rightarrow> temporary_table_credentials res" where
  "table_credentials hf client bearer_token table_id operation =
     unity_post hf (hf_credentials hf) bearer_token
       (uc_host client @ ''/api/2.1/unity-catalog/temporary-table-credentials'')
       (TableCredentials table_id operation)"

definition temporary_table_creds ::
  "http_fns \<Rightarrow> unity_client \<Rightarrow> string \<Rightarrow> string \<Rightarrow> temporary_table_credentials res" where
  "temporary_table_creds hf client bearer_token table_id = table_credentials hf client bearer_token table_id ''READ''"

definition create_path_credentials ::
  "http_fns \<Rightarrow> unity_client \<Rightarrow> string \<Rightarrow> string \<Rightarrow> temporary_table_credentials res" where
  "create_path_credentials hf client bearer_token location =
     unity_post hf (hf_credentials hf) bearer_token
       (uc_host client @ ''/api/2.1/unity-catalog/temporary-path-credentials'')
       (PathCredentials location ''PATH_CREATE_TABLE'')"

definition create_external_table :: "http_fns \<Rightarrow> unity_client \<Rightarrow> string \<Rightarrow> json \<Rightarrow> table_info res" where
  "create_external_table hf client bearer_token request =
     unity_post hf (hf_table hf) bearer_token (uc_host client @ ''/api/2.1/unity-catalog/tables'')
       (ExternalTable request)"

section \<open>What a listing returns\<close>

text \<open>
  \<open>pages get_page token items\<close>: from a token on, the service has finitely many pages left,
  and they hold these items.
\<close>

inductive pages :: "(string option \<Rightarrow> 'a list_response res) \<Rightarrow> string option \<Rightarrow> 'a list \<Rightarrow> bool" for get_page where
  last_page: "get_page t = Inr r \<Longrightarrow> lr_next_page_token r \<in> {None, Some []} \<Longrightarrow> pages get_page t (lr_items r)"
| next_page: "get_page t = Inr r \<Longrightarrow> lr_next_page_token r = Some t' \<Longrightarrow> t' \<noteq> [] \<Longrightarrow> pages get_page (Some t') items \<Longrightarrow>
    pages get_page t (lr_items r @ items)"

lemma list_loop_pages: "pages get_page t items \<Longrightarrow> list_loop get_page t acc = Some (Inr (acc @ items))"
  by (induction arbitrary: acc rule: pages.induct) (auto simp: list_loop.simps [of get_page])

text \<open>
  Whenever the loop returns, it returns the items of all pages, or the error of one of them.
\<close>

lemma list_loop_returns:
  assumes "list_loop get_page t acc = Some r"
  shows "(\<exists>items. r = Inr (acc @ items) \<and> pages get_page t items) \<or>
     (\<exists>e t'. r = Inl e \<and> get_page t' = Inl e)"
proof (rule list_loop.raw_induct [OF _ assms])
  fix loop get_page t acc r
  let ?listed = "\<lambda>get_page t acc r. (\<exists>items. r = Inr (acc @ items) \<and> pages get_page t items) \<or>
     (\<exists>e t'. r = Inl e \<and> get_page t' = Inl e)"
  assume IH: "\<And>get_page t acc r. loop get_page t acc = Some r \<Longrightarrow> ?listed get_page t acc r"
    and returned: "(case get_page t of Inl e \<Rightarrow> Some (Inl e)
      | Inr response \<Rightarrow> (let items = acc @ lr_items response in
           case lr_next_page_token response of
             Some next_page_token \<Rightarrow>
               if next_page_token = [] then Some (Inr items) else loop get_page (Some next_page_token) items
           | None \<Rightarrow> Some (Inr items))) = Some r"
  show "?listed get_page t acc r"
  proof (cases "get_page t")
    case (Inl e)
    then show ?thesis using returned by auto
  next
    case (Inr p)
    consider (finished) "lr_next_page_token p \<in> {None, Some []}" | (more) t' where "lr_next_page_token p = Some t'" "t' \<noteq> []"
      by (cases "lr_next_page_token p") auto
    then show ?thesis
    proof cases
      case finished
      then have "r = Inr (acc @ lr_items p)" using returned Inr by (auto simp: Let_def)
      then show ?thesis using pages.last_page [of get_page t p] Inr finished by blast
    next
      case (more t')
      then have "loop get_page (Some t') (acc @ lr_items p) = Some r"
        using returned Inr by (simp add: Let_def)
      from IH [OF this] show ?thesis
        using pages.next_page [of get_page t p t'] Inr more by auto
    qed
  qed
qed

lemma list_loop_iff: "list_loop get_page t [] = Some (Inr items) \<longleftrightarrow> pages get_page t items"
  using list_loop_pages [of get_page t items "[]"] list_loop_returns [of get_page t "[]"] by fastforce

end
