(* ===== verification/Writes.thy ===== *)
theory Writes
  imports Effect_Programs Sql_Rewrite Object_Routing Unity_Catalog
begin

text \<open>
  \<open>CREATE OR REPLACE TABLE ... USING DELTA LOCATION ... AS SELECT ...\<close>
  (\<open>src/src/engine/write.rs\<close>): the parser of the one statement that writes, the checks on its
  location and on the table it replaces, and its execution as a program of requests to Unity
  Catalog, to the Delta table and to DataFusion.

  The methods of \<open>sqlparser\<close>'s parser that the source calls, URLs, Unicode lower case, the
  text of JSON values and Delta tables are parameters.
\<close>

section \<open>Parsing\<close>

record ctas =
  ctas_catalog :: string
  ctas_schema :: string
  ctas_name :: string
  ctas_location :: string
  ctas_query :: string

record location_fns = url_fns +
  lf_scheme :: "string \<Rightarrow> string"
  lf_query :: "string \<Rightarrow> string option"
  lf_fragment :: "string \<Rightarrow> string option"
  lf_username :: "string \<Rightarrow> string"
  lf_password :: "string \<Rightarrow> string option"

definition unsupported :: "string \<Rightarrow> harbor_error" where
  "unsupported message = UnsupportedSql message"

definition trim_matches :: "char \<Rightarrow> string \<Rightarrow> string" where
  "trim_matches c s = trim_end_matches c (dropWhile (\<lambda>x. x = c) s)"

definition validate_location :: "location_fns \<Rightarrow> string \<Rightarrow> string res" where
  "validate_location lf location =
     (case uf_parse lf location of
        Inl err \<Rightarrow> Inl (Url err)
      | Inr url \<Rightarrow>
          (if lf_scheme lf url \<noteq> ''s3'' \<or> uf_host_str lf url = None \<or> trim_matches CHR ''/'' (uf_path lf url) = [] \<or>
              lf_query lf url \<noteq> None \<or> lf_fragment lf url \<noteq> None \<or> lf_username lf url \<noteq> [] \<or>
              lf_password lf url \<noteq> None \<or> CHR ''%'' \<in> set (uf_path lf url) \<or> contains_str (uf_path lf url) ''//'' \<or>
              list_ex (\<lambda>part. part = ''.'' \<or> part = ''..'') (split_char CHR ''/'' location)
           then Inl (unsupported ''external CTAS requires an unambiguous s3://bucket/table-prefix LOCATION'')
           else Inr url))"

text \<open>The methods of the parser; \<open>'p\<close> is its state, an error is its text.\<close>

record 'p parser_fns =
  pf_try_with_sql :: "string \<Rightarrow> string + 'p"
  pf_parse_keyword :: "string \<Rightarrow> 'p \<Rightarrow> bool \<times> 'p"
  pf_expect_keywords :: "string list \<Rightarrow> 'p \<Rightarrow> string + 'p"
  pf_parse_object_name :: "'p \<Rightarrow> string + (name_part list \<times> 'p)"
  pf_parse_identifier :: "'p \<Rightarrow> string + (ident \<times> 'p)"
  pf_parse_literal_string :: "'p \<Rightarrow> string + (string \<times> 'p)"
  pf_parse_query :: "'p \<Rightarrow> string + (string \<times> 'p)"
  pf_consume_semicolon :: "'p \<Rightarrow> bool \<times> 'p"
  pf_expect_eof :: "'p \<Rightarrow> string + unit"

definition parse_error :: "string + 'a \<Rightarrow> 'a res" where
  "parse_error r = map_sum unsupported id r"

definition plain_name_part :: "name_part \<Rightarrow> string res" where
  "plain_name_part part =
     (case part of
        NameIdent (value, _) \<Rightarrow> Inr value
      | NameFunction _ \<Rightarrow> Inl (unsupported ''CTAS requires a plain table name''))"

definition qualified_name :: "string \<Rightarrow> string \<Rightarrow> string list \<Rightarrow> (string \<times> string \<times> string) res" where
  "qualified_name catalog schema parts =
     (case parts of
        [table] \<Rightarrow> Inr (catalog, schema, table)
      | [sch, table] \<Rightarrow> Inr (catalog, sch, table)
      | [cat, sch, table] \<Rightarrow> Inr (cat, sch, table)
      | _ \<Rightarrow> Inl (unsupported ''CTAS requires a one-, two-, or three-part name''))"

definition reserved_name :: "string \<times> string \<times> string \<Rightarrow> bool" where
  "reserved_name name =
     (case name of (catalog, schema, table) \<Rightarrow>
        list_ex (\<lambda>s. s = [] \<or> CHR ''.'' \<in> set s) [catalog, schema, table] \<or>
        eq_ignore_ascii_case catalog ''system'' \<or> eq_ignore_ascii_case schema ''information_schema'')"

definition parse_ctas :: "'p parser_fns \<Rightarrow> location_fns \<Rightarrow> string \<Rightarrow> string \<Rightarrow> string \<Rightarrow> ctas option res" where
  "parse_ctas pf lf sql catalog schema =
     sbind (parse_error (pf_try_with_sql pf sql)) (\<lambda>p.
     let (create, p) = pf_parse_keyword pf ''CREATE'' p in
     if \<not> create then Inr None
     else
     sbind (parse_error (pf_expect_keywords pf [''OR'', ''REPLACE'', ''TABLE''] p)) (\<lambda>p.
     sbind (parse_error (pf_parse_object_name pf p)) (\<lambda>(object, p).
     sbind (collect_res (map plain_name_part object)) (\<lambda>parts.
     sbind (qualified_name catalog schema parts) (\<lambda>name.
     if reserved_name name then Inl (unsupported ''unsupported CTAS target namespace'')
     else
     sbind (parse_error (pf_expect_keywords pf [''USING''] p)) (\<lambda>p.
     sbind (parse_error (pf_parse_identifier pf p)) (\<lambda>(format, p).
     if \<not> eq_ignore_ascii_case (fst format) ''delta'' then Inl (unsupported ''CTAS only supports USING DELTA'')
     else let (has_location, p) = pf_parse_keyword pf ''LOCATION'' p in
     if \<not> has_location
     then Inl (unsupported ''managed Delta CTAS requires Unity catalog commits; this writer only supports external tables with LOCATION'')
     else
     sbind (parse_error (pf_parse_literal_string pf p)) (\<lambda>(location, p).
     sbind (validate_location lf location) (\<lambda>_.
     sbind (parse_error (pf_expect_keywords pf [''AS''] p)) (\<lambda>p.
     sbind (parse_error (pf_parse_query pf p)) (\<lambda>(query, p).
     let (_, p) = pf_consume_semicolon pf p in
     sbind (parse_error (pf_expect_eof pf p)) (\<lambda>_.
       Inr (Some \<lparr>ctas_catalog = fst name, ctas_schema = fst (snd name), ctas_name = snd (snd name),
                  ctas_location = location, ctas_query = query\<rparr>)))))))))))))"

section \<open>The table that is replaced\<close>

definition validate_existing :: "(string \<Rightarrow> string) \<Rightarrow> json \<Rightarrow> string \<Rightarrow> json list \<Rightarrow> unit res" where
  "validate_existing to_lowercase details location columns =
     (if json_index details ''table_type'' \<noteq> JString ''EXTERNAL'' \<or>
         json_index details ''data_source_format'' \<noteq> JString ''DELTA'' \<or>
         map_option (trim_end_matches CHR ''/'') (as_str (json_index details ''storage_location'')) \<noteq>
           Some (trim_end_matches CHR ''/'' location)
      then Inl (unsupported ''replacement requires an existing EXTERNAL DELTA table at exactly the requested LOCATION'')
      else if json_index details ''row_filter'' \<noteq> JNull \<or>
         (case as_array (json_index details ''columns'') of
            Some cols \<Rightarrow> list_ex (\<lambda>c. json_index c ''mask'' \<noteq> JNull) cols
          | None \<Rightarrow> False)
      then Inl (unsupported ''replacing tables with row filters or column masks is not supported'')
      else case as_array (json_index details ''columns'') of
        None \<Rightarrow> Inl (unsupported ''Unity target is missing columns'')
      | Some old \<Rightarrow>
          if length old \<noteq> length columns \<or>
             list_ex (\<lambda>(a, b). json_index a ''name'' \<noteq> json_index b ''name'' \<or>
               map_option to_lowercase (as_str (json_index a ''type_text'')) \<noteq>
               map_option to_lowercase (as_str (json_index b ''type_text''))) (zip old columns)
          then Inl (unsupported ''CTAS replacement currently requires unchanged column names and types'')
          else Inr ())"

section \<open>The columns of the new table\<close>

definition unity_type :: "(data_type \<Rightarrow> string) \<Rightarrow> data_type \<Rightarrow> (string \<times> string) res" where
  "unity_type display_type t =
     (case t of
        DtInt8 \<Rightarrow> Inr (''BYTE'', ''tinyint'')
      | DtInt16 \<Rightarrow> Inr (''SHORT'', ''smallint'')
      | DtInt32 \<Rightarrow> Inr (''INT'', ''int'')
      | DtInt64 \<Rightarrow> Inr (''LONG'', ''bigint'')
      | DtFloat32 \<Rightarrow> Inr (''FLOAT'', ''float'')
      | DtFloat64 \<Rightarrow> Inr (''DOUBLE'', ''double'')
      | DtBoolean \<Rightarrow> Inr (''BOOLEAN'', ''boolean'')
      | DtUtf8 \<Rightarrow> Inr (''STRING'', ''string'')
      | DtLargeUtf8 \<Rightarrow> Inr (''STRING'', ''string'')
      | DtUtf8View \<Rightarrow> Inr (''STRING'', ''string'')
      | DtDate32 \<Rightarrow> Inr (''DATE'', ''date'')
      | DtTimestamp _ timezone \<Rightarrow>
          Inr (case timezone of None \<Rightarrow> (''TIMESTAMP_NTZ'', ''timestamp_ntz'') | Some _ \<Rightarrow> (''TIMESTAMP'', ''timestamp''))
      | DtDecimal128 p s \<Rightarrow> Inr (''DECIMAL'', ''decimal('' @ show_nat (unat p) @ '','' @ show_int (sint s) @ '')'')
      | other \<Rightarrow> Inl (unsupported (''CTAS Unity column type not supported: '' @ display_type other)))"

definition json_type_of :: "string \<Rightarrow> string \<Rightarrow> string" where
  "json_type_of name text =
     (if name = ''BYTE'' then ''byte'' else if name = ''SHORT'' then ''short''
      else if name = ''INT'' then ''integer'' else if name = ''LONG'' then ''long'' else text)"

definition unity_column ::
  "(data_type \<Rightarrow> string) \<Rightarrow> (json \<Rightarrow> string) \<Rightarrow> nat \<Rightarrow> arrow_field \<Rightarrow> json res" where
  "unity_column display_type json_to_string position field =
     sbind (unity_type display_type (fld_type field)) (\<lambda>(name, text).
       Inr (JObject
         [(''name'', JString (fld_name field)), (''position'', JNumber (int position)), (''type_name'', JString name),
          (''type_text'', JString text), (''nullable'', JBool True),
          (''type_json'', JString (json_to_string (JObject
            [(''name'', JString (fld_name field)), (''type'', JString (json_type_of name text)),
             (''nullable'', JBool True), (''metadata'', JObject [])])))]))"

definition unity_columns ::
  "(data_type \<Rightarrow> string) \<Rightarrow> (json \<Rightarrow> string) \<Rightarrow> arrow_field list \<Rightarrow> json list res" where
  "unity_columns display_type json_to_string schema_fields =
     collect_res (map (\<lambda>(position, field). unity_column display_type json_to_string position field) (enumerate 0 schema_fields))"

section \<open>Requests\<close>

type_synonym storage_opts = "(string \<times> string) list"

datatype save_mode = Overwrite | ErrorIfExists

datatype load_outcome = Loaded | NotATable string | LoadFailed string

record dataframe =
  df_fields :: "arrow_field list"
  df_plan :: nat
  df_registry :: route_registry

datatype engine_request =
    ListTables string string string
  | TableDetails string string
  | WriteCredentials string string
  | CreatePathCredentials string string
  | LoadDelta string storage_opts
  | RegisterObjectStore string "object_store_route list"
  | CommitDelta string storage_opts save_mode nat
  | RegisterTable string json
  | InvalidateTable string
  | PlanSql string
  | ExecuteStream nat

datatype engine_answer =
    TablesAnswer "table_info list res"
  | DetailsAnswer "json res"
  | CredentialsAnswer "temporary_table_credentials res"
  | LoadAnswer load_outcome
  | RegisteredAnswer
  | CommitAnswer "string + unit"
  | TableAnswer "table_info res"
  | PlanAnswer "dataframe res"
  | StreamAnswer "(string + record_batch) list res"

type_synonym 'a engine_prog = "(engine_request, engine_answer, 'a res) effect_prog"

text \<open>A request and its answer; an error of the answer ends the program, as \<open>?\<close> does.\<close>

definition list_tables :: "string \<Rightarrow> string \<Rightarrow> string \<Rightarrow> (table_info list \<Rightarrow> 'a engine_prog) \<Rightarrow> 'a engine_prog" where
  "list_tables token catalog schema k =
     Ask (ListTables token catalog schema)
       (\<lambda>r. case r of TablesAnswer (Inr x) \<Rightarrow> k x | TablesAnswer (Inl e) \<Rightarrow> Return (Inl e) | _ \<Rightarrow> Stuck)"

definition ask_details :: "string \<Rightarrow> string \<Rightarrow> (json \<Rightarrow> 'a engine_prog) \<Rightarrow> 'a engine_prog" where
  "ask_details token name k =
     Ask (TableDetails token name)
       (\<lambda>r. case r of DetailsAnswer (Inr x) \<Rightarrow> k x | DetailsAnswer (Inl e) \<Rightarrow> Return (Inl e) | _ \<Rightarrow> Stuck)"

definition ask_credentials ::
  "engine_request \<Rightarrow> (temporary_table_credentials \<Rightarrow> 'a engine_prog) \<Rightarrow> 'a engine_prog" where
  "ask_credentials q k =
     Ask q (\<lambda>r. case r of CredentialsAnswer (Inr x) \<Rightarrow> k x | CredentialsAnswer (Inl e) \<Rightarrow> Return (Inl e) | _ \<Rightarrow> Stuck)"

primrec register_stores ::
  "(string \<times> object_store_route list) list \<Rightarrow> 'a engine_prog \<Rightarrow> 'a engine_prog" where
  "register_stores [] k = k"
| "register_stores (r # rs) k =
     Ask (RegisterObjectStore (fst r) (prefix_routing_new (snd r)))
       (\<lambda>a. case a of RegisteredAnswer \<Rightarrow> register_stores rs k | _ \<Rightarrow> Stuck)"

definition or_return :: "'b res \<Rightarrow> ('b \<Rightarrow> ('q, 'r, 'a res) effect_prog) \<Rightarrow> ('q, 'r, 'a res) effect_prog" where
  "or_return r k = (case r of Inl e \<Rightarrow> Return (Inl e) | Inr x \<Rightarrow> k x)"

section \<open>Execution\<close>

definition storage_options :: "temporary_table_credentials \<Rightarrow> string \<Rightarrow> storage_opts" where
  "storage_options credentials aws_region =
     [(''AWS_ACCESS_KEY_ID'', tc_access_key_id credentials),
      (''AWS_SECRET_ACCESS_KEY'', tc_secret_access_key credentials),
      (''AWS_SESSION_TOKEN'', tc_session_token credentials),
      (''AWS_REGION'', aws_region)]"

text \<open>The services of the crates that \<open>execute_ctas\<close> uses without awaiting them.\<close>

record write_fns =
  wf_location :: location_fns
  wf_to_lowercase :: "string \<Rightarrow> string"
  wf_display_type :: "data_type \<Rightarrow> string"
  wf_json_to_string :: "json \<Rightarrow> string"
  wf_delta_build :: "string \<Rightarrow> storage_opts \<Rightarrow> string + unit"
  wf_delta_store :: "string \<Rightarrow> storage_opts \<Rightarrow> nat"
  wf_redact :: "string \<Rightarrow> string"

definition full_name_of :: "ctas \<Rightarrow> string" where
  "full_name_of c = join ''.'' [ctas_catalog c, ctas_schema c, ctas_name c]"

definition has_table :: "string \<Rightarrow> table_info list \<Rightarrow> bool" where
  "has_table name tables \<longleftrightarrow>
     list_ex (\<lambda>t. case ti_name t of Some n \<Rightarrow> eq_ignore_ascii_case n name | None \<Rightarrow> False) tables"

definition register_request :: "ctas \<Rightarrow> json list \<Rightarrow> json" where
  "register_request c columns =
     JObject [(''catalog_name'', JString (ctas_catalog c)), (''schema_name'', JString (ctas_schema c)),
       (''name'', JString (ctas_name c)), (''table_type'', JString ''EXTERNAL''),
       (''data_source_format'', JString ''DELTA''), (''storage_location'', JString (ctas_location c)),
       (''columns'', JArray columns)]"

text \<open>
  The steps from the end: the commit, after which a new table is registered in Unity, under the
  value whose destructor invalidates the cached table; before it, the stores are registered; and
  before that, the target is opened with the credentials. \<open>existing\<close> says whether Unity
  lists the table.
\<close>

definition commit_table ::
  "write_fns \<Rightarrow> string \<Rightarrow> (record_batch \<Rightarrow> nat) \<Rightarrow> ctas \<Rightarrow> dataframe \<Rightarrow> bool \<Rightarrow> json list \<Rightarrow>
   string \<Rightarrow> storage_opts \<Rightarrow> query_result engine_prog" where
  "commit_table ws token mem c df existing columns url options =
     OnDrop (InvalidateTable (full_name_of c))
       (Ask (CommitDelta url options (if existing then Overwrite else ErrorIfExists) (df_plan df)) (\<lambda>r. case r of
          CommitAnswer (Inl e) \<Rightarrow> Return (Inl (Delta e))
        | CommitAnswer (Inr _) \<Rightarrow>
            if existing then Return (Inr (empty_result mem))
            else Ask (RegisterTable token (register_request c columns)) (\<lambda>a. case a of
                TableAnswer (Inr _) \<Rightarrow> Return (Inr (empty_result mem))
              | TableAnswer (Inl e) \<Rightarrow>
                  Return (Inl (Harbor_Error.Query (''Delta data committed but Unity registration failed; do not delete the data; recover registration before retrying: '' @
                    wf_redact ws (error_to_string e))))
              | _ \<Rightarrow> Stuck)
        | _ \<Rightarrow> Stuck))"

definition write_table ::
  "write_fns \<Rightarrow> string \<Rightarrow> (record_batch \<Rightarrow> nat) \<Rightarrow> ctas \<Rightarrow> dataframe \<Rightarrow> bool \<Rightarrow> json list \<Rightarrow>
   string \<Rightarrow> storage_opts \<Rightarrow> query_result engine_prog" where
  "write_table ws token mem c df existing columns url options =
     or_return (table_object_store_route (url_fns.truncate (wf_location ws)) (ctas_location c)) (\<lambda>(store_url, store_prefix).
     register_stores
       (registry_routes (record_store store_url store_prefix (wf_delta_store ws url options) (df_registry df)))
       (commit_table ws token mem c df existing columns url options))"

definition open_target ::
  "write_fns \<Rightarrow> string \<Rightarrow> string \<Rightarrow> (record_batch \<Rightarrow> nat) \<Rightarrow> ctas \<Rightarrow> dataframe \<Rightarrow> bool \<Rightarrow> json list \<Rightarrow>
   temporary_table_credentials \<Rightarrow> query_result engine_prog" where
  "open_target ws token aws_region mem c df existing columns credentials =
     (if trim_end_matches CHR ''/'' (tc_url credentials) \<noteq> trim_end_matches CHR ''/'' (ctas_location c)
      then Return (Inl (unsupported ''Unity write credential URL does not match CTAS LOCATION''))
      else
      or_return (validate_location (wf_location ws) (ctas_location c)) (\<lambda>url.
      let options = storage_options credentials aws_region in
      or_return (map_sum Delta id (wf_delta_build ws url options)) (\<lambda>_.
      Ask (LoadDelta url options) (\<lambda>r. case r of
          LoadAnswer Loaded \<Rightarrow>
            if \<not> existing
            then Return (Inl (unsupported ''CTAS location already contains an unregistered Delta table; recover registration explicitly before retrying''))
            else write_table ws token mem c df existing columns url options
        | LoadAnswer (NotATable e) \<Rightarrow>
            if \<not> existing then write_table ws token mem c df existing columns url options
            else Return (Inl (Delta e))
        | LoadAnswer (LoadFailed e) \<Rightarrow> Return (Inl (Delta e))
        | _ \<Rightarrow> Stuck))))"

definition execute_ctas ::
  "write_fns \<Rightarrow> string \<Rightarrow> string \<Rightarrow> (record_batch \<Rightarrow> nat) \<Rightarrow> ctas \<Rightarrow> dataframe \<Rightarrow> query_result engine_prog" where
  "execute_ctas ws token aws_region mem c df =
     list_tables token (ctas_catalog c) (ctas_schema c) (\<lambda>tables.
     let existing = has_table (ctas_name c) tables in
     or_return (unity_columns (wf_display_type ws) (wf_json_to_string ws) (df_fields df)) (\<lambda>columns.
     if existing
     then ask_details token (full_name_of c) (\<lambda>details.
          or_return (validate_existing (wf_to_lowercase ws) details (ctas_location c) columns) (\<lambda>_.
          or_return (case as_str (json_index details ''table_id'') of
              Some table_id \<Rightarrow> Inr table_id
            | None \<Rightarrow> Inl (unsupported ''Unity target is missing table_id'')) (\<lambda>table_id.
          ask_credentials (WriteCredentials token table_id)
            (open_target ws token aws_region mem c df existing columns))))
     else ask_credentials (CreatePathCredentials token (ctas_location c))
            (open_target ws token aws_region mem c df existing columns)))"

section \<open>When a write is allowed\<close>

text \<open>
  What must have been answered before the Delta log of a location is written: Unity has granted
  credentials whose location is the statement's, after it listed the tables of the schema; a
  table that Unity lists is replaced only if it is an external Delta table at this location, with
  the columns of the query and without filters or masks, and under the credentials for its
  identifier; a new table is created only where there is no Delta table yet.
\<close>

definition credentials_for :: "ctas \<Rightarrow> storage_opts \<Rightarrow> string \<Rightarrow> (engine_request, engine_answer) trace \<Rightarrow> engine_request \<Rightarrow> bool" where
  "credentials_for c options aws_region h q \<longleftrightarrow>
     (\<exists>credentials. (q, Some (CredentialsAnswer (Inr credentials))) \<in> set h \<and>
        trim_end_matches CHR ''/'' (tc_url credentials) = trim_end_matches CHR ''/'' (ctas_location c) \<and>
        options = storage_options credentials aws_region)"

definition may_replace ::
  "write_fns \<Rightarrow> string \<Rightarrow> string \<Rightarrow> ctas \<Rightarrow> dataframe \<Rightarrow> (engine_request, engine_answer) trace \<Rightarrow> string \<Rightarrow> storage_opts \<Rightarrow> bool" where
  "may_replace ws token aws_region c df h url options \<longleftrightarrow>
     (\<exists>details columns table_id tables.
        (ListTables token (ctas_catalog c) (ctas_schema c), Some (TablesAnswer (Inr tables))) \<in> set h \<and>
        has_table (ctas_name c) tables \<and>
        (TableDetails token (full_name_of c), Some (DetailsAnswer (Inr details))) \<in> set h \<and>
        unity_columns (wf_display_type ws) (wf_json_to_string ws) (df_fields df) = Inr columns \<and>
        validate_existing (wf_to_lowercase ws) details (ctas_location c) columns = Inr () \<and>
        as_str (json_index details ''table_id'') = Some table_id \<and>
        credentials_for c options aws_region h (WriteCredentials token table_id) \<and>
        (LoadDelta url options, Some (LoadAnswer Loaded)) \<in> set h)"

definition may_create ::
  "string \<Rightarrow> string \<Rightarrow> ctas \<Rightarrow> (engine_request, engine_answer) trace \<Rightarrow> string \<Rightarrow> storage_opts \<Rightarrow> bool" where
  "may_create token aws_region c h url options \<longleftrightarrow>
     (\<exists>tables e.
        (ListTables token (ctas_catalog c) (ctas_schema c), Some (TablesAnswer (Inr tables))) \<in> set h \<and>
        \<not> has_table (ctas_name c) tables \<and>
        credentials_for c options aws_region h (CreatePathCredentials token (ctas_location c)) \<and>
        (LoadDelta url options, Some (LoadAnswer (NotATable e))) \<in> set h)"

text \<open>The condition for each request of \<open>execute_ctas\<close>.\<close>

definition write_guard ::
  "write_fns \<Rightarrow> string \<Rightarrow> string \<Rightarrow> ctas \<Rightarrow> dataframe \<Rightarrow> (engine_request, engine_answer) trace \<Rightarrow> engine_request \<Rightarrow> bool" where
  "write_guard ws token aws_region c df h q =
     (case q of
        CommitDelta url options mode plan \<Rightarrow>
          validate_location (wf_location ws) (ctas_location c) = Inr url \<and> plan = df_plan df \<and>
          (case mode of
             Overwrite \<Rightarrow> may_replace ws token aws_region c df h url options
           | ErrorIfExists \<Rightarrow> may_create token aws_region c h url options)
      | RegisterTable token' _ \<Rightarrow>
          token' = token \<and> (\<exists>url options. (CommitDelta url options ErrorIfExists (df_plan df), Some (CommitAnswer (Inr ()))) \<in> set h)
      | PlanSql _ \<Rightarrow> False
      | _ \<Rightarrow> True)"

lemma guarded_or_return [simp]:
  "guarded P (or_return r k) h \<longleftrightarrow> (case r of Inl _ \<Rightarrow> True | Inr x \<Rightarrow> guarded P (k x) h)"
  by (cases r) (simp_all add: or_return_def)

lemma guarded_register_stores:
  assumes "\<And>h'. set h \<subseteq> set h' \<Longrightarrow> guarded P k h'" "\<And>h url routes. P h (RegisterObjectStore url routes)"
  shows "guarded P (register_stores rs k) h"
  using assms(1)
proof (induction rs arbitrary: h)
  case Nil
  then show ?case by simp
next
  case (Cons r rs)
  have "guarded P (register_stores rs k) (h @ [x])" for x
    by (rule Cons.IH) (use Cons.prems in auto)
  then show ?case using assms(2) by (auto split: engine_answer.splits)
qed

lemma credentials_for_mono: "credentials_for c options aws_region h q \<Longrightarrow> set h \<subseteq> set h' \<Longrightarrow> credentials_for c options aws_region h' q"
  by (auto simp: credentials_for_def)

lemma may_replace_mono:
  assumes "may_replace ws token aws_region c df h url options" "set h \<subseteq> set h'"
  shows "may_replace ws token aws_region c df h' url options"
  using assms credentials_for_mono [OF _ assms(2)] unfolding may_replace_def by (meson subsetD)

lemma may_create_mono:
  assumes "may_create token aws_region c h url options" "set h \<subseteq> set h'"
  shows "may_create token aws_region c h' url options"
  using assms credentials_for_mono [OF _ assms(2)] unfolding may_create_def by (meson subsetD)

lemma guarded_write_table:
  assumes "validate_location (wf_location ws) (ctas_location c) = Inr url"
    and "existing \<Longrightarrow> may_replace ws token aws_region c df h url options"
    and "\<not> existing \<Longrightarrow> may_create token aws_region c h url options"
  shows "guarded (write_guard ws token aws_region c df) (write_table ws token mem c df existing columns url options) h"
proof -
  have commit: "existing \<Longrightarrow> write_guard ws token aws_region c df h' (CommitDelta url options Overwrite (df_plan df))"
      "\<not> existing \<Longrightarrow> write_guard ws token aws_region c df h' (CommitDelta url options ErrorIfExists (df_plan df))"
    if "set h \<subseteq> set h'" for h'
    using assms(1) that may_replace_mono [OF assms(2)] may_create_mono [OF assms(3)] by (simp_all add: write_guard_def)
  have drop: "write_guard ws token aws_region c df h' (InvalidateTable name)" for h' name by (simp add: write_guard_def)
  have register: "write_guard ws token aws_region c df h' (RegisterTable token request)"
    if "(CommitDelta url options ErrorIfExists (df_plan df), Some (CommitAnswer (Inr ()))) \<in> set h'" for h' request
    using that by (auto simp: write_guard_def)
  have "guarded (write_guard ws token aws_region c df) (commit_table ws token mem c df existing columns url options) h'"
    if "set h \<subseteq> set h'" for h'
    using commit [OF that] drop register by (auto simp: commit_table_def split: engine_answer.split sum.split)
  then show ?thesis
    by (auto simp: write_table_def write_guard_def [of _ _ _ _ _ _ "RegisterObjectStore _ _"] split: sum.split
        intro!: guarded_register_stores)
qed

lemma guarded_open_target:
  assumes "(q, Some (CredentialsAnswer (Inr credentials))) \<in> set h"
    and "unity_columns (wf_display_type ws) (wf_json_to_string ws) (df_fields df) = Inr columns"
    and "(ListTables token (ctas_catalog c) (ctas_schema c), Some (TablesAnswer (Inr tables))) \<in> set h"
    and "existing = has_table (ctas_name c) tables"
    and "existing \<Longrightarrow> \<exists>details table_id. (TableDetails token (full_name_of c), Some (DetailsAnswer (Inr details))) \<in> set h \<and>
        validate_existing (wf_to_lowercase ws) details (ctas_location c) columns = Inr () \<and>
        as_str (json_index details ''table_id'') = Some table_id \<and> q = WriteCredentials token table_id"
    and "\<not> existing \<Longrightarrow> q = CreatePathCredentials token (ctas_location c)"
  shows "guarded (write_guard ws token aws_region c df) (open_target ws token aws_region mem c df existing columns credentials) h"
proof (cases "trim_end_matches CHR ''/'' (tc_url credentials) = trim_end_matches CHR ''/'' (ctas_location c)")
  case True
  let ?options = "storage_options credentials aws_region"
  have granted: "credentials_for c ?options aws_region h' q" if "set h \<subseteq> set h'" for h'
    using True assms(1) that by (auto simp: credentials_for_def)
  have "guarded (write_guard ws token aws_region c df)
      (write_table ws token mem c df existing columns url ?options) (h @ [(LoadDelta url ?options, Some (LoadAnswer a))])"
    if url: "validate_location (wf_location ws) (ctas_location c) = Inr url"
      and a: "existing \<Longrightarrow> a = Loaded" "\<not> existing \<Longrightarrow> \<exists>e. a = NotATable e" for url a
  proof (rule guarded_write_table [OF url])
    let ?h = "h @ [(LoadDelta url ?options, Some (LoadAnswer a))]"
    have sub: "set h \<subseteq> set ?h" by auto
    show "may_replace ws token aws_region c df ?h url ?options" if e: existing
    proof -
      obtain details table_id where "(TableDetails token (full_name_of c), Some (DetailsAnswer (Inr details))) \<in> set h"
          "validate_existing (wf_to_lowercase ws) details (ctas_location c) columns = Inr ()"
          "as_str (json_index details ''table_id'') = Some table_id" "q = WriteCredentials token table_id"
        using assms(5) [OF e] by blast
      then show ?thesis
        unfolding may_replace_def
        by (intro exI [of _ details] exI [of _ columns] exI [of _ table_id] exI [of _ tables])
           (use assms(2,3,4) granted [OF sub] a(1) [OF e] e in auto)
    qed
    show "may_create token aws_region c ?h url ?options" if e: "\<not> existing"
    proof -
      obtain path where "a = NotATable path" using a(2) [OF e] by blast
      then show ?thesis
        unfolding may_create_def
        by (intro exI [of _ tables] exI [of _ path]) (use assms(3,4) assms(6) [OF e] granted [OF sub] e in auto)
    qed
  qed
  then show ?thesis
    using True
    by (auto simp: open_target_def Let_def write_guard_def [of _ _ _ _ _ _ "LoadDelta _ _"]
        split: sum.split engine_answer.split load_outcome.split)
qed (simp add: open_target_def)

lemma guarded_execute_ctas: "guarded (write_guard ws token aws_region c df) (execute_ctas ws token aws_region mem c df) h"
proof -
  have trivial: "write_guard ws token aws_region c df h' (ListTables a b d)" "write_guard ws token aws_region c df h' (TableDetails a b)"
      "write_guard ws token aws_region c df h' (WriteCredentials a b)" "write_guard ws token aws_region c df h' (CreatePathCredentials a b)" for h' a b d
    by (simp_all add: write_guard_def)
  show ?thesis
    unfolding execute_ctas_def list_tables_def ask_details_def ask_credentials_def Let_def
    by (auto simp: trivial intro!: guarded_open_target split: engine_answer.split sum.split option.splits)
qed

section \<open>What a write leaves behind\<close>

text \<open>The requests that change what others see of a table.\<close>

definition is_write :: "engine_request \<Rightarrow> bool" where
  "is_write q = (case q of CommitDelta _ _ _ _ \<Rightarrow> True | RegisterTable _ _ \<Rightarrow> True | _ \<Rightarrow> False)"

lemma is_write_simps [simp]:
  "is_write (CommitDelta url options mode plan)" "is_write (RegisterTable token request)"
  "\<not> is_write (ListTables token catalog schema)" "\<not> is_write (TableDetails token name)"
  "\<not> is_write (WriteCredentials token table_id)" "\<not> is_write (CreatePathCredentials token location)"
  "\<not> is_write (LoadDelta url options)" "\<not> is_write (RegisterObjectStore url routes)"
  "\<not> is_write (PlanSql sql)" "\<not> is_write (ExecuteStream plan)"
  by (simp_all add: is_write_def)

lemma finishes_or_return [simp]:
  "finishes_with Q d (or_return r k) \<longleftrightarrow> (case r of Inl _ \<Rightarrow> True | Inr x \<Rightarrow> finishes_with Q d (k x))"
  by (cases r) (simp_all add: or_return_def)

lemma finishes_register_stores:
  assumes "finishes_with Q d k" "\<And>url routes. \<not> Q (RegisterObjectStore url routes)"
  shows "finishes_with Q d (register_stores rs k)"
  using assms by (induction rs) (auto split: engine_answer.split)

lemma finishes_execute_ctas:
  "finishes_with is_write (InvalidateTable (full_name_of c)) (execute_ctas ws token aws_region mem c df)"
proof -
  have "finishes_with is_write (InvalidateTable (full_name_of c)) (open_target ws token aws_region mem c df existing columns credentials)"
    for existing columns credentials
    by (auto simp: open_target_def write_table_def commit_table_def Let_def
        split: sum.split engine_answer.split load_outcome.split intro!: finishes_register_stores)
  then show ?thesis
    by (auto simp: execute_ctas_def list_tables_def ask_details_def ask_credentials_def Let_def
        split: sum.split engine_answer.split option.split)
qed

end
