(* ===== verification/Show_Statements.thy ===== *)
theory Show_Statements
  imports Harbor_Error
begin

text \<open>
  The parser of the \<open>SHOW\<close> statements (\<open>src/src/engine/metadata/parser.rs\<close>). The tokens
  are those of the \<open>sqlparser\<close> crate that the source names; every other token is its text.
  The crate's tokenizer and the text of a token in an error message are parameters. The
  \<open>ShowParser\<close> is the list of the tokens from its \<open>index\<close> on.
\<close>

section \<open>Tokens and statements\<close>

datatype token =
    Word string "char option"
  | SingleQuotedString string
  | DoubleQuotedString string
  | EscapedStringLiteral string
  | NationalStringLiteral string
  | Number string bool
  | Mul
  | Pipe
  | Period
  | Eq
  | Comma
  | LParen
  | RParen
  | SemiColon
  | Space
  | OtherWhitespace string
  | OtherToken string

type_synonym object_name = "string list"

datatype metadata_statement =
    Catalogs "string option"
  | Schemas "object_name option" "string option"
  | Tables "object_name option" "string option"
  | Views "object_name option" "string option"
  | Columns object_name "object_name option"
  | TableExtended "object_name option" string "string option"

fun is_whitespace_token :: "token \<Rightarrow> bool" where
  "is_whitespace_token Space = True"
| "is_whitespace_token (OtherWhitespace _) = True"
| "is_whitespace_token _ = False"

fun token_is_keyword :: "string \<Rightarrow> token \<Rightarrow> bool" where
  "token_is_keyword expected (Word value _) = eq_ignore_ascii_case value expected"
| "token_is_keyword expected _ = False"

section \<open>Reading tokens\<close>

type_synonym 'a sp = "token list \<Rightarrow> ('a \<times> token list) res"

definition sp_ret :: "'a \<Rightarrow> 'a sp" where
  "sp_ret x ts = Inr (x, ts)"

definition sp_fail :: "string \<Rightarrow> 'a sp" where
  "sp_fail message ts = Inl (UnsupportedSql message)"

definition sp_bind :: "'a sp \<Rightarrow> ('a \<Rightarrow> 'b sp) \<Rightarrow> 'b sp" where
  "sp_bind p k ts = sbind (p ts) (\<lambda>(x, ts'). k x ts')"

lemma sp_simps [simp]:
  "sp_ret x ts = Inr (x, ts)"
  "sp_fail message ts = Inl (UnsupportedSql message)"
  "sp_bind p k ts = sbind (p ts) (\<lambda>(x, ts'). k x ts')"
  by (simp_all add: sp_ret_def sp_fail_def sp_bind_def)

definition peek_keyword :: "string \<Rightarrow> token list \<Rightarrow> bool" where
  "peek_keyword expected ts = (case ts of token # _ \<Rightarrow> token_is_keyword expected token | [] \<Rightarrow> False)"

definition consume_keyword :: "string \<Rightarrow> bool sp" where
  "consume_keyword expected ts = (if peek_keyword expected ts then Inr (True, tl ts) else Inr (False, ts))"

definition consume_token :: "token \<Rightarrow> bool sp" where
  "consume_token expected ts = (case ts of token # rest \<Rightarrow> if token = expected then Inr (True, rest) else Inr (False, ts) | [] \<Rightarrow> Inr (False, ts))"

definition expect_keyword :: "string \<Rightarrow> unit sp" where
  "expect_keyword expected =
     sp_bind (consume_keyword expected) (\<lambda>found.
       if found then sp_ret () else sp_fail (''expected `'' @ expected @ ''` in SHOW statement''))"

definition expect_end :: "(token \<Rightarrow> string) \<Rightarrow> unit sp" where
  "expect_end show_token ts =
     (case ts of
        [] \<Rightarrow> Inr ((), ts)
      | token # _ \<Rightarrow> Inl (UnsupportedSql (''unexpected token `'' @ show_token token @ ''` in SHOW statement'')))"

definition parse_identifier :: "(token \<Rightarrow> string) \<Rightarrow> string sp" where
  "parse_identifier show_token ts =
     (case ts of
        Word value _ # rest \<Rightarrow> Inr (value, rest)
      | DoubleQuotedString value # rest \<Rightarrow> Inr (value, rest)
      | token # _ \<Rightarrow>
          Inl (UnsupportedSql (''expected identifier in SHOW statement, found `'' @ show_token token @ ''`''))
      | [] \<Rightarrow> Inl (UnsupportedSql ''expected identifier in SHOW statement''))"

lemma parse_identifier_shorter: "parse_identifier show_token ts = Inr (part, ts') \<Longrightarrow> length ts' < length ts"
  by (auto simp: parse_identifier_def split: list.splits token.splits)

text \<open>The loop of \<open>parse_object_name\<close>: more parts as long as a period follows.\<close>

function (sequential) more_name_parts :: "(token \<Rightarrow> string) \<Rightarrow> string list sp" where
  "more_name_parts show_token (Period # ts) =
     (case parse_identifier show_token ts of
        Inl e \<Rightarrow> Inl e
      | Inr (part, ts') \<Rightarrow> sbind (more_name_parts show_token ts') (\<lambda>(parts, rest). Inr (part # parts, rest)))"
| "more_name_parts show_token ts = Inr ([], ts)"
  by pat_completeness auto
termination
  by (relation "measure (\<lambda>(_, ts). length ts)") (auto dest: parse_identifier_shorter)

definition parse_object_name :: "(token \<Rightarrow> string) \<Rightarrow> object_name sp" where
  "parse_object_name show_token =
     sp_bind (parse_identifier show_token) (\<lambda>part.
     sp_bind (more_name_parts show_token) (\<lambda>parts. sp_ret (part # parts)))"

definition consume_in :: "bool sp" where
  "consume_in = sp_bind (consume_keyword ''FROM'') (\<lambda>found. if found then sp_ret True else consume_keyword ''IN'')"

definition parse_required_in_name :: "(token \<Rightarrow> string) \<Rightarrow> string \<Rightarrow> object_name sp" where
  "parse_required_in_name show_token message =
     sp_bind consume_in (\<lambda>found. if found then parse_object_name show_token else sp_fail message)"

definition parse_optional_in_name :: "(token \<Rightarrow> string) \<Rightarrow> object_name option sp" where
  "parse_optional_in_name show_token =
     sp_bind consume_in (\<lambda>found.
       if found then sp_bind (parse_object_name show_token) (\<lambda>name. sp_ret (Some name)) else sp_ret None)"

section \<open>Patterns\<close>

definition pattern_token :: "(token \<Rightarrow> string) \<Rightarrow> token \<Rightarrow> string res" where
  "pattern_token show_token token =
     (case token of
        Word value _ \<Rightarrow> Inr value
      | SingleQuotedString value \<Rightarrow> Inr value
      | DoubleQuotedString value \<Rightarrow> Inr value
      | EscapedStringLiteral value \<Rightarrow> Inr value
      | NationalStringLiteral value \<Rightarrow> Inr value
      | Number value _ \<Rightarrow> Inr value
      | Mul \<Rightarrow> Inr ''*''
      | Pipe \<Rightarrow> Inr ''|''
      | Period \<Rightarrow> Inr ''.''
      | Eq \<Rightarrow> Inr ''=''
      | Comma \<Rightarrow> Inr '',''
      | LParen \<Rightarrow> Inr ''(''
      | RParen \<Rightarrow> Inr '')''
      | Space \<Rightarrow> Inr '' ''
      | _ \<Rightarrow> Inl (UnsupportedSql (''unsupported token `'' @ show_token token @ ''` in SHOW pattern'')))"

fun pattern_parts :: "(token \<Rightarrow> string) \<Rightarrow> (token \<Rightarrow> bool) \<Rightarrow> string list sp" where
  "pattern_parts show_token stop [] = Inr ([], [])"
| "pattern_parts show_token stop (token # ts) =
     (if stop token then Inr ([], token # ts)
      else sbind (pattern_token show_token token) (\<lambda>part.
        sbind (pattern_parts show_token stop ts) (\<lambda>(parts, rest). Inr (part # parts, rest))))"

definition parse_pattern_until :: "(token \<Rightarrow> string) \<Rightarrow> (token \<Rightarrow> bool) \<Rightarrow> string sp" where
  "parse_pattern_until show_token stop =
     sp_bind (pattern_parts show_token stop) (\<lambda>parts.
       if parts = [] then sp_fail ''SHOW pattern cannot be empty'' else sp_ret (concat parts))"

definition parse_pattern_until_end :: "(token \<Rightarrow> string) \<Rightarrow> string sp" where
  "parse_pattern_until_end show_token = parse_pattern_until show_token (\<lambda>_. False)"

definition parse_pattern_until_partition :: "(token \<Rightarrow> string) \<Rightarrow> string sp" where
  "parse_pattern_until_partition show_token = parse_pattern_until show_token (token_is_keyword ''PARTITION'')"

definition parse_optional_pattern :: "(token \<Rightarrow> string) \<Rightarrow> string option sp" where
  "parse_optional_pattern show_token ts =
     (if ts = [] then Inr (None, ts)
      else sp_bind (consume_keyword ''LIKE'') (\<lambda>_.
        sp_bind (parse_pattern_until_end show_token) (\<lambda>pattern. sp_ret (Some pattern))) ts)"

text \<open>The loop of \<open>parse_optional_partition\<close>; the parentheses still open are at most the tokens read.\<close>

fun partition_loop :: "(token \<Rightarrow> string) \<Rightarrow> nat \<Rightarrow> string list \<Rightarrow> string option sp" where
  "partition_loop show_token depth parts [] =
     Inl (UnsupportedSql ''SHOW TABLE EXTENDED PARTITION clause is not closed'')"
| "partition_loop show_token depth parts (token # ts) =
     (if token = LParen then partition_loop show_token (depth + 1) (parts @ [''('']) ts
      else if token = RParen then
        (if depth - 1 = 0 then Inr (Some (concat (parts @ ['')''])), ts)
         else partition_loop show_token (depth - 1) (parts @ ['')'']) ts)
      else sbind (pattern_token show_token token) (\<lambda>part. partition_loop show_token depth (parts @ [part]) ts))"

definition parse_optional_partition :: "(token \<Rightarrow> string) \<Rightarrow> string option sp" where
  "parse_optional_partition show_token =
     sp_bind (consume_keyword ''PARTITION'') (\<lambda>found.
       if \<not> found then sp_ret None
       else sp_bind (consume_token LParen) (\<lambda>open.
         if \<not> open then sp_fail ''SHOW TABLE EXTENDED PARTITION requires a parenthesized clause''
         else partition_loop show_token 1 [''('']))"

section \<open>Statements\<close>

definition parse_catalogs :: "(token \<Rightarrow> string) \<Rightarrow> metadata_statement sp" where
  "parse_catalogs show_token ts =
     (if peek_keyword ''FROM'' ts \<or> peek_keyword ''IN'' ts
      then Inl (UnsupportedSql ''SHOW CATALOGS does not accept a namespace'')
      else sp_bind (parse_optional_pattern show_token) (\<lambda>pattern.
        sp_bind (expect_end show_token) (\<lambda>_. sp_ret (Catalogs pattern))) ts)"

definition parse_schemas :: "(token \<Rightarrow> string) \<Rightarrow> metadata_statement sp" where
  "parse_schemas show_token ts =
     (if peek_keyword ''HISTORY'' ts
      then Inl (UnsupportedSql ''SHOW SCHEMAS HISTORY is not supported'')
      else sp_bind (parse_optional_in_name show_token) (\<lambda>catalog.
        sp_bind (parse_optional_pattern show_token) (\<lambda>pattern.
        sp_bind (expect_end show_token) (\<lambda>_. sp_ret (Schemas catalog pattern)))) ts)"

definition parse_tables :: "(token \<Rightarrow> string) \<Rightarrow> metadata_statement sp" where
  "parse_tables show_token ts =
     (if peek_keyword ''EXTENDED'' ts \<or> peek_keyword ''HISTORY'' ts
      then Inl (UnsupportedSql ''use SHOW TABLE EXTENDED for extended table metadata'')
      else sp_bind (parse_optional_in_name show_token) (\<lambda>schema.
        sp_bind (parse_optional_pattern show_token) (\<lambda>pattern.
        sp_bind (expect_end show_token) (\<lambda>_. sp_ret (Tables schema pattern)))) ts)"

definition parse_views :: "(token \<Rightarrow> string) \<Rightarrow> metadata_statement sp" where
  "parse_views show_token =
     sp_bind (parse_optional_in_name show_token) (\<lambda>schema.
     sp_bind (parse_optional_pattern show_token) (\<lambda>pattern.
     sp_bind (expect_end show_token) (\<lambda>_. sp_ret (Views schema pattern))))"

definition parse_columns :: "(token \<Rightarrow> string) \<Rightarrow> metadata_statement sp" where
  "parse_columns show_token =
     sp_bind (parse_required_in_name show_token ''SHOW COLUMNS requires IN or FROM table_name'') (\<lambda>table.
     sp_bind (parse_optional_in_name show_token) (\<lambda>schema.
     sp_bind (expect_end show_token) (\<lambda>_. sp_ret (Columns table schema))))"

definition parse_table_extended :: "(token \<Rightarrow> string) \<Rightarrow> metadata_statement sp" where
  "parse_table_extended show_token =
     sp_bind (expect_keyword ''EXTENDED'') (\<lambda>_.
     sp_bind (parse_optional_in_name show_token) (\<lambda>schema.
     sp_bind (expect_keyword ''LIKE'') (\<lambda>_.
     sp_bind (parse_pattern_until_partition show_token) (\<lambda>pattern.
     sp_bind (parse_optional_partition show_token) (\<lambda>partition.
     sp_bind (expect_end show_token) (\<lambda>_. sp_ret (TableExtended schema pattern partition)))))))"

text \<open>\<open>a || b\<close> on two \<open>consume_keyword\<close> calls stops at the first that succeeds.\<close>

definition parse_show :: "(token \<Rightarrow> string) \<Rightarrow> metadata_statement sp" where
  "parse_show show_token =
     sp_bind (expect_keyword ''SHOW'') (\<lambda>_.
     sp_bind (consume_keyword ''CATALOGS'') (\<lambda>found. if found then parse_catalogs show_token else
     sp_bind (consume_keyword ''SCHEMAS'') (\<lambda>found. if found then parse_schemas show_token else
     sp_bind (consume_keyword ''DATABASES'') (\<lambda>found. if found then parse_schemas show_token else
     sp_bind (consume_keyword ''TABLES'') (\<lambda>found. if found then parse_tables show_token else
     sp_bind (consume_keyword ''VIEWS'') (\<lambda>found. if found then parse_views show_token else
     sp_bind (consume_keyword ''COLUMNS'') (\<lambda>found. if found then parse_columns show_token else
     sp_bind (consume_keyword ''TABLE'') (\<lambda>found. if found then parse_table_extended show_token else
     sp_fail ''unsupported SHOW statement''))))))))"

text \<open>\<open>ShowParser::new\<close> drops the semicolons at the end.\<close>

definition show_parser_new :: "token list \<Rightarrow> token list" where
  "show_parser_new tokens = rev (dropWhile (\<lambda>token. token = SemiColon) (rev tokens))"

definition starts_with_show :: "token list \<Rightarrow> bool" where
  "starts_with_show tokens =
     (case tokens of Word value None # _ \<Rightarrow> eq_ignore_ascii_case value ''SHOW'' | _ \<Rightarrow> False)"

definition parse_show_statement ::
  "(string \<Rightarrow> string + token list) \<Rightarrow> (token \<Rightarrow> string) \<Rightarrow> string \<Rightarrow> metadata_statement option res" where
  "parse_show_statement tokenize show_token sql =
     (case tokenize sql of
        Inl err \<Rightarrow> Inl (UnsupportedSql (''invalid SHOW statement: '' @ err))
      | Inr all_tokens \<Rightarrow>
          (let tokens = filter (\<lambda>token. \<not> is_whitespace_token token) all_tokens in
           if \<not> starts_with_show tokens then Inr None
           else sbind (parse_show show_token (show_parser_new tokens)) (\<lambda>(statement, _). Inr (Some statement))))"

section \<open>Printing statements\<close>

text \<open>
  The canonical tokens of a statement: keywords unquoted, identifiers quoted, patterns as string
  literals after \<open>LIKE\<close>. The text of a partition clause keeps its parentheses.
\<close>

definition keyword :: "string \<Rightarrow> token" where
  "keyword k = Word k None"

fun print_parts :: "string list \<Rightarrow> token list" where
  "print_parts [] = []"
| "print_parts (part # parts) = Period # Word part (Some CHR ''`'') # print_parts parts"

definition print_name :: "object_name \<Rightarrow> token list" where
  "print_name name = tl (print_parts name)"

definition print_in :: "object_name option \<Rightarrow> token list" where
  "print_in name = (case name of Some n \<Rightarrow> keyword ''IN'' # print_name n | None \<Rightarrow> [])"

definition print_like :: "string option \<Rightarrow> token list" where
  "print_like pattern = (case pattern of Some p \<Rightarrow> [keyword ''LIKE'', SingleQuotedString p] | None \<Rightarrow> [])"

definition print_partition :: "string option \<Rightarrow> token list" where
  "print_partition clause =
     (case clause of
        Some p \<Rightarrow> [keyword ''PARTITION'', LParen, SingleQuotedString (butlast (tl p)), RParen]
      | None \<Rightarrow> [])"

fun statement_tokens :: "metadata_statement \<Rightarrow> token list" where
  "statement_tokens (Catalogs pattern) = [keyword ''SHOW'', keyword ''CATALOGS''] @ print_like pattern"
| "statement_tokens (Schemas catalog pattern) =
     [keyword ''SHOW'', keyword ''SCHEMAS''] @ print_in catalog @ print_like pattern"
| "statement_tokens (Tables schema pattern) =
     [keyword ''SHOW'', keyword ''TABLES''] @ print_in schema @ print_like pattern"
| "statement_tokens (Views schema pattern) =
     [keyword ''SHOW'', keyword ''VIEWS''] @ print_in schema @ print_like pattern"
| "statement_tokens (Columns table schema) =
     [keyword ''SHOW'', keyword ''COLUMNS''] @ print_in (Some table) @ print_in schema"
| "statement_tokens (TableExtended schema pattern clause) =
     [keyword ''SHOW'', keyword ''TABLE'', keyword ''EXTENDED''] @ print_in schema @
     print_like (Some pattern) @ print_partition clause"

text \<open>What a statement of the parser satisfies: names are not empty, and a partition is in parentheses.\<close>

definition wf_name :: "object_name option \<Rightarrow> bool" where
  "wf_name name \<longleftrightarrow> name \<noteq> Some []"

definition wf_partition :: "string option \<Rightarrow> bool" where
  "wf_partition clause \<longleftrightarrow>
     (case clause of
        Some p \<Rightarrow> 2 \<le> length p \<and> hd p = CHR ''('' \<and> last p = CHR '')''
      | None \<Rightarrow> True)"

fun wf_statement :: "metadata_statement \<Rightarrow> bool" where
  "wf_statement (Catalogs pattern) \<longleftrightarrow> True"
| "wf_statement (Schemas catalog pattern) \<longleftrightarrow> wf_name catalog"
| "wf_statement (Tables schema pattern) \<longleftrightarrow> wf_name schema"
| "wf_statement (Views schema pattern) \<longleftrightarrow> wf_name schema"
| "wf_statement (Columns table schema) \<longleftrightarrow> wf_name (Some table) \<and> wf_name schema"
| "wf_statement (TableExtended schema pattern clause) \<longleftrightarrow> wf_name schema \<and> wf_partition clause"

section \<open>Printing and parsing\<close>

named_theorems show_rules

text \<open>The keywords are different also when their case is ignored.\<close>

definition show_keywords :: "string list" where
  "show_keywords = [''SHOW'', ''CATALOGS'', ''SCHEMAS'', ''DATABASES'', ''TABLES'', ''VIEWS'', ''COLUMNS'', ''TABLE'',
     ''EXTENDED'', ''HISTORY'', ''FROM'', ''IN'', ''LIKE'', ''PARTITION'']"

lemma show_keywords_distinct: "distinct (map to_ascii_lowercase show_keywords)"
  by code_simp

lemma keyword_neq: "a \<in> set show_keywords \<Longrightarrow> b \<in> set show_keywords \<Longrightarrow> eq_ignore_ascii_case a b \<longleftrightarrow> a = b"
  using show_keywords_distinct by (auto simp: distinct_map inj_on_def eq_ignore_ascii_case_def)

definition no_period :: "token list \<Rightarrow> bool" where
  "no_period ts \<longleftrightarrow> (case ts of Period # _ \<Rightarrow> False | _ \<Rightarrow> True)"

lemma no_period_keyword [show_rules]: "no_period (keyword k # ts)"
  by (simp add: no_period_def keyword_def)

lemma consume_keyword_hit [show_rules]: "consume_keyword k (keyword k # ts) = Inr (True, ts)"
  by (simp add: consume_keyword_def peek_keyword_def keyword_def)

lemma expect_keyword_hit [show_rules]: "expect_keyword k (keyword k # ts) = Inr ((), ts)"
  by (simp add: expect_keyword_def show_rules)

lemma keyword_checks [show_rules]:
  "consume_keyword k [] = Inr (False, [])"
  "consume_keyword k (SingleQuotedString p # ts) = Inr (False, SingleQuotedString p # ts)"
  "peek_keyword k [] = False"
  by (simp_all add: consume_keyword_def peek_keyword_def)

lemma peek_keyword_word [show_rules]: "peek_keyword k (keyword k' # ts) = eq_ignore_ascii_case k' k"
  by (simp add: peek_keyword_def keyword_def)

lemma consume_keyword_miss [show_rules]:
  "\<not> eq_ignore_ascii_case k' k \<Longrightarrow> consume_keyword k (keyword k' # ts) = Inr (False, keyword k' # ts)"
  by (simp add: consume_keyword_def peek_keyword_word)

lemma more_name_parts_print: "no_period ts \<Longrightarrow> more_name_parts show_token (print_parts parts @ ts) = Inr (parts, ts)"
proof (induction parts)
  case Nil
  then show ?case by (cases ts rule: list.exhaust; cases "hd ts") (auto simp: no_period_def)
next
  case (Cons part parts)
  then show ?case by (simp add: parse_identifier_def)
qed

lemma parse_object_name_print:
  assumes "name \<noteq> []" "no_period ts"
  shows "parse_object_name show_token (print_name name @ ts) = Inr (name, ts)"
  using assms more_name_parts_print [OF assms(2)]
  by (cases name) (simp_all add: parse_object_name_def print_name_def parse_identifier_def)

text \<open>\<open>no_in\<close>: the tokens after an optional name do not start a name themselves.\<close>

definition no_in :: "token list \<Rightarrow> bool" where
  "no_in ts \<longleftrightarrow> no_period ts \<and> \<not> peek_keyword ''FROM'' ts \<and> \<not> peek_keyword ''IN'' ts"

lemma consume_in_hit: "consume_in (keyword ''IN'' # ts) = Inr (True, ts)"
  by (simp add: consume_in_def show_rules keyword_neq show_keywords_def)

lemma consume_in_miss: "no_in ts \<Longrightarrow> consume_in ts = Inr (False, ts)"
  by (simp add: consume_in_def no_in_def consume_keyword_def)

lemma parse_optional_in_name_print [show_rules]:
  assumes "wf_name name" "no_in ts"
  shows "parse_optional_in_name show_token (print_in name @ ts) = Inr (name, ts)"
  using assms by (cases name)
    (simp_all add: parse_optional_in_name_def print_in_def wf_name_def consume_in_hit consume_in_miss
      parse_object_name_print no_in_def)

lemma parse_required_in_name_print [show_rules]:
  assumes "wf_name (Some name)" "no_period ts"
  shows "parse_required_in_name show_token message (print_in (Some name) @ ts) = Inr (name, ts)"
  using assms by (simp add: parse_required_in_name_def print_in_def wf_name_def consume_in_hit parse_object_name_print)

lemma parse_optional_pattern_print [show_rules]:
  "parse_optional_pattern show_token (print_like pattern) = Inr (pattern, [])"
  by (cases pattern)
     (simp_all add: parse_optional_pattern_def print_like_def show_rules parse_pattern_until_end_def
       parse_pattern_until_def pattern_token_def)

lemma expect_end_nil [show_rules]: "expect_end show_token [] = Inr ((), [])"
  by (simp add: expect_end_def)

lemma no_in_like [show_rules]: "no_in (print_like pattern @ ts)" if "no_in ts"
  using that by (cases pattern) (simp_all add: no_in_def print_like_def peek_keyword_word keyword_neq show_keywords_def no_period_keyword)

lemma no_in_nil [show_rules]: "no_in []"
  by (simp add: no_in_def no_period_def show_rules)

lemma parse_partition_print [show_rules]:
  assumes "wf_partition clause"
  shows "parse_optional_partition show_token (print_partition clause) = Inr (clause, [])"
proof (cases clause)
  case (Some p)
  then obtain m where "p = ''('' @ m @ '')''"
    using assms by (cases p; cases "tl p" rule: rev_cases) (auto simp: wf_partition_def)
  then show ?thesis
    using Some by (simp add: parse_optional_partition_def print_partition_def show_rules consume_token_def pattern_token_def)
qed (simp add: parse_optional_partition_def print_partition_def show_rules)

lemma parse_pattern_partition_print [show_rules]:
  "parse_pattern_until_partition show_token (SingleQuotedString pattern # print_partition clause) =
     Inr (pattern, print_partition clause)"
  by (cases clause)
     (simp_all add: parse_pattern_until_partition_def parse_pattern_until_def pattern_token_def
        print_partition_def keyword_def)

lemma no_in_print [show_rules]: "no_in (print_like pattern)" "no_in (keyword ''LIKE'' # ts)"
  using no_in_like [OF no_in_nil, of pattern]
  by (simp_all add: no_in_def show_rules keyword_neq show_keywords_def)

lemma no_period_in [show_rules]: "no_period (print_in name)"
  by (cases name) (simp_all add: print_in_def no_period_keyword no_period_def [of "[]"])

lemma peek_keyword_in:
  "peek_keyword k (print_in name @ print_like pattern) \<longleftrightarrow> False" if "k \<in> {''HISTORY'', ''EXTENDED''}" for k
  using that by (cases name; cases pattern) (auto simp: print_in_def print_like_def show_rules keyword_neq show_keywords_def)

lemma parse_show_print:
  assumes "wf_statement st"
  shows "parse_show show_token (statement_tokens st) = Inr (st, [])"
proof (cases st)
  case (Catalogs pattern)
  have "\<not> peek_keyword ''FROM'' (print_like pattern)" "\<not> peek_keyword ''IN'' (print_like pattern)"
    using no_in_print(1) by (simp_all add: no_in_def)
  then show ?thesis by (simp add: Catalogs parse_show_def show_rules parse_catalogs_def)
next
  case (Columns table schema)
  then show ?thesis
    using assms parse_optional_in_name_print [of schema "[]"]
    by (simp add: parse_show_def show_rules keyword_neq show_keywords_def parse_columns_def)
next
  case (TableExtended schema pattern clause)
  then show ?thesis
    using assms
    by (simp add: parse_show_def show_rules keyword_neq show_keywords_def parse_table_extended_def print_like_def)
qed (use assms in \<open>simp_all add: parse_show_def show_rules keyword_neq show_keywords_def peek_keyword_in
       parse_schemas_def parse_tables_def parse_views_def\<close>)

lemma show_parser_new_append:
  assumes "ts = [] \<or> last ts \<noteq> SemiColon"
  shows "show_parser_new (ts @ replicate n SemiColon) = ts"
proof -
  have "dropWhile (\<lambda>t. t = SemiColon) (replicate n SemiColon @ rev ts) = rev ts"
    using assms by (induction n) (auto simp: dropWhile_eq_self_iff hd_rev)
  then show ?thesis by (simp add: show_parser_new_def)
qed

lemma print_no_semicolon:
  "SemiColon \<notin> set (print_parts parts)"
  "SemiColon \<notin> set (print_in name)"
  "SemiColon \<notin> set (print_like pattern)"
  "SemiColon \<notin> set (print_partition clause)"
proof -
  show *: "SemiColon \<notin> set (print_parts parts)" for parts
    by (induction parts) auto
  show "SemiColon \<notin> set (print_in name)"
  proof (cases name)
    case (Some n)
    then show ?thesis using * by (cases n) (simp_all add: print_in_def print_name_def keyword_def)
  qed (simp add: print_in_def)
qed (auto simp: print_like_def print_partition_def keyword_def split: option.splits)

lemma statement_tokens_last: "last (statement_tokens st) \<noteq> SemiColon"
proof -
  have "SemiColon \<notin> set (statement_tokens st)" "statement_tokens st \<noteq> []"
    by (cases st; simp add: keyword_def print_no_semicolon)+
  then show ?thesis by (metis last_in_set)
qed

lemma statement_tokens_show: "\<exists>ts. statement_tokens st = keyword ''SHOW'' # ts"
  by (cases st) simp_all

end
