(* ===== verification/Thrift_Codec.thy ===== *)
theory Thrift_Codec
  imports Harbor_Error
begin

text \<open>
  The Thrift binary protocol (\<open>src/src/thrift/protocol.rs\<close> and
  \<open>src/src/thrift/codec.rs\<close>): the protocol's constants, the bounds-checked
  \<open>Reader\<close> with its depth- and size-limited \<open>skip\<close>, and the \<open>Writer\<close>.

  A reading operation is a function of the reader's state: \<open>None\<close> would mean that it does
  not return, \<open>Some (Inl e)\<close> is an error return and \<open>Some (Inr (x, r))\<close> a result with
  the advanced reader. Only the loop over the fields of a struct is not bounded by a counter;
  the lemmas below show that it returns whenever its body does. The \<open>Writer\<close> is the list
  of bytes written so far, so a writing operation is the list of bytes it appends.
  A value of type \<open>f64\<close> is its bit pattern.
\<close>

section \<open>Protocol constants\<close>

definition T_STOP :: u8 where [simp]: "T_STOP = 0"
definition T_BOOL :: u8 where [simp]: "T_BOOL = 2"
definition T_BYTE :: u8 where [simp]: "T_BYTE = 3"
definition T_DOUBLE :: u8 where [simp]: "T_DOUBLE = 4"
definition T_I16 :: u8 where [simp]: "T_I16 = 6"
definition T_I32 :: u8 where [simp]: "T_I32 = 8"
definition T_I64 :: u8 where [simp]: "T_I64 = 10"
definition T_STRING :: u8 where [simp]: "T_STRING = 11"
definition T_STRUCT :: u8 where [simp]: "T_STRUCT = 12"
definition T_MAP :: u8 where [simp]: "T_MAP = 13"
definition T_SET :: u8 where [simp]: "T_SET = 14"
definition T_LIST :: u8 where [simp]: "T_LIST = 15"

definition T_MESSAGE_CALL :: u8 where [simp]: "T_MESSAGE_CALL = 1"
definition T_MESSAGE_REPLY :: u8 where [simp]: "T_MESSAGE_REPLY = 2"
definition T_MESSAGE_EXCEPTION :: u8 where [simp]: "T_MESSAGE_EXCEPTION = 3"
definition T_BINARY_VERSION_1 :: "32 word" where [simp]: "T_BINARY_VERSION_1 = 0x80010000"

definition valid_field_type :: "u8 \<Rightarrow> bool" where
  "valid_field_type t \<longleftrightarrow>
     t \<in> set [T_BOOL, T_BYTE, T_DOUBLE, T_I16, T_I32, T_I64, T_STRING, T_STRUCT, T_MAP, T_SET, T_LIST]"

definition MAX_CONTAINER_ELEMENTS :: nat where "MAX_CONTAINER_ELEMENTS = 16384"
definition MAX_SKIP_DEPTH :: nat where "MAX_SKIP_DEPTH = 32"

section \<open>The reader\<close>

record reader =
  buffer :: bytes
  position :: nat

type_synonym 'a rd = "reader \<Rightarrow> ('a \<times> reader) res option"

definition rret :: "'a \<Rightarrow> 'a rd" where
  "rret x r = Some (Inr (x, r))"

definition rfail :: "harbor_error \<Rightarrow> 'a rd" where
  "rfail e r = Some (Inl e)"

text \<open>The \<open>?\<close> operator: an error returns at once, a result goes on.\<close>

definition rbind :: "'a rd \<Rightarrow> ('a \<Rightarrow> 'b rd) \<Rightarrow> 'b rd" where
  "rbind m k r =
     (case m r of None \<Rightarrow> None | Some (Inl e) \<Rightarrow> Some (Inl e) | Some (Inr (x, r')) \<Rightarrow> k x r')"

lemma rbind_cong [fundef_cong]:
  "r = r' \<Longrightarrow> m r' = m' r' \<Longrightarrow>
   (\<And>x s. m' r' = Some (Inr (x, s)) \<Longrightarrow> k x s = k' x s) \<Longrightarrow> rbind m k r = rbind m' k' r'"
  by (auto simp: rbind_def split: option.splits sum.splits)

primrec rrepeat :: "nat \<Rightarrow> unit rd \<Rightarrow> unit rd" where
  "rrepeat 0 m = rret ()"
| "rrepeat (Suc n) m = rbind m (\<lambda>_. rrepeat n m)"

definition reader_new :: "bytes \<Rightarrow> reader" where
  "reader_new bs = \<lparr>buffer = bs, position = 0\<rparr>"

definition read_u8 :: "u8 rd" where
  "read_u8 r =
     (if length (buffer r) \<le> position r
      then Some (Inl (Thrift ''unexpected end of message''))
      else Some (Inr (buffer r ! position r, r\<lparr>position := position r + 1\<rparr>)))"

definition read_exact :: "nat \<Rightarrow> bytes rd" where
  "read_exact len r =
     (if length (buffer r) < position r + len
      then Some (Inl (Thrift ''unexpected end of message''))
      else Some (Inr (take len (drop (position r) (buffer r)), r\<lparr>position := position r + len\<rparr>)))"

text \<open>Big-endian bytes of a word (\<open>to_be_bytes\<close>, \<open>from_be_bytes\<close>).\<close>

definition to_be_bytes :: "nat \<Rightarrow> 'a::len word \<Rightarrow> bytes" where
  "to_be_bytes n w = map (\<lambda>i. ucast (drop_bit (8 * i) w)) (rev [0..<n])"

definition from_be_bytes :: "bytes \<Rightarrow> 'a::len word" where
  "from_be_bytes bs = foldl (\<lambda>acc b. push_bit 8 acc OR ucast b) 0 bs"

definition read_i16 :: "i16 rd" where
  "read_i16 = rbind (read_exact 2) (\<lambda>bs. rret (from_be_bytes bs))"

definition read_i32 :: "i32 rd" where
  "read_i32 = rbind (read_exact 4) (\<lambda>bs. rret (from_be_bytes bs))"

definition read_i64 :: "i64 rd" where
  "read_i64 = rbind (read_exact 8) (\<lambda>bs. rret (from_be_bytes bs))"

definition read_double :: "64 word rd" where
  "read_double = rbind read_i64 rret"

definition read_binary :: "bytes rd" where
  "read_binary =
     rbind read_i32 (\<lambda>len.
       if sint len < 0 then rfail (Thrift ''negative binary length'')
       else read_exact (nat (sint len)))"

definition read_string :: "string rd" where
  "read_string =
     rbind read_binary (\<lambda>bs.
       case utf8_error 0 bs of
         None \<Rightarrow> rret (bytes_str bs)
       | Some err \<Rightarrow> rfail (Thrift (''invalid UTF-8 string: '' @ utf8_error_display err)))"

definition read_field_begin :: "(u8 \<times> i16) rd" where
  "read_field_begin =
     rbind read_u8 (\<lambda>field_type.
       if field_type = T_STOP then rret (T_STOP, 0)
       else if \<not> valid_field_type field_type then
         rfail (Thrift (''unsupported Thrift type `'' @ show_nat (unat field_type) @ ''`''))
       else rbind read_i16 (\<lambda>field_id. rret (field_type, field_id)))"

text \<open>
  The loop of every struct reader in the source: read a field header, stop at \<open>T_STOP\<close>,
  otherwise let the body consume the value and update what has been read so far.
\<close>

partial_function (option) struct_loop ::
  "('s \<Rightarrow> u8 \<Rightarrow> i16 \<Rightarrow> 's rd) \<Rightarrow> 's \<Rightarrow> reader \<Rightarrow> ('s \<times> reader) res option" where
  "struct_loop body st r =
     Option.bind (read_field_begin r) (\<lambda>h.
       case h of
         Inl e \<Rightarrow> Some (Inl e)
       | Inr ((field_type, field_id), r1) \<Rightarrow>
           if field_type = T_STOP then Some (Inr (st, r1))
           else Option.bind (body st field_type field_id r1) (\<lambda>b.
             case b of
               Inl e \<Rightarrow> Some (Inl e)
             | Inr (st', r2) \<Rightarrow> struct_loop body st' r2))"

definition read_container_element_type :: "string \<Rightarrow> u8 rd" where
  "read_container_element_type pos =
     rbind read_u8 (\<lambda>element_type.
       if \<not> valid_field_type element_type then
         rfail (Thrift (''invalid Thrift '' @ pos @ '' type `'' @ show_nat (unat element_type) @ ''`''))
       else rret element_type)"

definition read_container_size :: "string \<Rightarrow> nat rd" where
  "read_container_size kind =
     rbind read_i32 (\<lambda>size.
       if sint size < 0 then rfail (Thrift (''negative '' @ kind @ '' size''))
       else if MAX_CONTAINER_ELEMENTS < nat (sint size) then
         rfail (Thrift (''Thrift '' @ kind @ '' size exceeds maximum of '' @ show_nat MAX_CONTAINER_ELEMENTS))
       else rret (nat (sint size)))"

definition check_depth :: "nat \<Rightarrow> unit rd" where
  "check_depth depth =
     (if MAX_SKIP_DEPTH < depth
      then rfail (Thrift (''Thrift nesting depth exceeds maximum of '' @ show_nat MAX_SKIP_DEPTH))
      else rret ())"

lemma check_depth_Inr: "check_depth d r = Some (Inr (x, s)) \<longleftrightarrow> d \<le> MAX_SKIP_DEPTH \<and> s = r"
  by (auto simp: check_depth_def rfail_def rret_def)

function skip_at_depth :: "u8 \<Rightarrow> nat \<Rightarrow> reader \<Rightarrow> (unit \<times> reader) res option"
  and skip_remaining_struct_fields_at_depth :: "nat \<Rightarrow> reader \<Rightarrow> (unit \<times> reader) res option" where
  "skip_at_depth field_type depth r =
     rbind (check_depth depth) (\<lambda>_ r1.
       if field_type = T_STOP then rfail (Thrift ''invalid Thrift STOP type in value position'') r1
       else if field_type = T_BOOL \<or> field_type = T_BYTE then rbind read_u8 (\<lambda>_. rret ()) r1
       else if field_type = T_I16 then rbind read_i16 (\<lambda>_. rret ()) r1
       else if field_type = T_I32 then rbind read_i32 (\<lambda>_. rret ()) r1
       else if field_type = T_I64 then rbind read_i64 (\<lambda>_. rret ()) r1
       else if field_type = T_DOUBLE then rbind read_double (\<lambda>_. rret ()) r1
       else if field_type = T_STRING then rbind read_binary (\<lambda>_. rret ()) r1
       else if field_type = T_STRUCT then skip_remaining_struct_fields_at_depth (depth + 1) r1
       else if field_type = T_MAP then
         rbind (read_container_element_type ''map key'') (\<lambda>key_type.
         rbind (read_container_element_type ''map value'') (\<lambda>value_type.
         rbind (read_container_size ''map'') (\<lambda>size.
           rrepeat size (\<lambda>s.
             rbind (\<lambda>s1. skip_at_depth key_type (depth + 1) s1)
                   (\<lambda>_ s2. skip_at_depth value_type (depth + 1) s2) s)))) r1
       else if field_type = T_LIST \<or> field_type = T_SET then
         rbind (read_container_element_type ''list/set element'') (\<lambda>element_type.
         rbind (read_container_size ''list/set'') (\<lambda>size.
           rrepeat size (\<lambda>s. skip_at_depth element_type (depth + 1) s))) r1
       else rfail (Thrift (''unsupported Thrift type `'' @ show_nat (unat field_type) @ ''`'')) r1) r"
| "skip_remaining_struct_fields_at_depth depth r =
     rbind (check_depth depth) (\<lambda>_ r1.
       struct_loop (\<lambda>_ field_type _ s. skip_at_depth field_type (depth + 1) s) () r1) r"
  by pat_completeness auto
termination
  by (relation "measure (case_sum (\<lambda>(t, d, r). 2 * (40 - d)) (\<lambda>(d, r). 2 * (40 - d) + 1))")
     (auto simp: check_depth_Inr MAX_SKIP_DEPTH_def)

declare skip_at_depth.simps [simp del]
declare skip_remaining_struct_fields_at_depth.simps [simp del]

definition skip :: "u8 \<Rightarrow> unit rd" where
  "skip field_type = skip_at_depth field_type 0"

definition skip_remaining_struct_fields :: "unit rd" where
  "skip_remaining_struct_fields = skip_remaining_struct_fields_at_depth 0"

section \<open>The writer\<close>

definition write_i16 :: "i16 \<Rightarrow> bytes" where
  "write_i16 v = to_be_bytes 2 v"

definition write_i32 :: "i32 \<Rightarrow> bytes" where
  "write_i32 v = to_be_bytes 4 v"

definition write_i64 :: "i64 \<Rightarrow> bytes" where
  "write_i64 v = to_be_bytes 8 v"

definition write_double :: "64 word \<Rightarrow> bytes" where
  "write_double v = to_be_bytes 8 v"

definition write_bool :: "bool \<Rightarrow> bytes" where
  "write_bool b = [if b then 1 else 0]"

definition write_binary :: "bytes \<Rightarrow> bytes" where
  "write_binary bs = write_i32 (of_nat (length bs)) @ bs"

definition write_string :: "string \<Rightarrow> bytes" where
  "write_string s = write_binary (str_bytes s)"

definition write_stop :: bytes where
  "write_stop = [T_STOP]"

definition write_list_begin :: "u8 \<Rightarrow> nat \<Rightarrow> bytes" where
  "write_list_begin element_type len = element_type # write_i32 (of_nat len)"

definition write_field :: "u8 \<Rightarrow> i16 \<Rightarrow> bytes \<Rightarrow> bytes" where
  "write_field field_type field_id value = field_type # write_i16 field_id @ value"

definition write_field_result :: "u8 \<Rightarrow> i16 \<Rightarrow> bytes res \<Rightarrow> bytes res" where
  "write_field_result field_type field_id value =
     (case value of Inl e \<Rightarrow> Inl e | Inr bs \<Rightarrow> Inr (field_type # write_i16 field_id @ bs))"

definition write_raw :: "bytes \<Rightarrow> bytes" where
  "write_raw bs = bs"

definition write_message_begin :: "string \<Rightarrow> u8 \<Rightarrow> i32 \<Rightarrow> bytes" where
  "write_message_begin name message_type seqid =
     write_i32 (T_BINARY_VERSION_1 OR ucast message_type) @ write_string name @ write_i32 seqid"

section \<open>Big-endian round trip\<close>

lemma to_be_bytes_Suc: "to_be_bytes (Suc n) w = ucast (drop_bit (8 * n) w) # to_be_bytes n w"
  by (simp add: to_be_bytes_def)

lemma length_to_be_bytes [simp]: "length (to_be_bytes n w) = n"
  by (simp add: to_be_bytes_def)

lemma from_to_be_acc:
  fixes w acc :: "'a::len word"
  shows "foldl (\<lambda>acc b. push_bit 8 acc OR ucast b) acc (to_be_bytes n w)
      = push_bit (8 * n) acc OR take_bit (8 * n) w"
proof (induction n arbitrary: acc)
  case 0
  then show ?case by (simp add: to_be_bytes_def)
next
  case (Suc n)
  have "push_bit (8 * n) (push_bit 8 acc OR ucast (ucast (drop_bit (8 * n) w) :: u8)) OR take_bit (8 * n) w
      = push_bit (8 * Suc n) acc OR take_bit (8 * Suc n) w"
    by (rule bit_word_eqI) (auto simp: bit_simps add.commute [of 8])
  with Suc show ?case by (simp add: to_be_bytes_Suc)
qed

lemma from_to_be_bytes: "LENGTH('a) = 8 * n \<Longrightarrow> from_be_bytes (to_be_bytes n w) = (w :: 'a::len word)"
  by (simp add: from_be_bytes_def from_to_be_acc) (metis order_refl take_bit_word_eq_self)

section \<open>Bounds: readers stay inside the buffer and return\<close>

definition reader_ok :: "reader \<Rightarrow> bool" where
  "reader_ok r \<longleftrightarrow> position r \<le> length (buffer r)"

text \<open>
  \<open>advances_at n m r\<close>: run on \<open>r\<close>, \<open>m\<close> returns, and if it returns a result it
  has consumed at least \<open>n\<close> bytes of the same buffer and is still inside it;
  \<open>advances n m\<close>: it does so from every reader inside its buffer.
\<close>

definition advances_at :: "nat \<Rightarrow> 'a rd \<Rightarrow> reader \<Rightarrow> bool" where
  "advances_at n m r \<longleftrightarrow>
     m r \<noteq> None \<and>
     (\<forall>x r'. m r = Some (Inr (x, r')) \<longrightarrow>
        buffer r' = buffer r \<and> position r + n \<le> position r' \<and> reader_ok r')"

definition advances :: "nat \<Rightarrow> 'a rd \<Rightarrow> bool" where
  "advances n m \<longleftrightarrow> (\<forall>r. reader_ok r \<longrightarrow> advances_at n m r)"

lemma advances_atD:
  assumes "advances_at n m r" "m r = Some (Inr (x, r'))"
  shows "buffer r' = buffer r" "position r + n \<le> position r'" "reader_ok r'"
  using assms unfolding advances_at_def by blast+

lemma advances_returns: "advances n m \<Longrightarrow> reader_ok r \<Longrightarrow> m r \<noteq> None"
  unfolding advances_def advances_at_def by blast

lemma advancesD: "advances n m \<Longrightarrow> reader_ok r \<Longrightarrow> advances_at n m r"
  unfolding advances_def by blast

lemma advances_at_mono:
  assumes "advances_at n m r" "k \<le> n"
  shows "advances_at k m r"
  unfolding advances_at_def
proof (intro allI impI conjI)
  from assms(1) show "m r \<noteq> None" unfolding advances_at_def by blast
  fix x s assume "m r = Some (Inr (x, s))"
  note d = advances_atD [OF assms(1) this]
  from d assms(2) show "buffer s = buffer r" "position r + k \<le> position s" "reader_ok s"
    by simp_all
qed

lemma advances_mono: "advances n m \<Longrightarrow> k \<le> n \<Longrightarrow> advances k m"
  unfolding advances_def by (blast intro: advances_at_mono)

lemma rbind_Inr:
  "rbind m k r = Some (Inr (y, t)) \<longleftrightarrow> (\<exists>x s. m r = Some (Inr (x, s)) \<and> k x s = Some (Inr (y, t)))"
proof (cases "m r")
  case (Some h)
  then show ?thesis by (cases h) (auto simp: rbind_def)
qed (simp add: rbind_def)

lemma rbind_None:
  "rbind m k r = None \<longleftrightarrow> m r = None \<or> (\<exists>x s. m r = Some (Inr (x, s)) \<and> k x s = None)"
proof (cases "m r")
  case (Some h)
  then show ?thesis by (cases h) (auto simp: rbind_def)
qed (simp add: rbind_def)

lemma advances_at_bind:
  assumes m: "advances_at n m r" and k: "\<And>x s. m r = Some (Inr (x, s)) \<Longrightarrow> advances_at 0 (k x) s"
  shows "advances_at n (rbind m k) r"
  unfolding advances_at_def
proof (intro allI impI conjI)
  show "rbind m k r \<noteq> None"
    using m k unfolding advances_at_def rbind_None by blast
  fix y t assume "rbind m k r = Some (Inr (y, t))"
  then obtain x s where s: "m r = Some (Inr (x, s))" and t: "k x s = Some (Inr (y, t))"
    by (auto simp: rbind_Inr)
  note dm = advances_atD [OF m s] and dk = advances_atD [OF k [OF s] t]
  from dm dk show "buffer t = buffer r" "position r + n \<le> position t" "reader_ok t" by simp_all
qed

lemma advances_bind [progress_rules]:
  "advances n m \<Longrightarrow> (\<And>x. advances 0 (k x)) \<Longrightarrow> advances n (rbind m k)"
  unfolding advances_def by (blast intro: advances_at_bind dest: advances_atD(3))

lemma advances_rret [progress_rules]: "advances 0 (rret x)"
  by (auto simp: advances_def advances_at_def rret_def)

lemma advances_rfail [progress_rules]: "advances n (rfail e)"
  by (auto simp: advances_def advances_at_def rfail_def)

lemma advances_if [progress_rules]:
  "(c \<Longrightarrow> advances n a) \<Longrightarrow> (\<not> c \<Longrightarrow> advances n b) \<Longrightarrow> advances n (if c then a else b)"
  by simp

lemma advances_read_u8 [progress_rules]: "advances (Suc 0) read_u8"
  by (auto simp: advances_def advances_at_def read_u8_def reader_ok_def)

lemma advances_read_exact [progress_rules]: "advances n (read_exact n)"
  by (auto simp: advances_def advances_at_def read_exact_def reader_ok_def)

lemma advances_read_exact0 [progress_rules]: "advances 0 (read_exact n)"
  by (rule advances_mono [OF advances_read_exact]) simp

lemma advances_read_i16 [progress_rules]: "advances 2 read_i16"
  unfolding read_i16_def by (intro progress_rules)

lemma advances_read_i32 [progress_rules]: "advances 4 read_i32"
  unfolding read_i32_def by (intro progress_rules)

lemma advances_read_i64 [progress_rules]: "advances 8 read_i64"
  unfolding read_i64_def by (intro progress_rules)

lemma advances_read_double [progress_rules]: "advances 8 read_double"
  unfolding read_double_def by (intro progress_rules)

lemma advances_read_binary [progress_rules]: "advances 4 read_binary"
  unfolding read_binary_def by (intro progress_rules)

lemma advances_read_string [progress_rules]: "advances 4 read_string"
  unfolding read_string_def
  by (intro progress_rules) (simp add: advances_rret advances_rfail split: option.split)

lemmas advances_weaken =
  advances_mono [OF advances_read_u8] advances_mono [OF advances_read_i16]
  advances_mono [OF advances_read_i32] advances_mono [OF advances_read_i64]
  advances_mono [OF advances_read_double] advances_mono [OF advances_read_binary]
  advances_mono [OF advances_read_string]

lemma advances_read_field_begin [progress_rules]: "advances (Suc 0) read_field_begin"
  unfolding read_field_begin_def
  by (intro progress_rules) (auto intro!: progress_rules advances_weaken)

lemma advances_read_container_element_type [progress_rules]:
  "advances (Suc 0) (read_container_element_type p)"
  unfolding read_container_element_type_def by (intro progress_rules)

lemma advances_read_container_size [progress_rules]: "advances 4 (read_container_size k)"
  unfolding read_container_size_def by (intro progress_rules)

lemma advances_check_depth [progress_rules]: "advances 0 (check_depth d)"
  unfolding check_depth_def by (intro progress_rules)

lemma advances_rrepeat [progress_rules]: "advances 0 m \<Longrightarrow> advances 0 (rrepeat n m)"
  by (induction n) (auto intro!: progress_rules)

lemma struct_loop_bind:
  "struct_loop body st =
     rbind read_field_begin (\<lambda>(t, i). if t = T_STOP then rret st
        else rbind (body st t i) (struct_loop body))"
proof (rule ext)
  fix r
  show "struct_loop body st r = rbind read_field_begin (\<lambda>(t, i). if t = T_STOP then rret st
        else rbind (body st t i) (struct_loop body)) r"
    by (subst struct_loop.simps)
       (auto simp: rbind_def rret_def bind_eq_None_conv split: option.splits sum.splits bind_splits)
qed

text \<open>
  The contract between the field loop and its body: a body that returns and never moves
  backwards makes a loop that returns.
\<close>

locale struct_body =
  fixes body :: "'s \<Rightarrow> u8 \<Rightarrow> i16 \<Rightarrow> 's rd"
  assumes body_advances: "advances 0 (body st t i)"
begin

lemma loop_advances_at: "reader_ok r \<Longrightarrow> advances_at (Suc 0) (struct_loop body st) r"
proof (induction "length (buffer r) - position r" arbitrary: r st rule: less_induct)
  case less
  note header = advancesD [OF advances_read_field_begin less.prems]
  show ?case
  proof (subst struct_loop_bind, rule advances_at_bind [OF header])
    fix h s assume s: "read_field_begin r = Some (Inr (h, s))"
    note ds = advances_atD [OF header s]
    have rest: "advances_at 0 (struct_loop body st') u" if "body st (fst h) (snd h) s = Some (Inr (st', u))" for st' u
    proof -
      note du = advances_atD [OF advancesD [OF body_advances ds(3)] that]
      have "length (buffer u) - position u < length (buffer r) - position r"
        using ds du by (auto simp: reader_ok_def)
      from less.hyps [OF this du(3)] show ?thesis by (rule advances_at_mono) simp
    qed
    show "advances_at 0 (case h of (t, i) \<Rightarrow> if t = T_STOP then rret st
        else rbind (body st t i) (struct_loop body)) s"
      using rest advancesD [OF advances_rret ds(3)] advancesD [OF body_advances ds(3)]
      by (auto intro!: advances_at_bind split: prod.split)
  qed
qed

lemma loop_advances: "advances (Suc 0) (struct_loop body st)"
  using loop_advances_at by (simp add: advances_def)

lemma loop_returns: "reader_ok r \<Longrightarrow> struct_loop body st r \<noteq> None"
  using loop_advances by (rule advances_returns)

end

lemma rbind_rret_left [simp]: "rbind (rret x) k = k x"
  by (rule ext) (simp add: rbind_def rret_def)

lemma rbind_rfail_left [simp]: "rbind (rfail e) k = rfail e"
  by (rule ext) (simp add: rbind_def rfail_def)

section \<open>skip\<close>

abbreviation depth_error :: harbor_error where
  "depth_error \<equiv> Thrift (''Thrift nesting depth exceeds maximum of '' @ show_nat MAX_SKIP_DEPTH)"

lemma skip_at_depth_deep: "MAX_SKIP_DEPTH < d \<Longrightarrow> skip_at_depth t d = rfail depth_error"
  by (rule ext) (simp add: skip_at_depth.simps check_depth_def)

lemma skip_fields_deep:
  "MAX_SKIP_DEPTH < d \<Longrightarrow> skip_remaining_struct_fields_at_depth d = rfail depth_error"
  by (rule ext) (simp add: skip_remaining_struct_fields_at_depth.simps check_depth_def)

lemma skip_fields_eq:
  "d \<le> MAX_SKIP_DEPTH \<Longrightarrow>
   skip_remaining_struct_fields_at_depth d = struct_loop (\<lambda>_ t _. skip_at_depth t (d + 1)) ()"
  by (rule ext) (simp add: skip_remaining_struct_fields_at_depth.simps check_depth_def)

lemma skip_at_depth_eq:
  "d \<le> MAX_SKIP_DEPTH \<Longrightarrow>
   skip_at_depth t d =
     (if t = T_STOP then rfail (Thrift ''invalid Thrift STOP type in value position'')
      else if t = T_BOOL \<or> t = T_BYTE then rbind read_u8 (\<lambda>_. rret ())
      else if t = T_I16 then rbind read_i16 (\<lambda>_. rret ())
      else if t = T_I32 then rbind read_i32 (\<lambda>_. rret ())
      else if t = T_I64 then rbind read_i64 (\<lambda>_. rret ())
      else if t = T_DOUBLE then rbind read_double (\<lambda>_. rret ())
      else if t = T_STRING then rbind read_binary (\<lambda>_. rret ())
      else if t = T_STRUCT then skip_remaining_struct_fields_at_depth (d + 1)
      else if t = T_MAP then
         rbind (read_container_element_type ''map key'') (\<lambda>key_type.
         rbind (read_container_element_type ''map value'') (\<lambda>value_type.
         rbind (read_container_size ''map'') (\<lambda>size.
           rrepeat size (rbind (skip_at_depth key_type (d + 1)) (\<lambda>_. skip_at_depth value_type (d + 1))))))
      else if t = T_LIST \<or> t = T_SET then
         rbind (read_container_element_type ''list/set element'') (\<lambda>element_type.
         rbind (read_container_size ''list/set'') (\<lambda>size.
           rrepeat size (skip_at_depth element_type (d + 1))))
      else rfail (Thrift (''unsupported Thrift type `'' @ show_nat (unat t) @ ''`'')))"
  (is "_ \<Longrightarrow> _ = ?rhs")
proof (rule ext)
  fix r
  assume "d \<le> MAX_SKIP_DEPTH"
  then have c: "check_depth d = rret ()" by (simp add: check_depth_def)
  show "skip_at_depth t d r = ?rhs r"
    unfolding skip_at_depth.simps [of t d r] c rbind_rret_left if_distribR ..
qed

lemma skip_advances_at:
  "advances (Suc 0) (skip_at_depth t d) \<and> advances (Suc 0) (skip_remaining_struct_fields_at_depth d)"
proof (induction "Suc MAX_SKIP_DEPTH - d" arbitrary: t d)
  case 0
  then have "MAX_SKIP_DEPTH < d" by simp
  then show ?case by (simp add: skip_at_depth_deep skip_fields_deep advances_rfail)
next
  case (Suc n)
  then have d: "d \<le> MAX_SKIP_DEPTH" and n: "n = Suc MAX_SKIP_DEPTH - (d + 1)" by auto
  note IH = Suc.hyps(1) [OF n]
  have IH0: "advances 0 (skip_at_depth t (d + 1))" for t
    using IH by (blast intro: advances_mono)
  have fields: "advances (Suc 0) (skip_remaining_struct_fields_at_depth d)"
    unfolding skip_fields_eq [OF d] by (rule struct_body.loop_advances) (simp add: struct_body_def IH0 [simplified])
  have "advances (Suc 0) (skip_at_depth t d)"
    unfolding skip_at_depth_eq [OF d]
    by (intro advances_if)
       (use IH IH0 in \<open>auto intro!: progress_rules advances_weaken advances_mono [OF advances_read_container_size]
          advances_mono [OF advances_read_container_element_type]\<close>)
  with fields show ?case by blast
qed

lemma skip_at_depth_advances [progress_rules]: "advances (Suc 0) (skip_at_depth t d)"
  using skip_advances_at by blast

lemma skip_fields_advances [progress_rules]:
  "advances (Suc 0) (skip_remaining_struct_fields_at_depth d)"
  using skip_advances_at by blast

lemma skip_advances [progress_rules]: "advances (Suc 0) (skip t)"
  unfolding skip_def by (rule skip_at_depth_advances)

lemma skip0_advances [progress_rules]: "advances 0 (skip t)"
  by (rule advances_mono [OF skip_advances]) simp

interpretation skip_fields: struct_body "\<lambda>(_::unit) t _. skip_at_depth t d" for d
  by unfold_locales (rule advances_mono [OF skip_at_depth_advances], simp)


section \<open>Parsing what was written\<close>

text \<open>
  \<open>parses m bs x\<close>: standing before \<open>bs\<close>, anywhere in a buffer, \<open>m\<close> consumes
  exactly \<open>bs\<close> and returns \<open>x\<close>. \<open>pfails m bs e\<close>: standing there, \<open>m\<close>
  returns the error \<open>e\<close>.
\<close>

definition parses :: "'a rd \<Rightarrow> bytes \<Rightarrow> 'a \<Rightarrow> bool" where
  "parses m bs x \<longleftrightarrow>
     (\<forall>pre post. m \<lparr>buffer = pre @ bs @ post, position = length pre\<rparr> =
        Some (Inr (x, \<lparr>buffer = pre @ bs @ post, position = length pre + length bs\<rparr>)))"

definition pfails :: "'a rd \<Rightarrow> bytes \<Rightarrow> harbor_error \<Rightarrow> bool" where
  "pfails m bs e \<longleftrightarrow>
     (\<forall>pre post. m \<lparr>buffer = pre @ bs @ post, position = length pre\<rparr> = Some (Inl e))"

lemma parses_rret [parse_rules]: "parses (rret x) [] x"
  by (simp add: parses_def rret_def)

lemma parses_at:
  assumes "parses m bs x" "p = length pre"
  shows "m \<lparr>buffer = pre @ bs @ post, position = p\<rparr> =
     Some (Inr (x, \<lparr>buffer = pre @ bs @ post, position = p + length bs\<rparr>))"
  using assms by (simp add: parses_def)

lemma pfails_at:
  "pfails m bs e \<Longrightarrow> p = length pre \<Longrightarrow> m \<lparr>buffer = pre @ bs @ post, position = p\<rparr> = Some (Inl e)"
  by (simp add: pfails_def)

lemma parses_bind [parse_rules]:
  assumes "parses m bs x" "parses (k x) cs y"
  shows "parses (rbind m k) (bs @ cs) y"
  unfolding parses_def
proof (intro allI)
  fix pre post
  show "rbind m k \<lparr>buffer = pre @ (bs @ cs) @ post, position = length pre\<rparr> =
     Some (Inr (y, \<lparr>buffer = pre @ (bs @ cs) @ post, position = length pre + length (bs @ cs)\<rparr>))"
    using parses_at [OF assms(1), of "length pre" pre "cs @ post"]
      parses_at [OF assms(2), of "length pre + length bs" "pre @ bs" post]
    by (simp add: rbind_def)
qed

lemma parses_bind_rret: "parses m bs x \<Longrightarrow> parses (rbind m (\<lambda>z. rret (f z))) bs (f x)"
  using parses_bind [of m bs x _ "[]"] parses_rret by fastforce

lemma pfails_bind_second:
  assumes "parses m bs x" "pfails (k x) cs e"
  shows "pfails (rbind m k) (bs @ cs) e"
  unfolding pfails_def
proof (intro allI)
  fix pre post
  show "rbind m k \<lparr>buffer = pre @ (bs @ cs) @ post, position = length pre\<rparr> = Some (Inl e)"
    using parses_at [OF assms(1), of "length pre" pre "cs @ post"]
      pfails_at [OF assms(2), of "length pre + length bs" "pre @ bs" post]
    by (simp add: rbind_def)
qed

lemma pfails_bind_first:
  assumes "pfails m bs e"
  shows "pfails (rbind m k) (bs @ cs) e"
  unfolding pfails_def
proof (intro allI)
  fix pre post
  show "rbind m k \<lparr>buffer = pre @ (bs @ cs) @ post, position = length pre\<rparr> = Some (Inl e)"
    using pfails_at [OF assms, of "length pre" pre "cs @ post"] by (simp add: rbind_def)
qed

lemma pfails_rfail: "pfails (rfail e) bs e"
  by (simp add: pfails_def rfail_def)

lemma parses_read_u8 [parse_rules]: "parses read_u8 [b] b"
  by (simp add: parses_def read_u8_def)

lemma parses_read_exact: "n = length bs \<Longrightarrow> parses (read_exact n) bs bs"
  by (simp add: parses_def read_exact_def)

lemma parses_read_i16 [parse_rules]: "parses read_i16 (write_i16 v) v"
proof -
  have "parses read_i16 (write_i16 v) (from_be_bytes (write_i16 v))"
    unfolding read_i16_def by (rule parses_bind_rret, rule parses_read_exact) (simp add: write_i16_def)
  then show ?thesis by (simp add: write_i16_def from_to_be_bytes)
qed

lemma parses_read_i32 [parse_rules]: "parses read_i32 (write_i32 v) v"
proof -
  have "parses read_i32 (write_i32 v) (from_be_bytes (write_i32 v))"
    unfolding read_i32_def by (rule parses_bind_rret, rule parses_read_exact) (simp add: write_i32_def)
  then show ?thesis by (simp add: write_i32_def from_to_be_bytes)
qed

lemma parses_read_i64 [parse_rules]: "parses read_i64 (write_i64 v) v"
proof -
  have "parses read_i64 (write_i64 v) (from_be_bytes (write_i64 v))"
    unfolding read_i64_def by (rule parses_bind_rret, rule parses_read_exact) (simp add: write_i64_def)
  then show ?thesis by (simp add: write_i64_def from_to_be_bytes)
qed

lemma parses_read_double [parse_rules]: "parses read_double (write_double v) v"
  using parses_bind_rret [OF parses_read_i64, of "\<lambda>x. x" v]
  by (simp add: read_double_def write_double_def write_i64_def)

lemma sint_of_nat_i32: "n < 2 ^ 31 \<Longrightarrow> sint (of_nat n :: i32) = int n"
  by (simp add: signed_of_nat signed_take_bit_int_eq_self)

lemma parses_read_binary [parse_rules]:
  assumes "length bs < 2 ^ 31"
  shows "parses read_binary (write_binary bs) bs"
  unfolding read_binary_def write_binary_def
  by (rule parses_bind [OF parses_read_i32])
     (simp add: sint_of_nat_i32 [OF assms] parses_read_exact)

lemma parses_read_string [parse_rules]:
  assumes "valid_str s" "length s < 2 ^ 31"
  shows "parses read_string (write_string s) s"
proof -
  have "parses (case utf8_error 0 (str_bytes s) of None \<Rightarrow> rret (bytes_str (str_bytes s))
      | Some err \<Rightarrow> rfail (Thrift (''invalid UTF-8 string: '' @ utf8_error_display err))) [] s"
    using assms(1) by (simp add: valid_str_def utf8_valid_def parses_rret)
  with parses_bind [OF parses_read_binary, of "str_bytes s"] assms(2) show ?thesis
    unfolding read_string_def write_string_def by fastforce
qed

lemma parses_field_stop [parse_rules]: "parses read_field_begin [T_STOP] (T_STOP, 0)"
proof -
  have "parses read_field_begin ([T_STOP] @ []) (T_STOP, 0)"
    unfolding read_field_begin_def by (rule parses_bind [OF parses_read_u8]) (simp add: parses_rret)
  then show ?thesis by simp
qed

lemma parses_field_begin [parse_rules]:
  assumes "valid_field_type t"
  shows "parses read_field_begin (t # write_i16 i) (t, i)"
proof -
  have "t \<noteq> T_STOP" using assms by (auto simp: valid_field_type_def)
  with assms have "parses read_field_begin ([t] @ write_i16 i) (t, i)"
    unfolding read_field_begin_def
    by (intro parses_bind [OF parses_read_u8]) (simp add: parses_bind_rret [OF parses_read_i16])
  then show ?thesis by simp
qed

lemma parses_struct_stop [parse_rules]: "parses (struct_loop body st) write_stop st"
proof -
  have "parses (struct_loop body st) ([T_STOP] @ []) st"
    by (subst struct_loop_bind) (rule parses_bind [OF parses_field_stop], simp add: parses_rret)
  then show ?thesis by (simp add: write_stop_def)
qed

lemma valid_not_stop: "valid_field_type t \<Longrightarrow> t \<noteq> T_STOP"
  by (auto simp: valid_field_type_def)

lemma parses_struct_field [parse_rules]:
  assumes "valid_field_type t" "parses (body st t i) bs st'" "parses (struct_loop body st') rest st''"
  shows "parses (struct_loop body st) (write_field t i bs @ rest) st''"
proof -
  have "parses (struct_loop body st) ((t # write_i16 i) @ bs @ rest) st''"
    by (subst struct_loop_bind)
       (rule parses_bind [OF parses_field_begin [OF assms(1)]],
        use valid_not_stop [OF assms(1)] parses_bind [where k = "struct_loop body", OF assms(2,3)] in simp)
  then show ?thesis by (simp add: write_field_def)
qed

lemma pfails_struct_field:
  assumes "valid_field_type t" "pfails (body st t i) bs e"
  shows "pfails (struct_loop body st) (write_field t i bs @ rest) e"
proof -
  have "pfails (struct_loop body st) ((t # write_i16 i) @ bs @ rest) e"
    by (subst struct_loop_bind)
       (rule pfails_bind_second [OF parses_field_begin [OF assms(1)]],
        use valid_not_stop [OF assms(1)] pfails_bind_first [OF assms(2)] in simp)
  then show ?thesis by (simp add: write_field_def)
qed

lemma pfails_struct_later:
  assumes "valid_field_type t" "parses (body st t i) bs st'" "pfails (struct_loop body st') rest e"
  shows "pfails (struct_loop body st) (write_field t i bs @ rest) e"
proof -
  have "pfails (struct_loop body st) ((t # write_i16 i) @ bs @ rest) e"
    by (subst struct_loop_bind)
       (rule pfails_bind_second [OF parses_field_begin [OF assms(1)]],
        use valid_not_stop [OF assms(1)] pfails_bind_second [where k = "struct_loop body", OF assms(2,3)] in simp)
  then show ?thesis by (simp add: write_field_def)
qed

lemma parses_element_type [parse_rules]:
  assumes "valid_field_type t"
  shows "parses (read_container_element_type p) [t] t"
proof -
  have "parses (read_container_element_type p) ([t] @ []) t"
    unfolding read_container_element_type_def
    by (rule parses_bind [OF parses_read_u8]) (use assms in \<open>simp add: parses_rret\<close>)
  then show ?thesis by simp
qed

lemma parses_container_size [parse_rules]:
  assumes "n \<le> MAX_CONTAINER_ELEMENTS"
  shows "parses (read_container_size k) (write_i32 (of_nat n)) n"
proof -
  have n: "sint (of_nat n :: i32) = int n"
    using assms by (intro sint_of_nat_i32) (simp add: MAX_CONTAINER_ELEMENTS_def)
  have "parses (read_container_size k) (write_i32 (of_nat n) @ []) n"
    unfolding read_container_size_def
    by (rule parses_bind [OF parses_read_i32]) (use assms in \<open>simp add: n parses_rret\<close>)
  then show ?thesis by simp
qed


section \<open>Abstract Thrift values\<close>

text \<open>
  What the wire format can carry, independently of the program: the values of the Thrift
  binary protocol, their encoding, and the nesting level that \<open>skip\<close> charges for a value.
\<close>

datatype tval =
    VBool bool
  | VByte u8
  | VI16 i16
  | VI32 i32
  | VI64 i64
  | VDouble "64 word"
  | VBinary bytes
  | VStruct "(i16 \<times> tval) list"
  | VMap u8 u8 "(tval \<times> tval) list"
  | VList u8 "tval list"
  | VSet u8 "tval list"

fun tval_type :: "tval \<Rightarrow> u8" where
  "tval_type (VBool _) = T_BOOL"
| "tval_type (VByte _) = T_BYTE"
| "tval_type (VI16 _) = T_I16"
| "tval_type (VI32 _) = T_I32"
| "tval_type (VI64 _) = T_I64"
| "tval_type (VDouble _) = T_DOUBLE"
| "tval_type (VBinary _) = T_STRING"
| "tval_type (VStruct _) = T_STRUCT"
| "tval_type (VMap _ _ _) = T_MAP"
| "tval_type (VList _ _) = T_LIST"
| "tval_type (VSet _ _) = T_SET"

function (sequential) enc :: "tval \<Rightarrow> bytes"
  and enc_fields :: "(i16 \<times> tval) list \<Rightarrow> bytes"
  and enc_pairs :: "(tval \<times> tval) list \<Rightarrow> bytes"
  and enc_list :: "tval list \<Rightarrow> bytes" where
  "enc (VBool b) = write_bool b"
| "enc (VByte b) = [b]"
| "enc (VI16 v) = write_i16 v"
| "enc (VI32 v) = write_i32 v"
| "enc (VI64 v) = write_i64 v"
| "enc (VDouble v) = write_double v"
| "enc (VBinary bs) = write_binary bs"
| "enc (VStruct fs) = enc_fields fs"
| "enc (VMap kt vt ps) = [kt] @ [vt] @ write_i32 (of_nat (length ps)) @ enc_pairs ps"
| "enc (VList et vs) = [et] @ write_i32 (of_nat (length vs)) @ enc_list vs"
| "enc (VSet et vs) = [et] @ write_i32 (of_nat (length vs)) @ enc_list vs"
| "enc_fields [] = write_stop"
| "enc_fields ((i, v) # fs) = write_field (tval_type v) i (enc v) @ enc_fields fs"
| "enc_pairs [] = []"
| "enc_pairs ((k, v) # ps) = (enc k @ enc v) @ enc_pairs ps"
| "enc_list [] = []"
| "enc_list (v # vs) = enc v @ enc_list vs"
  by pat_completeness auto
termination
  by (relation "measure (case_sum (case_sum size (size_list (size_prod (\<lambda>_. 0) size)))
       (case_sum (size_list (size_prod size size)) (size_list size)))")
     (auto simp: size_list_conv_sum_list)

function (sequential) wf_tval :: "tval \<Rightarrow> bool"
  and wf_fields :: "(i16 \<times> tval) list \<Rightarrow> bool"
  and wf_pairs :: "u8 \<Rightarrow> u8 \<Rightarrow> (tval \<times> tval) list \<Rightarrow> bool"
  and wf_list :: "u8 \<Rightarrow> tval list \<Rightarrow> bool" where
  "wf_tval (VBinary bs) = (length bs < 2 ^ 31)"
| "wf_tval (VStruct fs) = wf_fields fs"
| "wf_tval (VMap kt vt ps) =
     (valid_field_type kt \<and> valid_field_type vt \<and> length ps \<le> MAX_CONTAINER_ELEMENTS \<and> wf_pairs kt vt ps)"
| "wf_tval (VList et vs) =
     (valid_field_type et \<and> length vs \<le> MAX_CONTAINER_ELEMENTS \<and> wf_list et vs)"
| "wf_tval (VSet et vs) =
     (valid_field_type et \<and> length vs \<le> MAX_CONTAINER_ELEMENTS \<and> wf_list et vs)"
| "wf_tval _ = True"
| "wf_fields [] = True"
| "wf_fields ((i, v) # fs) = (wf_tval v \<and> wf_fields fs)"
| "wf_pairs kt vt [] = True"
| "wf_pairs kt vt ((k, v) # ps) =
     (tval_type k = kt \<and> tval_type v = vt \<and> wf_tval k \<and> wf_tval v \<and> wf_pairs kt vt ps)"
| "wf_list et [] = True"
| "wf_list et (v # vs) = (tval_type v = et \<and> wf_tval v \<and> wf_list et vs)"
  by pat_completeness auto
termination
  by (relation "measure (case_sum (case_sum size (size_list (size_prod (\<lambda>_. 0) size)))
       (case_sum (\<lambda>(_, _, ps). size_list (size_prod size size) ps) (\<lambda>(_, vs). size_list size vs)))")
     (auto simp: size_list_conv_sum_list)

text \<open>A container charges one level for its elements, a struct two for its fields.\<close>

function (sequential) nesting :: "tval \<Rightarrow> nat"
  and nesting_fields :: "(i16 \<times> tval) list \<Rightarrow> nat"
  and nesting_pairs :: "(tval \<times> tval) list \<Rightarrow> nat"
  and nesting_list :: "tval list \<Rightarrow> nat" where
  "nesting (VStruct fs) = max 1 (nesting_fields fs)"
| "nesting (VMap _ _ ps) = nesting_pairs ps"
| "nesting (VList _ vs) = nesting_list vs"
| "nesting (VSet _ vs) = nesting_list vs"
| "nesting _ = 0"
| "nesting_fields [] = 0"
| "nesting_fields ((i, v) # fs) = max (2 + nesting v) (nesting_fields fs)"
| "nesting_pairs [] = 0"
| "nesting_pairs ((k, v) # ps) = max (1 + max (nesting k) (nesting v)) (nesting_pairs ps)"
| "nesting_list [] = 0"
| "nesting_list (v # vs) = max (1 + nesting v) (nesting_list vs)"
  by pat_completeness auto
termination
  by (relation "measure (case_sum (case_sum size (size_list (size_prod (\<lambda>_. 0) size)))
       (case_sum (size_list (size_prod size size)) (size_list size)))")
     (auto simp: size_list_conv_sum_list)

lemma valid_tval_type [simp]: "valid_field_type (tval_type v)"
  by (cases v) (auto simp: valid_field_type_def)

text \<open>What \<open>skip\<close> does on an encoded value: accept it exactly up to the nesting limit.\<close>

definition skips :: "unit rd \<Rightarrow> bytes \<Rightarrow> bool \<Rightarrow> bool" where
  "skips m bs ok \<longleftrightarrow> (if ok then parses m bs () else pfails m bs depth_error)"

lemma skips_bind:
  assumes "skips m bs a" "skips k cs b"
  shows "skips (rbind m (\<lambda>_. k)) (bs @ cs) (a \<and> b)"
  using assms parses_bind [of m bs "()" "\<lambda>_. k" cs "()"] pfails_bind_first [of m bs]
    pfails_bind_second [of m bs "()" "\<lambda>_. k" cs]
  by (auto simp: skips_def split: if_splits)

lemma skips_prefix:
  assumes "parses m bs x" "skips (k x) cs b"
  shows "skips (rbind m k) (bs @ cs) b"
  using assms parses_bind [of m bs x k cs "()"] pfails_bind_second [of m bs x k cs]
  by (auto simp: skips_def split: if_splits)

lemma skips_scalar:
  "parses m bs x \<Longrightarrow> skips (rbind m (\<lambda>_. rret ())) bs True"
  using parses_bind_rret [of m bs x "\<lambda>_. ()"] by (simp add: skips_def)

lemma skips_field:
  assumes "valid_field_type t" "skips (body () t i) bs a" "skips (struct_loop body ()) rest b"
  shows "skips (struct_loop body ()) (write_field t i bs @ rest) (a \<and> b)"
  using assms parses_struct_field [OF assms(1), of body "()" i bs "()" rest "()"]
    pfails_struct_field [OF assms(1), of body "()" i bs _ rest]
    pfails_struct_later [OF assms(1), of body "()" i bs "()" rest]
  by (auto simp: skips_def split: if_splits)


lemma skips_struct_stop: "skips (struct_loop body ()) write_stop True"
  by (simp add: skips_def parses_struct_stop)

lemma skips_deep: "MAX_SKIP_DEPTH < d \<Longrightarrow> skips (skip_at_depth t d) bs False"
  by (simp add: skips_def skip_at_depth_deep pfails_rfail)

text \<open>The three kinds of element sequences, with the statement for their elements given.\<close>

lemma skips_enc_fields:
  assumes "\<And>i v. (i, v) \<in> set fs \<Longrightarrow> skips (skip_at_depth (tval_type v) d) (enc v) (P v)"
  shows "skips (struct_loop (\<lambda>_ t _. skip_at_depth t d) ()) (enc_fields fs) (\<forall>(i, v) \<in> set fs. P v)"
  using assms
proof (induction fs)
  case Nil
  then show ?case by (simp add: skips_struct_stop)
next
  case (Cons f fs)
  obtain i v where f: "f = (i, v)" by force
  have "skips (struct_loop (\<lambda>_ t _. skip_at_depth t d) ())
      (write_field (tval_type v) i (enc v) @ enc_fields fs) (P v \<and> (\<forall>(i, v) \<in> set fs. P v))"
    using Cons f by (intro skips_field) auto
  with f show ?case by simp
qed

lemma skips_enc_list:
  assumes "\<And>v. v \<in> set vs \<Longrightarrow> skips m (enc v) (P v)"
  shows "skips (rrepeat (length vs) m) (enc_list vs) (\<forall>v \<in> set vs. P v)"
  using assms
proof (induction vs)
  case Nil
  then show ?case by (simp add: skips_def parses_rret)
next
  case (Cons v vs)
  have "skips (rbind m (\<lambda>_. rrepeat (length vs) m)) (enc v @ enc_list vs) (P v \<and> (\<forall>v \<in> set vs. P v))"
    using Cons by (intro skips_bind) auto
  then show ?case by simp
qed

lemma skips_enc_pairs:
  assumes "\<And>k v. (k, v) \<in> set ps \<Longrightarrow> skips m (enc k @ enc v) (P k v)"
  shows "skips (rrepeat (length ps) m) (enc_pairs ps) (\<forall>(k, v) \<in> set ps. P k v)"
  using assms
proof (induction ps)
  case Nil
  then show ?case by (simp add: skips_def parses_rret)
next
  case (Cons p ps)
  obtain k v where p: "p = (k, v)" by force
  have "skips (rbind m (\<lambda>_. rrepeat (length ps) m)) ((enc k @ enc v) @ enc_pairs ps)
      (P k v \<and> (\<forall>(k, v) \<in> set ps. P k v))"
    using Cons p by (intro skips_bind) auto
  with p show ?case by simp
qed

lemma wf_fields_iff: "wf_fields fs \<longleftrightarrow> (\<forall>(i, v) \<in> set fs. wf_tval v)"
  by (induction fs) auto

lemma wf_list_iff: "wf_list et vs \<longleftrightarrow> (\<forall>v \<in> set vs. tval_type v = et \<and> wf_tval v)"
  by (induction vs) auto

lemma wf_pairs_iff:
  "wf_pairs kt vt ps \<longleftrightarrow>
     (\<forall>(k, v) \<in> set ps. tval_type k = kt \<and> tval_type v = vt \<and> wf_tval k \<and> wf_tval v)"
  by (induction ps) auto

lemma nesting_fields_le:
  "nesting_fields fs \<le> n \<longleftrightarrow> (\<forall>(i, v) \<in> set fs. 2 + nesting v \<le> n)"
  by (induction fs) auto

lemma nesting_list_le: "nesting_list vs \<le> n \<longleftrightarrow> (\<forall>v \<in> set vs. 1 + nesting v \<le> n)"
  by (induction vs) auto

lemma nesting_pairs_le:
  "nesting_pairs ps \<le> n \<longleftrightarrow> (\<forall>(k, v) \<in> set ps. 1 + nesting k \<le> n \<and> 1 + nesting v \<le> n)"
  by (induction ps) auto

lemma skips_list_value:
  assumes d: "d \<le> MAX_SKIP_DEPTH" and t: "t = T_LIST \<or> t = T_SET"
    and wf: "valid_field_type et" "length vs \<le> MAX_CONTAINER_ELEMENTS"
    and el: "\<And>v. v \<in> set vs \<Longrightarrow> skips (skip_at_depth et (d + 1)) (enc v) (d + 1 + nesting v \<le> MAX_SKIP_DEPTH)"
  shows "skips (skip_at_depth t d) ([et] @ write_i32 (of_nat (length vs)) @ enc_list vs)
     (d + nesting_list vs \<le> MAX_SKIP_DEPTH)"
proof -
  have "skip_at_depth t d = rbind (read_container_element_type ''list/set element'') (\<lambda>element_type.
         rbind (read_container_size ''list/set'') (\<lambda>size. rrepeat size (skip_at_depth element_type (d + 1))))"
    using t by (auto simp: skip_at_depth_eq [OF d])
  then have "skips (skip_at_depth t d) ([et] @ write_i32 (of_nat (length vs)) @ enc_list vs)
      (\<forall>v \<in> set vs. d + 1 + nesting v \<le> MAX_SKIP_DEPTH)"
    by (simp only:)
       (intro skips_prefix [OF parses_element_type [OF wf(1)]] skips_prefix [OF parses_container_size [OF wf(2)]]
          skips_enc_list el)
  moreover have "(\<forall>v \<in> set vs. d + 1 + nesting v \<le> MAX_SKIP_DEPTH) \<longleftrightarrow> d + nesting_list vs \<le> MAX_SKIP_DEPTH"
    using nesting_list_le [of vs "MAX_SKIP_DEPTH - d"] d by auto
  ultimately show ?thesis by simp
qed

lemma skips_map_value:
  assumes d: "d \<le> MAX_SKIP_DEPTH"
    and wf: "valid_field_type kt" "valid_field_type vt" "length ps \<le> MAX_CONTAINER_ELEMENTS"
    and el: "\<And>k v. (k, v) \<in> set ps \<Longrightarrow>
      skips (skip_at_depth kt (d + 1)) (enc k) (d + 1 + nesting k \<le> MAX_SKIP_DEPTH) \<and>
      skips (skip_at_depth vt (d + 1)) (enc v) (d + 1 + nesting v \<le> MAX_SKIP_DEPTH)"
  shows "skips (skip_at_depth T_MAP d) ([kt] @ [vt] @ write_i32 (of_nat (length ps)) @ enc_pairs ps)
     (d + nesting_pairs ps \<le> MAX_SKIP_DEPTH)"
proof -
  let ?elem = "rbind (skip_at_depth kt (d + 1)) (\<lambda>_. skip_at_depth vt (d + 1))"
  have "skips (rrepeat (length ps) ?elem) (enc_pairs ps)
      (\<forall>(k, v) \<in> set ps. d + 1 + nesting k \<le> MAX_SKIP_DEPTH \<and> d + 1 + nesting v \<le> MAX_SKIP_DEPTH)"
    using el by (intro skips_enc_pairs skips_bind) auto
  moreover have "skip_at_depth T_MAP d =
      rbind (read_container_element_type ''map key'') (\<lambda>key_type.
      rbind (read_container_element_type ''map value'') (\<lambda>value_type.
      rbind (read_container_size ''map'') (\<lambda>size.
        rrepeat size (rbind (skip_at_depth key_type (d + 1)) (\<lambda>_. skip_at_depth value_type (d + 1))))))"
    by (simp add: skip_at_depth_eq [OF d])
  moreover have "(\<forall>(k, v) \<in> set ps. d + 1 + nesting k \<le> MAX_SKIP_DEPTH \<and> d + 1 + nesting v \<le> MAX_SKIP_DEPTH)
      \<longleftrightarrow> d + nesting_pairs ps \<le> MAX_SKIP_DEPTH"
    using nesting_pairs_le [of ps "MAX_SKIP_DEPTH - d"] d by auto
  ultimately show ?thesis
    by (simp only:)
       (intro skips_prefix [OF parses_element_type [OF wf(1)]] skips_prefix [OF parses_element_type [OF wf(2)]]
          skips_prefix [OF parses_container_size [OF wf(3)]])
qed

lemma skips_struct_value:
  assumes d: "d \<le> MAX_SKIP_DEPTH"
    and el: "\<And>i v. (i, v) \<in> set fs \<Longrightarrow>
      skips (skip_at_depth (tval_type v) (d + 2)) (enc v) (d + 2 + nesting v \<le> MAX_SKIP_DEPTH)"
  shows "skips (skip_at_depth T_STRUCT d) (enc_fields fs) (d + max 1 (nesting_fields fs) \<le> MAX_SKIP_DEPTH)"
proof -
  have struct: "skip_at_depth T_STRUCT d = skip_remaining_struct_fields_at_depth (d + 1)"
    by (simp add: skip_at_depth_eq [OF d])
  show ?thesis
  proof (cases "d + 1 \<le> MAX_SKIP_DEPTH")
    case False
    then have "\<not> d + max 1 (nesting_fields fs) \<le> MAX_SKIP_DEPTH" by simp
    with False show ?thesis unfolding struct
      by (simp add: skips_def skip_fields_deep pfails_rfail)
  next
    case d1: True
    have "skips (struct_loop (\<lambda>_ t _. skip_at_depth t (d + 2)) ()) (enc_fields fs)
        (\<forall>(i, v) \<in> set fs. d + 2 + nesting v \<le> MAX_SKIP_DEPTH)"
      by (rule skips_enc_fields) (rule el)
    moreover have "(\<forall>(i, v) \<in> set fs. d + 2 + nesting v \<le> MAX_SKIP_DEPTH)
        \<longleftrightarrow> d + max 1 (nesting_fields fs) \<le> MAX_SKIP_DEPTH"
      using nesting_fields_le [of fs "MAX_SKIP_DEPTH - d"] d d1 by auto
    ultimately show ?thesis unfolding struct skip_fields_eq [OF d1]
      by simp
  qed
qed

lemma size_field: "(i, v) \<in> set fs \<Longrightarrow> size v < size (VStruct fs)"
  using size_list_estimation' [of "(i, v)" fs "size v" "size_prod (\<lambda>_. 0) size"] by simp

lemma size_pair: "(k, v) \<in> set ps \<Longrightarrow> size k < size (VMap kt vt ps) \<and> size v < size (VMap kt vt ps)"
  using size_list_estimation' [of "(k, v)" ps "size k + size v" "size_prod size size"] by auto

lemma size_elem: "v \<in> set vs \<Longrightarrow> size v < size (VList et vs) \<and> size v < size (VSet et vs)"
  using size_list_estimation' [of v vs "size v" size] by auto

lemma skips_enc:
  "wf_tval v \<Longrightarrow> skips (skip_at_depth (tval_type v) d) (enc v) (d + nesting v \<le> MAX_SKIP_DEPTH)"
proof (induction "size v" arbitrary: v d rule: less_induct)
  case less
  show ?case
  proof (cases "d \<le> MAX_SKIP_DEPTH")
    case False
    then show ?thesis using skips_deep by simp
  next
    case d: True
    show ?thesis
    proof (cases v)
      case (VStruct fs)
      have "skips (skip_at_depth (tval_type w) (d + 2)) (enc w) (d + 2 + nesting w \<le> MAX_SKIP_DEPTH)"
        if "(i, w) \<in> set fs" for i w
        by (rule less.hyps) (use less.prems VStruct size_field [OF that] that in \<open>auto simp: wf_fields_iff\<close>)
      from skips_struct_value [OF d this] VStruct show ?thesis by simp
    next
      case (VMap kt vt ps)
      have "skips (skip_at_depth kt (d + 1)) (enc k) (d + 1 + nesting k \<le> MAX_SKIP_DEPTH) \<and>
          skips (skip_at_depth vt (d + 1)) (enc w) (d + 1 + nesting w \<le> MAX_SKIP_DEPTH)"
        if "(k, w) \<in> set ps" for k w
        using less.hyps [of k "d + 1"] less.hyps [of w "d + 1"] less.prems VMap
          size_pair [OF that, of kt vt] that
        by (auto simp: wf_pairs_iff)
      with skips_map_value [OF d _ _ _ this] VMap less.prems show ?thesis by simp
    next
      case (VList et vs)
      have "skips (skip_at_depth et (d + 1)) (enc w) (d + 1 + nesting w \<le> MAX_SKIP_DEPTH)"
        if "w \<in> set vs" for w
        using less.hyps [of w "d + 1"] less.prems VList size_elem [OF that, of et] that
        by (auto simp: wf_list_iff)
      with skips_list_value [OF d _ _ _ this, of T_LIST] VList less.prems show ?thesis by simp
    next
      case (VSet et vs)
      have "skips (skip_at_depth et (d + 1)) (enc w) (d + 1 + nesting w \<le> MAX_SKIP_DEPTH)"
        if "w \<in> set vs" for w
        using less.hyps [of w "d + 1"] less.prems VSet size_elem [OF that, of et] that
        by (auto simp: wf_list_iff)
      with skips_list_value [OF d _ _ _ this, of T_SET] VSet less.prems show ?thesis by simp
    qed (use d less.prems in \<open>auto simp: skip_at_depth_eq [OF d] write_bool_def
           intro!: skips_scalar parse_rules\<close>)
  qed
qed


end
