(* ===== verification/Thrift_Requests.thy ===== *)
theory Thrift_Requests
  imports Thrift_Codec
begin

text \<open>
  Decoding of Thrift requests (\<open>src/src/thrift.rs\<close>): the message envelope, the arguments
  struct of an RPC and the request structs. Every request reader is the field loop of
  \<^const>\<open>struct_loop\<close> over a body named after it, so that the loop's contract
  \<open>struct_body\<close> gives termination and bounds for all of them.

  \<open>uuid_to_string\<close> stands for the rendering of a 16-byte UUID by the \<open>uuid\<close> crate.
\<close>

record handle =
  h_id :: string
  h_secret :: bytes

record message =
  msg_name :: string
  msg_type :: u8
  msg_seqid :: i32
  msg_payload :: bytes

record open_session_req =
  osr_catalog :: "string option"
  osr_schema :: "string option"
  osr_get_info_types :: "i32 list"

record get_info_req =
  gir_session_handle :: "handle option"
  gir_info_type :: i32

record get_columns_req =
  gcr_session_handle :: "handle option"
  gcr_catalog_name :: "string option"
  gcr_schema_name :: "string option"
  gcr_table_name :: "string option"
  gcr_column_name :: "string option"

record execute_statement_req =
  esr_session_handle :: "handle option"
  esr_statement :: string

record fetch_results_req =
  frr_operation_handle :: "handle option"
  frr_start_row_offset :: "i64 option"
  frr_max_rows :: "i64 option"

section \<open>The message envelope\<close>

definition message_reader :: "message rd" where
  "message_reader =
     rbind read_i32 (\<lambda>version.
       if version AND 0xFFFF0000 \<noteq> T_BINARY_VERSION_1
       then rfail (Thrift ''only strict binary Thrift messages are supported'')
       else rbind read_string (\<lambda>name.
            rbind read_i32 (\<lambda>seqid r.
              rret \<lparr>msg_name = name, msg_type = ucast (version AND 0x000000FF),
                    msg_seqid = seqid, msg_payload = drop (position r) (buffer r)\<rparr> r)))"

text \<open>Running a reader over a buffer from its start, keeping only the result.\<close>

definition run_reader :: "'a rd \<Rightarrow> bytes \<Rightarrow> 'a res option" where
  "run_reader m bs = map_option (map_sum id fst) (m (reader_new bs))"

definition decode_message :: "bytes \<Rightarrow> message res option" where
  "decode_message body = run_reader message_reader body"

section \<open>RPC arguments\<close>

partial_function (option) args_loop :: "'a rd \<Rightarrow> reader \<Rightarrow> ('a \<times> reader) res option" where
  "args_loop parse_req r =
     Option.bind (read_field_begin r) (\<lambda>h.
       case h of
         Inl e \<Rightarrow> Some (Inl e)
       | Inr ((field_type, field_id), r1) \<Rightarrow>
           if field_type = T_STOP then
             Some (Inl (Thrift ''Thrift RPC arguments did not include field `req`''))
           else if field_id = 1 \<and> field_type = T_STRUCT then
             rbind parse_req (\<lambda>request. rbind skip_remaining_struct_fields (\<lambda>_. rret request)) r1
           else Option.bind (skip field_type r1) (\<lambda>b.
             case b of Inl e \<Rightarrow> Some (Inl e) | Inr (_, r2) \<Rightarrow> args_loop parse_req r2))"

definition read_args :: "bytes \<Rightarrow> 'a rd \<Rightarrow> 'a res option" where
  "read_args payload parse_req = run_reader (args_loop parse_req) payload"

section \<open>Handles\<close>

text \<open>\<open>Uuid::from_slice(bytes).ok().map(to_string)\<close> and \<open>try_into().ok()\<close> to 16 bytes.\<close>

definition uuid_from_slice :: "(bytes \<Rightarrow> string) \<Rightarrow> bytes \<Rightarrow> string option" where
  "uuid_from_slice uuid_to_string bs = (if length bs = 16 then Some (uuid_to_string bs) else None)"

definition secret_from_slice :: "bytes \<Rightarrow> bytes option" where
  "secret_from_slice bs = (if length bs = 16 then Some bs else None)"

definition handle_identifier_field ::
  "(bytes \<Rightarrow> string) \<Rightarrow> string option \<times> bytes option \<Rightarrow> u8 \<Rightarrow> i16 \<Rightarrow> (string option \<times> bytes option) rd" where
  "handle_identifier_field uuid_to_string = (\<lambda>(guid, secret) field_type field_id.
     if field_id = 1 \<and> field_type = T_STRING then
       rbind read_binary (\<lambda>bs. rret (uuid_from_slice uuid_to_string bs, secret))
     else if field_id = 2 \<and> field_type = T_STRING then
       rbind read_binary (\<lambda>bs. rret (guid, secret_from_slice bs))
     else rbind (skip field_type) (\<lambda>_. rret (guid, secret)))"

definition read_handle_identifier :: "(bytes \<Rightarrow> string) \<Rightarrow> handle option rd" where
  "read_handle_identifier uuid_to_string =
     rbind (struct_loop (handle_identifier_field uuid_to_string) (None, None)) (\<lambda>(guid, secret).
       rret (case (guid, secret) of
               (Some gid, Some sec) \<Rightarrow> Some \<lparr>h_id = gid, h_secret = sec\<rparr>
             | _ \<Rightarrow> None))"

definition handle_field :: "(bytes \<Rightarrow> string) \<Rightarrow> handle option \<Rightarrow> u8 \<Rightarrow> i16 \<Rightarrow> handle option rd" where
  "handle_field uuid_to_string cur field_type field_id =
     (if field_id = 1 \<and> field_type = T_STRUCT then read_handle_identifier uuid_to_string
      else rbind (skip field_type) (\<lambda>_. rret cur))"

definition read_session_handle :: "(bytes \<Rightarrow> string) \<Rightarrow> handle option rd" where
  "read_session_handle uuid_to_string = struct_loop (handle_field uuid_to_string) None"

definition read_operation_handle :: "(bytes \<Rightarrow> string) \<Rightarrow> handle option rd" where
  "read_operation_handle uuid_to_string = struct_loop (handle_field uuid_to_string) None"

section \<open>Request structs\<close>

primrec read_n :: "nat \<Rightarrow> 'a rd \<Rightarrow> 'a list rd" where
  "read_n 0 m = rret []"
| "read_n (Suc n) m = rbind m (\<lambda>x. rbind (read_n n m) (\<lambda>xs. rret (x # xs)))"

definition read_i32_list :: "i32 list rd" where
  "read_i32_list =
     rbind read_u8 (\<lambda>element_type.
     rbind read_i32 (\<lambda>len.
       if sint len < 0 then rfail (Thrift ''negative i32 list size'')
       else if element_type \<noteq> T_I32 then rbind (rrepeat (nat (sint len)) (skip element_type)) (\<lambda>_. rret [])
       else read_n (nat (sint len)) read_i32))"

definition namespace_field ::
  "string option \<times> string option \<Rightarrow> u8 \<Rightarrow> i16 \<Rightarrow> (string option \<times> string option) rd" where
  "namespace_field = (\<lambda>(catalog, schema) field_type field_id.
     if field_id = 1 \<and> field_type = T_STRING then rbind read_string (\<lambda>s. rret (Some s, schema))
     else if field_id = 2 \<and> field_type = T_STRING then rbind read_string (\<lambda>s. rret (catalog, Some s))
     else rbind (skip field_type) (\<lambda>_. rret (catalog, schema)))"

definition read_namespace :: "(string option \<times> string option) rd" where
  "read_namespace = struct_loop namespace_field (None, None)"

definition open_session_field :: "open_session_req \<Rightarrow> u8 \<Rightarrow> i16 \<Rightarrow> open_session_req rd" where
  "open_session_field req field_type field_id =
     (if field_id = 1281 \<and> field_type = T_LIST then
        rbind read_i32_list (\<lambda>xs. rret (req\<lparr>osr_get_info_types := xs\<rparr>))
      else if field_id = 1284 \<and> field_type = T_STRUCT then
        rbind read_namespace (\<lambda>(catalog, schema). rret (req\<lparr>osr_catalog := catalog, osr_schema := schema\<rparr>))
      else rbind (skip field_type) (\<lambda>_. rret req))"

definition read_open_session_req :: "open_session_req rd" where
  "read_open_session_req =
     struct_loop open_session_field \<lparr>osr_catalog = None, osr_schema = None, osr_get_info_types = []\<rparr>"

definition close_session_field ::
  "(bytes \<Rightarrow> string) \<Rightarrow> handle option \<Rightarrow> u8 \<Rightarrow> i16 \<Rightarrow> handle option rd" where
  "close_session_field uuid_to_string cur field_type field_id =
     (if field_id = 1 \<and> field_type = T_STRUCT then read_session_handle uuid_to_string
      else rbind (skip field_type) (\<lambda>_. rret cur))"

definition read_close_session_req :: "(bytes \<Rightarrow> string) \<Rightarrow> handle option rd" where
  "read_close_session_req uuid_to_string = struct_loop (close_session_field uuid_to_string) None"

definition get_info_field ::
  "(bytes \<Rightarrow> string) \<Rightarrow> handle option \<times> i32 option \<Rightarrow> u8 \<Rightarrow> i16 \<Rightarrow> (handle option \<times> i32 option) rd" where
  "get_info_field uuid_to_string = (\<lambda>(cur, info_type) field_type field_id.
     if field_id = 1 \<and> field_type = T_STRUCT then
       rbind (read_session_handle uuid_to_string) (\<lambda>h. rret (h, info_type))
     else if field_id = 2 \<and> field_type = T_I32 then rbind read_i32 (\<lambda>t. rret (cur, Some t))
     else rbind (skip field_type) (\<lambda>_. rret (cur, info_type)))"

definition CLI_DBMS_NAME :: i32 where [simp]: "CLI_DBMS_NAME = 17"

definition read_get_info_req :: "(bytes \<Rightarrow> string) \<Rightarrow> get_info_req rd" where
  "read_get_info_req uuid_to_string =
     rbind (struct_loop (get_info_field uuid_to_string) (None, None)) (\<lambda>(cur, info_type).
       rret \<lparr>gir_session_handle = cur,
             gir_info_type = (case info_type of Some t \<Rightarrow> t | None \<Rightarrow> CLI_DBMS_NAME)\<rparr>)"

definition get_columns_field ::
  "(bytes \<Rightarrow> string) \<Rightarrow> get_columns_req \<Rightarrow> u8 \<Rightarrow> i16 \<Rightarrow> get_columns_req rd" where
  "get_columns_field uuid_to_string req field_type field_id =
     (if field_id = 1 \<and> field_type = T_STRUCT then
        rbind (read_session_handle uuid_to_string) (\<lambda>h. rret (req\<lparr>gcr_session_handle := h\<rparr>))
      else if field_id = 2 \<and> field_type = T_STRING then
        rbind read_string (\<lambda>s. rret (req\<lparr>gcr_catalog_name := Some s\<rparr>))
      else if field_id = 3 \<and> field_type = T_STRING then
        rbind read_string (\<lambda>s. rret (req\<lparr>gcr_schema_name := Some s\<rparr>))
      else if field_id = 4 \<and> field_type = T_STRING then
        rbind read_string (\<lambda>s. rret (req\<lparr>gcr_table_name := Some s\<rparr>))
      else if field_id = 5 \<and> field_type = T_STRING then
        rbind read_string (\<lambda>s. rret (req\<lparr>gcr_column_name := Some s\<rparr>))
      else rbind (skip field_type) (\<lambda>_. rret req))"

definition read_get_columns_req :: "(bytes \<Rightarrow> string) \<Rightarrow> get_columns_req rd" where
  "read_get_columns_req uuid_to_string =
     struct_loop (get_columns_field uuid_to_string)
       \<lparr>gcr_session_handle = None, gcr_catalog_name = None, gcr_schema_name = None,
        gcr_table_name = None, gcr_column_name = None\<rparr>"

definition execute_statement_field ::
  "(bytes \<Rightarrow> string) \<Rightarrow> handle option \<times> string option \<Rightarrow> u8 \<Rightarrow> i16 \<Rightarrow> (handle option \<times> string option) rd" where
  "execute_statement_field uuid_to_string = (\<lambda>(cur, statement) field_type field_id.
     if field_id = 1 \<and> field_type = T_STRUCT then
       rbind (read_session_handle uuid_to_string) (\<lambda>h. rret (h, statement))
     else if field_id = 2 \<and> field_type = T_STRING then rbind read_string (\<lambda>s. rret (cur, Some s))
     else rbind (skip field_type) (\<lambda>_. rret (cur, statement)))"

definition read_execute_statement_req :: "(bytes \<Rightarrow> string) \<Rightarrow> execute_statement_req rd" where
  "read_execute_statement_req uuid_to_string =
     rbind (struct_loop (execute_statement_field uuid_to_string) (None, None)) (\<lambda>(cur, statement).
       case statement of
         None \<Rightarrow> rfail (Thrift ''ExecuteStatement missing SQL'')
       | Some sql \<Rightarrow> rret \<lparr>esr_session_handle = cur, esr_statement = sql\<rparr>)"

definition operation_field ::
  "(bytes \<Rightarrow> string) \<Rightarrow> handle option \<Rightarrow> u8 \<Rightarrow> i16 \<Rightarrow> handle option rd" where
  "operation_field uuid_to_string cur field_type field_id =
     (if field_id = 1 \<and> field_type = T_STRUCT then read_operation_handle uuid_to_string
      else rbind (skip field_type) (\<lambda>_. rret cur))"

definition read_operation_req :: "(bytes \<Rightarrow> string) \<Rightarrow> handle option rd" where
  "read_operation_req uuid_to_string = struct_loop (operation_field uuid_to_string) None"

definition fetch_results_field ::
  "(bytes \<Rightarrow> string) \<Rightarrow> fetch_results_req \<Rightarrow> u8 \<Rightarrow> i16 \<Rightarrow> fetch_results_req rd" where
  "fetch_results_field uuid_to_string req field_type field_id =
     (if field_id = 1 \<and> field_type = T_STRUCT then
        rbind (read_operation_handle uuid_to_string) (\<lambda>h. rret (req\<lparr>frr_operation_handle := h\<rparr>))
      else if field_id = 3 \<and> field_type = T_I64 then
        rbind read_i64 (\<lambda>v. rret (req\<lparr>frr_max_rows := Some v\<rparr>))
      else if field_id = 1282 \<and> field_type = T_I64 then
        rbind read_i64 (\<lambda>v. rret (req\<lparr>frr_start_row_offset := Some v\<rparr>))
      else rbind (skip field_type) (\<lambda>_. rret req))"

definition read_fetch_results_req :: "(bytes \<Rightarrow> string) \<Rightarrow> fetch_results_req rd" where
  "read_fetch_results_req uuid_to_string =
     struct_loop (fetch_results_field uuid_to_string)
       \<lparr>frr_operation_handle = None, frr_start_row_offset = None, frr_max_rows = None\<rparr>"

section \<open>Every request reader returns and stays inside the buffer\<close>

lemma advances_read_n [progress_rules]: "advances 0 m \<Longrightarrow> advances 0 (read_n n m)"
  by (induction n) (auto intro!: progress_rules)

lemma advances_read_i32_list [progress_rules]: "advances (Suc 0) read_i32_list"
  unfolding read_i32_list_def
  by (intro progress_rules advances_mono [OF advances_read_i32]) auto

text \<open>The bodies use these readers, each of which may consume nothing more than its header.\<close>

lemmas body_rules =
  advances_if advances_bind [where n = 0] advances_rret advances_rfail skip0_advances
  advances_mono [OF advances_read_i32, of 0, simplified]
  advances_mono [OF advances_read_i64, of 0, simplified]
  advances_mono [OF advances_read_binary, of 0, simplified]
  advances_mono [OF advances_read_string, of 0, simplified]
  advances_mono [OF advances_read_i32_list, of 0, simplified]

interpretation handle_identifier: struct_body "handle_identifier_field uts" for uts
  by unfold_locales (auto simp: handle_identifier_field_def intro!: body_rules split: prod.split)

lemma advances_read_handle_identifier [progress_rules]: "advances 0 (read_handle_identifier uts)"
  unfolding read_handle_identifier_def
  by (rule advances_bind) (auto intro!: advances_rret advances_mono [OF handle_identifier.loop_advances])

interpretation handle_struct: struct_body "handle_field uts" for uts
  by unfold_locales (auto simp: handle_field_def intro!: body_rules progress_rules)

lemma advances_read_session_handle [progress_rules]: "advances 0 (read_session_handle uts)"
  unfolding read_session_handle_def by (rule advances_mono [OF handle_struct.loop_advances]) simp

lemma advances_read_operation_handle [progress_rules]: "advances 0 (read_operation_handle uts)"
  unfolding read_operation_handle_def by (rule advances_mono [OF handle_struct.loop_advances]) simp

interpretation namespace: struct_body namespace_field
  by unfold_locales (auto simp: namespace_field_def intro!: body_rules split: prod.split)

lemma advances_read_namespace [progress_rules]: "advances 0 read_namespace"
  unfolding read_namespace_def by (rule advances_mono [OF namespace.loop_advances]) simp

lemmas handle_rules =
  body_rules advances_read_session_handle advances_read_operation_handle advances_read_namespace

interpretation open_session: struct_body open_session_field
  by unfold_locales (auto simp: open_session_field_def intro!: handle_rules)

interpretation close_session: struct_body "close_session_field uts" for uts
  by unfold_locales (auto simp: close_session_field_def intro!: handle_rules)

interpretation get_info: struct_body "get_info_field uts" for uts
  by unfold_locales (auto simp: get_info_field_def intro!: handle_rules split: prod.split)

interpretation get_columns: struct_body "get_columns_field uts" for uts
  by unfold_locales (auto simp: get_columns_field_def intro!: handle_rules)

interpretation execute_statement: struct_body "execute_statement_field uts" for uts
  by unfold_locales (auto simp: execute_statement_field_def intro!: handle_rules split: prod.split)

interpretation operation: struct_body "operation_field uts" for uts
  by unfold_locales (auto simp: operation_field_def intro!: handle_rules)

interpretation fetch_results: struct_body "fetch_results_field uts" for uts
  by unfold_locales (auto simp: fetch_results_field_def intro!: handle_rules)

lemma request_readers_advance [progress_rules]:
  "advances (Suc 0) read_open_session_req"
  "advances (Suc 0) (read_close_session_req uts)"
  "advances (Suc 0) (read_get_info_req uts)"
  "advances (Suc 0) (read_get_columns_req uts)"
  "advances (Suc 0) (read_execute_statement_req uts)"
  "advances (Suc 0) (read_operation_req uts)"
  "advances (Suc 0) (read_fetch_results_req uts)"
  unfolding read_open_session_req_def read_close_session_req_def read_get_info_req_def
    read_get_columns_req_def read_execute_statement_req_def read_operation_req_def
    read_fetch_results_req_def
  by (auto intro!: open_session.loop_advances close_session.loop_advances get_columns.loop_advances
      operation.loop_advances fetch_results.loop_advances advances_bind [OF get_info.loop_advances]
      advances_bind [OF execute_statement.loop_advances] advances_rret advances_rfail
      split: option.split)


lemma args_loop_bind:
  "args_loop m =
     rbind read_field_begin (\<lambda>(t, i).
       if t = T_STOP then rfail (Thrift ''Thrift RPC arguments did not include field `req`'')
       else if i = 1 \<and> t = T_STRUCT then
         rbind m (\<lambda>request. rbind skip_remaining_struct_fields (\<lambda>_. rret request))
       else rbind (skip t) (\<lambda>_. args_loop m))" (is "_ = ?rhs")
proof (rule ext)
  fix r
  show "args_loop m r = ?rhs r"
    by (subst args_loop.simps)
       (auto simp: rbind_def [of read_field_begin] rbind_def [of "skip _"] rret_def rfail_def
          split: option.splits sum.splits bind_splits)
qed

lemma advances_args_loop:
  assumes m: "advances 0 m"
  shows "advances (Suc 0) (args_loop m)"
proof -
  have req: "advances 0 (rbind m (\<lambda>request. rbind skip_remaining_struct_fields (\<lambda>_. rret request)))"
    unfolding skip_remaining_struct_fields_def
    by (intro progress_rules m advances_mono [OF skip_fields_advances]) simp
  have "advances_at (Suc 0) (args_loop m) r" if "reader_ok r" for r
    using that
  proof (induction "length (buffer r) - position r" arbitrary: r rule: less_induct)
    case less
    note header = advancesD [OF advances_read_field_begin less.prems]
    show ?case
    proof (subst args_loop_bind, rule advances_at_bind [OF header])
      fix h s assume s: "read_field_begin r = Some (Inr (h, s))"
      note ds = advances_atD [OF header s]
      have rest: "advances_at 0 (args_loop m) u" if "skip (fst h) s = Some (Inr (x, u))" for x u
      proof -
        note du = advances_atD [OF advancesD [OF skip0_advances ds(3)] that]
        have "length (buffer u) - position u < length (buffer r) - position r"
          using ds du by (auto simp: reader_ok_def)
        from less.hyps [OF this du(3)] show ?thesis by (rule advances_at_mono) simp
      qed
      show "advances_at 0 (case h of (t, i) \<Rightarrow>
         if t = T_STOP then rfail (Thrift ''Thrift RPC arguments did not include field `req`'')
         else if i = 1 \<and> t = T_STRUCT then
           rbind m (\<lambda>request. rbind skip_remaining_struct_fields (\<lambda>_. rret request))
         else rbind (skip t) (\<lambda>_. args_loop m)) s"
        using rest advancesD [OF req ds(3)] advancesD [OF advances_rfail ds(3)]
          advancesD [OF skip0_advances ds(3)]
        by (auto intro!: advances_at_bind split: prod.split)
    qed
  qed
  then show ?thesis by (simp add: advances_def)
qed

lemma run_reader_returns: "advances n m \<Longrightarrow> run_reader m bs \<noteq> None"
  using advances_returns [of n m "reader_new bs"]
  by (simp add: run_reader_def reader_ok_def reader_new_def)

lemma read_args_returns: "advances (Suc 0) m \<Longrightarrow> read_args payload m \<noteq> None"
  unfolding read_args_def
  by (rule run_reader_returns, rule advances_args_loop, erule advances_mono) simp

lemma decode_message_returns: "decode_message body \<noteq> None"
  unfolding decode_message_def message_reader_def
  by (rule run_reader_returns [of 4])
     (intro progress_rules advances_mono [OF advances_read_string] advances_mono [OF advances_read_i32];
      simp add: advances_def advances_at_def rret_def)

lemma parses_args:
  assumes "parses m bs x" "parses skip_remaining_struct_fields rest ()"
  shows "parses (args_loop m) (write_field T_STRUCT 1 bs @ rest) x"
proof -
  have req: "parses (rbind m (\<lambda>request. rbind skip_remaining_struct_fields (\<lambda>_. rret request))) (bs @ rest) x"
    by (rule parses_bind [OF assms(1)]) (rule parses_bind_rret [OF assms(2), of "\<lambda>_. x"])
  have "parses (args_loop m) ((T_STRUCT # write_i16 1) @ bs @ rest) x"
    by (subst args_loop_bind)
       (rule parses_bind [OF parses_field_begin], use req in \<open>auto simp: valid_field_type_def\<close>)
  then show ?thesis by (simp add: write_field_def)
qed

lemma run_reader_parses: "parses m bs x \<Longrightarrow> run_reader m (bs @ rest) = Some (Inr x)"
  using parses_at [of m bs x 0 "[]" rest] by (simp add: run_reader_def reader_new_def)

end
