(* ===== verification/Thrift_Responses.thy ===== *)
theory Thrift_Responses
  imports Thrift_Requests
begin

text \<open>
  The response writers (\<open>src/src/thrift.rs\<close>). A writer that appends to a
  \<open>Writer\<close> is the list of bytes it appends; a closure passed to
  \<open>write_field\<close> is the bytes of the field's value. The last section shows that every
  response is the encoding of an abstract Thrift value inside a well-formed message.
\<close>

section \<open>Protocol numbers\<close>

definition SPARK_CLI_SERVICE_PROTOCOL_V7 :: i32 where [simp]: "SPARK_CLI_SERVICE_PROTOCOL_V7 = 42247"
definition SUCCESS_STATUS :: i32 where [simp]: "SUCCESS_STATUS = 0"
definition ERROR_STATUS :: i32 where [simp]: "ERROR_STATUS = 3"
definition INVALID_HANDLE_STATUS :: i32 where [simp]: "INVALID_HANDLE_STATUS = 4"
definition RUNNING_STATE :: i32 where [simp]: "RUNNING_STATE = 1"
definition FINISHED_STATE :: i32 where [simp]: "FINISHED_STATE = 2"
definition CANCELED_STATE :: i32 where [simp]: "CANCELED_STATE = 3"
definition ERROR_STATE :: i32 where [simp]: "ERROR_STATE = 5"
definition EXECUTE_STATEMENT :: i32 where [simp]: "EXECUTE_STATEMENT = 0"
definition COLUMN_BASED_SET :: i32 where [simp]: "COLUMN_BASED_SET = 1"
definition BOOLEAN_TYPE :: i32 where [simp]: "BOOLEAN_TYPE = 0"
definition TINYINT_TYPE :: i32 where [simp]: "TINYINT_TYPE = 1"
definition SMALLINT_TYPE :: i32 where [simp]: "SMALLINT_TYPE = 2"
definition INT_TYPE :: i32 where [simp]: "INT_TYPE = 3"
definition BIGINT_TYPE :: i32 where [simp]: "BIGINT_TYPE = 4"
definition FLOAT_TYPE :: i32 where [simp]: "FLOAT_TYPE = 5"
definition DOUBLE_TYPE :: i32 where [simp]: "DOUBLE_TYPE = 6"
definition STRING_TYPE :: i32 where [simp]: "STRING_TYPE = 7"
definition TIMESTAMP_TYPE :: i32 where [simp]: "TIMESTAMP_TYPE = 8"
definition BINARY_TYPE :: i32 where [simp]: "BINARY_TYPE = 9"
definition ARRAY_TYPE :: i32 where [simp]: "ARRAY_TYPE = 10"
definition MAP_TYPE :: i32 where [simp]: "MAP_TYPE = 11"
definition STRUCT_TYPE :: i32 where [simp]: "STRUCT_TYPE = 12"
definition DECIMAL_TYPE :: i32 where [simp]: "DECIMAL_TYPE = 15"
definition DATE_TYPE :: i32 where [simp]: "DATE_TYPE = 17"
definition GET_COLUMNS :: i32 where [simp]: "GET_COLUMNS = 6"
definition CLI_MAX_DRIVER_CONNECTIONS :: i32 where [simp]: "CLI_MAX_DRIVER_CONNECTIONS = 0"
definition CLI_MAX_CONCURRENT_ACTIVITIES :: i32 where [simp]: "CLI_MAX_CONCURRENT_ACTIVITIES = 1"
definition CLI_DATA_SOURCE_NAME :: i32 where [simp]: "CLI_DATA_SOURCE_NAME = 2"
definition CLI_FETCH_DIRECTION :: i32 where [simp]: "CLI_FETCH_DIRECTION = 8"
definition CLI_SERVER_NAME :: i32 where [simp]: "CLI_SERVER_NAME = 13"
definition CLI_SEARCH_PATTERN_ESCAPE :: i32 where [simp]: "CLI_SEARCH_PATTERN_ESCAPE = 14"
definition CLI_DBMS_VER :: i32 where [simp]: "CLI_DBMS_VER = 18"
definition CLI_ACCESSIBLE_TABLES :: i32 where [simp]: "CLI_ACCESSIBLE_TABLES = 19"
definition CLI_ACCESSIBLE_PROCEDURES :: i32 where [simp]: "CLI_ACCESSIBLE_PROCEDURES = 20"
definition CLI_CURSOR_COMMIT_BEHAVIOR :: i32 where [simp]: "CLI_CURSOR_COMMIT_BEHAVIOR = 23"
definition CLI_DATA_SOURCE_READ_ONLY :: i32 where [simp]: "CLI_DATA_SOURCE_READ_ONLY = 25"
definition CLI_DEFAULT_TXN_ISOLATION :: i32 where [simp]: "CLI_DEFAULT_TXN_ISOLATION = 26"
definition CLI_IDENTIFIER_CASE :: i32 where [simp]: "CLI_IDENTIFIER_CASE = 28"
definition CLI_IDENTIFIER_QUOTE_CHAR :: i32 where [simp]: "CLI_IDENTIFIER_QUOTE_CHAR = 29"
definition CLI_MAX_COLUMN_NAME_LEN :: i32 where [simp]: "CLI_MAX_COLUMN_NAME_LEN = 30"
definition CLI_MAX_CURSOR_NAME_LEN :: i32 where [simp]: "CLI_MAX_CURSOR_NAME_LEN = 31"
definition CLI_MAX_SCHEMA_NAME_LEN :: i32 where [simp]: "CLI_MAX_SCHEMA_NAME_LEN = 32"
definition CLI_MAX_CATALOG_NAME_LEN :: i32 where [simp]: "CLI_MAX_CATALOG_NAME_LEN = 34"
definition CLI_MAX_TABLE_NAME_LEN :: i32 where [simp]: "CLI_MAX_TABLE_NAME_LEN = 35"
definition CLI_TXN_CAPABLE :: i32 where [simp]: "CLI_TXN_CAPABLE = 46"
definition CLI_USER_NAME :: i32 where [simp]: "CLI_USER_NAME = 47"
definition CLI_TXN_ISOLATION_OPTION :: i32 where [simp]: "CLI_TXN_ISOLATION_OPTION = 72"
definition CLI_INTEGRITY :: i32 where [simp]: "CLI_INTEGRITY = 73"
definition CLI_GETDATA_EXTENSIONS :: i32 where [simp]: "CLI_GETDATA_EXTENSIONS = 81"
definition CLI_NULL_COLLATION :: i32 where [simp]: "CLI_NULL_COLLATION = 85"
definition CLI_ALTER_TABLE :: i32 where [simp]: "CLI_ALTER_TABLE = 86"
definition CLI_ORDER_BY_COLUMNS_IN_SELECT :: i32 where [simp]: "CLI_ORDER_BY_COLUMNS_IN_SELECT = 90"
definition CLI_SPECIAL_CHARACTERS :: i32 where [simp]: "CLI_SPECIAL_CHARACTERS = 94"
definition CLI_MAX_COLUMNS_IN_GROUP_BY :: i32 where [simp]: "CLI_MAX_COLUMNS_IN_GROUP_BY = 97"
definition CLI_MAX_COLUMNS_IN_INDEX :: i32 where [simp]: "CLI_MAX_COLUMNS_IN_INDEX = 98"
definition CLI_MAX_COLUMNS_IN_ORDER_BY :: i32 where [simp]: "CLI_MAX_COLUMNS_IN_ORDER_BY = 99"
definition CLI_MAX_COLUMNS_IN_SELECT :: i32 where [simp]: "CLI_MAX_COLUMNS_IN_SELECT = 100"
definition CLI_MAX_COLUMNS_IN_TABLE :: i32 where [simp]: "CLI_MAX_COLUMNS_IN_TABLE = 101"
definition CLI_MAX_INDEX_SIZE :: i32 where [simp]: "CLI_MAX_INDEX_SIZE = 102"
definition CLI_MAX_ROW_SIZE :: i32 where [simp]: "CLI_MAX_ROW_SIZE = 104"
definition CLI_MAX_STATEMENT_LEN :: i32 where [simp]: "CLI_MAX_STATEMENT_LEN = 105"
definition CLI_MAX_TABLES_IN_SELECT :: i32 where [simp]: "CLI_MAX_TABLES_IN_SELECT = 106"
definition CLI_MAX_USER_NAME_LEN :: i32 where [simp]: "CLI_MAX_USER_NAME_LEN = 107"
definition CLI_OJ_CAPABILITIES :: i32 where [simp]: "CLI_OJ_CAPABILITIES = 115"
definition CLI_XOPEN_CLI_YEAR :: i32 where [simp]: "CLI_XOPEN_CLI_YEAR = 10000"
definition CLI_CURSOR_SENSITIVITY :: i32 where [simp]: "CLI_CURSOR_SENSITIVITY = 10001"
definition CLI_DESCRIBE_PARAMETER :: i32 where [simp]: "CLI_DESCRIBE_PARAMETER = 10002"
definition CLI_CATALOG_NAME :: i32 where [simp]: "CLI_CATALOG_NAME = 10003"
definition CLI_COLLATION_SEQ :: i32 where [simp]: "CLI_COLLATION_SEQ = 10004"
definition CLI_MAX_IDENTIFIER_LEN :: i32 where [simp]: "CLI_MAX_IDENTIFIER_LEN = 10005"

definition DEFAULT_FETCH_ROWS :: nat where "DEFAULT_FETCH_ROWS = 1000"
definition MAX_FETCH_ROWS :: nat where "MAX_FETCH_ROWS = 10000"

section \<open>Building blocks\<close>

definition write_status :: "i32 \<Rightarrow> string option \<Rightarrow> bytes" where
  "write_status code message =
     write_field T_I32 1 (write_i32 code) @
     (case message of
        None \<Rightarrow> []
      | Some m \<Rightarrow> write_field T_STRING 5 (write_string m) @ write_field T_STRING 6 (write_string m)) @
     write_stop"

definition write_success_response :: "string \<Rightarrow> i32 \<Rightarrow> bytes \<Rightarrow> bytes" where
  "write_success_response meth seqid success =
     write_message_begin meth T_MESSAGE_REPLY seqid @ write_field T_STRUCT 0 success @ write_stop"

definition write_application_exception :: "string \<Rightarrow> i32 \<Rightarrow> string \<Rightarrow> bytes" where
  "write_application_exception meth seqid message =
     write_message_begin meth T_MESSAGE_EXCEPTION seqid @
     write_field T_STRING 1 (write_string message) @
     write_field T_I32 2 (write_i32 0) @
     write_stop"

definition write_operation_status_response :: "i32 \<Rightarrow> i32 \<Rightarrow> bool \<Rightarrow> string option \<Rightarrow> bytes" where
  "write_operation_status_response code operation_state has_result_set message =
     write_field T_STRUCT 1 (write_status code message) @
     write_field T_I32 2 (write_i32 operation_state) @
     write_field T_BOOL 9 (write_bool has_result_set) @
     write_stop"

definition thrift_client_error_message :: "harbor_error \<Rightarrow> string" where
  "thrift_client_error_message e = status_message (client_error e)"

definition write_handle_identifier :: "bytes \<Rightarrow> bytes \<Rightarrow> bytes" where
  "write_handle_identifier guid secret =
     write_field T_STRING 1 (write_binary guid) @
     write_field T_STRING 2 (write_binary secret) @
     write_stop"

definition write_session_handle :: "bytes \<Rightarrow> bytes \<Rightarrow> bytes" where
  "write_session_handle guid secret =
     write_field T_STRUCT 1 (write_handle_identifier guid secret) @
     write_field T_I32 3329 (write_i32 SPARK_CLI_SERVICE_PROTOCOL_V7) @
     write_stop"

definition write_operation_handle_with_type :: "bytes \<Rightarrow> bytes \<Rightarrow> bool \<Rightarrow> i32 \<Rightarrow> bytes" where
  "write_operation_handle_with_type guid secret has_result_set operation_type =
     write_field T_STRUCT 1 (write_handle_identifier guid secret) @
     write_field T_I32 2 (write_i32 operation_type) @
     write_field T_BOOL 3 (write_bool has_result_set) @
     write_stop"

definition write_operation_handle :: "bytes \<Rightarrow> bytes \<Rightarrow> bool \<Rightarrow> bytes" where
  "write_operation_handle guid secret has_result_set =
     write_operation_handle_with_type guid secret has_result_set EXECUTE_STATEMENT"

definition write_namespace :: "string \<Rightarrow> string \<Rightarrow> bytes" where
  "write_namespace catalog schema =
     write_field T_STRING 1 (write_string catalog) @
     write_field T_STRING 2 (write_string schema) @
     write_stop"

section \<open>GetInfo values\<close>

definition get_info_string :: "i32 \<Rightarrow> string \<Rightarrow> string" where
  "get_info_string info_type catalog =
     (if info_type = CLI_DATA_SOURCE_NAME then ''HarborSQL''
      else if info_type = CLI_SERVER_NAME then ''HarborSQL''
      else if info_type = CLI_SEARCH_PATTERN_ESCAPE then [CHR 0x5C]
      else if info_type = CLI_DBMS_NAME then ''Spark SQL''
      else if info_type = CLI_DBMS_VER then ''3.1.0''
      else if info_type = CLI_IDENTIFIER_QUOTE_CHAR then ''`''
      else if info_type = CLI_USER_NAME then []
      else if info_type = CLI_CATALOG_NAME then catalog
      else if info_type = CLI_COLLATION_SEQ then []
      else if info_type = CLI_SPECIAL_CHARACTERS then []
      else [])"

definition get_info_len :: "i32 \<Rightarrow> i64" where
  "get_info_len info_type =
     (if info_type \<in> set [CLI_MAX_COLUMN_NAME_LEN, CLI_MAX_CURSOR_NAME_LEN, CLI_MAX_SCHEMA_NAME_LEN,
          CLI_MAX_CATALOG_NAME_LEN, CLI_MAX_TABLE_NAME_LEN, CLI_MAX_USER_NAME_LEN, CLI_MAX_IDENTIFIER_LEN]
      then 128
      else if info_type = CLI_MAX_STATEMENT_LEN then 0
      else 0)"

definition get_info_flag :: "i32 \<Rightarrow> i32" where
  "get_info_flag info_type =
     (if info_type = CLI_FETCH_DIRECTION then 1
      else if info_type = CLI_DATA_SOURCE_READ_ONLY then 1
      else if info_type = CLI_IDENTIFIER_CASE then 1
      else if info_type = CLI_ORDER_BY_COLUMNS_IN_SELECT then 1
      else if info_type = CLI_XOPEN_CLI_YEAR then 2011
      else 0)"

definition write_get_info_string_value :: "string \<Rightarrow> bytes" where
  "write_get_info_string_value value = write_field T_STRING 1 (write_string value) @ write_stop"

definition write_get_info_value :: "i32 \<Rightarrow> string \<Rightarrow> bytes" where
  "write_get_info_value info_type catalog =
     (if info_type \<in> set [CLI_DATA_SOURCE_NAME, CLI_SERVER_NAME, CLI_SEARCH_PATTERN_ESCAPE, CLI_DBMS_NAME,
          CLI_DBMS_VER, CLI_IDENTIFIER_QUOTE_CHAR, CLI_USER_NAME, CLI_CATALOG_NAME, CLI_COLLATION_SEQ,
          CLI_SPECIAL_CHARACTERS]
      then write_get_info_string_value (get_info_string info_type catalog)
      else if info_type \<in> set [CLI_MAX_DRIVER_CONNECTIONS, CLI_MAX_CONCURRENT_ACTIVITIES,
          CLI_MAX_COLUMN_NAME_LEN, CLI_MAX_CURSOR_NAME_LEN, CLI_MAX_SCHEMA_NAME_LEN,
          CLI_MAX_CATALOG_NAME_LEN, CLI_MAX_TABLE_NAME_LEN, CLI_MAX_INDEX_SIZE, CLI_MAX_ROW_SIZE,
          CLI_MAX_STATEMENT_LEN, CLI_MAX_TABLES_IN_SELECT, CLI_MAX_USER_NAME_LEN, CLI_MAX_IDENTIFIER_LEN]
      then write_field T_I64 6 (write_i64 (get_info_len info_type)) @ write_stop
      else if info_type \<in> set [CLI_FETCH_DIRECTION, CLI_CURSOR_COMMIT_BEHAVIOR, CLI_DATA_SOURCE_READ_ONLY,
          CLI_DEFAULT_TXN_ISOLATION, CLI_IDENTIFIER_CASE, CLI_ACCESSIBLE_TABLES, CLI_ACCESSIBLE_PROCEDURES,
          CLI_TXN_CAPABLE, CLI_INTEGRITY, CLI_NULL_COLLATION, CLI_ORDER_BY_COLUMNS_IN_SELECT,
          CLI_XOPEN_CLI_YEAR, CLI_CURSOR_SENSITIVITY, CLI_DESCRIBE_PARAMETER]
      then write_field T_I32 4 (write_i32 (get_info_flag info_type)) @ write_stop
      else if info_type \<in> set [CLI_TXN_ISOLATION_OPTION, CLI_GETDATA_EXTENSIONS, CLI_ALTER_TABLE,
          CLI_MAX_COLUMNS_IN_GROUP_BY, CLI_MAX_COLUMNS_IN_INDEX, CLI_MAX_COLUMNS_IN_ORDER_BY,
          CLI_MAX_COLUMNS_IN_SELECT, CLI_MAX_COLUMNS_IN_TABLE, CLI_OJ_CAPABILITIES]
      then write_field T_I32 3 (write_i32 0) @ write_stop
      else write_field T_I32 3 (write_i32 0) @ write_stop)"

section \<open>Responses\<close>

definition write_open_session_response ::
  "i32 \<Rightarrow> bytes \<Rightarrow> bytes \<Rightarrow> string \<Rightarrow> string \<Rightarrow> i32 list \<Rightarrow> bytes" where
  "write_open_session_response seqid guid secret catalog schema get_info_types =
     write_success_response ''OpenSession'' seqid
       (write_field T_STRUCT 1 (write_status SUCCESS_STATUS None) @
        write_field T_I32 2 (write_i32 SPARK_CLI_SERVICE_PROTOCOL_V7) @
        write_field T_STRUCT 3 (write_session_handle guid secret) @
        write_field T_STRUCT 1284 (write_namespace catalog schema) @
        write_field T_BOOL 1285 (write_bool True) @
        (if get_info_types \<noteq> [] then
           write_field T_LIST 1281
             (write_list_begin T_STRUCT (length get_info_types) @
              concat (map (\<lambda>info_type. write_get_info_value info_type catalog) get_info_types))
         else []) @
        write_stop)"

text \<open>A response whose only field is its status.\<close>

definition status_only_response :: "string \<Rightarrow> i32 \<Rightarrow> i32 \<Rightarrow> string option \<Rightarrow> bytes" where
  "status_only_response meth seqid code message =
     write_success_response meth seqid (write_field T_STRUCT 1 (write_status code message) @ write_stop)"

definition write_open_session_error :: "i32 \<Rightarrow> string \<Rightarrow> bytes" where
  "write_open_session_error seqid message =
     status_only_response ''OpenSession'' seqid ERROR_STATUS (Some message)"

definition write_close_session_response :: "i32 \<Rightarrow> bool \<Rightarrow> bytes" where
  "write_close_session_response seqid valid =
     status_only_response ''CloseSession'' seqid
       (if valid then SUCCESS_STATUS else INVALID_HANDLE_STATUS)
       (if valid then None else Some ''invalid session handle'')"

definition write_get_info_response :: "i32 \<Rightarrow> i32 \<Rightarrow> string \<Rightarrow> bytes" where
  "write_get_info_response seqid info_type catalog =
     write_success_response ''GetInfo'' seqid
       (write_field T_STRUCT 1 (write_status SUCCESS_STATUS None) @
        write_field T_STRUCT 2 (write_get_info_value info_type catalog) @
        write_stop)"

definition write_get_info_invalid :: "i32 \<Rightarrow> bytes" where
  "write_get_info_invalid seqid =
     write_success_response ''GetInfo'' seqid
       (write_field T_STRUCT 1 (write_status INVALID_HANDLE_STATUS (Some ''invalid session handle'')) @
        write_field T_STRUCT 2 (write_get_info_string_value []) @
        write_stop)"

definition write_get_columns_response :: "i32 \<Rightarrow> bytes \<Rightarrow> bytes \<Rightarrow> bytes" where
  "write_get_columns_response seqid guid secret =
     write_success_response ''GetColumns'' seqid
       (write_field T_STRUCT 1 (write_status SUCCESS_STATUS None) @
        write_field T_STRUCT 2 (write_operation_handle_with_type guid secret True GET_COLUMNS) @
        write_stop)"

definition write_get_columns_error :: "i32 \<Rightarrow> string \<Rightarrow> bytes" where
  "write_get_columns_error seqid message =
     status_only_response ''GetColumns'' seqid ERROR_STATUS (Some message)"

definition write_get_columns_invalid :: "i32 \<Rightarrow> string \<Rightarrow> bytes" where
  "write_get_columns_invalid seqid message =
     status_only_response ''GetColumns'' seqid INVALID_HANDLE_STATUS (Some message)"

definition write_execute_statement_response :: "i32 \<Rightarrow> bytes \<Rightarrow> bytes \<Rightarrow> bytes" where
  "write_execute_statement_response seqid guid secret =
     write_success_response ''ExecuteStatement'' seqid
       (write_field T_STRUCT 1 (write_status SUCCESS_STATUS None) @
        write_field T_STRUCT 2 (write_operation_handle guid secret True) @
        write_stop)"

definition write_execute_statement_error :: "i32 \<Rightarrow> string \<Rightarrow> bytes" where
  "write_execute_statement_error seqid message =
     status_only_response ''ExecuteStatement'' seqid ERROR_STATUS (Some message)"

definition write_execute_statement_invalid :: "i32 \<Rightarrow> string \<Rightarrow> bytes" where
  "write_execute_statement_invalid seqid message =
     status_only_response ''ExecuteStatement'' seqid INVALID_HANDLE_STATUS (Some message)"

definition write_get_operation_status_invalid :: "i32 \<Rightarrow> bytes" where
  "write_get_operation_status_invalid seqid =
     write_success_response ''GetOperationStatus'' seqid
       (write_operation_status_response INVALID_HANDLE_STATUS ERROR_STATE False
          (Some ''unknown operation handle''))"

definition write_get_query_id_response :: "i32 \<Rightarrow> string \<Rightarrow> bytes" where
  "write_get_query_id_response seqid query_id =
     write_success_response ''GetQueryId'' seqid
       (write_field T_STRING 1 (write_string query_id) @ write_stop)"

definition write_fetch_results_status :: "i32 \<Rightarrow> i32 \<Rightarrow> string \<Rightarrow> bytes" where
  "write_fetch_results_status seqid code message =
     write_success_response ''FetchResults'' seqid
       (write_field T_STRUCT 1 (write_status code (Some message)) @
        write_field T_BOOL 2 (write_bool False) @
        write_stop)"

definition write_fetch_results_invalid :: "i32 \<Rightarrow> bytes" where
  "write_fetch_results_invalid seqid =
     write_fetch_results_status seqid INVALID_HANDLE_STATUS ''unknown operation handle''"

definition write_fetch_results_not_ready :: "i32 \<Rightarrow> string option \<Rightarrow> bytes" where
  "write_fetch_results_not_ready seqid message =
     write_fetch_results_status seqid ERROR_STATUS
       (case message of Some m \<Rightarrow> m | None \<Rightarrow> ''operation is not finished'')"

definition write_close_operation_response :: "i32 \<Rightarrow> bool \<Rightarrow> bytes" where
  "write_close_operation_response seqid valid =
     status_only_response ''CloseOperation'' seqid
       (if valid then SUCCESS_STATUS else INVALID_HANDLE_STATUS)
       (if valid then None else Some ''unknown operation handle'')"

definition write_cancel_operation_response :: "i32 \<Rightarrow> bool \<Rightarrow> bytes" where
  "write_cancel_operation_response seqid valid =
     status_only_response ''CancelOperation'' seqid
       (if valid then SUCCESS_STATUS else INVALID_HANDLE_STATUS)
       (if valid then None else Some ''unknown operation handle'')"

section \<open>Responses are well-formed Thrift\<close>

text \<open>
  \<open>wire t n bs\<close>: the bytes are the encoding of a well-formed value of type \<open>t\<close>
  whose nesting is charged at most \<open>n\<close> levels; \<open>wire_fields\<close> is the same for the
  fields of a struct up to its stop byte.
\<close>

definition wire :: "u8 \<Rightarrow> nat \<Rightarrow> bytes \<Rightarrow> bool" where
  "wire t n bs \<longleftrightarrow> (\<exists>v. tval_type v = t \<and> enc v = bs \<and> wf_tval v \<and> nesting v \<le> n)"

definition wire_fields :: "nat \<Rightarrow> bytes \<Rightarrow> bool" where
  "wire_fields n bs \<longleftrightarrow> (\<exists>fs. enc_fields fs = bs \<and> wf_fields fs \<and> nesting_fields fs \<le> n)"

lemma wire_scalars [wire_rules]:
  "wire T_I32 n (write_i32 i)" "wire T_I64 n (write_i64 l)" "wire T_BOOL n (write_bool b)"
  "wire T_DOUBLE n (write_double d)"
  unfolding wire_def
  by (intro exI [of _ "VI32 i"] exI [of _ "VI64 l"] exI [of _ "VBool b"] exI [of _ "VDouble d"]; simp)+

lemma wire_binary [wire_rules]: "length bs < 2 ^ 31 \<Longrightarrow> wire T_STRING n (write_binary bs)"
  unfolding wire_def by (intro exI [of _ "VBinary bs"]) simp

lemma wire_string [wire_rules]: "length s < 2 ^ 31 \<Longrightarrow> wire T_STRING n (write_string s)"
  unfolding write_string_def by (rule wire_binary) simp

lemma wire_fields_stop [wire_rules]: "wire_fields n write_stop"
  unfolding wire_fields_def by (intro exI [of _ "[]"]) simp

lemma wire_fields_field [wire_rules]:
  assumes "2 \<le> n" "wire t (n - 2) value" "wire_fields n rest"
  shows "wire_fields n (write_field t i value @ rest)"
proof -
  from assms obtain v fs where "tval_type v = t" "enc v = value" "wf_tval v" "nesting v \<le> n - 2"
    "enc_fields fs = rest" "wf_fields fs" "nesting_fields fs \<le> n"
    unfolding wire_def wire_fields_def by blast
  with assms(1) show ?thesis unfolding wire_fields_def by (intro exI [of _ "(i, v) # fs"]) auto
qed

lemma wire_struct: "1 \<le> n \<Longrightarrow> wire_fields n bs \<Longrightarrow> wire T_STRUCT n bs"
  unfolding wire_fields_def wire_def by (elim exE) (rule_tac x = "VStruct fs" in exI, simp)

lemma wire_list [wire_rules]:
  assumes "valid_field_type t" "length xs \<le> MAX_CONTAINER_ELEMENTS" "1 \<le> n"
    "\<And>x. x \<in> set xs \<Longrightarrow> wire t (n - 1) (f x)" "k = length xs"
  shows "wire T_LIST n (write_list_begin t k @ concat (map f xs))"
proof -
  have "\<exists>vs. length vs = length xs \<and> enc_list vs = concat (map f xs) \<and> wf_list t vs \<and> nesting_list vs \<le> n"
    using assms(4)
  proof (induction xs)
    case (Cons x xs)
    then obtain vs where vs: "length vs = length xs" "enc_list vs = concat (map f xs)" "wf_list t vs"
      "nesting_list vs \<le> n" by auto
    from Cons.prems obtain v where "tval_type v = t" "enc v = f x" "wf_tval v" "nesting v \<le> n - 1"
      unfolding wire_def by (meson list.set_intros(1))
    with vs assms(3) show ?case by (intro exI [of _ "v # vs"]) auto
  qed simp
  then obtain vs where "length vs = length xs" "enc_list vs = concat (map f xs)" "wf_list t vs"
      "nesting_list vs \<le> n" by blast
  with assms show ?thesis unfolding wire_def
    by (intro exI [of _ "VList t vs"]) (simp add: write_list_begin_def)
qed

lemma wire_mono: "wire t n bs \<Longrightarrow> n \<le> m \<Longrightarrow> wire t m bs"
  unfolding wire_def using order_trans by blast

lemma wire_fields_mono: "wire_fields n bs \<Longrightarrow> n \<le> m \<Longrightarrow> wire_fields m bs"
  unfolding wire_fields_def using order_trans by blast

text \<open>The codec's own \<open>skip\<close> consumes such a value exactly.\<close>

lemma wire_skip:
  assumes "wire t n bs" "n \<le> MAX_SKIP_DEPTH"
  shows "parses (skip t) bs ()"
proof -
  from assms obtain v where "tval_type v = t" "enc v = bs" "wf_tval v" "nesting v \<le> MAX_SKIP_DEPTH"
    unfolding wire_def using le_trans by blast
  with skips_enc [of v 0] show ?thesis by (simp add: skip_def skips_def)
qed


lemma version_word: "(0x80010000 :: 32 word) = push_bit 16 0x8001" "(0xFFFF0000 :: 32 word) = push_bit 16 (mask 16)"
  "(0xFF :: 32 word) = mask 8"
  by (simp_all add: push_bit_eq_mult mask_eq_exp_minus_1)

lemma high_half: "(push_bit 16 a OR ucast (b :: u8)) AND push_bit 16 (mask 16) = push_bit 16 (a :: 32 word)"
  by (rule bit_word_eqI) (auto simp: bit_simps dest: bit_imp_le_length)

lemma low_byte: "ucast ((push_bit 16 a OR ucast b) AND mask 8 :: 32 word) = (b :: u8)"
  by (rule bit_word_eqI) (auto simp: bit_simps)

lemma version_mask:
  fixes mt :: u8
  shows "(T_BINARY_VERSION_1 OR ucast mt) AND 0xFFFF0000 = T_BINARY_VERSION_1"
    and "ucast ((T_BINARY_VERSION_1 OR ucast mt) AND 0x000000FF) = mt"
  unfolding T_BINARY_VERSION_1_def version_word by (rule high_half, rule low_byte)

lemma parses_message:
  assumes "valid_str name" "length name < 2 ^ 31"
  shows "decode_message (write_message_begin name mt seqid @ payload) =
     Some (Inr \<lparr>msg_name = name, msg_type = mt, msg_seqid = seqid, msg_payload = payload\<rparr>)"
proof -
  let ?bs = "write_message_begin name mt seqid @ payload"
  let ?v = "T_BINARY_VERSION_1 OR ucast mt :: 32 word"
  have 1: "read_i32 (reader_new ?bs) = Some (Inr (?v, \<lparr>buffer = ?bs, position = 4\<rparr>))"
    using parses_at [OF parses_read_i32 [of ?v], of 0 "[]" "write_string name @ write_i32 seqid @ payload"]
    by (simp add: write_message_begin_def reader_new_def write_i32_def)
  have 2: "read_string \<lparr>buffer = ?bs, position = 4\<rparr>
      = Some (Inr (name, \<lparr>buffer = ?bs, position = 4 + length (write_string name)\<rparr>))"
    using parses_at [OF parses_read_string [OF assms], of 4 "write_i32 ?v" "write_i32 seqid @ payload"]
    by (simp add: write_message_begin_def write_i32_def)
  have 3: "read_i32 \<lparr>buffer = ?bs, position = 4 + length (write_string name)\<rparr>
      = Some (Inr (seqid, \<lparr>buffer = ?bs, position = 8 + length (write_string name)\<rparr>))"
    using parses_at [OF parses_read_i32 [of seqid], of "4 + length (write_string name)"
        "write_i32 ?v @ write_string name" payload]
    by (simp add: write_message_begin_def write_i32_def)
  have 4: "drop (8 + length (write_string name)) ?bs = payload"
    by (simp add: write_message_begin_def write_i32_def)
  show ?thesis
    unfolding decode_message_def run_reader_def message_reader_def
    by (simp add: rbind_def 1 2 3 4 version_mask rret_def del: T_BINARY_VERSION_1_def drop_append)
qed

text \<open>
  A well-formed message: its envelope decodes to the given name, type and sequence number and
  its payload is one struct that the codec's \<open>skip\<close> consumes to the last byte.
\<close>

definition well_formed_message :: "string \<Rightarrow> u8 \<Rightarrow> i32 \<Rightarrow> bytes \<Rightarrow> bool" where
  "well_formed_message name mt seqid bs \<longleftrightarrow>
     (\<exists>payload.
        decode_message bs =
          Some (Inr \<lparr>msg_name = name, msg_type = mt, msg_seqid = seqid, msg_payload = payload\<rparr>) \<and>
        skip T_STRUCT (reader_new payload) =
          Some (Inr ((), \<lparr>buffer = payload, position = length payload\<rparr>)))"

lemma well_formed_messageI:
  assumes "valid_str name" "length name < 2 ^ 31" "wire T_STRUCT 32 payload"
  shows "well_formed_message name mt seqid (write_message_begin name mt seqid @ payload)"
proof -
  have "skip T_STRUCT (reader_new payload) = Some (Inr ((), \<lparr>buffer = payload, position = length payload\<rparr>))"
    using parses_at [OF wire_skip [OF assms(3)], of 0 "[]" "[]"]
    by (simp add: MAX_SKIP_DEPTH_def reader_new_def)
  with parses_message [OF assms(1,2)] show ?thesis unfolding well_formed_message_def by blast
qed

lemma well_formed_success:
  assumes "valid_str name" "length name < 2 ^ 31" "wire_fields 30 success"
  shows "well_formed_message name T_MESSAGE_REPLY seqid (write_success_response name seqid success)"
  unfolding write_success_response_def
  by (intro well_formed_messageI assms(1,2), rule wire_struct, simp)
     (intro wire_fields_field wire_fields_stop wire_struct; use assms(3) in simp)

lemma wire_if [wire_rules]: "(c \<Longrightarrow> wire t n x) \<Longrightarrow> (\<not> c \<Longrightarrow> wire t n y) \<Longrightarrow> wire t n (if c then x else y)"
  by simp

lemma wire_status_none [wire_rules]: "2 \<le> n \<Longrightarrow> wire T_STRUCT n (write_status code None)"
  unfolding write_status_def by (simp only: option.case append_Nil) (rule wire_struct, simp, intro wire_rules; simp)

lemma wire_status_some [wire_rules]:
  "2 \<le> n \<Longrightarrow> length m < 2 ^ 31 \<Longrightarrow> wire T_STRUCT n (write_status code (Some m))"
  unfolding write_status_def by (simp only: option.case append_assoc) (rule wire_struct, simp, intro wire_rules; simp)

lemma wire_handle_identifier [wire_rules]:
  "2 \<le> n \<Longrightarrow> length guid < 2 ^ 31 \<Longrightarrow> length secret < 2 ^ 31 \<Longrightarrow>
   wire T_STRUCT n (write_handle_identifier guid secret)"
  unfolding write_handle_identifier_def by (rule wire_struct, simp, intro wire_rules; simp)

lemma wire_session_handle [wire_rules]:
  "4 \<le> n \<Longrightarrow> length guid < 2 ^ 31 \<Longrightarrow> length secret < 2 ^ 31 \<Longrightarrow>
   wire T_STRUCT n (write_session_handle guid secret)"
  unfolding write_session_handle_def by (rule wire_struct, simp, intro wire_rules; simp)

lemma wire_operation_handle [wire_rules]:
  "4 \<le> n \<Longrightarrow> length guid < 2 ^ 31 \<Longrightarrow> length secret < 2 ^ 31 \<Longrightarrow>
   wire T_STRUCT n (write_operation_handle_with_type guid secret b t)"
  unfolding write_operation_handle_with_type_def by (rule wire_struct, simp, intro wire_rules; simp)

lemma wire_namespace [wire_rules]:
  "2 \<le> n \<Longrightarrow> length catalog < 2 ^ 31 \<Longrightarrow> length schema < 2 ^ 31 \<Longrightarrow>
   wire T_STRUCT n (write_namespace catalog schema)"
  unfolding write_namespace_def by (rule wire_struct, simp, intro wire_rules; simp)

lemma get_info_string_length: "length catalog < 2 ^ 31 \<Longrightarrow> length (get_info_string t catalog) < 2 ^ 31"
  unfolding get_info_string_def by auto

lemma wire_get_info_string_value [wire_rules]:
  "2 \<le> n \<Longrightarrow> length v < 2 ^ 31 \<Longrightarrow> wire T_STRUCT n (write_get_info_string_value v)"
  unfolding write_get_info_string_value_def by (rule wire_struct, simp, intro wire_rules; simp)

lemma wire_get_info_value [wire_rules]:
  assumes "2 \<le> n" "length catalog < 2 ^ 31"
  shows "wire T_STRUCT n (write_get_info_value t catalog)"
proof -
  have "length (get_info_string t catalog) < 2 ^ 31"
    by (rule get_info_string_length [OF assms(2)])
  with assms(1) show ?thesis unfolding write_get_info_value_def
    by (intro wire_if wire_get_info_string_value wire_struct wire_rules; simp)
qed

lemma wire_status_only:
  assumes "valid_str name" "length name < 2 ^ 31" "\<And>m. message = Some m \<Longrightarrow> length m < 2 ^ 31"
  shows "well_formed_message name T_MESSAGE_REPLY seqid (status_only_response name seqid code message)"
  unfolding status_only_response_def
  by (cases message; simp only:; intro well_formed_success assms wire_rules; simp)

lemma valid_str_names:
  "valid_str ''OpenSession''" "valid_str ''CloseSession''" "valid_str ''GetInfo''" "valid_str ''GetColumns''"
  "valid_str ''ExecuteStatement''" "valid_str ''GetOperationStatus''" "valid_str ''GetQueryId''"
  "valid_str ''GetResultSetMetadata''" "valid_str ''FetchResults''" "valid_str ''CloseOperation''"
  "valid_str ''CancelOperation''"
  by (simp_all add: valid_str_ascii)


lemma wire_fields_opt [wire_rules]:
  "(c \<Longrightarrow> wire_fields n (a @ rest)) \<Longrightarrow> (\<not> c \<Longrightarrow> wire_fields n rest) \<Longrightarrow>
   wire_fields n ((if c then a else []) @ rest)"
  by simp

lemma well_formed_open_session:
  assumes "length guid = 16" "length secret = 16" "length catalog < 2 ^ 31" "length schema < 2 ^ 31"
    "length infos \<le> MAX_CONTAINER_ELEMENTS"
  shows "well_formed_message ''OpenSession'' T_MESSAGE_REPLY seqid
    (write_open_session_response seqid guid secret catalog schema infos)"
  unfolding write_open_session_response_def
  by (intro well_formed_success valid_str_names wire_rules; use assms in \<open>simp add: valid_field_type_def\<close>)

lemma well_formed_responses:
  assumes "length guid = 16" "length secret = 16" "length catalog < 2 ^ 31" "length m < 2 ^ 31"
  shows "well_formed_message ''OpenSession'' T_MESSAGE_REPLY seqid (write_open_session_error seqid m)"
    "well_formed_message ''CloseSession'' T_MESSAGE_REPLY seqid (write_close_session_response seqid valid)"
    "well_formed_message ''GetInfo'' T_MESSAGE_REPLY seqid (write_get_info_response seqid info catalog)"
    "well_formed_message ''GetInfo'' T_MESSAGE_REPLY seqid (write_get_info_invalid seqid)"
    "well_formed_message ''GetColumns'' T_MESSAGE_REPLY seqid (write_get_columns_response seqid guid secret)"
    "well_formed_message ''GetColumns'' T_MESSAGE_REPLY seqid (write_get_columns_error seqid m)"
    "well_formed_message ''GetColumns'' T_MESSAGE_REPLY seqid (write_get_columns_invalid seqid m)"
    "well_formed_message ''ExecuteStatement'' T_MESSAGE_REPLY seqid (write_execute_statement_response seqid guid secret)"
    "well_formed_message ''ExecuteStatement'' T_MESSAGE_REPLY seqid (write_execute_statement_error seqid m)"
    "well_formed_message ''ExecuteStatement'' T_MESSAGE_REPLY seqid (write_execute_statement_invalid seqid m)"
    "well_formed_message ''GetOperationStatus'' T_MESSAGE_REPLY seqid (write_get_operation_status_invalid seqid)"
    "well_formed_message ''GetQueryId'' T_MESSAGE_REPLY seqid (write_get_query_id_response seqid m)"
    "well_formed_message ''FetchResults'' T_MESSAGE_REPLY seqid (write_fetch_results_invalid seqid)"
    "well_formed_message ''FetchResults'' T_MESSAGE_REPLY seqid (write_fetch_results_not_ready seqid (Some m))"
    "well_formed_message ''CloseOperation'' T_MESSAGE_REPLY seqid (write_close_operation_response seqid valid)"
    "well_formed_message ''CancelOperation'' T_MESSAGE_REPLY seqid (write_cancel_operation_response seqid valid)"
  unfolding write_open_session_error_def write_close_session_response_def write_get_info_response_def
    write_get_info_invalid_def write_get_columns_response_def write_get_columns_error_def
    write_get_columns_invalid_def write_execute_statement_response_def write_execute_statement_error_def
    write_execute_statement_invalid_def write_get_operation_status_invalid_def write_operation_status_response_def
    write_get_query_id_response_def write_fetch_results_invalid_def write_fetch_results_not_ready_def
    write_fetch_results_status_def option.case write_close_operation_response_def write_cancel_operation_response_def
    write_operation_handle_def
  by (intro well_formed_success wire_status_only valid_str_names wire_rules; use assms in \<open>auto split: if_splits\<close>)+

section \<open>Handles read back\<close>

lemma parses_bind_rret_eq:
  "parses m bs x \<Longrightarrow> y = f x \<Longrightarrow> parses (rbind m (\<lambda>z. rret (f z))) bs y"
  by (simp add: parses_bind_rret)

lemma parses_handle_identifier:
  assumes "length guid = 16" "length secret = 16"
  shows "parses (read_handle_identifier uts) (write_handle_identifier guid secret)
     (Some \<lparr>h_id = uts guid, h_secret = secret\<rparr>)"
proof -
  have guid: "parses (handle_identifier_field uts (None, None) T_STRING 1) (write_binary guid) (Some (uts guid), None)"
    unfolding handle_identifier_field_def
    by simp (rule parses_bind_rret_eq [OF parses_read_binary], use assms in \<open>auto simp: uuid_from_slice_def\<close>)
  have secret: "parses (handle_identifier_field uts (g, None) T_STRING 2) (write_binary secret) (g, Some secret)" for g
    unfolding handle_identifier_field_def
    by simp (rule parses_bind_rret_eq [OF parses_read_binary], use assms in \<open>auto simp: secret_from_slice_def\<close>)
  have "parses (struct_loop (handle_identifier_field uts) (None, None)) (write_handle_identifier guid secret)
      (Some (uts guid), Some secret)"
    unfolding write_handle_identifier_def
    by (intro parses_struct_field [where body = "handle_identifier_field uts", OF _ guid] parses_struct_field [where body = "handle_identifier_field uts", OF _ secret] parses_struct_stop)
       (simp_all add: valid_field_type_def)
  then show ?thesis
    unfolding read_handle_identifier_def case_prod_unfold by (rule parses_bind_rret_eq) simp
qed

lemma parses_skip_i32: "parses (rbind (skip T_I32) (\<lambda>_. rret x)) (write_i32 v) x"
  and parses_skip_bool: "parses (rbind (skip T_BOOL) (\<lambda>_. rret x)) (write_bool b) x"
  by (rule parses_bind_rret_eq [OF wire_skip [OF wire_scalars(1), of 0]]
        parses_bind_rret_eq [OF wire_skip [OF wire_scalars(3), of 0]]; simp)+

lemma parses_session_handle:
  assumes "length guid = 16" "length secret = 16"
  shows "parses (read_session_handle uts) (write_session_handle guid secret)
     (Some \<lparr>h_id = uts guid, h_secret = secret\<rparr>)"
proof -
  let ?h = "Some \<lparr>h_id = uts guid, h_secret = secret\<rparr>"
  have 1: "parses (handle_field uts None T_STRUCT 1) (write_handle_identifier guid secret) ?h"
    using parses_handle_identifier [OF assms] by (simp add: handle_field_def)
  have 2: "parses (handle_field uts ?h T_I32 3329) (write_i32 v) ?h" for v
    using parses_skip_i32 by (simp add: handle_field_def)
  show ?thesis unfolding read_session_handle_def write_session_handle_def
    by (intro parses_struct_field [where body = "handle_field uts", OF _ 1] parses_struct_field [where body = "handle_field uts", OF _ 2] parses_struct_stop)
       (simp_all add: valid_field_type_def)
qed

lemma parses_operation_handle:
  assumes "length guid = 16" "length secret = 16"
  shows "parses (read_operation_handle uts) (write_operation_handle_with_type guid secret has_result_set ot)
     (Some \<lparr>h_id = uts guid, h_secret = secret\<rparr>)"
proof -
  let ?h = "Some \<lparr>h_id = uts guid, h_secret = secret\<rparr>"
  have 1: "parses (handle_field uts None T_STRUCT 1) (write_handle_identifier guid secret) ?h"
    using parses_handle_identifier [OF assms] by (simp add: handle_field_def)
  have 2: "parses (handle_field uts ?h T_I32 2) (write_i32 v) ?h" for v
    using parses_skip_i32 by (simp add: handle_field_def)
  have 3: "parses (handle_field uts ?h T_BOOL 3) (write_bool b) ?h" for b
    using parses_skip_bool by (simp add: handle_field_def)
  show ?thesis unfolding read_operation_handle_def write_operation_handle_with_type_def
    by (intro parses_struct_field [where body = "handle_field uts", OF _ 1] parses_struct_field [where body = "handle_field uts", OF _ 2] parses_struct_field [where body = "handle_field uts", OF _ 3]
          parses_struct_stop)
       (simp_all add: valid_field_type_def)
qed

end
