(* ===== verification/Result_Encoding.thy ===== *)
theory Result_Encoding
  imports Thrift_Responses Query_Results "HOL-Library.Char_ord" "HOL-Library.List_Lexorder"
begin

text \<open>
  Encoding of a query result as Thrift (\<open>src/src/thrift/result_encoding.rs\<close>): the choice
  of a column encoder per Arrow type, the table schema, the columns of a page with their null
  bitmaps, and the conversion of each Arrow value, nested ones in Databricks' display format.

  Formatting that belongs to other crates (Arrow's display of types and values, chrono dates,
  JSON quoting) and Rust's shortest decimal rendering of floating point numbers is a record of
  functions, \<open>arrow_fns\<close>.
\<close>

section \<open>Foreign formatting\<close>

record arrow_fns =
  af_display_type :: "data_type \<Rightarrow> string"
  af_value_to_string :: "data_type \<Rightarrow> arrow_value \<Rightarrow> string + string"
  af_f64_to_string :: "64 word \<Rightarrow> string"
  af_json_string :: "string \<Rightarrow> string + string"
  af_json_bytes :: "bytes \<Rightarrow> string + string"
  af_date32 :: "32 word \<Rightarrow> string option"
  af_date64 :: "64 word \<Rightarrow> string option"
  af_timestamp :: "time_unit \<Rightarrow> 64 word \<Rightarrow> string option"

section \<open>Column encoders\<close>

datatype physical_type = PhysBool | PhysI32 | PhysI64 | PhysF64 | PhysString | PhysBinary

record column_enc =
  enc_schema_type :: i32
  enc_physical_type :: physical_type
  enc_decimal :: "(i32 \<times> i32) option"

datatype thrift_value =
    TvBool bool
  | TvI32 i32
  | TvI64 i64
  | TvF64 "64 word"
  | TvString string
  | TvBinary bytes

fun encoder_types :: "data_type \<Rightarrow> (i32 \<times> physical_type) option" where
  "encoder_types DtBoolean = Some (BOOLEAN_TYPE, PhysBool)"
| "encoder_types DtInt8 = Some (TINYINT_TYPE, PhysI32)"
| "encoder_types DtInt16 = Some (SMALLINT_TYPE, PhysI32)"
| "encoder_types DtInt32 = Some (INT_TYPE, PhysI32)"
| "encoder_types DtInt64 = Some (BIGINT_TYPE, PhysI64)"
| "encoder_types DtUInt8 = Some (BIGINT_TYPE, PhysI64)"
| "encoder_types DtUInt16 = Some (BIGINT_TYPE, PhysI64)"
| "encoder_types DtUInt32 = Some (BIGINT_TYPE, PhysI64)"
| "encoder_types DtUInt64 = Some (BIGINT_TYPE, PhysI64)"
| "encoder_types DtFloat32 = Some (FLOAT_TYPE, PhysF64)"
| "encoder_types DtFloat64 = Some (DOUBLE_TYPE, PhysF64)"
| "encoder_types DtUtf8 = Some (STRING_TYPE, PhysString)"
| "encoder_types DtLargeUtf8 = Some (STRING_TYPE, PhysString)"
| "encoder_types DtUtf8View = Some (STRING_TYPE, PhysString)"
| "encoder_types DtDate32 = Some (DATE_TYPE, PhysString)"
| "encoder_types DtDate64 = Some (DATE_TYPE, PhysString)"
| "encoder_types (DtTimestamp _ _) = Some (TIMESTAMP_TYPE, PhysString)"
| "encoder_types DtBinary = Some (BINARY_TYPE, PhysBinary)"
| "encoder_types DtLargeBinary = Some (BINARY_TYPE, PhysBinary)"
| "encoder_types (DtFixedSizeBinary _) = Some (BINARY_TYPE, PhysBinary)"
| "encoder_types (DtDecimal128 _ _) = Some (DECIMAL_TYPE, PhysString)"
| "encoder_types (DtDecimal256 _ _) = Some (DECIMAL_TYPE, PhysString)"
| "encoder_types (DtList _) = Some (ARRAY_TYPE, PhysString)"
| "encoder_types (DtLargeList _) = Some (ARRAY_TYPE, PhysString)"
| "encoder_types (DtFixedSizeList _ _) = Some (ARRAY_TYPE, PhysString)"
| "encoder_types (DtListView _) = Some (ARRAY_TYPE, PhysString)"
| "encoder_types (DtLargeListView _) = Some (ARRAY_TYPE, PhysString)"
| "encoder_types (DtMap _ _ _) = Some (MAP_TYPE, PhysString)"
| "encoder_types (DtStruct _) = Some (STRUCT_TYPE, PhysString)"
| "encoder_types DtNull = None"
| "encoder_types (DtOther _) = None"

text \<open>The precision is a \<open>u8\<close> and the scale an \<open>i8\<close>, both widened to \<open>i32\<close>.\<close>

fun encoder_decimal :: "data_type \<Rightarrow> (i32 \<times> i32) option" where
  "encoder_decimal (DtDecimal128 precision scale) = Some (ucast precision, scast scale)"
| "encoder_decimal (DtDecimal256 precision scale) = Some (ucast precision, scast scale)"
| "encoder_decimal _ = None"

definition column_encoder :: "arrow_fns \<Rightarrow> data_type \<Rightarrow> column_enc res" where
  "column_encoder af data_type =
     (case encoder_types data_type of
        Some (schema_type, physical_type) \<Rightarrow>
          Inr \<lparr>enc_schema_type = schema_type, enc_physical_type = physical_type,
               enc_decimal = encoder_decimal data_type\<rparr>
      | None \<Rightarrow>
          Inl (UnsupportedResultType (''unsupported Arrow result type `'' @ af_display_type af data_type @ ''`'')))"

definition column_encoders :: "arrow_fns \<Rightarrow> query_result \<Rightarrow> column_enc list res" where
  "column_encoders af result =
     (if length (qr_columns result) \<noteq> length (qr_data_types result)
      then Inl (UnsupportedResultType (''result has '' @ show_nat (length (qr_columns result)) @
             '' columns but '' @ show_nat (length (qr_data_types result)) @ '' Arrow data types''))
      else collect_res (map (column_encoder af) (qr_data_types result)))"

section \<open>Values\<close>

definition unexpected_value_type :: "arrow_fns \<Rightarrow> data_type \<Rightarrow> string \<Rightarrow> harbor_error" where
  "unexpected_value_type af actual expected =
     UnsupportedResultType (''expected Arrow value type '' @ expected @ '', got `'' @ af_display_type af actual @ ''`'')"

text \<open>
  The readers take the array's type and the cell at the row; \<open>downcast_ref\<close> succeeds when
  the cell is a value of the type's array.
\<close>

fun arrow_value_to_bool :: "arrow_fns \<Rightarrow> data_type \<Rightarrow> arrow_value option \<Rightarrow> bool res" where
  "arrow_value_to_bool af t None = Inr False"
| "arrow_value_to_bool af t (Some (AvBoolean b)) = Inr b"
| "arrow_value_to_bool af t (Some _) = Inl (unexpected_value_type af t ''Boolean'')"

fun arrow_value_to_i32 :: "arrow_fns \<Rightarrow> data_type \<Rightarrow> arrow_value option \<Rightarrow> i32 res" where
  "arrow_value_to_i32 af t None = Inr 0"
| "arrow_value_to_i32 af DtInt8 (Some v) =
     (case v of AvInt8 w \<Rightarrow> Inr (scast w) | _ \<Rightarrow> Inl (unexpected_value_type af DtInt8 ''Int8''))"
| "arrow_value_to_i32 af DtInt16 (Some v) =
     (case v of AvInt16 w \<Rightarrow> Inr (scast w) | _ \<Rightarrow> Inl (unexpected_value_type af DtInt16 ''Int16''))"
| "arrow_value_to_i32 af DtInt32 (Some v) =
     (case v of AvInt32 w \<Rightarrow> Inr w | _ \<Rightarrow> Inl (unexpected_value_type af DtInt32 ''Int32''))"
| "arrow_value_to_i32 af t (Some _) = Inl (unexpected_value_type af t ''Int8/Int16/Int32'')"

fun arrow_value_to_i64 :: "arrow_fns \<Rightarrow> data_type \<Rightarrow> arrow_value option \<Rightarrow> i64 res" where
  "arrow_value_to_i64 af t None = Inr 0"
| "arrow_value_to_i64 af DtInt64 (Some v) =
     (case v of AvInt64 w \<Rightarrow> Inr w | _ \<Rightarrow> Inl (unexpected_value_type af DtInt64 ''Int64''))"
| "arrow_value_to_i64 af DtUInt8 (Some v) =
     (case v of AvUInt8 w \<Rightarrow> Inr (ucast w) | _ \<Rightarrow> Inl (unexpected_value_type af DtUInt8 ''UInt8''))"
| "arrow_value_to_i64 af DtUInt16 (Some v) =
     (case v of AvUInt16 w \<Rightarrow> Inr (ucast w) | _ \<Rightarrow> Inl (unexpected_value_type af DtUInt16 ''UInt16''))"
| "arrow_value_to_i64 af DtUInt32 (Some v) =
     (case v of AvUInt32 w \<Rightarrow> Inr (ucast w) | _ \<Rightarrow> Inl (unexpected_value_type af DtUInt32 ''UInt32''))"
| "arrow_value_to_i64 af DtUInt64 (Some v) =
     (case v of
        AvUInt64 w \<Rightarrow>
          (if unat w < 2 ^ 63 then Inr w
           else Inl (UnsupportedResultType ''UInt64 result value exceeds signed BIGINT range''))
      | _ \<Rightarrow> Inl (unexpected_value_type af DtUInt64 ''UInt64''))"
| "arrow_value_to_i64 af t (Some _) = Inl (unexpected_value_type af t ''Int64/UInt8/UInt16/UInt32/UInt64'')"

text \<open>
  \<open>f64::from(f32)\<close> on bit patterns: sign, exponent and mantissa are widened, a subnormal
  \<open>f32\<close> is normalised; a NaN keeps its payload.
\<close>

fun top_bit :: "nat \<Rightarrow> nat" where
  "top_bit n = (if n < 2 then 0 else Suc (top_bit (n div 2)))"

declare top_bit.simps [simp del]

definition f64_from_f32 :: "32 word \<Rightarrow> 64 word" where
  "f64_from_f32 w =
     (let sign = push_bit 63 (ucast (drop_bit 31 w));
          e = unat (take_bit 8 (drop_bit 23 w));
          m = unat (take_bit 23 w)
      in if e = 255 then sign OR push_bit 52 0x7FF OR push_bit 29 (of_nat m)
         else if e = 0 \<and> m = 0 then sign
         else if e = 0 then
           sign OR push_bit 52 (of_nat (874 + top_bit m)) OR take_bit 52 (push_bit (52 - top_bit m) (of_nat m))
         else sign OR push_bit 52 (of_nat (e + 896)) OR push_bit 29 (of_nat m))"

fun arrow_value_to_f64 :: "arrow_fns \<Rightarrow> data_type \<Rightarrow> arrow_value option \<Rightarrow> 64 word res" where
  "arrow_value_to_f64 af t None = Inr 0"
| "arrow_value_to_f64 af DtFloat32 (Some v) =
     (case v of AvFloat32 w \<Rightarrow> Inr (f64_from_f32 w) | _ \<Rightarrow> Inl (unexpected_value_type af DtFloat32 ''Float32''))"
| "arrow_value_to_f64 af DtFloat64 (Some v) =
     (case v of AvFloat64 w \<Rightarrow> Inr w | _ \<Rightarrow> Inl (unexpected_value_type af DtFloat64 ''Float64''))"
| "arrow_value_to_f64 af t (Some _) = Inl (unexpected_value_type af t ''Float32/Float64'')"

fun arrow_value_to_binary :: "arrow_fns \<Rightarrow> data_type \<Rightarrow> arrow_value option \<Rightarrow> bytes res" where
  "arrow_value_to_binary af t None = Inr []"
| "arrow_value_to_binary af DtBinary (Some v) =
     (case v of AvBinary bs \<Rightarrow> Inr bs | _ \<Rightarrow> Inl (unexpected_value_type af DtBinary ''Binary''))"
| "arrow_value_to_binary af DtLargeBinary (Some v) =
     (case v of AvBinary bs \<Rightarrow> Inr bs | _ \<Rightarrow> Inl (unexpected_value_type af DtLargeBinary ''LargeBinary''))"
| "arrow_value_to_binary af (DtFixedSizeBinary n) (Some v) =
     (case v of AvBinary bs \<Rightarrow> Inr bs
      | _ \<Rightarrow> Inl (unexpected_value_type af (DtFixedSizeBinary n) ''FixedSizeBinary''))"
| "arrow_value_to_binary af t (Some _) = Inl (unexpected_value_type af t ''Binary/LargeBinary/FixedSizeBinary'')"

text \<open>The three string branches of \<open>arrow_value_to_string\<close>.\<close>

definition is_utf8_type :: "data_type \<Rightarrow> bool" where
  "is_utf8_type t \<longleftrightarrow> t = DtUtf8 \<or> t = DtLargeUtf8 \<or> t = DtUtf8View"

definition utf8_type_name :: "data_type \<Rightarrow> string" where
  "utf8_type_name t = (if t = DtUtf8 then ''Utf8'' else if t = DtLargeUtf8 then ''LargeUtf8'' else ''Utf8View'')"

definition utf8_value :: "arrow_fns \<Rightarrow> data_type \<Rightarrow> arrow_value \<Rightarrow> string res" where
  "utf8_value af t v =
     (case v of AvUtf8 s \<Rightarrow> Inr s | _ \<Rightarrow> Inl (unexpected_value_type af t (utf8_type_name t)))"

definition json_string :: "arrow_fns \<Rightarrow> string \<Rightarrow> string res" where
  "json_string af s = map_sum Json id (af_json_string af s)"

definition format_date_value :: "arrow_fns \<Rightarrow> data_type \<Rightarrow> nat \<Rightarrow> arrow_value \<Rightarrow> string res" where
  "format_date_value af t row v =
     sbind (case t of
              DtDate32 \<Rightarrow> (case v of AvDate32 days \<Rightarrow> Inr (af_date32 af days)
                            | _ \<Rightarrow> Inl (unexpected_value_type af t ''Date32''))
            | DtDate64 \<Rightarrow> (case v of AvDate64 millis \<Rightarrow> Inr (af_date64 af millis)
                            | _ \<Rightarrow> Inl (unexpected_value_type af t ''Date64''))
            | _ \<Rightarrow> Inl (unexpected_value_type af t ''Date32/Date64''))
       (\<lambda>value. case value of
          Some date \<Rightarrow> Inr date
        | None \<Rightarrow> Inl (UnsupportedResultType
            (''date value at row '' @ show_nat row @ '' is outside supported range'')))"

fun timestamp_array_name :: "time_unit \<Rightarrow> string" where
  "timestamp_array_name TuSecond = ''TimestampSecond''"
| "timestamp_array_name TuMillisecond = ''TimestampMillisecond''"
| "timestamp_array_name TuMicrosecond = ''TimestampMicrosecond''"
| "timestamp_array_name TuNanosecond = ''TimestampNanosecond''"

definition format_timestamp_value :: "arrow_fns \<Rightarrow> data_type \<Rightarrow> nat \<Rightarrow> arrow_value \<Rightarrow> string res" where
  "format_timestamp_value af t row v =
     sbind (case t of
              DtTimestamp unit _ \<Rightarrow>
                (case v of AvTimestamp ts \<Rightarrow> Inr (af_timestamp af unit ts)
                 | _ \<Rightarrow> Inl (unexpected_value_type af t (timestamp_array_name unit)))
            | _ \<Rightarrow> Inl (unexpected_value_type af t ''Timestamp''))
       (\<lambda>value. case value of
          Some text \<Rightarrow> Inr text
        | None \<Rightarrow> Inl (UnsupportedResultType
            (''timestamp value at row '' @ show_nat row @ '' is outside supported range'')))"

definition show_bool :: "bool \<Rightarrow> string" where
  "show_bool b = (if b then ''true'' else ''false'')"

text \<open>A value of a type without nested values, in display format.\<close>

definition display_scalar :: "arrow_fns \<Rightarrow> data_type \<Rightarrow> nat \<Rightarrow> arrow_value \<Rightarrow> string res" where
  "display_scalar af t row v =
     (if t = DtBoolean then map_sum id show_bool (arrow_value_to_bool af t (Some v))
      else if t \<in> set [DtInt8, DtInt16, DtInt32] then
        map_sum id (\<lambda>w. show_int (sint w)) (arrow_value_to_i32 af t (Some v))
      else if t \<in> set [DtInt64, DtUInt8, DtUInt16, DtUInt32, DtUInt64] then
        map_sum id (\<lambda>w. show_int (sint w)) (arrow_value_to_i64 af t (Some v))
      else if t = DtFloat32 \<or> t = DtFloat64 then
        map_sum id (af_f64_to_string af) (arrow_value_to_f64 af t (Some v))
      else if is_utf8_type t then sbind (utf8_value af t v) (json_string af)
      else if t = DtDate32 \<or> t = DtDate64 then format_date_value af t row v
      else (case t of
          DtTimestamp _ _ \<Rightarrow> format_timestamp_value af t row v
        | DtDecimal128 _ _ \<Rightarrow> map_sum (\<lambda>err. UnsupportedResultType (''failed to format Decimal value: '' @ err)) id
            (af_value_to_string af t v)
        | DtDecimal256 _ _ \<Rightarrow> map_sum (\<lambda>err. UnsupportedResultType (''failed to format Decimal value: '' @ err)) id
            (af_value_to_string af t v)
        | DtBinary \<Rightarrow> sbind (arrow_value_to_binary af t (Some v)) (\<lambda>bs. map_sum Json id (af_json_bytes af bs))
        | DtLargeBinary \<Rightarrow> sbind (arrow_value_to_binary af t (Some v)) (\<lambda>bs. map_sum Json id (af_json_bytes af bs))
        | DtFixedSizeBinary _ \<Rightarrow> sbind (arrow_value_to_binary af t (Some v)) (\<lambda>bs. map_sum Json id (af_json_bytes af bs))
        | _ \<Rightarrow> Inl (unexpected_value_type af t ''Databricks display-compatible Arrow type'')))"

text \<open>Rendering of a map's entries once keys and values are strings: sorted by key.\<close>

definition render_entries :: "arrow_fns \<Rightarrow> (string \<times> string) list \<Rightarrow> string res" where
  "render_entries af pairs =
     sbind (collect_res (map (\<lambda>(key, value). sbind (json_string af key) (\<lambda>k. Inr (k @ '':'' @ value)))
              (sort_key fst pairs)))
       (\<lambda>rendered. Inr (''{'' @ join '','' rendered @ ''}''))"

function (sequential) databricks_display_value ::
    "arrow_fns \<Rightarrow> data_type \<Rightarrow> nat \<Rightarrow> arrow_value option \<Rightarrow> string res"
  and display_cells :: "arrow_fns \<Rightarrow> data_type \<Rightarrow> nat \<Rightarrow> arrow_value option list \<Rightarrow> string list res"
  and display_entries :: "arrow_fns \<Rightarrow> data_type \<Rightarrow> data_type \<Rightarrow> nat \<Rightarrow>
    (arrow_value option \<times> arrow_value option) list \<Rightarrow> (string \<times> string) list res"
  and display_fields :: "arrow_fns \<Rightarrow> nat \<Rightarrow> (string \<times> data_type \<times> arrow_value option) list \<Rightarrow> string list res" where
  "databricks_display_value af t row None = Inr ''null''"
| "databricks_display_value af t row (Some v) =
     (case t of
        DtList _ \<Rightarrow>
          (case v of AvList et cells \<Rightarrow>
             sbind (display_cells af et 0 cells) (\<lambda>vs. Inr (''['' @ join '','' vs @ '']''))
           | _ \<Rightarrow> Inl (unexpected_value_type af t ''List''))
      | DtLargeList _ \<Rightarrow>
          (case v of AvList et cells \<Rightarrow>
             sbind (display_cells af et 0 cells) (\<lambda>vs. Inr (''['' @ join '','' vs @ '']''))
           | _ \<Rightarrow> Inl (unexpected_value_type af t ''LargeList''))
      | DtFixedSizeList _ _ \<Rightarrow>
          (case v of AvList et cells \<Rightarrow>
             sbind (display_cells af et 0 cells) (\<lambda>vs. Inr (''['' @ join '','' vs @ '']''))
           | _ \<Rightarrow> Inl (unexpected_value_type af t ''FixedSizeList''))
      | DtMap _ _ _ \<Rightarrow>
          (case v of AvMap kt vt entries \<Rightarrow>
             sbind (display_entries af kt vt 0 entries) (render_entries af)
           | _ \<Rightarrow> Inl (unexpected_value_type af t ''Map''))
      | DtStruct _ \<Rightarrow>
          (case v of AvStruct cells \<Rightarrow>
             sbind (display_fields af row cells) (\<lambda>rendered. Inr (''{'' @ join '','' rendered @ ''}''))
           | _ \<Rightarrow> Inl (unexpected_value_type af t ''Struct''))
      | _ \<Rightarrow> display_scalar af t row v)"
| "display_cells af et row [] = Inr []"
| "display_cells af et row (c # cs) =
     sbind (databricks_display_value af et row c) (\<lambda>s.
     sbind (display_cells af et (Suc row) cs) (\<lambda>ss. Inr (s # ss)))"
| "display_entries af kt vt row [] = Inr []"
| "display_entries af kt vt row ((k, v) # es) =
     sbind (case k of
              None \<Rightarrow> Inr ''null''
            | Some key \<Rightarrow> (if is_utf8_type kt then utf8_value af kt key
                           else databricks_display_value af kt row (Some key))) (\<lambda>key.
     sbind (databricks_display_value af vt row v) (\<lambda>value.
     sbind (display_entries af kt vt (Suc row) es) (\<lambda>ps. Inr ((key, value) # ps))))"
| "display_fields af row [] = Inr []"
| "display_fields af row ((name, t, c) # fs) =
     sbind (json_string af name) (\<lambda>n.
     sbind (databricks_display_value af t row c) (\<lambda>s.
     sbind (display_fields af row fs) (\<lambda>ss. Inr ((n @ '':'' @ s) # ss))))"
  by pat_completeness auto
termination
  by (relation "measure (case_sum
        (case_sum (\<lambda>(_, _, _, c). size_option size c) (\<lambda>(_, _, _, cs). size_list (size_option size) cs))
        (case_sum (\<lambda>(_, _, _, _, es). size_list (size_prod (size_option size) (size_option size)) es)
           (\<lambda>(_, _, fs). size_list (size_prod (\<lambda>_. 0) (size_prod (\<lambda>_. 0) (size_option size))) fs)))")
     auto

definition format_with :: "string \<Rightarrow> string + string \<Rightarrow> string res" where
  "format_with what r = map_sum (\<lambda>err. UnsupportedResultType (''failed to format '' @ what @ '' value: '' @ err)) id r"

definition arrow_value_to_string :: "arrow_fns \<Rightarrow> data_type \<Rightarrow> nat \<Rightarrow> arrow_value option \<Rightarrow> string res" where
  "arrow_value_to_string af t row cell =
     (case cell of
        None \<Rightarrow> Inr []
      | Some v \<Rightarrow>
        (if is_utf8_type t then utf8_value af t v
         else case t of
           DtDate32 \<Rightarrow> (case v of AvDate32 _ \<Rightarrow> format_with ''Date32'' (af_value_to_string af t v)
                         | _ \<Rightarrow> Inl (unexpected_value_type af t ''Date32''))
         | DtDate64 \<Rightarrow> (case v of AvDate64 _ \<Rightarrow> format_with ''Date64'' (af_value_to_string af t v)
                         | _ \<Rightarrow> Inl (unexpected_value_type af t ''Date64''))
         | DtTimestamp _ _ \<Rightarrow> format_with ''Timestamp'' (af_value_to_string af t v)
         | DtDecimal128 _ _ \<Rightarrow> databricks_display_value af t row cell
         | DtDecimal256 _ _ \<Rightarrow> databricks_display_value af t row cell
         | DtList _ \<Rightarrow> databricks_display_value af t row cell
         | DtLargeList _ \<Rightarrow> databricks_display_value af t row cell
         | DtFixedSizeList _ _ \<Rightarrow> databricks_display_value af t row cell
         | DtListView _ \<Rightarrow> databricks_display_value af t row cell
         | DtLargeListView _ \<Rightarrow> databricks_display_value af t row cell
         | DtMap _ _ _ \<Rightarrow> databricks_display_value af t row cell
         | DtStruct _ \<Rightarrow> databricks_display_value af t row cell
         | _ \<Rightarrow> Inl (unexpected_value_type af t
                  ''Utf8/LargeUtf8/Utf8View/Date/Timestamp/Decimal/List/Map/Struct'')))"

section \<open>Columns and rows\<close>

definition requested_row_limit :: "i64 option \<Rightarrow> nat" where
  "requested_row_limit max_rows =
     (case max_rows of
        Some value \<Rightarrow> if sint value \<le> 0 then 0 else min (nat (sint value)) MAX_FETCH_ROWS
      | None \<Rightarrow> DEFAULT_FETCH_ROWS)"

definition row_page :: "query_result \<Rightarrow> i64 \<Rightarrow> i64 option \<Rightarrow> query_result_page" where
  "row_page result start_row_offset max_rows =
     result_page result start_row_offset (requested_row_limit max_rows)"

text \<open>The bit of a null row is set in place; \<open>page_row\<close> counts rows across the batches.\<close>

definition set_null_bit :: "nat \<Rightarrow> bytes \<Rightarrow> bytes" where
  "set_null_bit page_row nulls =
     nulls[page_row div 8 := nulls ! (page_row div 8) OR push_bit (page_row mod 8) 1]"

fun null_rows :: "arrow_value option list \<Rightarrow> nat \<times> bytes \<Rightarrow> nat \<times> bytes" where
  "null_rows [] st = st"
| "null_rows (c # cs) (page_row, nulls) =
     null_rows cs (page_row + 1, if c = None then set_null_bit page_row nulls else nulls)"

fun null_batches :: "record_batch list \<Rightarrow> nat \<Rightarrow> nat \<times> bytes \<Rightarrow> nat \<times> bytes" where
  "null_batches [] column_index st = st"
| "null_batches (batch # batches) column_index st =
     null_batches batches column_index
       (if column_index < length (rb_columns batch)
        then null_rows (take (rb_num_rows batch) (arr_cells (rb_columns batch ! column_index))) st
        else st)"

definition null_bitset :: "record_batch list \<Rightarrow> nat \<Rightarrow> nat \<Rightarrow> bytes" where
  "null_bitset batches column_index row_count =
     snd (null_batches batches column_index (0, replicate ((row_count + 7) div 8) 0))"

fun write_thrift_value :: "thrift_value \<Rightarrow> bytes" where
  "write_thrift_value (TvBool v) = write_bool v"
| "write_thrift_value (TvI32 v) = write_i32 v"
| "write_thrift_value (TvI64 v) = write_i64 v"
| "write_thrift_value (TvF64 v) = write_double v"
| "write_thrift_value (TvString v) = write_string v"
| "write_thrift_value (TvBinary v) = write_binary v"

fun column_values ::
  "(data_type \<Rightarrow> nat \<Rightarrow> arrow_value option \<Rightarrow> thrift_value res) \<Rightarrow> record_batch list \<Rightarrow> nat \<Rightarrow> thrift_value list res" where
  "column_values read_value [] column_index = Inr []"
| "column_values read_value (batch # batches) column_index =
     (if \<not> column_index < length (rb_columns batch)
      then Inl (UnsupportedResultType (''result page is missing column index '' @ show_nat column_index))
      else let array = rb_columns batch ! column_index in
        sbind (collect_res (map (\<lambda>row. read_value (arr_type array) row (arr_cells array ! row))
                 [0..<rb_num_rows batch])) (\<lambda>vs.
        sbind (column_values read_value batches column_index) (\<lambda>rest. Inr (vs @ rest))))"

definition write_column_values ::
  "u8 \<Rightarrow> query_result_page \<Rightarrow> nat \<Rightarrow> (data_type \<Rightarrow> nat \<Rightarrow> arrow_value option \<Rightarrow> thrift_value res) \<Rightarrow> bytes res" where
  "write_column_values value_type page column_index read_value =
     (let nulls = null_bitset (pg_batches page) column_index (pg_row_count page) in
      sbind (write_field_result T_LIST 1
               (sbind (column_values read_value (pg_batches page) column_index) (\<lambda>vs.
                  Inr (write_list_begin value_type (pg_row_count page) @ concat (map write_thrift_value vs)))))
        (\<lambda>values. Inr (values @ write_field T_STRING 2 (write_binary nulls) @ write_stop)))"

text \<open>The field id, the wire type and the value reader of each physical type.\<close>

fun physical_column ::
  "arrow_fns \<Rightarrow> physical_type \<Rightarrow> i16 \<times> u8 \<times> (data_type \<Rightarrow> nat \<Rightarrow> arrow_value option \<Rightarrow> thrift_value res)" where
  "physical_column af PhysBool = (1, T_BOOL, \<lambda>t row c. map_sum id TvBool (arrow_value_to_bool af t c))"
| "physical_column af PhysI32 = (4, T_I32, \<lambda>t row c. map_sum id TvI32 (arrow_value_to_i32 af t c))"
| "physical_column af PhysI64 = (5, T_I64, \<lambda>t row c. map_sum id TvI64 (arrow_value_to_i64 af t c))"
| "physical_column af PhysF64 = (6, T_DOUBLE, \<lambda>t row c. map_sum id TvF64 (arrow_value_to_f64 af t c))"
| "physical_column af PhysString = (7, T_STRING, \<lambda>t row c. map_sum id TvString (arrow_value_to_string af t row c))"
| "physical_column af PhysBinary = (8, T_STRING, \<lambda>t row c. map_sum id TvBinary (arrow_value_to_binary af t c))"

definition write_column :: "arrow_fns \<Rightarrow> column_enc \<Rightarrow> nat \<Rightarrow> query_result_page \<Rightarrow> bytes res" where
  "write_column af encoder column_index page =
     (let (field_id, value_type, read_value) = physical_column af (enc_physical_type encoder) in
      sbind (write_field_result T_STRUCT field_id (write_column_values value_type page column_index read_value))
        (\<lambda>column. Inr (column @ write_stop)))"

definition write_row_set_with_encoders ::
  "arrow_fns \<Rightarrow> query_result \<Rightarrow> query_result_page \<Rightarrow> column_enc list \<Rightarrow> bytes res" where
  "write_row_set_with_encoders af result page encoders =
     sbind (write_field_result T_LIST 3
              (sbind (collect_res (map (\<lambda>(column_index, encoder). write_column af encoder column_index page)
                        (enumerate 0 encoders)))
                 (\<lambda>columns. Inr (write_list_begin T_STRUCT (length (qr_columns result)) @ concat columns))))
       (\<lambda>columns. Inr
          (write_field T_I64 1 (write_i64 (pg_start_row_offset page)) @
           write_field T_LIST 2 (write_list_begin T_STRUCT 0) @
           columns @
           write_field T_I32 5 (write_i32 (of_nat (length (qr_columns result)))) @
           write_stop))"

section \<open>The table schema\<close>

definition write_decimal_type_qualifiers :: "i32 \<Rightarrow> i32 \<Rightarrow> bytes" where
  "write_decimal_type_qualifiers precision scale =
     write_field T_STRUCT 2
       (write_field T_MAP 1
          (write_raw [T_STRING, T_STRUCT] @
           write_i32 2 @
           write_string ''precision'' @
           write_field T_I32 1 (write_i32 precision) @
           write_stop @
           write_string ''scale'' @
           write_field T_I32 1 (write_i32 scale) @
           write_stop) @
        write_stop)"

definition write_type_desc :: "column_enc \<Rightarrow> bytes" where
  "write_type_desc encoder =
     write_field T_LIST 1
       (write_list_begin T_STRUCT 1 @
        write_field T_STRUCT 1
          (write_field T_I32 1 (write_i32 (enc_schema_type encoder)) @
           (case enc_decimal encoder of
              Some (precision, scale) \<Rightarrow> write_decimal_type_qualifiers precision scale
            | None \<Rightarrow> []) @
           write_stop) @
        write_stop) @
     write_stop"

definition write_column_desc :: "column \<Rightarrow> column_enc \<Rightarrow> i32 \<Rightarrow> bytes" where
  "write_column_desc column encoder pos =
     write_field T_STRING 1 (write_string (col_name column)) @
     write_field T_STRUCT 2 (write_type_desc encoder) @
     write_field T_I32 3 (write_i32 pos) @
     write_stop"

definition write_table_schema :: "column list \<Rightarrow> column_enc list \<Rightarrow> bytes" where
  "write_table_schema columns encoders =
     write_field T_LIST 1
       (write_list_begin T_STRUCT (length columns) @
        concat (map (\<lambda>(pos, column, encoder). write_column_desc column encoder (of_nat pos))
          (enumerate 0 (zip columns encoders)))) @
     write_stop"

definition write_result_set_metadata_response_with_encoders ::
  "column list \<Rightarrow> column_enc list \<Rightarrow> i32 \<Rightarrow> bytes" where
  "write_result_set_metadata_response_with_encoders columns encoders status =
     write_field T_STRUCT 1 (write_status status None) @
     write_field T_STRUCT 2 (write_table_schema columns encoders) @
     write_field T_I32 1281 (write_i32 COLUMN_BASED_SET) @
     write_field T_BOOL 1282 (write_bool False) @
     write_field T_BOOL 1287 (write_bool False) @
     write_stop"

definition write_result_set_metadata_response :: "arrow_fns \<Rightarrow> query_result \<Rightarrow> i32 \<Rightarrow> bytes res" where
  "write_result_set_metadata_response af result status =
     sbind (column_encoders af result) (\<lambda>encoders.
       Inr (write_result_set_metadata_response_with_encoders (qr_columns result) encoders status))"

definition write_result_set_metadata_response_with_error :: "i32 \<Rightarrow> string \<Rightarrow> bytes" where
  "write_result_set_metadata_response_with_error status message =
     write_field T_STRUCT 1 (write_status status (Some message)) @
     write_field T_STRUCT 2 (write_table_schema [] []) @
     write_field T_I32 1281 (write_i32 COLUMN_BASED_SET) @
     write_field T_BOOL 1282 (write_bool False) @
     write_stop"

definition write_fetch_results_response_struct ::
  "arrow_fns \<Rightarrow> query_result \<Rightarrow> bool \<Rightarrow> i64 \<Rightarrow> i64 option \<Rightarrow> bytes res" where
  "write_fetch_results_response_struct af result include_metadata start_row_offset max_rows =
     (let page = row_page result start_row_offset max_rows in
      sbind (column_encoders af result) (\<lambda>encoders.
      sbind (write_row_set_with_encoders af result page encoders) (\<lambda>row_set.
      Inr (write_field T_STRUCT 1 (write_status SUCCESS_STATUS None) @
           write_field T_BOOL 2 (write_bool (pg_has_more_rows page)) @
           write_field T_STRUCT 3 (write_raw row_set) @
           (if include_metadata then
              write_field T_STRUCT 1281 (write_raw
                (write_result_set_metadata_response_with_encoders (qr_columns result) encoders SUCCESS_STATUS))
            else []) @
           write_stop))))"

section \<open>The RPC responses that carry results\<close>

definition write_get_result_set_metadata_response :: "arrow_fns \<Rightarrow> i32 \<Rightarrow> query_result \<Rightarrow> bytes" where
  "write_get_result_set_metadata_response af seqid result =
     write_success_response ''GetResultSetMetadata'' seqid
       (case write_result_set_metadata_response af result SUCCESS_STATUS of
          Inr bs \<Rightarrow> bs
        | Inl err \<Rightarrow> write_result_set_metadata_response_with_error ERROR_STATUS (thrift_client_error_message err))"

definition write_get_result_set_metadata_invalid :: "i32 \<Rightarrow> bytes" where
  "write_get_result_set_metadata_invalid seqid =
     write_success_response ''GetResultSetMetadata'' seqid
       (write_result_set_metadata_response_with_error INVALID_HANDLE_STATUS ''unknown operation handle'')"

definition write_get_result_set_metadata_not_ready :: "i32 \<Rightarrow> string option \<Rightarrow> bytes" where
  "write_get_result_set_metadata_not_ready seqid message =
     write_success_response ''GetResultSetMetadata'' seqid
       (write_result_set_metadata_response_with_error ERROR_STATUS
          (case message of Some m \<Rightarrow> m | None \<Rightarrow> ''operation is not finished''))"

definition write_fetch_results_response ::
  "arrow_fns \<Rightarrow> i32 \<Rightarrow> query_result \<Rightarrow> bool \<Rightarrow> i64 \<Rightarrow> i64 option \<Rightarrow> bytes" where
  "write_fetch_results_response af seqid result include_metadata start_row_offset max_rows =
     write_success_response ''FetchResults'' seqid
       (case write_fetch_results_response_struct af result include_metadata start_row_offset max_rows of
          Inr bs \<Rightarrow> bs
        | Inl err \<Rightarrow>
            write_field T_STRUCT 1 (write_status ERROR_STATUS (Some (thrift_client_error_message err))) @
            write_field T_BOOL 2 (write_bool False) @
            write_stop)"

section \<open>The null bitmap\<close>

definition null_bit :: "bytes \<Rightarrow> nat \<Rightarrow> bool" where
  "null_bit nulls i \<longleftrightarrow> bit (nulls ! (i div 8)) (i mod 8)"

lemma length_set_null_bit [simp]: "length (set_null_bit p nulls) = length nulls"
  by (simp add: set_null_bit_def)

lemma null_bit_set:
  assumes "p div 8 < length nulls"
  shows "null_bit (set_null_bit p nulls) i \<longleftrightarrow> null_bit nulls i \<or> i = p"
proof (cases "i div 8 = p div 8")
  case True
  have "i mod 8 < 8" by simp
  moreover have "i mod 8 = p mod 8 \<longleftrightarrow> i = p" using True by (metis div_mult_mod_eq)
  ultimately show ?thesis
    using assms True by (auto simp: null_bit_def set_null_bit_def bit_simps)
next
  case False
  then show ?thesis using assms by (auto simp: null_bit_def set_null_bit_def)
qed

lemma null_rows_spec:
  "p + length cs \<le> 8 * length nulls \<Longrightarrow>
   length (snd (null_rows cs (p, nulls))) = length nulls \<and>
   (\<forall>i. null_bit (snd (null_rows cs (p, nulls))) i \<longleftrightarrow>
      null_bit nulls i \<or> (p \<le> i \<and> i < p + length cs \<and> cs ! (i - p) = None))"
proof (induction cs arbitrary: p nulls)
  case (Cons c cs)
  let ?nulls = "if c = None then set_null_bit p nulls else nulls"
  have p: "p div 8 < length nulls" using Cons.prems by simp
  have "p + 1 + length cs \<le> 8 * length ?nulls" using Cons.prems by simp
  note IH = Cons.IH [OF this]
  have "(p + 1 \<le> i \<and> i < p + 1 + length cs \<and> cs ! (i - (p + 1)) = None) \<or> (c = None \<and> i = p) \<longleftrightarrow>
      p \<le> i \<and> i < p + length (c # cs) \<and> (c # cs) ! (i - p) = None" for i
    by (auto simp: nth_Cons')
  then show ?case using IH null_bit_set [OF p] by (auto split: if_splits)
qed auto

definition has_column :: "nat \<Rightarrow> record_batch \<Rightarrow> bool" where
  "has_column i b \<longleftrightarrow> i < length (rb_columns b) \<and> length (arr_cells (rb_columns b ! i)) = rb_num_rows b"

definition column_cells :: "nat \<Rightarrow> record_batch list \<Rightarrow> arrow_value option list" where
  "column_cells i bs = concat (map (\<lambda>b. arr_cells (rb_columns b ! i)) bs)"

lemma column_cells_Cons [simp]: "column_cells i (b # bs) = arr_cells (rb_columns b ! i) @ column_cells i bs"
  and column_cells_Nil [simp]: "column_cells i [] = []"
  by (simp_all add: column_cells_def)

lemma null_rows_append: "null_rows (xs @ ys) st = null_rows ys (null_rows xs st)"
proof (induction xs arbitrary: st)
  case (Cons x xs)
  then show ?case by (cases st) simp
qed simp

lemma null_batches_cells:
  "list_all (has_column i) bs \<Longrightarrow> null_batches bs i st = null_rows (column_cells i bs) st"
  by (induction bs arbitrary: st) (auto simp: has_column_def null_rows_append)

lemma length_column_cells:
  "list_all (has_column i) bs \<Longrightarrow> length (column_cells i bs) = sum_list (map rb_num_rows bs)"
  by (induction bs) (auto simp: has_column_def)

lemma null_bitset_bit:
  assumes "list_all (has_column i) bs" "sum_list (map rb_num_rows bs) = n"
  shows "length (null_bitset bs i n) = (n + 7) div 8"
    and "r div 8 < (n + 7) div 8 \<Longrightarrow>
      null_bit (null_bitset bs i n) r \<longleftrightarrow> r < n \<and> column_cells i bs ! r = None"
proof -
  let ?zero = "replicate ((n + 7) div 8) (0 :: u8)"
  have len: "length (column_cells i bs) = n" using length_column_cells [OF assms(1)] assms(2) by simp
  then have "0 + length (column_cells i bs) \<le> 8 * length ?zero" by simp
  note spec = null_rows_spec [OF this]
  have eq: "null_bitset bs i n = snd (null_rows (column_cells i bs) (0, ?zero))"
    by (simp add: null_bitset_def null_batches_cells [OF assms(1)])
  show "length (null_bitset bs i n) = (n + 7) div 8" using spec eq by simp
  show "r div 8 < (n + 7) div 8 \<Longrightarrow>
      null_bit (null_bitset bs i n) r \<longleftrightarrow> r < n \<and> column_cells i bs ! r = None"
    using spec eq len by (simp add: null_bit_def)
qed

section \<open>The encoded rows\<close>

fun tv_val :: "thrift_value \<Rightarrow> tval" where
  "tv_val (TvBool v) = VBool v"
| "tv_val (TvI32 v) = VI32 v"
| "tv_val (TvI64 v) = VI64 v"
| "tv_val (TvF64 v) = VDouble v"
| "tv_val (TvString v) = VBinary (str_bytes v)"
| "tv_val (TvBinary v) = VBinary v"

lemma enc_tv_val: "enc (tv_val v) = write_thrift_value v"
  by (cases v) (simp_all add: write_string_def)

lemma enc_list_tv_val: "enc_list (map tv_val vs) = concat (map write_thrift_value vs)"
  by (induction vs) (simp_all add: enc_tv_val)

definition field_of :: "physical_type \<Rightarrow> i16" where
  "field_of ph = (case ph of PhysBool \<Rightarrow> 1 | PhysI32 \<Rightarrow> 4 | PhysI64 \<Rightarrow> 5 | PhysF64 \<Rightarrow> 6 | PhysString \<Rightarrow> 7 | PhysBinary \<Rightarrow> 8)"

definition wire_of :: "physical_type \<Rightarrow> u8" where
  "wire_of ph = (case ph of PhysBool \<Rightarrow> T_BOOL | PhysI32 \<Rightarrow> T_I32 | PhysI64 \<Rightarrow> T_I64 | PhysF64 \<Rightarrow> T_DOUBLE
     | PhysString \<Rightarrow> T_STRING | PhysBinary \<Rightarrow> T_STRING)"

definition reader_of :: "arrow_fns \<Rightarrow> physical_type \<Rightarrow> data_type \<Rightarrow> nat \<Rightarrow> arrow_value option \<Rightarrow> thrift_value res" where
  "reader_of af ph = snd (snd (physical_column af ph))"

lemma physical_column_eq: "physical_column af ph = (field_of ph, wire_of ph, reader_of af ph)"
  by (cases ph) (simp_all add: field_of_def wire_of_def reader_of_def)

lemma reader_type: "reader_of af ph t row c = Inr v \<Longrightarrow> tval_type (tv_val v) = wire_of ph"
  by (cases ph) (auto simp: reader_of_def wire_of_def map_sum_def split: sum.splits)

text \<open>A column of a page: the union's field, the values and the null bitmap.\<close>

definition column_tval :: "physical_type \<Rightarrow> thrift_value list \<Rightarrow> bytes \<Rightarrow> tval" where
  "column_tval ph vs nulls =
     VStruct [(field_of ph, VStruct [(1, VList (wire_of ph) (map tv_val vs)), (2, VBinary nulls)])]"

lemma column_values_length:
  "column_values f bs i = Inr vs \<Longrightarrow> length vs = sum_list (map rb_num_rows bs)"
  by (induction bs arbitrary: vs)
     (auto simp: Let_def sbind_Inr_iff collect_res_Inr split: if_splits dest: list_all2_lengthD)

lemma collect_res_mem: "collect_res ms = Inr xs \<Longrightarrow> x \<in> set xs \<Longrightarrow> Inr x \<in> set ms"
  by (induction ms arbitrary: xs) (auto simp: sbind_Inr_iff)

lemma column_values_mem:
  "column_values f bs i = Inr vs \<Longrightarrow> v \<in> set vs \<Longrightarrow> \<exists>t row c. f t row c = Inr v"
proof (induction bs arbitrary: vs)
  case (Cons b bs)
  from Cons.prems(1) obtain xs rest where
    xs: "collect_res (map (\<lambda>row. f (arr_type (rb_columns b ! i)) row (arr_cells (rb_columns b ! i) ! row))
           [0..<rb_num_rows b]) = Inr xs"
    and rest: "column_values f bs i = Inr rest" "vs = xs @ rest"
    by (auto simp: Let_def sbind_Inr_iff split: if_splits)
  show ?case
  proof (cases "v \<in> set xs")
    case True
    from collect_res_mem [OF xs this] show ?thesis by (metis imageE set_map)
  next
    case False
    with Cons rest show ?thesis by auto
  qed
qed simp

lemma column_values_type:
  "column_values (reader_of af ph) bs i = Inr vs \<Longrightarrow> v \<in> set vs \<Longrightarrow> tval_type (tv_val v) = wire_of ph"
  using column_values_mem reader_type by blast

text \<open>The values of a column are its cells, row by row, across the batches of the page.\<close>

lemma column_values_cells:
  assumes "column_values f bs i = Inr vs"
    and "list_all (\<lambda>b. has_column i b \<and> arr_type (rb_columns b ! i) = t) bs"
  shows "list_all2 (\<lambda>c v. \<exists>row. f t row c = Inr v) (column_cells i bs) vs"
  using assms
proof (induction bs arbitrary: vs)
  case (Cons b bs)
  from Cons.prems obtain xs rest where
    xs: "collect_res (map (\<lambda>row. f t row (arr_cells (rb_columns b ! i) ! row)) [0..<rb_num_rows b]) = Inr xs"
    and rest: "column_values f bs i = Inr rest" "vs = xs @ rest"
    by (auto simp: Let_def sbind_Inr_iff split: if_splits)
  have "list_all2 (\<lambda>c v. \<exists>row. f t row c = Inr v) (arr_cells (rb_columns b ! i)) xs"
    using xs Cons.prems(2) by (auto simp: collect_res_Inr list_all2_conv_all_nth has_column_def)
  with Cons rest show ?case by (auto intro: list_all2_appendI)
qed simp

lemma write_column_enc:
  assumes "sum_list (map rb_num_rows (pg_batches page)) = pg_row_count page"
  shows "write_column af e i page = Inr bs \<longleftrightarrow>
    (\<exists>vs. column_values (reader_of af (enc_physical_type e)) (pg_batches page) i = Inr vs \<and>
       bs = enc (column_tval (enc_physical_type e) vs (null_bitset (pg_batches page) i (pg_row_count page))))"
  using column_values_length [of "reader_of af (enc_physical_type e)" "pg_batches page" i] assms
  by (auto simp: write_column_def physical_column_eq sbind_def write_field_result_def write_column_values_def
      Let_def column_tval_def enc_list_tv_val write_field_def write_list_begin_def
      split: sum.splits)


definition row_set_tval :: "query_result_page \<Rightarrow> column_enc list \<Rightarrow> thrift_value list list \<Rightarrow> tval" where
  "row_set_tval page encoders vss =
     VStruct [(1, VI64 (pg_start_row_offset page)), (2, VList T_STRUCT []),
       (3, VList T_STRUCT (map (\<lambda>i. column_tval (enc_physical_type (encoders ! i)) (vss ! i)
              (null_bitset (pg_batches page) i (pg_row_count page))) [0..<length encoders])),
       (5, VI32 (of_nat (length encoders)))]"

lemma enc_list_concat: "enc_list (map f xs) = concat (map (\<lambda>x. enc (f x)) xs)"
  by (induction xs) simp_all

lemma list_all2_map_upt:
  "list_all2 P (map f [0..<n]) ys \<longleftrightarrow> length ys = n \<and> (\<forall>i<n. P (f i) (ys ! i))"
  by (auto simp: list_all2_conv_all_nth)

lemma enumerate_map_upt:
  "map f (enumerate 0 xs) = map (\<lambda>i. f (i, xs ! i)) [0..<length xs]"
  by (rule nth_equalityI) (simp_all add: nth_enumerate_eq)

lemma write_row_set_enc:
  assumes rows: "sum_list (map rb_num_rows (pg_batches page)) = pg_row_count page"
    and cols: "length (qr_columns result) = length encoders"
    and ok: "write_row_set_with_encoders af result page encoders = Inr bs"
  shows "\<exists>vss. length vss = length encoders \<and>
    (\<forall>i<length encoders. column_values (reader_of af (enc_physical_type (encoders ! i))) (pg_batches page) i
       = Inr (vss ! i)) \<and>
    bs = enc (row_set_tval page encoders vss)"
proof -
  from ok obtain cs where
    cs: "list_all2 (\<lambda>m x. m = Inr x) (map (\<lambda>i. write_column af (encoders ! i) i page) [0..<length encoders]) cs"
    and bs: "bs = write_field T_I64 1 (write_i64 (pg_start_row_offset page)) @
           write_field T_LIST 2 (write_list_begin T_STRUCT 0) @
           write_field T_LIST 3 (write_list_begin T_STRUCT (length encoders) @ concat cs) @
           write_field T_I32 5 (write_i32 (of_nat (length encoders))) @ write_stop"
    by (auto simp: write_row_set_with_encoders_def sbind_Inr_iff write_field_result_def enumerate_map_upt
        collect_res_Inr cols write_field_def split: sum.splits simp del: T_LIST_def T_STRUCT_def)
  define vss where "vss = map (\<lambda>i. SOME vs. column_values (reader_of af (enc_physical_type (encoders ! i)))
      (pg_batches page) i = Inr vs) [0..<length encoders]"
  have each: "column_values (reader_of af (enc_physical_type (encoders ! i))) (pg_batches page) i = Inr (vss ! i) \<and>
      cs ! i = enc (column_tval (enc_physical_type (encoders ! i)) (vss ! i)
        (null_bitset (pg_batches page) i (pg_row_count page)))" if "i < length encoders" for i
  proof -
    from cs that have "write_column af (encoders ! i) i page = Inr (cs ! i)"
      by (auto simp: list_all2_map_upt)
    then obtain vs where vs: "column_values (reader_of af (enc_physical_type (encoders ! i))) (pg_batches page) i = Inr vs"
      "cs ! i = enc (column_tval (enc_physical_type (encoders ! i)) vs
          (null_bitset (pg_batches page) i (pg_row_count page)))"
      using write_column_enc [OF rows] by blast
    then have "vss ! i = vs" using that by (simp add: vss_def)
    with vs show ?thesis by simp
  qed
  have "cs = map (\<lambda>i. enc (column_tval (enc_physical_type (encoders ! i)) (vss ! i)
        (null_bitset (pg_batches page) i (pg_row_count page)))) [0..<length encoders]"
    using each cs by (intro nth_equalityI) (auto simp: list_all2_map_upt)
  then have "bs = enc (row_set_tval page encoders vss)"
    by (simp add: bs row_set_tval_def enc_list_concat write_list_begin_def)
  then show ?thesis using each by (intro exI [of _ vss]) (simp add: vss_def)
qed


section \<open>Responses that carry results are well-formed\<close>

lemma wire_list_single [wire_rules]:
  "1 \<le> n \<Longrightarrow> wire T_STRUCT (n - 1) e \<Longrightarrow> wire T_LIST n (write_list_begin T_STRUCT 1 @ e)"
  using wire_list [of T_STRUCT "[()]" n "\<lambda>_. e" 1] by (simp add: valid_field_type_def MAX_CONTAINER_ELEMENTS_def)

lemma wire_decimal_qualifiers:
  assumes "7 \<le> n" "wire_fields n rest"
  shows "wire_fields n (write_decimal_type_qualifiers precision scale @ rest)"
proof -
  let ?v = "VStruct [(1, VMap T_STRING T_STRUCT
      [(VBinary (str_bytes ''precision''), VStruct [(1, VI32 precision)]),
       (VBinary (str_bytes ''scale''), VStruct [(1, VI32 scale)])])]"
  have "wire T_STRUCT (n - 2) (enc ?v)"
    unfolding wire_def using assms(1)
    by (intro exI [of _ ?v]) (simp add: valid_field_type_def MAX_CONTAINER_ELEMENTS_def)
  moreover have "write_decimal_type_qualifiers precision scale @ rest = write_field T_STRUCT 2 (enc ?v) @ rest"
    by (simp add: write_decimal_type_qualifiers_def write_raw_def write_string_def)
  ultimately show ?thesis using assms by (simp only:) (intro wire_fields_field; simp)
qed

lemma wire_type_desc [wire_rules]: "12 \<le> n \<Longrightarrow> wire T_STRUCT n (write_type_desc e)"
  unfolding write_type_desc_def
  by (cases "enc_decimal e"; simp only: option.case case_prod_unfold append_Nil append_assoc)
     (rule wire_struct, simp, intro wire_rules wire_struct wire_decimal_qualifiers; simp)+

lemma wire_column_desc [wire_rules]:
  "14 \<le> n \<Longrightarrow> length (col_name c) < 2 ^ 31 \<Longrightarrow> wire T_STRUCT n (write_column_desc c e i)"
  unfolding write_column_desc_def by (rule wire_struct, simp, intro wire_rules; simp)

definition columns_fit :: "column list \<Rightarrow> bool" where
  "columns_fit columns \<longleftrightarrow>
     length columns \<le> MAX_CONTAINER_ELEMENTS \<and> list_all (\<lambda>c. length (col_name c) < 2 ^ 31) columns"

lemma wire_table_schema [wire_rules]:
  assumes "17 \<le> n" "columns_fit columns" "length encoders = length columns"
  shows "wire T_STRUCT n (write_table_schema columns encoders)"
  unfolding write_table_schema_def
  by (rule wire_struct, use assms in simp, intro wire_rules)
     (use assms in \<open>auto simp: columns_fit_def list_all_iff valid_field_type_def in_set_enumerate_eq
        split: prod.splits intro!: wire_column_desc [simplified] dest: set_zip_leftD\<close>)

lemma wire_metadata_encoders [wire_rules]:
  assumes "19 \<le> n" "columns_fit columns" "length encoders = length columns"
  shows "wire T_STRUCT n (write_result_set_metadata_response_with_encoders columns encoders status)"
  unfolding write_result_set_metadata_response_with_encoders_def
  by (rule wire_struct, use assms in simp, intro wire_rules) (use assms in simp_all)

lemma wire_metadata_error:
  "19 \<le> n \<Longrightarrow> length m < 2 ^ 31 \<Longrightarrow>
   wire_fields n (write_result_set_metadata_response_with_error status m)"
  unfolding write_result_set_metadata_response_with_error_def
  by (intro wire_rules) (simp_all add: columns_fit_def)


fun tv_fits :: "thrift_value \<Rightarrow> bool" where
  "tv_fits (TvString s) \<longleftrightarrow> length s < 2 ^ 31"
| "tv_fits (TvBinary bs) \<longleftrightarrow> length bs < 2 ^ 31"
| "tv_fits _ \<longleftrightarrow> True"

text \<open>Every converted string and binary value of the page is shorter than 2 GiB.\<close>

definition values_fit :: "arrow_fns \<Rightarrow> query_result \<Rightarrow> query_result_page \<Rightarrow> bool" where
  "values_fit af result page \<longleftrightarrow>
     (case column_encoders af result of
        Inl _ \<Rightarrow> True
      | Inr es \<Rightarrow> list_all (\<lambda>i. case column_values (reader_of af (enc_physical_type (es ! i))) (pg_batches page) i of
            Inl _ \<Rightarrow> True | Inr vs \<Rightarrow> list_all tv_fits vs) [0..<length es])"

lemma wf_tv_val: "tv_fits v \<Longrightarrow> wf_tval (tv_val v)"
  and nesting_tv_val: "nesting (tv_val v) = 0"
  by (cases v; simp)+

lemma wf_column_tval:
  assumes "\<And>v. v \<in> set vs \<Longrightarrow> tval_type (tv_val v) = wire_of ph" "list_all tv_fits vs"
    "length vs \<le> MAX_CONTAINER_ELEMENTS" "length nulls < 2 ^ 31"
  shows "wf_tval (column_tval ph vs nulls)" "nesting (column_tval ph vs nulls) \<le> 5"
proof -
  have "valid_field_type (wire_of ph)" by (cases ph) (simp_all add: wire_of_def valid_field_type_def)
  with assms show "wf_tval (column_tval ph vs nulls)"
    by (auto simp: column_tval_def wf_list_iff list_all_iff wf_tv_val)
  have "nesting_list (map tv_val vs) \<le> 1" by (auto simp: nesting_list_le nesting_tv_val)
  then show "nesting (column_tval ph vs nulls) \<le> 5" by (simp add: column_tval_def)
qed

lemma wf_row_set_tval:
  assumes cols: "\<And>i. i < length es \<Longrightarrow> wf_tval (column_tval (enc_physical_type (es ! i)) (vss ! i)
        (null_bitset (pg_batches page) i (pg_row_count page))) \<and>
      nesting (column_tval (enc_physical_type (es ! i)) (vss ! i)
        (null_bitset (pg_batches page) i (pg_row_count page))) \<le> 5"
    and es: "length es \<le> MAX_CONTAINER_ELEMENTS"
  shows "wire T_STRUCT 8 (enc (row_set_tval page es vss))"
  unfolding wire_def
proof (intro exI [of _ "row_set_tval page es vss"] conjI refl)
  have "nesting_list (map (\<lambda>i. column_tval (enc_physical_type (es ! i)) (vss ! i)
      (null_bitset (pg_batches page) i (pg_row_count page))) [0..<length es]) \<le> 6"
    using cols by (auto simp: nesting_list_le)
  then show "nesting (row_set_tval page es vss) \<le> 8" by (simp add: row_set_tval_def)
  show "wf_tval (row_set_tval page es vss)"
    using cols es by (auto simp: row_set_tval_def wf_list_iff valid_field_type_def column_tval_def)
qed (simp add: row_set_tval_def)

lemma null_bitset_length: "length (null_bitset bs i n) = (n + 7) div 8"
proof -
  have r: "length (snd (null_rows cs st)) = length (snd st)" for cs st
    by (induction cs st rule: null_rows.induct) auto
  have "length (snd (null_batches bs i st)) = length (snd st)" for st
    by (induction bs arbitrary: st) (auto simp: r)
  then show ?thesis by (simp add: null_bitset_def)
qed

lemma requested_row_limit_le: "requested_row_limit m \<le> MAX_FETCH_ROWS"
  by (simp add: requested_row_limit_def DEFAULT_FETCH_ROWS_def MAX_FETCH_ROWS_def split: option.split)

lemma row_page_count:
  assumes "wf_store (qr_store result)"
  shows "sum_list (map rb_num_rows (pg_batches (row_page result off m))) = pg_row_count (row_page result off m)"
    and "pg_row_count (row_page result off m) \<le> MAX_FETCH_ROWS"
proof -
  note window = store_page_window(1,2) [OF assms, of off "requested_row_limit m"]
  show "sum_list (map rb_num_rows (pg_batches (row_page result off m))) = pg_row_count (row_page result off m)"
    using window by (simp add: row_page_def result_page_def flip: length_rows_of)
  have "length (take k xs) \<le> k" for k and xs :: "'a list" by simp
  with window(2) requested_row_limit_le [of m] show "pg_row_count (row_page result off m) \<le> MAX_FETCH_ROWS"
    unfolding row_page_def result_page_def by (metis le_trans)
qed

lemma column_encoders_length:
  "column_encoders af result = Inr es \<Longrightarrow> length es = length (qr_columns result)"
  by (auto simp: column_encoders_def collect_res_Inr split: if_splits dest: list_all2_lengthD)

lemma wire_row_set:
  assumes wf: "wf_store (qr_store result)" and es: "column_encoders af result = Inr es"
    and cols: "columns_fit (qr_columns result)"
    and fit: "values_fit af result (row_page result off m)"
    and ok: "write_row_set_with_encoders af result (row_page result off m) es = Inr bs"
  shows "wire T_STRUCT 8 bs"
proof -
  let ?page = "row_page result off m"
  note count = row_page_count [OF wf, of off m]
  from write_row_set_enc [OF count(1) column_encoders_length [OF es, symmetric] ok] obtain vss where
    vss: "\<And>i. i < length es \<Longrightarrow>
        column_values (reader_of af (enc_physical_type (es ! i))) (pg_batches ?page) i = Inr (vss ! i)"
    and bs: "bs = enc (row_set_tval ?page es vss)" by blast
  have small: "pg_row_count ?page \<le> MAX_CONTAINER_ELEMENTS"
    using count(2) by (simp add: MAX_FETCH_ROWS_def MAX_CONTAINER_ELEMENTS_def)
  show ?thesis unfolding bs
  proof (rule wf_row_set_tval)
    fix i assume i: "i < length es"
    have len: "length (vss ! i) \<le> MAX_CONTAINER_ELEMENTS"
      using column_values_length [OF vss [OF i]] count(1) small by simp
    have nulls: "length (null_bitset (pg_batches ?page) i (pg_row_count ?page)) < 2 ^ 31"
      using small by (simp add: null_bitset_length MAX_CONTAINER_ELEMENTS_def)
    have fits: "list_all tv_fits (vss ! i)"
      using fit es vss [OF i] i unfolding values_fit_def list_all_iff [of _ "[0..<_]"]
      by (simp, drule_tac x = i in bspec) auto
    from wf_column_tval [OF column_values_type [OF vss [OF i]] fits len nulls]
    show "wf_tval (column_tval (enc_physical_type (es ! i)) (vss ! i)
        (null_bitset (pg_batches ?page) i (pg_row_count ?page))) \<and>
      nesting (column_tval (enc_physical_type (es ! i)) (vss ! i)
        (null_bitset (pg_batches ?page) i (pg_row_count ?page))) \<le> 5" by blast
  next
    show "length es \<le> MAX_CONTAINER_ELEMENTS"
      using cols column_encoders_length [OF es] by (simp add: columns_fit_def)
  qed
qed

lemma client_error_message_short: "length (thrift_client_error_message e) < 2 ^ 31"
  by (cases e) (simp_all add: thrift_client_error_message_def status_message_def client_error_new_def
      client_error_internal_def)

lemma well_formed_metadata:
  assumes "columns_fit (qr_columns result)"
  shows "well_formed_message ''GetResultSetMetadata'' T_MESSAGE_REPLY seqid
    (write_get_result_set_metadata_response af seqid result)"
proof (cases "column_encoders af result")
  case (Inl e)
  then show ?thesis unfolding write_get_result_set_metadata_response_def write_result_set_metadata_response_def
    by (intro well_formed_success valid_str_names)
       (simp_all add: wire_metadata_error client_error_message_short [simplified] del: ERROR_STATUS_def)
next
  case (Inr es)
  have "wire_fields 30 (write_result_set_metadata_response_with_encoders (qr_columns result) es SUCCESS_STATUS)"
    unfolding write_result_set_metadata_response_with_encoders_def
    by (intro wire_rules) (use assms column_encoders_length [OF Inr] in simp_all)
  with Inr show ?thesis unfolding write_get_result_set_metadata_response_def write_result_set_metadata_response_def
    by (intro well_formed_success valid_str_names) simp_all
qed

lemma well_formed_metadata_errors:
  assumes "\<And>m. message = Some m \<Longrightarrow> length m < 2 ^ 31"
  shows "well_formed_message ''GetResultSetMetadata'' T_MESSAGE_REPLY seqid (write_get_result_set_metadata_invalid seqid)"
    and "well_formed_message ''GetResultSetMetadata'' T_MESSAGE_REPLY seqid
      (write_get_result_set_metadata_not_ready seqid message)"
  unfolding write_get_result_set_metadata_invalid_def write_get_result_set_metadata_not_ready_def
  by (intro well_formed_success valid_str_names wire_metadata_error;
      use assms in \<open>simp split: option.split\<close>)+

lemma well_formed_fetch:
  assumes "wf_store (qr_store result)" "columns_fit (qr_columns result)"
    "values_fit af result (row_page result off m)"
  shows "well_formed_message ''FetchResults'' T_MESSAGE_REPLY seqid
    (write_fetch_results_response af seqid result include_metadata off m)"
proof (cases "write_fetch_results_response_struct af result include_metadata off m")
  case (Inl e)
  then show ?thesis unfolding write_fetch_results_response_def
    by (simp only: sum.case)
       (intro well_formed_success valid_str_names wire_rules; simp add: client_error_message_short [simplified])
next
  case (Inr bs)
  then obtain es rows where es: "column_encoders af result = Inr es"
    and rows: "write_row_set_with_encoders af result (row_page result off m) es = Inr rows"
    and bs: "bs = write_field T_STRUCT 1 (write_status SUCCESS_STATUS None) @
           write_field T_BOOL 2 (write_bool (pg_has_more_rows (row_page result off m))) @
           write_field T_STRUCT 3 rows @
           (if include_metadata then
              write_field T_STRUCT 1281
                (write_result_set_metadata_response_with_encoders (qr_columns result) es SUCCESS_STATUS)
            else []) @
           write_stop"
    unfolding write_fetch_results_response_struct_def
    by (auto simp: Let_def sbind_Inr_iff write_raw_def)
  have "wire T_STRUCT 28 rows"
    by (rule wire_mono [OF wire_row_set [OF assms(1) es assms(2,3) rows]]) simp
  then have "wire_fields 30 bs" unfolding bs
    by (intro wire_rules) (use assms(2) column_encoders_length [OF es] in simp_all)
  with Inr show ?thesis unfolding write_fetch_results_response_def
    by (intro well_formed_success valid_str_names) simp_all
qed

end
