(* ===== verification/Metadata_Results.thy ===== *)
theory Metadata_Results
  imports Result_Encoding
begin

text \<open>
  The results of the metadata statements (\<open>src/src/engine/metadata/result.rs\<close>): each is one
  Arrow batch built from rows, with its columns described a second time for the client.

  Arrow's \<open>RecordBatch::try_new\<close>, the display of an Arrow type and the memory size of a
  batch are the parameters \<open>batch_fns\<close>; \<open>try_new_accepts\<close> is what the Arrow crate
  documents of \<open>try_new\<close> for columns that agree with the schema.
\<close>

section \<open>Rows\<close>

record table_row =
  tr_schema :: string
  tr_name :: string

record column_metadata_row =
  cm_catalog :: string
  cm_schema :: string
  cm_table :: string
  cm_column :: string
  cm_data_type :: i32
  cm_type_name :: string
  cm_column_size :: "i32 option"
  cm_decimal_digits :: "i32 option"
  cm_num_prec_radix :: "i32 option"
  cm_nullable :: i32
  cm_remarks :: "string option"
  cm_sql_data_type :: i32
  cm_sql_datetime_sub :: "i32 option"
  cm_char_octet_length :: "i32 option"
  cm_ordinal_position :: i32
  cm_is_nullable :: string

record table_extended_row =
  te_schema :: string
  te_name :: string
  te_information :: string

section \<open>Batches\<close>

record batch_fns =
  bf_try_new :: "arrow_field list \<Rightarrow> arrow_array list \<Rightarrow> string + record_batch"
  bf_display_type :: "data_type \<Rightarrow> string"
  bf_memory :: "record_batch \<Rightarrow> nat"

definition field_new :: "string \<Rightarrow> data_type \<Rightarrow> bool \<Rightarrow> arrow_field" where
  "field_new name data_type nullable = \<lparr>fld_name = name, fld_type = data_type, fld_nullable = nullable\<rparr>"

definition string_array :: "string option list \<Rightarrow> arrow_array" where
  "string_array values = \<lparr>arr_type = DtUtf8, arr_cells = map (map_option AvUtf8) values\<rparr>"

definition boolean_array :: "bool list \<Rightarrow> arrow_array" where
  "boolean_array values = \<lparr>arr_type = DtBoolean, arr_cells = map (\<lambda>b. Some (AvBoolean b)) values\<rparr>"

definition int32_array :: "i32 option list \<Rightarrow> arrow_array" where
  "int32_array values = \<lparr>arr_type = DtInt32, arr_cells = map (map_option AvInt32) values\<rparr>"

definition int16_array :: "i16 option list \<Rightarrow> arrow_array" where
  "int16_array values = \<lparr>arr_type = DtInt16, arr_cells = map (map_option AvInt16) values\<rparr>"

definition int8_array :: "u8 option list \<Rightarrow> arrow_array" where
  "int8_array values = \<lparr>arr_type = DtInt8, arr_cells = map (map_option AvInt8) values\<rparr>"

definition batch_result ::
  "batch_fns \<Rightarrow> arrow_field list \<Rightarrow> arrow_array list \<Rightarrow> column list \<Rightarrow> query_result res" where
  "batch_result bf flds arrays columns =
     (case bf_try_new bf flds arrays of
        Inl err \<Rightarrow> Inl (ArrowJson err)
      | Inr batch \<Rightarrow> Inr (from_batches (bf_memory bf) columns [batch]))"

section \<open>Columns\<close>

definition column_of :: "batch_fns \<Rightarrow> string \<Rightarrow> data_type \<Rightarrow> bool \<Rightarrow> column" where
  "column_of bf name data_type nullable =
     \<lparr>col_name = name, col_data_type = bf_display_type bf data_type, col_nullable = nullable\<rparr>"

definition string_column :: "batch_fns \<Rightarrow> string \<Rightarrow> column" where
  "string_column bf name = column_of bf name DtUtf8 False"

definition nullable_string_column :: "batch_fns \<Rightarrow> string \<Rightarrow> column" where
  "nullable_string_column bf name = column_of bf name DtUtf8 True"

definition boolean_column :: "batch_fns \<Rightarrow> string \<Rightarrow> column" where
  "boolean_column bf name = column_of bf name DtBoolean False"

definition int8_column :: "batch_fns \<Rightarrow> string \<Rightarrow> column" where
  "int8_column bf name = column_of bf name DtInt8 True"

definition int16_column :: "batch_fns \<Rightarrow> string \<Rightarrow> column" where
  "int16_column bf name = column_of bf name DtInt16 True"

definition int32_column :: "batch_fns \<Rightarrow> string \<Rightarrow> bool \<Rightarrow> column" where
  "int32_column bf name nullable = column_of bf name DtInt32 nullable"

lemmas column_defs = string_column_def nullable_string_column_def boolean_column_def
  int8_column_def int16_column_def int32_column_def

lemmas array_defs = string_array_def boolean_array_def int32_array_def int16_array_def int8_array_def

section \<open>Results\<close>

definition string_result :: "batch_fns \<Rightarrow> string \<Rightarrow> string list \<Rightarrow> query_result res" where
  "string_result bf column_name values =
     batch_result bf [field_new column_name DtUtf8 False] [string_array (map Some values)]
       [string_column bf column_name]"

definition catalogs_result :: "batch_fns \<Rightarrow> string list \<Rightarrow> query_result res" where
  "catalogs_result bf names = string_result bf ''catalog'' names"

definition schemas_result :: "batch_fns \<Rightarrow> string list \<Rightarrow> query_result res" where
  "schemas_result bf names = string_result bf ''databaseName'' names"

definition columns_result :: "batch_fns \<Rightarrow> string list \<Rightarrow> query_result res" where
  "columns_result bf names = string_result bf ''col_name'' names"

definition table_rows_result ::
  "batch_fns \<Rightarrow> string \<Rightarrow> string \<Rightarrow> string \<Rightarrow> (string \<times> string \<times> bool) list \<Rightarrow> query_result res" where
  "table_rows_result bf c0 c1 c2 rows =
     batch_result bf
       [field_new c0 DtUtf8 False, field_new c1 DtUtf8 False, field_new c2 DtBoolean False]
       [string_array (map (\<lambda>(a, _, _). Some a) rows),
        string_array (map (\<lambda>(_, b, _). Some b) rows),
        boolean_array (map (\<lambda>(_, _, c). c) rows)]
       [string_column bf c0, string_column bf c1, boolean_column bf c2]"

definition tables_result :: "batch_fns \<Rightarrow> table_row list \<Rightarrow> query_result res" where
  "tables_result bf rows =
     table_rows_result bf ''database'' ''tableName'' ''isTemporary'' (map (\<lambda>row. (tr_schema row, tr_name row, False)) rows)"

definition views_result :: "batch_fns \<Rightarrow> table_row list \<Rightarrow> query_result res" where
  "views_result bf rows =
     table_rows_result bf ''namespace'' ''viewName'' ''isTemporary'' (map (\<lambda>row. (tr_schema row, tr_name row, False)) rows)"

definition table_extended_result :: "batch_fns \<Rightarrow> table_extended_row list \<Rightarrow> query_result res" where
  "table_extended_result bf rows =
     batch_result bf
       [field_new ''database'' DtUtf8 False, field_new ''tableName'' DtUtf8 False,
        field_new ''isTemporary'' DtBoolean False, field_new ''information'' DtUtf8 False]
       [string_array (map (\<lambda>row. Some (te_schema row)) rows),
        string_array (map (\<lambda>row. Some (te_name row)) rows),
        boolean_array (replicate (length rows) False),
        string_array (map (\<lambda>row. Some (te_information row)) rows)]
       [string_column bf ''database'', string_column bf ''tableName'',
        boolean_column bf ''isTemporary'', string_column bf ''information'']"

definition required_string_values :: "column_metadata_row list \<Rightarrow> (column_metadata_row \<Rightarrow> string) \<Rightarrow> string option list" where
  "required_string_values rows value = map (\<lambda>row. Some (value row)) rows"

definition optional_string_values :: "column_metadata_row list \<Rightarrow> (column_metadata_row \<Rightarrow> string option) \<Rightarrow> string option list" where
  "optional_string_values rows value = map value rows"

definition required_i32_values :: "column_metadata_row list \<Rightarrow> (column_metadata_row \<Rightarrow> i32) \<Rightarrow> i32 option list" where
  "required_i32_values rows value = map (\<lambda>row. Some (value row)) rows"

definition optional_i32_values :: "column_metadata_row list \<Rightarrow> (column_metadata_row \<Rightarrow> i32 option) \<Rightarrow> i32 option list" where
  "optional_i32_values rows value = map value rows"

lemmas values_defs = required_string_values_def optional_string_values_def required_i32_values_def optional_i32_values_def

text \<open>The schema of \<open>GetColumns\<close>, in the order of the JDBC metadata.\<close>

definition column_metadata_fields :: "arrow_field list" where
  "column_metadata_fields =
     [field_new ''TABLE_CAT'' DtUtf8 False,
      field_new ''TABLE_SCHEM'' DtUtf8 False,
      field_new ''TABLE_NAME'' DtUtf8 False,
      field_new ''COLUMN_NAME'' DtUtf8 False,
      field_new ''DATA_TYPE'' DtInt32 False,
      field_new ''TYPE_NAME'' DtUtf8 False,
      field_new ''COLUMN_SIZE'' DtInt32 True,
      field_new ''BUFFER_LENGTH'' DtInt8 True,
      field_new ''DECIMAL_DIGITS'' DtInt32 True,
      field_new ''NUM_PREC_RADIX'' DtInt32 True,
      field_new ''NULLABLE'' DtInt32 False,
      field_new ''REMARKS'' DtUtf8 True,
      field_new ''COLUMN_DEF'' DtUtf8 True,
      field_new ''SQL_DATA_TYPE'' DtInt32 False,
      field_new ''SQL_DATETIME_SUB'' DtInt32 True,
      field_new ''CHAR_OCTET_LENGTH'' DtInt32 True,
      field_new ''ORDINAL_POSITION'' DtInt32 False,
      field_new ''IS_NULLABLE'' DtUtf8 False,
      field_new ''SCOPE_CATALOG'' DtUtf8 True,
      field_new ''SCOPE_SCHEMA'' DtUtf8 True,
      field_new ''SCOPE_TABLE'' DtUtf8 True,
      field_new ''SOURCE_DATA_TYPE'' DtInt16 True,
      field_new ''IS_AUTO_INCREMENT'' DtUtf8 False]"

definition column_metadata_arrays :: "column_metadata_row list \<Rightarrow> arrow_array list" where
  "column_metadata_arrays rows =
     (let n = length rows; null_strings = replicate n (None :: string option) in
      [string_array (required_string_values rows cm_catalog),
       string_array (required_string_values rows cm_schema),
       string_array (required_string_values rows cm_table),
       string_array (required_string_values rows cm_column),
       int32_array (required_i32_values rows cm_data_type),
       string_array (required_string_values rows cm_type_name),
       int32_array (optional_i32_values rows cm_column_size),
       int8_array (replicate n None),
       int32_array (optional_i32_values rows cm_decimal_digits),
       int32_array (optional_i32_values rows cm_num_prec_radix),
       int32_array (required_i32_values rows cm_nullable),
       string_array (optional_string_values rows cm_remarks),
       string_array (replicate n None),
       int32_array (required_i32_values rows cm_sql_data_type),
       int32_array (optional_i32_values rows cm_sql_datetime_sub),
       int32_array (optional_i32_values rows cm_char_octet_length),
       int32_array (required_i32_values rows cm_ordinal_position),
       string_array (required_string_values rows cm_is_nullable),
       string_array null_strings,
       string_array null_strings,
       string_array null_strings,
       int16_array (replicate n None),
       string_array (replicate n (Some ''NO''))])"

definition column_metadata_columns :: "batch_fns \<Rightarrow> column list" where
  "column_metadata_columns bf =
     [string_column bf ''TABLE_CAT'',
      string_column bf ''TABLE_SCHEM'',
      string_column bf ''TABLE_NAME'',
      string_column bf ''COLUMN_NAME'',
      int32_column bf ''DATA_TYPE'' False,
      string_column bf ''TYPE_NAME'',
      int32_column bf ''COLUMN_SIZE'' True,
      int8_column bf ''BUFFER_LENGTH'',
      int32_column bf ''DECIMAL_DIGITS'' True,
      int32_column bf ''NUM_PREC_RADIX'' True,
      int32_column bf ''NULLABLE'' False,
      nullable_string_column bf ''REMARKS'',
      nullable_string_column bf ''COLUMN_DEF'',
      int32_column bf ''SQL_DATA_TYPE'' False,
      int32_column bf ''SQL_DATETIME_SUB'' True,
      int32_column bf ''CHAR_OCTET_LENGTH'' True,
      int32_column bf ''ORDINAL_POSITION'' False,
      string_column bf ''IS_NULLABLE'',
      nullable_string_column bf ''SCOPE_CATALOG'',
      nullable_string_column bf ''SCOPE_SCHEMA'',
      nullable_string_column bf ''SCOPE_TABLE'',
      int16_column bf ''SOURCE_DATA_TYPE'',
      string_column bf ''IS_AUTO_INCREMENT'']"

definition column_metadata_result :: "batch_fns \<Rightarrow> column_metadata_row list \<Rightarrow> query_result res" where
  "column_metadata_result bf rows =
     batch_result bf column_metadata_fields (column_metadata_arrays rows) (column_metadata_columns bf)"

section \<open>Every result is a batch of its rows\<close>

text \<open>
  \<open>column_fits\<close>: the values of a column agree with its field. \<open>try_new_accepts\<close>:
  \<open>RecordBatch::try_new\<close> accepts columns that agree with the schema and have one length.
\<close>

definition column_fits :: "nat \<Rightarrow> arrow_field \<Rightarrow> arrow_array \<Rightarrow> bool" where
  "column_fits n f a \<longleftrightarrow>
     arr_type a = fld_type f \<and> length (arr_cells a) = n \<and> (fld_nullable f \<or> None \<notin> set (arr_cells a))"

definition try_new_accepts :: "batch_fns \<Rightarrow> bool" where
  "try_new_accepts bf \<longleftrightarrow>
     (\<forall>flds arrays n. flds \<noteq> [] \<and> list_all2 (column_fits n) flds arrays \<longrightarrow>
        bf_try_new bf flds arrays = Inr \<lparr>rb_schema = flds, rb_columns = arrays, rb_num_rows = n\<rparr>)"

text \<open>\<open>described\<close>: the columns shown to the client are those of the batch.\<close>

definition described :: "batch_fns \<Rightarrow> arrow_field list \<Rightarrow> column list \<Rightarrow> bool" where
  "described bf flds columns \<longleftrightarrow> columns = map (\<lambda>f. column_of bf (fld_name f) (fld_type f) (fld_nullable f)) flds"

text \<open>
  \<open>result_of bf flds arrays n\<close>: the result with this schema and these columns of \<open>n\<close> rows.
\<close>

definition result_of :: "batch_fns \<Rightarrow> arrow_field list \<Rightarrow> arrow_array list \<Rightarrow> nat \<Rightarrow> query_result" where
  "result_of bf flds arrays n =
     (let batch = \<lparr>rb_schema = flds, rb_columns = arrays, rb_num_rows = n\<rparr> in
      \<lparr>qr_columns = map (\<lambda>f. column_of bf (fld_name f) (fld_type f) (fld_nullable f)) flds,
       qr_row_count = n, qr_data_types = map fld_type flds,
       qr_store = \<lparr>irs_batches = [batch], irs_row_count = n, irs_retained_bytes = bf_memory bf batch\<rparr>\<rparr>)"

lemma batch_result_fits:
  assumes "try_new_accepts bf" "flds \<noteq> []" "list_all2 (column_fits n) flds arrays" "described bf flds columns"
  shows "batch_result bf flds arrays columns = Inr (result_of bf flds arrays n)"
proof -
  have "bf_try_new bf flds arrays = Inr \<lparr>rb_schema = flds, rb_columns = arrays, rb_num_rows = n\<rparr>"
    using assms(1-3) unfolding try_new_accepts_def by blast
  then show ?thesis
    using assms(4) by (simp add: batch_result_def from_batches_def from_batches_with_data_types_def
      infer_result_data_types_def inline_result_store_new_def result_of_def described_def Let_def)
qed

lemma column_fits_arrays:
  "column_fits n (field_new name DtUtf8 b) (string_array xs) \<longleftrightarrow> length xs = n \<and> (b \<or> None \<notin> set xs)"
  "column_fits n (field_new name DtBoolean b) (boolean_array bs) \<longleftrightarrow> length bs = n"
  "column_fits n (field_new name DtInt32 b) (int32_array is) \<longleftrightarrow> length is = n \<and> (b \<or> None \<notin> set is)"
  "column_fits n (field_new name DtInt16 b) (int16_array is16) \<longleftrightarrow> length is16 = n \<and> (b \<or> None \<notin> set is16)"
  "column_fits n (field_new name DtInt8 b) (int8_array is8) \<longleftrightarrow> length is8 = n \<and> (b \<or> None \<notin> set is8)"
  by (auto simp: column_fits_def field_new_def array_defs)

lemma described_simps:
  "described bf [] []"
  "described bf (field_new name t b # flds) (c # cs) \<longleftrightarrow> c = column_of bf name t b \<and> described bf flds cs"
  by (auto simp: described_def field_new_def)

lemma none_notin_map [simp]: "None \<notin> set (map (\<lambda>x. Some (f x)) xs)"
  by auto

lemma string_result_fits:
  assumes "try_new_accepts bf"
  shows "string_result bf column_name values =
    Inr (result_of bf [field_new column_name DtUtf8 False] [string_array (map Some values)] (length values))"
  unfolding string_result_def
  by (rule batch_result_fits [OF assms]) (auto simp: column_fits_arrays described_simps column_defs)

lemma table_rows_result_fits:
  assumes "try_new_accepts bf"
  shows "table_rows_result bf c0 c1 c2 rows =
    Inr (result_of bf [field_new c0 DtUtf8 False, field_new c1 DtUtf8 False, field_new c2 DtBoolean False]
       [string_array (map (\<lambda>(a, _, _). Some a) rows), string_array (map (\<lambda>(_, b, _). Some b) rows),
        boolean_array (map (\<lambda>(_, _, c). c) rows)] (length rows))"
  unfolding table_rows_result_def
  by (rule batch_result_fits [OF assms]) (auto simp: column_fits_arrays described_simps column_defs)

lemma table_extended_result_fits:
  assumes "try_new_accepts bf"
  shows "table_extended_result bf rows =
    Inr (result_of bf
       [field_new ''database'' DtUtf8 False, field_new ''tableName'' DtUtf8 False,
        field_new ''isTemporary'' DtBoolean False, field_new ''information'' DtUtf8 False]
       [string_array (map (\<lambda>row. Some (te_schema row)) rows),
        string_array (map (\<lambda>row. Some (te_name row)) rows),
        boolean_array (replicate (length rows) False),
        string_array (map (\<lambda>row. Some (te_information row)) rows)] (length rows))"
  unfolding table_extended_result_def
  by (rule batch_result_fits [OF assms]) (simp_all add: column_fits_arrays described_simps column_defs del: set_map)

lemma column_metadata_fits:
  "list_all2 (column_fits (length rows)) column_metadata_fields (column_metadata_arrays rows)"
  unfolding column_metadata_fields_def column_metadata_arrays_def Let_def values_defs
  by (simp only: list_all2_Cons list_all2_Nil column_fits_arrays length_map length_replicate
        none_notin_map set_replicate_conv_if) simp

lemma column_metadata_result_fits:
  assumes "try_new_accepts bf"
  shows "column_metadata_result bf rows =
    Inr (result_of bf column_metadata_fields (column_metadata_arrays rows) (length rows))"
  unfolding column_metadata_result_def
proof (rule batch_result_fits [OF assms _ column_metadata_fits])
  show "described bf column_metadata_fields (column_metadata_columns bf)"
    unfolding column_metadata_fields_def column_metadata_columns_def column_defs by (simp only: described_simps)
  show "column_metadata_fields \<noteq> []"
    unfolding column_metadata_fields_def by simp
qed

section \<open>Every result can be sent\<close>

text \<open>The types and cells of metadata results, for which every step of the wire encoding succeeds.\<close>

fun plain_cell :: "data_type \<Rightarrow> arrow_value option \<Rightarrow> bool" where
  "plain_cell DtUtf8 c \<longleftrightarrow> (case c of None \<Rightarrow> True | Some (AvUtf8 _) \<Rightarrow> True | _ \<Rightarrow> False)"
| "plain_cell DtBoolean c \<longleftrightarrow> (case c of None \<Rightarrow> True | Some (AvBoolean _) \<Rightarrow> True | _ \<Rightarrow> False)"
| "plain_cell DtInt32 c \<longleftrightarrow> (case c of None \<Rightarrow> True | Some (AvInt32 _) \<Rightarrow> True | _ \<Rightarrow> False)"
| "plain_cell DtInt16 c \<longleftrightarrow> (case c of None \<Rightarrow> True | Some (AvInt16 _) \<Rightarrow> True | _ \<Rightarrow> False)"
| "plain_cell DtInt8 c \<longleftrightarrow> (case c of None \<Rightarrow> True | Some (AvInt8 _) \<Rightarrow> True | _ \<Rightarrow> False)"
| "plain_cell _ c \<longleftrightarrow> False"

definition plain_type :: "data_type \<Rightarrow> bool" where
  "plain_type t \<longleftrightarrow> plain_cell t None"

definition plain_array :: "arrow_array \<Rightarrow> bool" where
  "plain_array a \<longleftrightarrow> plain_type (arr_type a) \<and> list_all (plain_cell (arr_type a)) (arr_cells a)"

lemma plain_type_cases: "plain_type t \<longleftrightarrow> t \<in> {DtUtf8, DtBoolean, DtInt32, DtInt16, DtInt8}"
  by (cases t) (simp_all add: plain_type_def)

lemma plain_encoder:
  assumes "plain_type t"
  obtains st ph where "encoder_types t = Some (st, ph)" "\<And>row c. plain_cell t c \<Longrightarrow> \<exists>v. reader_of af ph t row c = Inr v"
proof -
  note reads = reader_of_def arrow_value_to_string_def is_utf8_type_def utf8_value_def
  have "\<exists>st ph. encoder_types t = Some (st, ph) \<and> (\<forall>row c. plain_cell t c \<longrightarrow> (\<exists>v. reader_of af ph t row c = Inr v))"
    using assms by (cases t) (auto simp: plain_type_def reads split: option.splits arrow_value.splits)
  then show ?thesis using that by blast
qed

lemma collect_res_all: "\<forall>m \<in> set ms. \<exists>x. m = Inr x \<Longrightarrow> \<exists>xs. collect_res ms = Inr xs"
  by (induction ms) auto

text \<open>A batch of plain columns that agree with the schema, and its slices.\<close>

definition plain_batch :: "data_type list \<Rightarrow> record_batch \<Rightarrow> bool" where
  "plain_batch ts b \<longleftrightarrow>
     list_all2 (\<lambda>t a. arr_type a = t \<and> plain_array a \<and> rb_num_rows b \<le> length (arr_cells a)) ts (rb_columns b)"

lemma plain_array_slice: "plain_array a \<Longrightarrow> plain_array (array_slice a off len)"
  by (auto simp: plain_array_def array_slice_def list_all_iff dest!: in_set_takeD in_set_dropD)

lemma plain_batch_slice:
  assumes "plain_batch ts b"
  shows "plain_batch ts (batch_slice b off len)"
proof -
  have "list_all2 (\<lambda>t a. arr_type (array_slice a off len) = t \<and> plain_array (array_slice a off len) \<and>
      min len (rb_num_rows b - off) \<le> length (arr_cells (array_slice a off len))) ts (rb_columns b)"
    using assms unfolding plain_batch_def
    by (rule list_all2_mono) (auto simp: plain_array_slice, auto simp: array_slice_def)
  then show ?thesis by (simp add: plain_batch_def batch_slice_def list_all2_map2)
qed

lemma page_loop_single: "b' \<in> set (page_loop [b] sk tk) \<Longrightarrow> \<exists>off len. b' = batch_slice b off len"
  by (auto simp: Let_def split: if_splits)

lemma column_values_plain:
  assumes "\<forall>b \<in> set bs. plain_batch ts b" "i < length ts" "encoder_types (ts ! i) = Some (st, ph)"
    "\<And>row c. plain_cell (ts ! i) c \<Longrightarrow> \<exists>v. reader_of af ph (ts ! i) row c = Inr v"
  shows "\<exists>vs. column_values (reader_of af ph) bs i = Inr vs"
  using assms(1)
proof (induction bs)
  case (Cons b bs)
  have b: "i < length (rb_columns b)" "arr_type (rb_columns b ! i) = ts ! i" "plain_array (rb_columns b ! i)"
      "rb_num_rows b \<le> length (arr_cells (rb_columns b ! i))"
    using Cons.prems assms(2) unfolding plain_batch_def by (auto dest: list_all2_lengthD list_all2_nthD)
  have "\<exists>vs. collect_res (map (\<lambda>row. reader_of af ph (ts ! i) row (arr_cells (rb_columns b ! i) ! row)) [0..<rb_num_rows b]) = Inr vs"
  proof (rule collect_res_all, clarsimp)
    fix row assume "row < rb_num_rows b"
    then show "\<exists>v. reader_of af ph (ts ! i) row (arr_cells (rb_columns b ! i) ! row) = Inr v"
      using b assms(4) by (simp add: plain_array_def list_all_length)
  qed
  then show ?case using Cons b by auto
qed simp

lemma write_column_plain:
  assumes "\<forall>b \<in> set (pg_batches page). plain_batch ts b" "i < length ts"
    "column_encoder af (ts ! i) = Inr e" "plain_type (ts ! i)"
  shows "\<exists>bs. write_column af e i page = Inr bs"
proof -
  obtain st ph where enc: "encoder_types (ts ! i) = Some (st, ph)"
    "\<And>row c. plain_cell (ts ! i) c \<Longrightarrow> \<exists>v. reader_of af ph (ts ! i) row c = Inr v"
    using plain_encoder [OF assms(4), of af] by metis
  have "enc_physical_type e = ph"
    using enc(1) assms(3) by (auto simp: column_encoder_def)
  then show ?thesis
    using column_values_plain [OF assms(1,2) enc]
    by (auto simp: write_column_def physical_column_eq write_column_values_def write_field_result_def Let_def)
qed

text \<open>The response to \<open>FetchResults\<close> for a plain result is never an error.\<close>

lemma plain_result_encodes:
  assumes "list_all2 (column_fits n) flds arrays" "list_all plain_array arrays"
  shows "\<exists>bs. write_fetch_results_response_struct af (result_of bf flds arrays n) include_metadata off m = Inr bs"
proof -
  let ?r = "result_of bf flds arrays n"
  let ?ts = "map fld_type flds"
  let ?page = "row_page ?r off m"
  have ts: "qr_data_types ?r = ?ts" "length (qr_columns ?r) = length ?ts"
    by (simp_all add: result_of_def Let_def)
  have fits: "\<forall>i < length flds. arr_type (arrays ! i) = fld_type (flds ! i) \<and> length (arr_cells (arrays ! i)) = n"
      "length arrays = length flds"
    using assms(1) by (auto simp: list_all2_conv_all_nth column_fits_def)
  have plain: "plain_type (?ts ! i)" if "i < length ?ts" for i
    using assms(2) fits that by (auto simp: list_all_length plain_array_def)
  have batch: "plain_batch ?ts \<lparr>rb_schema = flds, rb_columns = arrays, rb_num_rows = n\<rparr>"
    using assms(2) fits by (simp add: plain_batch_def list_all2_conv_all_nth list_all_length)
  have batches: "\<forall>b \<in> set (pg_batches ?page). plain_batch ?ts b"
  proof
    fix b assume "b \<in> set (pg_batches ?page)"
    then obtain sk tk where "b \<in> set (page_loop [\<lparr>rb_schema = flds, rb_columns = arrays, rb_num_rows = n\<rparr>] sk tk)"
      unfolding row_page_def result_page_def store_page_def result_of_def Let_def
      by (simp del: page_loop.simps)
    from page_loop_single [OF this] show "plain_batch ?ts b"
      using plain_batch_slice [OF batch] by blast
  qed
  have "\<exists>es. collect_res (map (column_encoder af) ?ts) = Inr es"
  proof (rule collect_res_all, rule ballI)
    fix m assume "m \<in> set (map (column_encoder af) ?ts)"
    then obtain t where t: "t \<in> set ?ts" "m = column_encoder af t" by auto
    then have "plain_type t" using plain by (metis in_set_conv_nth)
    then obtain st ph where "encoder_types t = Some (st, ph)" by (rule plain_encoder)
    then show "\<exists>e. m = Inr e" by (simp add: t(2) column_encoder_def)
  qed
  then obtain es where es: "collect_res (map (column_encoder af) ?ts) = Inr es" ..
  then have es_all: "length es = length ?ts" "\<And>i. i < length ?ts \<Longrightarrow> column_encoder af (?ts ! i) = Inr (es ! i)"
    using es [unfolded collect_res_Inr] by (simp_all add: list_all2_conv_all_nth)
  have "\<exists>cs. collect_res (map (\<lambda>(i, e). write_column af e i ?page) (enumerate 0 es)) = Inr cs"
  proof (rule collect_res_all, clarsimp simp: in_set_enumerate_eq)
    fix i assume "i < length es"
    then show "\<exists>bs. write_column af (es ! i) i ?page = Inr bs"
      using write_column_plain [OF batches] es_all plain by simp
  qed
  then obtain cs where "collect_res (map (\<lambda>(i, e). write_column af e i ?page) (enumerate 0 es)) = Inr cs" ..
  then obtain rows where "write_row_set_with_encoders af ?r ?page es = Inr rows"
    by (simp add: write_row_set_with_encoders_def write_field_result_def)
  moreover have "column_encoders af ?r = Inr es"
    using es ts by (simp add: column_encoders_def)
  ultimately show ?thesis
    by (simp add: write_fetch_results_response_struct_def Let_def)
qed

end
