(* ===== verification/Metadata.thy ===== *)
theory Metadata
  imports Show_Statements Unity_Catalog Metadata_Results "HOL-Library.Product_Lexorder"
begin

text \<open>
  The metadata statements (\<open>src/src/engine/metadata/mod.rs\<close> and \<open>pattern.rs\<close>):
  \<open>SHOW CATALOGS\<close>, \<open>SCHEMAS\<close>, \<open>TABLES\<close>, \<open>VIEWS\<close>, \<open>COLUMNS\<close> and
  \<open>TABLE EXTENDED\<close>, and the Thrift call \<open>GetColumns\<close>, answered from Unity Catalog.

  \<open>MetadataSource\<close> is the record \<open>metadata_source\<close> of the answers to the calls of one
  statement. The \<open>regex\<close> crate is the record \<open>regex_fns\<close>: building a case-insensitive
  regular expression gives the set of the strings it matches, or the text of an error. An
  \<open>i32\<close> addition wraps, as it does in the release profile.
\<close>

section \<open>Parameters\<close>

record regex_fns =
  rx_build :: "string \<Rightarrow> string + (string \<Rightarrow> bool)"
  rx_escape :: "string \<Rightarrow> string"

record metadata_source =
  ms_list_catalogs :: "string \<Rightarrow> catalog_info list res"
  ms_list_schemas :: "string \<Rightarrow> string \<Rightarrow> schema_info list res"
  ms_list_tables :: "string \<Rightarrow> string \<Rightarrow> string \<Rightarrow> table_info list res"
  ms_table :: "string \<Rightarrow> string \<Rightarrow> table_info res"

record metadata_env =
  me_regex :: regex_fns
  me_batch :: batch_fns
  me_source :: metadata_source

section \<open>Patterns\<close>

type_synonym pattern = "(string \<Rightarrow> bool) option"

definition pattern_matches :: "pattern \<Rightarrow> string \<Rightarrow> bool" where
  "pattern_matches p value = (case p of None \<Rightarrow> True | Some regex \<Rightarrow> regex value)"

definition databricks_show_regex :: "string \<Rightarrow> string" where
  "databricks_show_regex pattern =
     ''^(?:'' @ concat (map (\<lambda>ch. if ch = CHR ''*'' then ''.*'' else [ch]) pattern) @ '')$''"

definition show_pattern_new :: "regex_fns \<Rightarrow> string option \<Rightarrow> pattern res" where
  "show_pattern_new rx pattern =
     (case pattern of
        None \<Rightarrow> Inr None
      | Some p \<Rightarrow>
          (let p = trim p in
           if p = [] then Inl (UnsupportedSql ''SHOW pattern cannot be empty'')
           else (case rx_build rx (databricks_show_regex p) of
               Inl err \<Rightarrow> Inl (UnsupportedSql (''invalid SHOW pattern `'' @ p @ ''`: '' @ err))
             | Inr regex \<Rightarrow> Inr (Some regex))))"

fun contains_wildcard_loop :: "bool \<Rightarrow> string list \<Rightarrow> bool" where
  "contains_wildcard_loop escaped [] = False"
| "contains_wildcard_loop escaped (ch # chs) =
     (if escaped then contains_wildcard_loop False chs
      else if ch = [CHR 0x5C] then contains_wildcard_loop True chs
      else if ch \<in> {''%'', ''_'', ''*''} then True
      else contains_wildcard_loop False chs)"

definition contains_metadata_wildcard :: "string \<Rightarrow> bool" where
  "contains_metadata_wildcard value = contains_wildcard_loop False (utf8_chars value)"

fun strip_escapes_loop :: "string list \<Rightarrow> string" where
  "strip_escapes_loop [] = []"
| "strip_escapes_loop [ch] = ch"
| "strip_escapes_loop (ch # next # chs) =
     (if ch = [CHR 0x5C] then next @ strip_escapes_loop chs else ch @ strip_escapes_loop (next # chs))"

definition strip_metadata_escapes :: "string \<Rightarrow> string" where
  "strip_metadata_escapes value = strip_escapes_loop (utf8_chars value)"

fun pattern_regex_loop :: "regex_fns \<Rightarrow> bool \<Rightarrow> string list \<Rightarrow> string" where
  "pattern_regex_loop rx escaped [] = (if escaped then rx_escape rx [CHR 0x5C] else [])"
| "pattern_regex_loop rx escaped (ch # chs) =
     (if escaped then rx_escape rx ch @ pattern_regex_loop rx False chs
      else if ch = [CHR 0x5C] then pattern_regex_loop rx True chs
      else (if ch \<in> {''%'', ''*''} then ''.*'' else if ch = ''_'' then ''.'' else rx_escape rx ch) @
        pattern_regex_loop rx False chs)"

definition metadata_pattern_regex :: "regex_fns \<Rightarrow> string \<Rightarrow> string" where
  "metadata_pattern_regex rx pattern = ''^'' @ pattern_regex_loop rx False (utf8_chars pattern) @ ''$''"

definition metadata_pattern_new :: "regex_fns \<Rightarrow> string option \<Rightarrow> pattern res" where
  "metadata_pattern_new rx pattern =
     (case pattern of
        None \<Rightarrow> Inr None
      | Some p \<Rightarrow>
          if p = [] then Inr None
          else (case rx_build rx (metadata_pattern_regex rx p) of
               Inl err \<Rightarrow> Inl (UnsupportedSql (''invalid metadata pattern `'' @ p @ ''`: '' @ err))
             | Inr regex \<Rightarrow> Inr (Some regex)))"

section \<open>Names\<close>

record resolved_schema =
  rs_catalog :: string
  rs_schema :: string

record resolved_table =
  rt_catalog :: string
  rt_schema :: string
  rt_table :: string

definition rsplit_last :: "string \<Rightarrow> string" where
  "rsplit_last s = last (split_char CHR ''.'' s)"

definition schema_name :: "schema_info \<Rightarrow> string" where
  "schema_name schema =
     (if si_name schema \<noteq> [] then si_name schema
      else (case si_full_name schema of Some full_name \<Rightarrow> rsplit_last full_name | None \<Rightarrow> []))"

definition table_name :: "table_info \<Rightarrow> string" where
  "table_name table = (case ti_name table of Some name \<Rightarrow> name | None \<Rightarrow> rsplit_last (ti_full_name table))"

definition table_full_name :: "table_info \<Rightarrow> resolved_schema \<Rightarrow> string \<Rightarrow> string" where
  "table_full_name table schema name =
     (if ti_full_name table \<noteq> [] then ti_full_name table
      else rs_catalog schema @ ''.'' @ rs_schema schema @ ''.'' @ name)"

definition table_full_identifier :: "resolved_table \<Rightarrow> string" where
  "table_full_identifier table = rt_catalog table @ ''.'' @ rt_schema table @ ''.'' @ rt_table table"

definition resolve_catalog :: "object_name option \<Rightarrow> string \<Rightarrow> string res" where
  "resolve_catalog name default_catalog =
     (case name of
        None \<Rightarrow> Inr default_catalog
      | Some [catalog] \<Rightarrow> Inr catalog
      | Some _ \<Rightarrow> Inl (UnsupportedSql ''SHOW SCHEMAS expects a single catalog name''))"

definition resolve_schema :: "object_name option \<Rightarrow> string \<Rightarrow> string \<Rightarrow> resolved_schema res" where
  "resolve_schema name default_catalog default_schema =
     (case name of
        None \<Rightarrow> Inr \<lparr>rs_catalog = default_catalog, rs_schema = default_schema\<rparr>
      | Some [schema] \<Rightarrow> Inr \<lparr>rs_catalog = default_catalog, rs_schema = schema\<rparr>
      | Some [catalog, schema] \<Rightarrow> Inr \<lparr>rs_catalog = catalog, rs_schema = schema\<rparr>
      | Some _ \<Rightarrow> Inl (UnsupportedSql ''SHOW TABLES expects a schema or catalog.schema name''))"

definition table_name_parts :: "object_name \<Rightarrow> (string option \<times> string option \<times> string) res" where
  "table_name_parts name =
     (case name of
        [table] \<Rightarrow> Inr (None, None, table)
      | [schema, table] \<Rightarrow> Inr (None, Some schema, table)
      | [catalog, schema, table] \<Rightarrow> Inr (Some catalog, Some schema, table)
      | _ \<Rightarrow> Inl (UnsupportedSql ''SHOW COLUMNS expects a table, schema.table, or catalog.schema.table name''))"

definition schema_name_parts :: "object_name option \<Rightarrow> (string option \<times> string option) res" where
  "schema_name_parts name =
     (case name of
        None \<Rightarrow> Inr (None, None)
      | Some [schema] \<Rightarrow> Inr (None, Some schema)
      | Some [catalog, schema] \<Rightarrow> Inr (Some catalog, Some schema)
      | Some _ \<Rightarrow> Inl (UnsupportedSql ''SHOW COLUMNS expects an optional schema or catalog.schema name''))"

definition differ :: "string option \<Rightarrow> string option \<Rightarrow> bool" where
  "differ left right = (case (left, right) of (Some l, Some r) \<Rightarrow> l \<noteq> r | _ \<Rightarrow> False)"

definition or_else :: "string option \<Rightarrow> string option \<Rightarrow> string \<Rightarrow> string" where
  "or_else a b d = (case a of Some x \<Rightarrow> x | None \<Rightarrow> (case b of Some y \<Rightarrow> y | None \<Rightarrow> d))"

definition resolve_table :: "object_name \<Rightarrow> object_name option \<Rightarrow> string \<Rightarrow> string \<Rightarrow> resolved_table res" where
  "resolve_table name schema default_catalog default_schema =
     sbind (table_name_parts name) (\<lambda>(table_catalog, table_schema, table).
     sbind (schema_name_parts schema) (\<lambda>(schema_catalog, schema).
       if differ table_schema schema
       then Inl (UnsupportedSql ''SHOW COLUMNS table name and schema name must not refer to different schemas'')
       else if differ table_catalog schema_catalog
       then Inl (UnsupportedSql ''SHOW COLUMNS table name and schema name must not refer to different catalogs'')
       else Inr \<lparr>rt_catalog = or_else table_catalog schema_catalog default_catalog,
                 rt_schema = or_else table_schema schema default_schema,
                 rt_table = table\<rparr>))"

section \<open>Column types\<close>

definition column_type_name :: "column_info \<Rightarrow> string" where
  "column_type_name column =
     (case (case ci_type_text column of Some t \<Rightarrow> Some t | None \<Rightarrow> ci_type_name column) of
        Some value \<Rightarrow> if value \<noteq> [] then to_ascii_uppercase value else ''STRING''
      | None \<Rightarrow> ''STRING'')"

definition base_type_name :: "string \<Rightarrow> string" where
  "base_type_name type_name = trim (takeWhile (\<lambda>c. c \<noteq> CHR ''('' \<and> c \<noteq> CHR ''<'') type_name)"

definition jdbc_data_type :: "string \<Rightarrow> i32" where
  "jdbc_data_type type_name =
     (let b = base_type_name type_name in
      if b \<in> {''BOOLEAN'', ''BOOL''} then 16
      else if b \<in> {''BYTE'', ''TINYINT''} then - 6
      else if b \<in> {''SHORT'', ''SMALLINT''} then 5
      else if b \<in> {''INT'', ''INTEGER''} then 4
      else if b \<in> {''LONG'', ''BIGINT''} then - 5
      else if b = ''FLOAT'' then 6
      else if b = ''DOUBLE'' then 8
      else if b = ''DATE'' then 91
      else if b \<in> {''TIMESTAMP'', ''TIMESTAMP_NTZ''} then 93
      else if b = ''BINARY'' then - 2
      else if b \<in> {''DECIMAL'', ''NUMERIC''} then 3
      else if b = ''ARRAY'' then 2003
      else if b = ''STRUCT'' then 2002
      else if b = ''MAP'' then 2000
      else 12)"

text \<open>\<open>str::parse::<i32>\<close>: an optional sign and one or more digits, within the range of the type.\<close>

definition parse_i32 :: "string \<Rightarrow> i32 option" where
  "parse_i32 s =
     (case s of
        c # ds \<Rightarrow>
          if c = CHR ''-'' then
            (case ds of
               d # _ \<Rightarrow> if d = CHR ''+'' then None else map_option (\<lambda>n. - of_nat n) (parse_unsigned (2 ^ 31) ds)
             | [] \<Rightarrow> None)
          else map_option of_nat (parse_unsigned (2 ^ 31 - 1) s)
      | [] \<Rightarrow> None)"

definition parse_decimal_parts :: "string \<Rightarrow> i32 list option" where
  "parse_decimal_parts type_name =
     (if CHR ''('' \<notin> set type_name then None
      else let rest = tl (dropWhile (\<lambda>c. c \<noteq> CHR ''('') type_name) in
        if CHR '')'' \<notin> set rest then None
        else those (map (\<lambda>part. parse_i32 (trim part)) (split_char CHR '','' (takeWhile (\<lambda>c. c \<noteq> CHR '')'') rest))))"

definition parse_precision :: "string \<Rightarrow> i32 option" where
  "parse_precision type_name =
     (case parse_decimal_parts type_name of Some (p # _) \<Rightarrow> Some p | _ \<Rightarrow> None)"

definition parse_scale :: "string \<Rightarrow> i32 option" where
  "parse_scale type_name =
     (case parse_decimal_parts type_name of Some (_ # s # _) \<Rightarrow> Some s | _ \<Rightarrow> None)"

definition column_size :: "string \<Rightarrow> column_info \<Rightarrow> i32 option" where
  "column_size type_name column =
     (let b = base_type_name type_name in
      if b \<in> {''DECIMAL'', ''NUMERIC''} then
        (case ci_type_precision column of Some p \<Rightarrow> Some p | None \<Rightarrow> parse_precision type_name)
      else if b \<in> {''BYTE'', ''TINYINT''} then Some 3
      else if b \<in> {''SHORT'', ''SMALLINT''} then Some 5
      else if b \<in> {''INT'', ''INTEGER'', ''DATE''} then Some 10
      else if b \<in> {''LONG'', ''BIGINT''} then Some 19
      else if b = ''FLOAT'' then Some 7
      else if b = ''DOUBLE'' then Some 15
      else if b \<in> {''TIMESTAMP'', ''TIMESTAMP_NTZ''} then Some 29
      else if b \<in> {''BOOLEAN'', ''BOOL'', ''BINARY''} then Some 1
      else if b \<in> {''STRING'', ''VARCHAR'', ''CHAR''} then Some 255
      else if b \<in> {''ARRAY'', ''MAP'', ''STRUCT''} then Some 255
      else None)"

definition decimal_digits :: "string \<Rightarrow> column_info \<Rightarrow> i32 option" where
  "decimal_digits type_name column =
     (let b = base_type_name type_name in
      if b \<in> {''DECIMAL'', ''NUMERIC''} then
        (case ci_type_scale column of
           Some s \<Rightarrow> Some s
         | None \<Rightarrow> (case parse_scale type_name of Some s \<Rightarrow> Some s | None \<Rightarrow> Some 0))
      else if b \<in> {''TIMESTAMP'', ''TIMESTAMP_NTZ''} then Some 9
      else Some 0)"

definition num_prec_radix :: "string \<Rightarrow> i32 option" where
  "num_prec_radix type_name =
     (if base_type_name type_name \<in> {''BYTE'', ''TINYINT'', ''SHORT'', ''SMALLINT'', ''INT'', ''INTEGER'', ''LONG'',
           ''BIGINT'', ''FLOAT'', ''DOUBLE'', ''DECIMAL'', ''NUMERIC''}
      then Some 10 else Some 0)"

definition sql_datetime_sub :: "string \<Rightarrow> i32 option" where
  "sql_datetime_sub type_name =
     (let b = base_type_name type_name in
      if b = ''DATE'' then Some 91
      else if b \<in> {''TIMESTAMP'', ''TIMESTAMP_NTZ''} then Some 93
      else None)"

definition char_octet_length :: "string \<Rightarrow> i32 option" where
  "char_octet_length type_name =
     (let b = base_type_name type_name in
      if b \<in> {''STRING'', ''VARCHAR'', ''CHAR''} then Some 255
      else if b = ''BINARY'' then Some 32767
      else None)"

section \<open>Rows\<close>

definition is_view_like :: "table_info \<Rightarrow> bool" where
  "is_view_like table =
     (case ti_table_type table of Some t \<Rightarrow> to_ascii_uppercase t = ''VIEW'' | None \<Rightarrow> False)"

definition is_table_like :: "table_info \<Rightarrow> bool" where
  "is_table_like table \<longleftrightarrow> \<not> is_view_like table"

definition sort_table_rows :: "table_row list \<Rightarrow> table_row list" where
  "sort_table_rows rows = sort_key (\<lambda>row. to_ascii_lowercase (tr_name row)) rows"

text \<open>The columns of a table by position, columns without one last, and by index; the index is kept.\<close>

definition sorted_columns :: "table_info \<Rightarrow> (nat \<times> column_info) list" where
  "sorted_columns table =
     sort_key (\<lambda>(index, column). (case ci_position column of Some p \<Rightarrow> sint p | None \<Rightarrow> 2 ^ 31 - 1, index))
       (enumerate 0 (ti_columns table))"

definition table_column_names :: "table_info \<Rightarrow> string list" where
  "table_column_names table = map (\<lambda>(_, column). ci_name column) (sorted_columns table)"

definition column_metadata_row_of :: "table_info \<Rightarrow> string \<Rightarrow> string \<Rightarrow> string \<Rightarrow> nat \<Rightarrow> column_info \<Rightarrow> column_metadata_row" where
  "column_metadata_row_of table catalog schema name index column =
     (let ordinal = (case ci_position column of Some p \<Rightarrow> p | None \<Rightarrow> of_nat index) + 1;
          type_name = column_type_name column;
          data_type = jdbc_data_type type_name;
          (nullable, is_nullable) = (case ci_nullable column of
              Some b \<Rightarrow> (if b then (1, ''YES'') else (0, ''NO''))
            | None \<Rightarrow> (2, []))
      in \<lparr>cm_catalog = (case ti_catalog_name table of Some c \<Rightarrow> c | None \<Rightarrow> catalog),
          cm_schema = (case ti_schema_name table of Some s \<Rightarrow> s | None \<Rightarrow> schema),
          cm_table = (case ti_name table of Some t \<Rightarrow> t | None \<Rightarrow> name),
          cm_column = ci_name column,
          cm_data_type = data_type,
          cm_type_name = type_name,
          cm_column_size = column_size type_name column,
          cm_decimal_digits = decimal_digits type_name column,
          cm_num_prec_radix = num_prec_radix type_name,
          cm_nullable = nullable,
          cm_remarks = (case ci_comment column of Some c \<Rightarrow> if c \<noteq> [] then Some c else None | None \<Rightarrow> None),
          cm_sql_data_type = data_type,
          cm_sql_datetime_sub = sql_datetime_sub type_name,
          cm_char_octet_length = char_octet_length type_name,
          cm_ordinal_position = ordinal,
          cm_is_nullable = is_nullable\<rparr>)"

definition column_metadata_rows :: "table_info \<Rightarrow> string \<Rightarrow> string \<Rightarrow> string \<Rightarrow> pattern \<Rightarrow> column_metadata_row list" where
  "column_metadata_rows table catalog schema name pattern =
     map (\<lambda>(index, column). column_metadata_row_of table catalog schema name index column)
       (filter (\<lambda>(_, column). pattern_matches pattern (ci_name column)) (sorted_columns table))"

definition info_line :: "string \<Rightarrow> string option \<Rightarrow> string list" where
  "info_line label value = (case value of Some v \<Rightarrow> if v \<noteq> [] then [label @ v] else [] | None \<Rightarrow> [])"

definition table_information :: "table_info \<Rightarrow> string" where
  "table_information table =
     join [CHR 0x0A]
       (info_line ''Catalog: '' (ti_catalog_name table) @
        info_line ''Database: '' (ti_schema_name table) @
        [''Table: '' @ table_name table] @
        info_line ''Type: '' (ti_table_type table) @
        info_line ''Provider: '' (map_option to_ascii_lowercase (ti_data_source_format table)) @
        info_line ''Comment: '' (ti_comment table) @
        info_line ''Created By: '' (ti_created_by table))"

section \<open>\<open>SHOW\<close> statements\<close>

definition filtered_sorted_names :: "regex_fns \<Rightarrow> string list \<Rightarrow> string option \<Rightarrow> string list res" where
  "filtered_sorted_names rx names pattern =
     sbind (show_pattern_new rx pattern) (\<lambda>p.
       Inr (sort_key to_ascii_lowercase (filter (pattern_matches p) names)))"

text \<open>The rows of \<open>SHOW TABLES\<close> and \<open>SHOW VIEWS\<close>, which differ in the kind of table they keep.\<close>

definition listed_rows ::
  "metadata_env \<Rightarrow> string \<Rightarrow> (table_info \<Rightarrow> bool) \<Rightarrow> object_name option \<Rightarrow> string option \<Rightarrow> string \<Rightarrow> string \<Rightarrow>
   table_row list res" where
  "listed_rows me bearer_token kind schema pattern default_catalog default_schema =
     sbind (resolve_schema schema default_catalog default_schema) (\<lambda>schema.
     sbind (show_pattern_new (me_regex me) pattern) (\<lambda>p.
     sbind (ms_list_tables (me_source me) bearer_token (rs_catalog schema) (rs_schema schema)) (\<lambda>tables.
       Inr (sort_table_rows
         (map (\<lambda>name. \<lparr>tr_schema = rs_schema schema, tr_name = name\<rparr>)
           (filter (pattern_matches p) (map table_name (filter kind tables))))))))"

definition table_extended_rows ::
  "metadata_env \<Rightarrow> string \<Rightarrow> object_name option \<Rightarrow> string \<Rightarrow> string \<Rightarrow> string \<Rightarrow> table_extended_row list res" where
  "table_extended_rows me bearer_token schema pattern default_catalog default_schema =
     sbind (resolve_schema schema default_catalog default_schema) (\<lambda>schema.
     sbind (show_pattern_new (me_regex me) (Some pattern)) (\<lambda>p.
     sbind (ms_list_tables (me_source me) bearer_token (rs_catalog schema) (rs_schema schema)) (\<lambda>tables.
     sbind (collect_res (map (\<lambda>table.
         let name = table_name table in
         sbind (ms_table (me_source me) bearer_token (table_full_name table schema name)) (\<lambda>detailed.
           Inr \<lparr>te_schema = rs_schema schema, te_name = name, te_information = table_information detailed\<rparr>))
       (filter (\<lambda>table. pattern_matches p (table_name table)) (filter is_table_like tables)))) (\<lambda>rows.
       Inr (sort_key (\<lambda>row. to_ascii_lowercase (te_name row)) rows)))))"

definition execute_metadata_statement ::
  "metadata_env \<Rightarrow> string \<Rightarrow> metadata_statement \<Rightarrow> string \<Rightarrow> string \<Rightarrow> query_result res" where
  "execute_metadata_statement me bearer_token statement default_catalog default_schema =
     (case statement of
        Catalogs pattern \<Rightarrow>
          sbind (ms_list_catalogs (me_source me) bearer_token) (\<lambda>catalogs.
          sbind (filtered_sorted_names (me_regex me) (map cat_name catalogs) pattern) (catalogs_result (me_batch me)))
      | Schemas catalog pattern \<Rightarrow>
          sbind (resolve_catalog catalog default_catalog) (\<lambda>catalog.
          sbind (ms_list_schemas (me_source me) bearer_token catalog) (\<lambda>schemas.
          sbind (filtered_sorted_names (me_regex me) (map schema_name schemas) pattern) (schemas_result (me_batch me))))
      | Tables schema pattern \<Rightarrow>
          sbind (listed_rows me bearer_token is_table_like schema pattern default_catalog default_schema)
            (tables_result (me_batch me))
      | Views schema pattern \<Rightarrow>
          sbind (listed_rows me bearer_token is_view_like schema pattern default_catalog default_schema)
            (views_result (me_batch me))
      | Columns table schema \<Rightarrow>
          sbind (resolve_table table schema default_catalog default_schema) (\<lambda>table.
          sbind (ms_table (me_source me) bearer_token (table_full_identifier table)) (\<lambda>detailed.
            columns_result (me_batch me) (table_column_names detailed)))
      | TableExtended schema pattern clause \<Rightarrow>
          if clause \<noteq> None
          then Inl (UnsupportedSql ''SHOW TABLE EXTENDED PARTITION is not supported'')
          else sbind (table_extended_rows me bearer_token schema pattern default_catalog default_schema)
            (table_extended_result (me_batch me)))"

definition execute_show_statement ::
  "(string \<Rightarrow> string + token list) \<Rightarrow> (token \<Rightarrow> string) \<Rightarrow> metadata_env \<Rightarrow> string \<Rightarrow> string \<Rightarrow> string \<Rightarrow> string \<Rightarrow>
   query_result option res" where
  "execute_show_statement tokenize show_token me bearer_token sql default_catalog default_schema =
     sbind (parse_show_statement tokenize show_token sql) (\<lambda>statement.
       case statement of
         None \<Rightarrow> Inr None
       | Some st \<Rightarrow>
           sbind (execute_metadata_statement me bearer_token st default_catalog default_schema) (\<lambda>result.
             Inr (Some result)))"

section \<open>\<open>GetColumns\<close>\<close>

record get_columns_request =
  gr_catalog :: "string option"
  gr_schema :: "string option"
  gr_table :: "string option"
  gr_column :: "string option"

definition contains_namespace :: "string \<Rightarrow> bool" where
  "contains_namespace value \<longleftrightarrow> CHR ''.'' \<in> set value"

definition normalize_schema :: "get_columns_request \<Rightarrow> get_columns_request" where
  "normalize_schema request =
     (case (gr_catalog request, gr_schema request) of
        (None, Some schema) \<Rightarrow>
          if \<not> contains_namespace schema then request
          else (case split_char CHR ''.'' schema of
              [catalog, name] \<Rightarrow> request\<lparr>gr_catalog := Some catalog, gr_schema := Some name\<rparr>
            | _ \<Rightarrow> request)
      | _ \<Rightarrow> request)"

definition normalize_table :: "get_columns_request \<Rightarrow> get_columns_request" where
  "normalize_table request =
     (case gr_table request of
        Some table \<Rightarrow>
          if \<not> contains_namespace table then request
          else (case split_char CHR ''.'' table of
              [catalog, schema, name] \<Rightarrow>
                if gr_catalog request = None \<and> gr_schema request = None
                then request\<lparr>gr_catalog := Some catalog, gr_schema := Some schema, gr_table := Some name\<rparr>
                else request
            | [schema, name] \<Rightarrow>
                if gr_schema request = None then request\<lparr>gr_schema := Some schema, gr_table := Some name\<rparr> else request
            | _ \<Rightarrow> request)
      | None \<Rightarrow> request)"

definition normalize_get_columns_request :: "get_columns_request \<Rightarrow> get_columns_request" where
  "normalize_get_columns_request request = normalize_table (normalize_schema request)"

definition resolve_catalog_candidates :: "metadata_env \<Rightarrow> string \<Rightarrow> string option \<Rightarrow> string \<Rightarrow> string list res" where
  "resolve_catalog_candidates me bearer_token catalog default_catalog =
     (case catalog of
        Some (c # cs) \<Rightarrow>
          if \<not> contains_metadata_wildcard (c # cs) then Inr [strip_metadata_escapes (c # cs)]
          else sbind (metadata_pattern_new (me_regex me) (Some (c # cs))) (\<lambda>pattern.
            sbind (ms_list_catalogs (me_source me) bearer_token) (\<lambda>catalogs.
            Inr (sort_key to_ascii_lowercase (filter (pattern_matches pattern) (map cat_name catalogs)))))
      | _ \<Rightarrow> Inr [default_catalog])"

definition list_schema_candidates :: "metadata_env \<Rightarrow> string \<Rightarrow> string \<Rightarrow> string option \<Rightarrow> string list res" where
  "list_schema_candidates me bearer_token catalog pattern =
     sbind (metadata_pattern_new (me_regex me) pattern) (\<lambda>pattern.
     sbind (ms_list_schemas (me_source me) bearer_token catalog) (\<lambda>schemas.
       Inr (sort_key to_ascii_lowercase (filter (pattern_matches pattern) (map schema_name schemas)))))"

definition resolve_schema_candidates :: "metadata_env \<Rightarrow> string \<Rightarrow> string \<Rightarrow> string option \<Rightarrow> string list res" where
  "resolve_schema_candidates me bearer_token catalog schema =
     (case schema of
        None \<Rightarrow> list_schema_candidates me bearer_token catalog None
      | Some s \<Rightarrow>
          if s = [] then Inr []
          else if \<not> contains_metadata_wildcard s then Inr [strip_metadata_escapes s]
          else list_schema_candidates me bearer_token catalog (Some s))"

definition list_matching_tables ::
  "metadata_env \<Rightarrow> string \<Rightarrow> string \<Rightarrow> string \<Rightarrow> string option \<Rightarrow> table_row list res" where
  "list_matching_tables me bearer_token catalog schema pattern =
     sbind (metadata_pattern_new (me_regex me) pattern) (\<lambda>pattern.
     sbind (ms_list_tables (me_source me) bearer_token catalog schema) (\<lambda>tables.
       Inr (sort_table_rows (map (\<lambda>name. \<lparr>tr_schema = schema, tr_name = name\<rparr>)
         (filter (pattern_matches pattern) (map table_name tables))))))"

definition resolve_table_candidates ::
  "metadata_env \<Rightarrow> string \<Rightarrow> string \<Rightarrow> string \<Rightarrow> string option \<Rightarrow> table_row list res" where
  "resolve_table_candidates me bearer_token catalog schema table =
     (case table of
        Some (c # cs) \<Rightarrow>
          if contains_metadata_wildcard (c # cs)
          then list_matching_tables me bearer_token catalog schema (Some (c # cs))
          else Inr [\<lparr>tr_schema = schema, tr_name = strip_metadata_escapes (c # cs)\<rparr>]
      | _ \<Rightarrow> list_matching_tables me bearer_token catalog schema None)"

text \<open>The loops of \<open>execute_get_columns\<close>: the rows of one table, one schema and one catalog.\<close>

definition table_columns ::
  "metadata_env \<Rightarrow> string \<Rightarrow> string \<Rightarrow> string \<Rightarrow> pattern \<Rightarrow> table_row \<Rightarrow> column_metadata_row list res" where
  "table_columns me bearer_token catalog schema pattern table =
     sbind (ms_table (me_source me) bearer_token
        (table_full_identifier \<lparr>rt_catalog = catalog, rt_schema = schema, rt_table = tr_name table\<rparr>)) (\<lambda>detailed.
       Inr (column_metadata_rows detailed catalog schema (tr_name table) pattern))"

definition schema_columns ::
  "metadata_env \<Rightarrow> string \<Rightarrow> get_columns_request \<Rightarrow> pattern \<Rightarrow> string \<Rightarrow> string \<Rightarrow> column_metadata_row list res" where
  "schema_columns me bearer_token request pattern catalog schema =
     sbind (resolve_table_candidates me bearer_token catalog schema (gr_table request)) (\<lambda>tables.
     sbind (collect_res (map (table_columns me bearer_token catalog schema pattern) tables)) (\<lambda>rows.
       Inr (concat rows)))"

definition catalog_columns ::
  "metadata_env \<Rightarrow> string \<Rightarrow> get_columns_request \<Rightarrow> pattern \<Rightarrow> string \<Rightarrow> column_metadata_row list res" where
  "catalog_columns me bearer_token request pattern catalog =
     sbind (resolve_schema_candidates me bearer_token catalog (gr_schema request)) (\<lambda>schemas.
     sbind (collect_res (map (schema_columns me bearer_token request pattern catalog) schemas)) (\<lambda>rows.
       Inr (concat rows)))"

definition column_row_key :: "column_metadata_row \<Rightarrow> string \<times> string \<times> string \<times> int" where
  "column_row_key row =
     (to_ascii_lowercase (cm_catalog row), to_ascii_lowercase (cm_schema row),
      to_ascii_lowercase (cm_table row), sint (cm_ordinal_position row))"

definition execute_get_columns ::
  "metadata_env \<Rightarrow> string \<Rightarrow> get_columns_request \<Rightarrow> string \<Rightarrow> query_result res" where
  "execute_get_columns me bearer_token request default_catalog =
     (let request = normalize_get_columns_request request in
      sbind (resolve_catalog_candidates me bearer_token (gr_catalog request) default_catalog) (\<lambda>catalogs.
      sbind (metadata_pattern_new (me_regex me) (gr_column request)) (\<lambda>pattern.
      sbind (collect_res (map (catalog_columns me bearer_token request pattern) catalogs)) (\<lambda>rows.
        column_metadata_result (me_batch me) (sort_key column_row_key (concat rows))))))"

end
