(* ===== verification/Configuration.thy ===== *)
theory Configuration
  imports Harbor_Error
begin

text \<open>
  The configuration (\<open>src/src/config.rs\<close>): the environment variables, their defaults and
  their checks. The environment is a function from names to values (\<open>None\<close> for a variable
  that is not set or not Unicode); parsing a socket address or a floating-point number, and the
  number of processors, are parameters (\<open>host_fns\<close>). A floating-point number is its bits.
\<close>

section \<open>Defaults\<close>

definition from_secs :: "nat \<Rightarrow> duration" where
  "from_secs n = n * 1000000000"

definition DEFAULT_MAX_RESULT_ROWS :: nat where
  "DEFAULT_MAX_RESULT_ROWS = 100000"

definition DEFAULT_MAX_RESULT_BYTES :: nat where
  "DEFAULT_MAX_RESULT_BYTES = 64 * 1024 * 1024"

definition DEFAULT_UNITY_TIMEOUT_SECONDS :: nat where
  "DEFAULT_UNITY_TIMEOUT_SECONDS = 30"

definition DEFAULT_QUERY_TIMEOUT_SECONDS :: nat where
  "DEFAULT_QUERY_TIMEOUT_SECONDS = 300"

definition DEFAULT_IDLE_SESSION_TIMEOUT_SECONDS :: nat where
  "DEFAULT_IDLE_SESSION_TIMEOUT_SECONDS = 30 * 60"

definition DEFAULT_COMPLETED_OPERATION_TTL_SECONDS :: nat where
  "DEFAULT_COMPLETED_OPERATION_TTL_SECONDS = 10 * 60"

definition DEFAULT_CLEANUP_INTERVAL_SECONDS :: nat where
  "DEFAULT_CLEANUP_INTERVAL_SECONDS = 60"

definition DEFAULT_MAX_SESSIONS :: nat where
  "DEFAULT_MAX_SESSIONS = 256"

definition DEFAULT_MAX_OPERATIONS :: nat where
  "DEFAULT_MAX_OPERATIONS = 512"

definition DEFAULT_REQUEST_BODY_LIMIT_BYTES :: nat where
  "DEFAULT_REQUEST_BODY_LIMIT_BYTES = 1024 * 1024"

definition DEFAULT_PARQUET_PUSHDOWN_FILTERS :: bool where
  "DEFAULT_PARQUET_PUSHDOWN_FILTERS = True"

definition DEFAULT_MIN_TARGET_PARTITIONS :: nat where
  "DEFAULT_MIN_TARGET_PARTITIONS = 32"

definition DEFAULT_SKIP_PARTIAL_AGGREGATION_PROBE_ROWS_THRESHOLD :: nat where
  "DEFAULT_SKIP_PARTIAL_AGGREGATION_PROBE_ROWS_THRESHOLD = 10000"

text \<open>The bits of \<open>0.8\<close>.\<close>

definition DEFAULT_SKIP_PARTIAL_AGGREGATION_PROBE_RATIO_THRESHOLD :: "64 word" where
  "DEFAULT_SKIP_PARTIAL_AGGREGATION_PROBE_RATIO_THRESHOLD = 0x3FE999999999999A"

definition DEFAULT_TABLE_CACHE_TTL_SECONDS :: nat where
  "DEFAULT_TABLE_CACHE_TTL_SECONDS = 300"

definition DEFAULT_TABLE_CACHE_MAX_ENTRIES :: nat where
  "DEFAULT_TABLE_CACHE_MAX_ENTRIES = 1024"

definition TABLE_CACHE_CREDENTIAL_EXPIRY_SKEW_SECONDS :: nat where
  "TABLE_CACHE_CREDENTIAL_EXPIRY_SKEW_SECONDS = 60"

definition DEFAULT_UNSAFE_ALLOW_HTTP_DATABRICKS_HOST :: bool where
  "DEFAULT_UNSAFE_ALLOW_HTTP_DATABRICKS_HOST = False"

definition DEFAULT_UNSAFE_LOG_SQL :: bool where
  "DEFAULT_UNSAFE_LOG_SQL = False"

definition DEFAULT_DATABRICKS_COUNT_STAR_ALIAS_REWRITE :: bool where
  "DEFAULT_DATABRICKS_COUNT_STAR_ALIAS_REWRITE = True"

definition DEFAULT_DATABRICKS_EXPRESSION_ALIAS_REWRITE :: bool where
  "DEFAULT_DATABRICKS_EXPRESSION_ALIAS_REWRITE = True"

lemmas defaults =
  DEFAULT_MAX_RESULT_ROWS_def DEFAULT_MAX_RESULT_BYTES_def DEFAULT_UNITY_TIMEOUT_SECONDS_def
  DEFAULT_QUERY_TIMEOUT_SECONDS_def DEFAULT_IDLE_SESSION_TIMEOUT_SECONDS_def
  DEFAULT_COMPLETED_OPERATION_TTL_SECONDS_def DEFAULT_CLEANUP_INTERVAL_SECONDS_def DEFAULT_MAX_SESSIONS_def
  DEFAULT_MAX_OPERATIONS_def DEFAULT_REQUEST_BODY_LIMIT_BYTES_def DEFAULT_PARQUET_PUSHDOWN_FILTERS_def
  DEFAULT_MIN_TARGET_PARTITIONS_def DEFAULT_SKIP_PARTIAL_AGGREGATION_PROBE_ROWS_THRESHOLD_def
  DEFAULT_SKIP_PARTIAL_AGGREGATION_PROBE_RATIO_THRESHOLD_def DEFAULT_TABLE_CACHE_TTL_SECONDS_def
  DEFAULT_TABLE_CACHE_MAX_ENTRIES_def TABLE_CACHE_CREDENTIAL_EXPIRY_SKEW_SECONDS_def
  DEFAULT_UNSAFE_ALLOW_HTTP_DATABRICKS_HOST_def DEFAULT_UNSAFE_LOG_SQL_def
  DEFAULT_DATABRICKS_COUNT_STAR_ALIAS_REWRITE_def DEFAULT_DATABRICKS_EXPRESSION_ALIAS_REWRITE_def

section \<open>The configuration\<close>

record config =
  cf_bind_addr :: string
  cf_databricks_host :: string
  cf_default_catalog :: string
  cf_default_schema :: string
  cf_aws_region :: string
  cf_max_result_rows :: "nat option"
  cf_max_result_bytes :: "nat option"
  cf_unity_request_timeout :: duration
  cf_query_timeout :: duration
  cf_idle_session_timeout :: duration
  cf_completed_operation_ttl :: duration
  cf_cleanup_interval :: duration
  cf_max_sessions :: nat
  cf_max_operations :: nat
  cf_request_body_limit_bytes :: nat
  cf_parquet_pushdown_filters :: bool
  cf_parquet_reorder_filters :: bool
  cf_target_partitions :: nat
  cf_skip_partial_aggregation_probe_rows_threshold :: nat
  cf_skip_partial_aggregation_probe_ratio_threshold :: "64 word"
  cf_table_cache_ttl :: duration
  cf_table_cache_max_entries :: nat
  cf_table_cache_credential_expiry_skew :: duration
  cf_databricks_count_star_alias_rewrite :: bool
  cf_databricks_expression_alias_rewrite :: bool
  cf_unsafe_log_sql :: bool
  cf_enable_external_writes :: bool

type_synonym env = "string \<Rightarrow> string option"

record host_fns =
  hs_parse_addr :: "string \<Rightarrow> string + string"
  hs_parse_f64 :: "string \<Rightarrow> string + 64 word"
  hs_parallelism :: "nat option"

section \<open>Reading variables\<close>

text \<open>\<open>str::parse\<close> for \<open>usize\<close> and \<open>u64\<close>, with the text of its error.\<close>

definition parse_u64 :: "string \<Rightarrow> string + nat" where
  "parse_u64 s =
     (case parse_unsigned (2 ^ 64 - 1) s of
        Some n \<Rightarrow> Inr n
      | None \<Rightarrow>
          Inl (if s = [] then ''cannot parse integer from empty string''
               else (let ds = (case s of c # cs \<Rightarrow> if c = CHR ''+'' \<and> cs \<noteq> [] then cs else s | [] \<Rightarrow> s)
                     in if list_all is_ascii_digit ds then ''number too large to fit in target type''
                        else ''invalid digit found in string'')))"

definition invalid :: "string \<Rightarrow> string \<Rightarrow> harbor_error" where
  "invalid name err = Config (''invalid '' @ name @ '': '' @ err)"

definition default_target_partitions :: "host_fns \<Rightarrow> nat" where
  "default_target_partitions hs =
     (case hs_parallelism hs of
        Some n \<Rightarrow> max n DEFAULT_MIN_TARGET_PARTITIONS
      | None \<Rightarrow> DEFAULT_MIN_TARGET_PARTITIONS)"

definition parse_optional_usize_env :: "env \<Rightarrow> string \<Rightarrow> nat option \<Rightarrow> nat option res" where
  "parse_optional_usize_env env name dflt =
     (case env name of
        Some s \<Rightarrow> if trim s = [] then Inr None else map_sum (invalid name) Some (parse_u64 s)
      | None \<Rightarrow> Inr dflt)"

definition parse_usize_env :: "env \<Rightarrow> string \<Rightarrow> nat \<Rightarrow> nat res" where
  "parse_usize_env env name dflt =
     (case env name of
        Some s \<Rightarrow>
          (case parse_u64 s of
             Inl err \<Rightarrow> Inl (invalid name err)
           | Inr parsed \<Rightarrow>
               if parsed = 0 then Inl (Config (name @ '' must be greater than zero'')) else Inr parsed)
      | None \<Rightarrow> Inr dflt)"

definition parse_usize_env_allow_zero :: "env \<Rightarrow> string \<Rightarrow> nat \<Rightarrow> nat res" where
  "parse_usize_env_allow_zero env name dflt =
     (case env name of Some s \<Rightarrow> map_sum (invalid name) id (parse_u64 s) | None \<Rightarrow> Inr dflt)"

definition parse_duration_seconds_env :: "env \<Rightarrow> string \<Rightarrow> nat \<Rightarrow> duration res" where
  "parse_duration_seconds_env env name dflt =
     (case env name of
        Some s \<Rightarrow>
          (case parse_u64 s of
             Inl err \<Rightarrow> Inl (invalid name err)
           | Inr parsed \<Rightarrow>
               if parsed = 0 then Inl (Config (name @ '' must be greater than zero'')) else Inr (from_secs parsed))
      | None \<Rightarrow> Inr (from_secs dflt))"

definition parse_duration_seconds_env_allow_zero :: "env \<Rightarrow> string \<Rightarrow> nat \<Rightarrow> duration res" where
  "parse_duration_seconds_env_allow_zero env name dflt =
     (case env name of Some s \<Rightarrow> map_sum (invalid name) from_secs (parse_u64 s) | None \<Rightarrow> Inr (from_secs dflt))"

definition parse_bool_value :: "string \<Rightarrow> string \<Rightarrow> bool res" where
  "parse_bool_value name s =
     (let v = to_ascii_lowercase (trim s)
      in if v \<in> {''1'', ''true'', ''yes'', ''on''} then Inr True
         else if v \<in> {''0'', ''false'', ''no'', ''off''} then Inr False
         else Inl (Config (''invalid '' @ name @ '': expected true/false'')))"

definition parse_bool_env :: "env \<Rightarrow> string \<Rightarrow> bool \<Rightarrow> bool res" where
  "parse_bool_env env name dflt = (case env name of Some s \<Rightarrow> parse_bool_value name s | None \<Rightarrow> Inr dflt)"

text \<open>
  \<open>(0.0..=1.0).contains\<close> on the bits of a number: the numbers from \<open>0.0\<close> to \<open>1.0\<close> have
  the bits from 0 to \<open>0x3FF0000000000000\<close>, and \<open>-0.0\<close> is equal to \<open>0.0\<close>.
\<close>

definition in_unit_interval :: "64 word \<Rightarrow> bool" where
  "in_unit_interval x \<longleftrightarrow> x \<le> 0x3FF0000000000000 \<or> x = 0x8000000000000000"

definition parse_ratio_env :: "host_fns \<Rightarrow> env \<Rightarrow> string \<Rightarrow> 64 word \<Rightarrow> 64 word res" where
  "parse_ratio_env hs env name dflt =
     (case env name of
        Some s \<Rightarrow>
          (case hs_parse_f64 hs s of
             Inl err \<Rightarrow> Inl (invalid name err)
           | Inr parsed \<Rightarrow>
               if \<not> in_unit_interval parsed then Inl (Config (name @ '' must be between 0 and 1'')) else Inr parsed)
      | None \<Rightarrow> Inr dflt)"

definition normalize_host :: "string \<Rightarrow> bool \<Rightarrow> string res" where
  "normalize_host host unsafe_allow_http =
     (let trimmed = trim_end_matches CHR ''/'' (trim host) in
      if trimmed = [] then Inl (Config ''Databricks host cannot be empty'')
      else if starts_with trimmed ''https://'' then Inr trimmed
      else if starts_with trimmed ''http://'' then
        (if unsafe_allow_http then Inr trimmed
         else Inl (Config ''Databricks host must use https://; set HARBORSQL_UNSAFE_ALLOW_HTTP_DATABRICKS_HOST=true only for local development against a non-Databricks test endpoint''))
      else if contains_str trimmed ''://'' then Inl (Config ''Databricks host must use https://'')
      else Inr (''https://'' @ trimmed))"

definition var_or :: "env \<Rightarrow> string \<Rightarrow> string \<Rightarrow> string option" where
  "var_or env a b = (case env a of Some s \<Rightarrow> Some s | None \<Rightarrow> env b)"

definition unwrap_or :: "'a option \<Rightarrow> 'a \<Rightarrow> 'a" where
  "unwrap_or x d = (case x of Some y \<Rightarrow> y | None \<Rightarrow> d)"

definition from_env :: "host_fns \<Rightarrow> env \<Rightarrow> config res" where
  "from_env hs env =
     sbind (map_sum (\<lambda>err. Config (''invalid HARBORSQL_BIND_ADDR: '' @ err)) id
       (hs_parse_addr hs (unwrap_or (env ''HARBORSQL_BIND_ADDR'') ''127.0.0.1:1992''))) (\<lambda>addr.
     sbind (case var_or env ''HARBORSQL_DATABRICKS_HOST'' ''DATABRICKS_HOST'' of
         Some h \<Rightarrow> Inr h
       | None \<Rightarrow> Inl (Config ''HARBORSQL_DATABRICKS_HOST or DATABRICKS_HOST is required'')) (\<lambda>host.
     sbind (parse_bool_env env ''HARBORSQL_PARQUET_PUSHDOWN_FILTERS'' DEFAULT_PARQUET_PUSHDOWN_FILTERS) (\<lambda>pushdown.
     sbind (parse_bool_env env ''HARBORSQL_PARQUET_REORDER_FILTERS'' pushdown) (\<lambda>reorder.
     sbind (parse_bool_env env ''HARBORSQL_UNSAFE_ALLOW_HTTP_DATABRICKS_HOST'' DEFAULT_UNSAFE_ALLOW_HTTP_DATABRICKS_HOST) (\<lambda>allow_http.
     sbind (parse_bool_env env ''HARBORSQL_UNSAFE_LOG_SQL'' DEFAULT_UNSAFE_LOG_SQL) (\<lambda>log_sql.
     sbind (parse_bool_env env ''HARBORSQL_ENABLE_EXTERNAL_WRITES'' False) (\<lambda>writes.
     sbind (normalize_host host allow_http) (\<lambda>databricks_host.
     sbind (parse_optional_usize_env env ''HARBORSQL_MAX_RESULT_ROWS'' (Some DEFAULT_MAX_RESULT_ROWS)) (\<lambda>rows.
     sbind (parse_optional_usize_env env ''HARBORSQL_MAX_RESULT_BYTES'' (Some DEFAULT_MAX_RESULT_BYTES)) (\<lambda>max_bytes.
     sbind (parse_duration_seconds_env env ''HARBORSQL_UNITY_TIMEOUT_SECONDS'' DEFAULT_UNITY_TIMEOUT_SECONDS) (\<lambda>unity_timeout.
     sbind (parse_duration_seconds_env env ''HARBORSQL_QUERY_TIMEOUT_SECONDS'' DEFAULT_QUERY_TIMEOUT_SECONDS) (\<lambda>q_timeout.
     sbind (parse_duration_seconds_env env ''HARBORSQL_IDLE_SESSION_TIMEOUT_SECONDS'' DEFAULT_IDLE_SESSION_TIMEOUT_SECONDS) (\<lambda>idle.
     sbind (parse_duration_seconds_env env ''HARBORSQL_COMPLETED_OPERATION_TTL_SECONDS'' DEFAULT_COMPLETED_OPERATION_TTL_SECONDS) (\<lambda>ttl.
     sbind (parse_duration_seconds_env env ''HARBORSQL_CLEANUP_INTERVAL_SECONDS'' DEFAULT_CLEANUP_INTERVAL_SECONDS) (\<lambda>cleanup.
     sbind (parse_usize_env env ''HARBORSQL_MAX_SESSIONS'' DEFAULT_MAX_SESSIONS) (\<lambda>sessions.
     sbind (parse_usize_env env ''HARBORSQL_MAX_OPERATIONS'' DEFAULT_MAX_OPERATIONS) (\<lambda>operations.
     sbind (parse_usize_env env ''HARBORSQL_REQUEST_BODY_LIMIT_BYTES'' DEFAULT_REQUEST_BODY_LIMIT_BYTES) (\<lambda>body_limit.
     sbind (parse_usize_env env ''HARBORSQL_TARGET_PARTITIONS'' (default_target_partitions hs)) (\<lambda>partitions.
     sbind (parse_usize_env env ''HARBORSQL_SKIP_PARTIAL_AGGREGATION_PROBE_ROWS_THRESHOLD''
       DEFAULT_SKIP_PARTIAL_AGGREGATION_PROBE_ROWS_THRESHOLD) (\<lambda>probe_rows.
     sbind (parse_ratio_env hs env ''HARBORSQL_SKIP_PARTIAL_AGGREGATION_PROBE_RATIO_THRESHOLD''
       DEFAULT_SKIP_PARTIAL_AGGREGATION_PROBE_RATIO_THRESHOLD) (\<lambda>probe_ratio.
     sbind (parse_duration_seconds_env_allow_zero env ''HARBORSQL_TABLE_CACHE_TTL_SECONDS'' DEFAULT_TABLE_CACHE_TTL_SECONDS) (\<lambda>cache_ttl.
     sbind (parse_usize_env_allow_zero env ''HARBORSQL_TABLE_CACHE_MAX_ENTRIES'' DEFAULT_TABLE_CACHE_MAX_ENTRIES) (\<lambda>cache_entries.
     sbind (parse_bool_env env ''HARBORSQL_DATABRICKS_COUNT_STAR_ALIAS_REWRITE'' DEFAULT_DATABRICKS_COUNT_STAR_ALIAS_REWRITE) (\<lambda>count_alias.
     sbind (parse_bool_env env ''HARBORSQL_DATABRICKS_EXPRESSION_ALIAS_REWRITE'' DEFAULT_DATABRICKS_EXPRESSION_ALIAS_REWRITE) (\<lambda>expression_alias.
       Inr \<lparr>cf_bind_addr = addr, cf_databricks_host = databricks_host,
         cf_default_catalog = unwrap_or (var_or env ''HARBORSQL_DEFAULT_CATALOG'' ''DATABRICKS_CATALOG'') ''workspace'',
         cf_default_schema = unwrap_or (var_or env ''HARBORSQL_DEFAULT_SCHEMA'' ''DATABRICKS_SCHEMA'') ''default'',
         cf_aws_region = unwrap_or (env ''HARBORSQL_AWS_REGION'') ''us-west-2'',
         cf_max_result_rows = rows, cf_max_result_bytes = max_bytes, cf_unity_request_timeout = unity_timeout, cf_query_timeout = q_timeout,
         cf_idle_session_timeout = idle, cf_completed_operation_ttl = ttl, cf_cleanup_interval = cleanup,
         cf_max_sessions = sessions, cf_max_operations = operations, cf_request_body_limit_bytes = body_limit,
         cf_parquet_pushdown_filters = pushdown, cf_parquet_reorder_filters = reorder, cf_target_partitions = partitions,
         cf_skip_partial_aggregation_probe_rows_threshold = probe_rows,
         cf_skip_partial_aggregation_probe_ratio_threshold = probe_ratio,
         cf_table_cache_ttl = cache_ttl, cf_table_cache_max_entries = cache_entries,
         cf_table_cache_credential_expiry_skew = from_secs TABLE_CACHE_CREDENTIAL_EXPIRY_SKEW_SECONDS,
         cf_databricks_count_star_alias_rewrite = count_alias, cf_databricks_expression_alias_rewrite = expression_alias,
         cf_unsafe_log_sql = log_sql, cf_enable_external_writes = writes\<rparr>)))))))))))))))))))))))))"

section \<open>A configuration that is accepted\<close>

text \<open>\<open>enabled env name\<close>: the variable is set to a value that means true.\<close>

definition enabled :: "env \<Rightarrow> string \<Rightarrow> bool" where
  "enabled env name \<longleftrightarrow> (\<exists>s. env name = Some s \<and> to_ascii_lowercase (trim s) \<in> {''1'', ''true'', ''yes'', ''on''})"

definition config_ok :: "env \<Rightarrow> config \<Rightarrow> bool" where
  "config_ok env c \<longleftrightarrow>
     (starts_with (cf_databricks_host c) ''https://'' \<or>
      starts_with (cf_databricks_host c) ''http://'' \<and> enabled env ''HARBORSQL_UNSAFE_ALLOW_HTTP_DATABRICKS_HOST'') \<and>
     (cf_enable_external_writes c \<longleftrightarrow> enabled env ''HARBORSQL_ENABLE_EXTERNAL_WRITES'') \<and>
     (cf_unsafe_log_sql c \<longleftrightarrow> enabled env ''HARBORSQL_UNSAFE_LOG_SQL'') \<and>
     0 < cf_max_sessions c \<and> 0 < cf_max_operations c \<and> 0 < cf_request_body_limit_bytes c \<and> 0 < cf_target_partitions c \<and>
     0 < cf_unity_request_timeout c \<and> 0 < cf_query_timeout c \<and> 0 < cf_idle_session_timeout c \<and>
     0 < cf_completed_operation_ttl c \<and> 0 < cf_cleanup_interval c \<and>
     in_unit_interval (cf_skip_partial_aggregation_probe_ratio_threshold c)"

lemma parse_usize_env_pos: "parse_usize_env env name dflt = Inr n \<Longrightarrow> 0 < dflt \<Longrightarrow> 0 < n"
  by (auto simp: parse_usize_env_def split: option.splits sum.splits if_splits)

lemma parse_duration_env_pos: "parse_duration_seconds_env env name dflt = Inr n \<Longrightarrow> 0 < dflt \<Longrightarrow> 0 < n"
  by (auto simp: parse_duration_seconds_env_def from_secs_def split: option.splits sum.splits if_splits)

lemma parse_ratio_env_unit: "parse_ratio_env hs env name dflt = Inr x \<Longrightarrow> in_unit_interval dflt \<Longrightarrow> in_unit_interval x"
  by (auto simp: parse_ratio_env_def split: option.splits sum.splits if_splits)

lemma parse_bool_env_enabled: "parse_bool_env env name False = Inr b \<Longrightarrow> b = enabled env name"
  by (auto simp: parse_bool_env_def parse_bool_value_def enabled_def Let_def split: option.splits if_splits)

lemma normalize_host_https:
  "normalize_host host allow = Inr h \<Longrightarrow> starts_with h ''https://'' \<or> starts_with h ''http://'' \<and> allow"
  by (auto simp: normalize_host_def Let_def starts_with_def split: if_splits)

lemma from_env_parts:
  assumes "from_env hs env = Inr c"
  shows "parse_bool_env env ''HARBORSQL_ENABLE_EXTERNAL_WRITES'' False = Inr (cf_enable_external_writes c) \<and>
    parse_bool_env env ''HARBORSQL_UNSAFE_LOG_SQL'' False = Inr (cf_unsafe_log_sql c) \<and>
    (\<exists>host allow. parse_bool_env env ''HARBORSQL_UNSAFE_ALLOW_HTTP_DATABRICKS_HOST'' False = Inr allow \<and>
       normalize_host host allow = Inr (cf_databricks_host c)) \<and>
    parse_usize_env env ''HARBORSQL_MAX_SESSIONS'' 256 = Inr (cf_max_sessions c) \<and>
    parse_usize_env env ''HARBORSQL_MAX_OPERATIONS'' 512 = Inr (cf_max_operations c) \<and>
    parse_usize_env env ''HARBORSQL_REQUEST_BODY_LIMIT_BYTES'' (1024 * 1024) = Inr (cf_request_body_limit_bytes c) \<and>
    parse_usize_env env ''HARBORSQL_TARGET_PARTITIONS'' (default_target_partitions hs) = Inr (cf_target_partitions c) \<and>
    parse_duration_seconds_env env ''HARBORSQL_UNITY_TIMEOUT_SECONDS'' 30 = Inr (cf_unity_request_timeout c) \<and>
    parse_duration_seconds_env env ''HARBORSQL_QUERY_TIMEOUT_SECONDS'' 300 = Inr (cf_query_timeout c) \<and>
    parse_duration_seconds_env env ''HARBORSQL_IDLE_SESSION_TIMEOUT_SECONDS'' (30 * 60) = Inr (cf_idle_session_timeout c) \<and>
    parse_duration_seconds_env env ''HARBORSQL_COMPLETED_OPERATION_TTL_SECONDS'' (10 * 60) = Inr (cf_completed_operation_ttl c) \<and>
    parse_duration_seconds_env env ''HARBORSQL_CLEANUP_INTERVAL_SECONDS'' 60 = Inr (cf_cleanup_interval c) \<and>
    parse_ratio_env hs env ''HARBORSQL_SKIP_PARTIAL_AGGREGATION_PROBE_RATIO_THRESHOLD'' 0x3FE999999999999A =
       Inr (cf_skip_partial_aggregation_probe_ratio_threshold c)"
  using assms unfolding from_env_def sbind_Inr_iff defaults
  apply (elim exE conjE)
  apply (drule sum.inject(2) [THEN iffD1])
  apply hypsubst
  apply (unfold config.select_convs)
  apply (intro conjI exI)
  apply assumption+
  done

lemma from_env_ok:
  assumes "from_env hs env = Inr c"
  shows "config_ok env c"
proof -
  have "0 < default_target_partitions hs" by (auto simp: default_target_partitions_def defaults max_def split: option.split)
  then show ?thesis
    using from_env_parts [OF assms]
    unfolding config_ok_def
    by (elim conjE exE; intro conjI)
       (auto dest: parse_bool_env_enabled normalize_host_https parse_usize_env_pos parse_duration_env_pos parse_ratio_env_unit
         simp: in_unit_interval_def)
qed

end
