(* ===== verification/Engine.thy ===== *)
theory Engine
  imports Writes Metadata Configuration
begin

text \<open>
  The query engine (\<open>src/src/engine.rs\<close>): \<open>execute_inner\<close> tries the statement as a
  \<open>SHOW\<close> statement, then as the one statement that writes, rewrites the SQL, plans it
  as a read-only statement, registers the object stores of the tables it reads, and runs it
  or writes its result. DataFusion's planning and execution are requests of the program; what
  planning read from the catalog comes back in the data frame (\<open>df_registry\<close>).

  A query that exceeds its timeout is a program whose future is dropped.
\<close>

section \<open>Executing a statement\<close>

record 'p engine_fns =
  ef_tokenize :: "string \<Rightarrow> string + token list"
  ef_show_token :: "token \<Rightarrow> string"
  ef_metadata :: metadata_env
  ef_parser :: "'p parser_fns"
  ef_write :: write_fns
  ef_sql :: sql_fns
  ef_sql_to_statement :: "string \<Rightarrow> harbor_error + datafusion_statement"
  ef_mem :: "record_batch \<Rightarrow> nat"
  ef_display_type :: "data_type \<Rightarrow> string"

definition plan_sql :: "'p engine_fns \<Rightarrow> string \<Rightarrow> (dataframe \<Rightarrow> 'a engine_prog) \<Rightarrow> 'a engine_prog" where
  "plan_sql ef sql k =
     or_return (validate_read_only_statement (ef_sql_to_statement ef) sql) (\<lambda>_.
       Ask (PlanSql sql) (\<lambda>r. case r of PlanAnswer x \<Rightarrow> or_return x k | _ \<Rightarrow> Stuck))"

definition rewrite_options_of :: "config \<Rightarrow> rewrite_options" where
  "rewrite_options_of cfg =
     \<lparr>ro_count_star_alias = cf_databricks_count_star_alias_rewrite cfg,
      ro_expression_alias = cf_databricks_expression_alias_rewrite cfg\<rparr>"

definition execution_sql :: "'p engine_fns \<Rightarrow> config \<Rightarrow> string \<Rightarrow> ctas option \<Rightarrow> string" where
  "execution_sql ef cfg sql ctas =
     rewrite_sql_fast_paths_with_options (ef_sql ef) (rewrite_options_of cfg)
       (case ctas of Some c \<Rightarrow> ctas_query c | None \<Rightarrow> sql)"

definition run_query :: "'p engine_fns \<Rightarrow> config \<Rightarrow> dataframe \<Rightarrow> query_result engine_prog" where
  "run_query ef cfg df =
     Ask (ExecuteStream (df_plan df)) (\<lambda>r. case r of
       StreamAnswer (Inl e) \<Rightarrow> Return (Inl e)
     | StreamAnswer (Inr stream) \<Rightarrow>
         Return (materialize_stream (ef_mem ef) (ef_display_type ef) (df_fields df) stream
           \<lparr>lim_max_rows = cf_max_result_rows cfg, lim_max_bytes = cf_max_result_bytes cfg\<rparr>)
     | _ \<Rightarrow> Stuck)"

definition execute_inner ::
  "'p engine_fns \<Rightarrow> config \<Rightarrow> string \<Rightarrow> string \<Rightarrow> string \<Rightarrow> string \<Rightarrow> query_result engine_prog" where
  "execute_inner ef cfg token sql catalog schema =
     or_return (execute_show_statement (ef_tokenize ef) (ef_show_token ef) (ef_metadata ef) token sql catalog schema) (\<lambda>shown.
     case shown of
       Some result \<Rightarrow> Return (Inr result)
     | None \<Rightarrow>
         or_return (parse_ctas (ef_parser ef) (wf_location (ef_write ef)) sql catalog schema) (\<lambda>ctas.
         if ctas \<noteq> None \<and> \<not> cf_enable_external_writes cfg
         then Return (Inl (UnsupportedSql ''external writes require HARBORSQL_ENABLE_EXTERNAL_WRITES=true''))
         else plan_sql ef (execution_sql ef cfg sql ctas) (\<lambda>df.
           register_stores (registry_routes (df_registry df))
             (case ctas of
                Some c \<Rightarrow> execute_ctas (ef_write ef) token (cf_aws_region cfg) (ef_mem ef) c df
              | None \<Rightarrow> run_query ef cfg df))))"

definition with_timeout :: "config \<Rightarrow> 'a res effect_end \<Rightarrow> 'a res" where
  "with_timeout cfg outcome =
     (case outcome of
        Returned r \<Rightarrow> r
      | Abandoned \<Rightarrow> Inl (Harbor_Error.Query (''query exceeded HARBORSQL_QUERY_TIMEOUT_SECONDS='' @
          show_nat (cf_query_timeout cfg div 1000000000))))"

text \<open>\<open>execute_with_query_id\<close>: the requests of a run and its result.\<close>

definition executes ::
  "'p engine_fns \<Rightarrow> config \<Rightarrow> string \<Rightarrow> string \<Rightarrow> string \<Rightarrow> string \<Rightarrow> (engine_request, engine_answer) trace \<Rightarrow>
   query_result res \<Rightarrow> bool" where
  "executes ef cfg token sql catalog schema t result \<longleftrightarrow>
     (\<exists>outcome. runs (execute_inner ef cfg token sql catalog schema) t outcome \<and> result = with_timeout cfg outcome)"

definition get_columns_metadata ::
  "'p engine_fns \<Rightarrow> string \<Rightarrow> get_columns_request \<Rightarrow> string \<Rightarrow> string \<Rightarrow> query_result res" where
  "get_columns_metadata ef token request catalog schema = execute_get_columns (ef_metadata ef) token request catalog"

section \<open>What a statement may do\<close>

text \<open>
  The condition for each request: only read-only SQL is planned, and a write or a registration
  needs that writes are enabled, that the statement was parsed as one that writes, that its query
  was planned, and what \<open>write_guard\<close> demands.
\<close>

definition writes_allowed ::
  "'p engine_fns \<Rightarrow> config \<Rightarrow> string \<Rightarrow> string \<Rightarrow> string \<Rightarrow> string \<Rightarrow> (engine_request, engine_answer) trace \<Rightarrow> engine_request \<Rightarrow> bool" where
  "writes_allowed ef cfg token sql catalog schema h q \<longleftrightarrow>
     cf_enable_external_writes cfg \<and>
     (\<exists>c df. parse_ctas (ef_parser ef) (wf_location (ef_write ef)) sql catalog schema = Inr (Some c) \<and>
        (PlanSql (execution_sql ef cfg sql (Some c)), Some (PlanAnswer (Inr df))) \<in> set h \<and>
        write_guard (ef_write ef) token (cf_aws_region cfg) c df h q)"

definition engine_guard ::
  "'p engine_fns \<Rightarrow> config \<Rightarrow> string \<Rightarrow> string \<Rightarrow> string \<Rightarrow> string \<Rightarrow> (engine_request, engine_answer) trace \<Rightarrow> engine_request \<Rightarrow> bool" where
  "engine_guard ef cfg token sql catalog schema h q =
     (case q of
        PlanSql s \<Rightarrow> validate_read_only_statement (ef_sql_to_statement ef) s = Inr ()
      | CommitDelta _ _ _ _ \<Rightarrow> writes_allowed ef cfg token sql catalog schema h q
      | RegisterTable _ _ \<Rightarrow> writes_allowed ef cfg token sql catalog schema h q
      | _ \<Rightarrow> True)"

lemma engine_guard_quiet:
  "engine_guard ef cfg token sql catalog schema h (RegisterObjectStore url routes)"
  "engine_guard ef cfg token sql catalog schema h (ExecuteStream p)"
  by (simp_all add: engine_guard_def)

lemma guarded_ctas:
  assumes "cf_enable_external_writes cfg"
    and "parse_ctas (ef_parser ef) (wf_location (ef_write ef)) sql catalog schema = Inr (Some c)"
    and "(PlanSql (execution_sql ef cfg sql (Some c)), Some (PlanAnswer (Inr df))) \<in> set h"
  shows "guarded (engine_guard ef cfg token sql catalog schema)
    (execute_ctas (ef_write ef) token (cf_aws_region cfg) (ef_mem ef) c df) h"
proof (rule guarded_weaken [OF guarded_execute_ctas])
  fix t q assume guard: "write_guard (ef_write ef) token (cf_aws_region cfg) c df (h @ t) q"
  show "engine_guard ef cfg token sql catalog schema (h @ t) q"
    using assms guard by (cases q) (auto simp: engine_guard_def writes_allowed_def write_guard_def)
qed

lemma guarded_execute_inner:
  "guarded (engine_guard ef cfg token sql catalog schema) (execute_inner ef cfg token sql catalog schema) h"
proof -
  let ?G = "engine_guard ef cfg token sql catalog schema"
  have query: "guarded ?G (run_query ef cfg df) h'" for df h'
    by (auto simp: run_query_def engine_guard_quiet split: engine_answer.split sum.split)
  have body: "guarded ?G (register_stores rs (case ctas of
        Some c \<Rightarrow> execute_ctas (ef_write ef) token (cf_aws_region cfg) (ef_mem ef) c df
      | None \<Rightarrow> run_query ef cfg df)) (h @ [(PlanSql (execution_sql ef cfg sql ctas), Some (PlanAnswer (Inr df)))])"
    if "parse_ctas (ef_parser ef) (wf_location (ef_write ef)) sql catalog schema = Inr ctas"
      "ctas \<noteq> None \<longrightarrow> cf_enable_external_writes cfg" for ctas df rs
    by (rule guarded_register_stores)
       (use that in \<open>auto simp: engine_guard_quiet query split: option.split intro!: guarded_ctas\<close>)
  show ?thesis
    by (auto simp: execute_inner_def plan_sql_def body [where ctas = None, simplified]
        body [where ctas = "Some _", simplified] engine_guard_def [of _ _ _ _ _ _ _ "PlanSql _"] split: sum.split option.split engine_answer.split)
qed

lemma finishes_execute_inner:
  assumes "parse_ctas (ef_parser ef) (wf_location (ef_write ef)) sql catalog schema = Inr (Some c)"
  shows "finishes_with is_write (InvalidateTable (full_name_of c)) (execute_inner ef cfg token sql catalog schema)"
  using assms
  by (auto simp: execute_inner_def plan_sql_def finishes_execute_ctas
      split: sum.split option.split engine_answer.split intro!: finishes_register_stores)

text \<open>
  What a statement that succeeds has done: it was a \<open>SHOW\<close> statement and its rows are returned,
  or a query and the rows of its stream are returned, within the limits; or its result has been
  committed to the Delta table, and a new table has been registered.
\<close>

definition rows_returned ::
  "'p engine_fns \<Rightarrow> config \<Rightarrow> string \<Rightarrow> (engine_request \<times> engine_answer option) set \<Rightarrow> query_result \<Rightarrow> bool" where
  "rows_returned ef cfg sql H result \<longleftrightarrow>
     (\<exists>df stream. (PlanSql (execution_sql ef cfg sql None), Some (PlanAnswer (Inr df))) \<in> H \<and>
        (ExecuteStream (df_plan df), Some (StreamAnswer (Inr stream))) \<in> H \<and>
        materialize_stream (ef_mem ef) (ef_display_type ef) (df_fields df) stream
          \<lparr>lim_max_rows = cf_max_result_rows cfg, lim_max_bytes = cf_max_result_bytes cfg\<rparr> = Inr result)"

definition committed ::
  "write_fns \<Rightarrow> string \<Rightarrow> ctas \<Rightarrow> dataframe \<Rightarrow> (engine_request \<times> engine_answer option) set \<Rightarrow> bool" where
  "committed ws token c df H \<longleftrightarrow>
     (\<exists>url options. (CommitDelta url options Overwrite (df_plan df), Some (CommitAnswer (Inr ()))) \<in> H) \<or>
     (\<exists>url options columns info. (CommitDelta url options ErrorIfExists (df_plan df), Some (CommitAnswer (Inr ()))) \<in> H \<and>
        unity_columns (wf_display_type ws) (wf_json_to_string ws) (df_fields df) = Inr columns \<and>
        (RegisterTable token (register_request c columns), Some (TableAnswer (Inr info))) \<in> H)"

definition statement_done ::
  "'p engine_fns \<Rightarrow> config \<Rightarrow> string \<Rightarrow> string \<Rightarrow> string \<Rightarrow> string \<Rightarrow> (engine_request \<times> engine_answer option) set \<Rightarrow>
   query_result \<Rightarrow> bool" where
  "statement_done ef cfg token sql catalog schema H result \<longleftrightarrow>
     execute_show_statement (ef_tokenize ef) (ef_show_token ef) (ef_metadata ef) token sql catalog schema = Inr (Some result) \<or>
     (case parse_ctas (ef_parser ef) (wf_location (ef_write ef)) sql catalog schema of
        Inl _ \<Rightarrow> False
      | Inr None \<Rightarrow> rows_returned ef cfg sql H result
      | Inr (Some c) \<Rightarrow> result = empty_result (ef_mem ef) \<and>
          (\<exists>df. (PlanSql (execution_sql ef cfg sql (Some c)), Some (PlanAnswer (Inr df))) \<in> H \<and>
             committed (ef_write ef) token c df H))"

definition on_success :: "('h \<Rightarrow> 'a \<Rightarrow> bool) \<Rightarrow> 'h \<Rightarrow> 'a res \<Rightarrow> bool" where
  "on_success P H r = (case r of Inl _ \<Rightarrow> True | Inr x \<Rightarrow> P H x)"

lemma on_success_simps [simp]: "on_success P H (Inl e)" "on_success P H (Inr x) = P H x"
  by (simp_all add: on_success_def)

lemma statement_done_mono:
  assumes "statement_done ef cfg token sql catalog schema H result" "H \<subseteq> H'"
  shows "statement_done ef cfg token sql catalog schema H' result"
proof -
  have "committed ws token c df H \<Longrightarrow> committed ws token c df H'" for ws c df
    using assms(2) unfolding committed_def by blast
  moreover have "rows_returned ef cfg sql H result \<Longrightarrow> rows_returned ef cfg sql H' result"
    using assms(2) unfolding rows_returned_def by blast
  ultimately show ?thesis
    using assms unfolding statement_done_def by (auto split: sum.splits option.splits)
qed

lemma ensures_or_return [simp]:
  "ensures (on_success P) (or_return r k) H \<longleftrightarrow> (case r of Inl _ \<Rightarrow> True | Inr x \<Rightarrow> ensures (on_success P) (k x) H)"
  by (cases r) (simp_all add: or_return_def)

lemma ensures_register_stores:
  assumes "\<And>H'. H \<subseteq> H' \<Longrightarrow> ensures P k H'"
  shows "ensures P (register_stores rs k) H"
  using assms
proof (induction rs arbitrary: H)
  case (Cons r rs)
  have "ensures P (register_stores rs k) (insert x H)" for x
    by (rule Cons.IH) (use Cons.prems in auto)
  then show ?case by (auto split: engine_answer.splits)
qed simp

lemma committed_replace:
  "(CommitDelta url options Overwrite (df_plan df), Some (CommitAnswer (Inr ()))) \<in> H \<Longrightarrow> committed ws token c df H"
  unfolding committed_def by blast

lemma committed_create:
  "(CommitDelta url options ErrorIfExists (df_plan df), Some (CommitAnswer (Inr ()))) \<in> H \<Longrightarrow>
   unity_columns (wf_display_type ws) (wf_json_to_string ws) (df_fields df) = Inr columns \<Longrightarrow>
   (RegisterTable token (register_request c columns), Some (TableAnswer (Inr info))) \<in> H \<Longrightarrow> committed ws token c df H"
  unfolding committed_def by blast

lemma ensures_commit_table:
  assumes "\<And>H'. H \<subseteq> H' \<Longrightarrow> committed ws token c df H' \<Longrightarrow> P H' (empty_result mem)"
    and "unity_columns (wf_display_type ws) (wf_json_to_string ws) (df_fields df) = Inr columns"
  shows "ensures (on_success P) (commit_table ws token mem c df existing columns url options) H"
  by (auto simp: commit_table_def split: engine_answer.split sum.split
      intro!: assms(1) intro: committed_replace committed_create [OF _ assms(2)])

lemma ensures_execute_ctas:
  assumes success: "\<And>H'. H \<subseteq> H' \<Longrightarrow> committed ws token c df H' \<Longrightarrow> P H' (empty_result mem)"
  shows "ensures (on_success P) (execute_ctas ws token aws_region mem c df) H"
proof -
  have written: "ensures (on_success P) (write_table ws token mem c df existing columns url options) H'"
    if "H \<subseteq> H'" "unity_columns (wf_display_type ws) (wf_json_to_string ws) (df_fields df) = Inr columns"
    for existing columns url options H'
    using that success
    by (auto simp: write_table_def split: sum.split intro!: ensures_register_stores ensures_commit_table)
  have opened: "ensures (on_success P) (open_target ws token aws_region mem c df existing columns credentials) H'"
    if "H \<subseteq> H'" "unity_columns (wf_display_type ws) (wf_json_to_string ws) (df_fields df) = Inr columns"
    for existing columns credentials H'
    using that
    by (auto simp: open_target_def Let_def split: sum.split engine_answer.split load_outcome.split intro!: written)
  show ?thesis
    by (auto simp: execute_ctas_def list_tables_def ask_details_def ask_credentials_def Let_def
        split: sum.split engine_answer.split option.split intro!: opened)
qed

lemma ensures_execute_inner:
  "ensures (on_success (statement_done ef cfg token sql catalog schema)) (execute_inner ef cfg token sql catalog schema) H"
proof -
  let ?P = "on_success (statement_done ef cfg token sql catalog schema)"
  have query: "ensures ?P (run_query ef cfg df) H'"
    if "parse_ctas (ef_parser ef) (wf_location (ef_write ef)) sql catalog schema = Inr None"
      "(PlanSql (execution_sql ef cfg sql None), Some (PlanAnswer (Inr df))) \<in> H'" for df H'
    using that
    by (auto simp: run_query_def on_success_def statement_done_def rows_returned_def split: engine_answer.split sum.split)
  have ctas: "ensures ?P (execute_ctas (ef_write ef) token (cf_aws_region cfg) (ef_mem ef) c df) H'"
    if "parse_ctas (ef_parser ef) (wf_location (ef_write ef)) sql catalog schema = Inr (Some c)"
      "(PlanSql (execution_sql ef cfg sql (Some c)), Some (PlanAnswer (Inr df))) \<in> H'" for c df H'
    by (rule ensures_execute_ctas) (use that in \<open>auto simp: statement_done_def\<close>)
  show ?thesis
    by (auto simp: execute_inner_def plan_sql_def statement_done_def split: sum.split option.split engine_answer.split
        intro!: ensures_register_stores query ctas)
qed

end
