(* ===== verification/Engine_Properties.thy ===== *)
theory Engine_Properties
  imports Engine
begin

text \<open>
  Properties of statements as a whole: what must precede a write to a Delta table, what follows
  it, and what a statement that succeeds has done; the functions that HarborSQL adds to SQL; the
  configuration. The example is a service that accepts one \<open>CREATE OR REPLACE TABLE\<close>, whose
  words are the tokens of its parser.
\<close>

section \<open>An example\<close>

type_synonym words = "string list"

definition example_parser :: "words parser_fns" where
  "example_parser =
     \<lparr>pf_try_with_sql = (\<lambda>sql. Inr (split_char CHR '' '' sql)),
      pf_parse_keyword = (\<lambda>k p. case p of w # ws \<Rightarrow> if w = k then (True, ws) else (False, p) | [] \<Rightarrow> (False, p)),
      pf_expect_keywords = (\<lambda>ks p. if take (length ks) p = ks then Inr (drop (length ks) p) else Inl ''expected keyword''),
      pf_parse_object_name = (\<lambda>p. case p of w # ws \<Rightarrow> Inr ([NameIdent (w, None)], ws) | [] \<Rightarrow> Inl ''expected identifier''),
      pf_parse_identifier = (\<lambda>p. case p of w # ws \<Rightarrow> Inr ((w, None), ws) | [] \<Rightarrow> Inl ''expected identifier''),
      pf_parse_literal_string = (\<lambda>p. case p of w # ws \<Rightarrow> Inr (w, ws) | [] \<Rightarrow> Inl ''expected literal''),
      pf_parse_query = (\<lambda>p. Inr (join '' '' p, [])),
      pf_consume_semicolon = (\<lambda>p. (False, p)),
      pf_expect_eof = (\<lambda>p. if p = [] then Inr () else Inl ''expected end'')\<rparr>"

definition example_location :: location_fns where
  "example_location =
     \<lparr>uf_parse = Inr, uf_host_str = (\<lambda>_. Some ''bucket''), uf_path = (\<lambda>_. ''/table''), uf_set_path = (\<lambda>_ u. u),
      uf_set_query = (\<lambda>_ u. u), uf_set_fragment = (\<lambda>_ u. u), uf_from_url_path = (\<lambda>_. Inr ''table''),
      lf_scheme = (\<lambda>_. ''s3''), lf_query = (\<lambda>_. None), lf_fragment = (\<lambda>_. None), lf_username = (\<lambda>_. []), lf_password = (\<lambda>_. None)\<rparr>"

definition example_write :: write_fns where
  "example_write =
     \<lparr>wf_location = example_location, wf_to_lowercase = to_ascii_lowercase, wf_display_type = (\<lambda>_. ''type''),
      wf_json_to_string = (\<lambda>_. ''json''), wf_delta_build = (\<lambda>_ _. Inr ()), wf_delta_store = (\<lambda>_ _. 7), wf_redact = (\<lambda>s. s)\<rparr>"

definition example_metadata :: metadata_env where
  "example_metadata =
     \<lparr>me_regex = \<lparr>rx_build = (\<lambda>_. Inl ''none''), rx_escape = (\<lambda>s. s)\<rparr>,
      me_batch = \<lparr>bf_try_new = (\<lambda>_ _. Inl ''none''), bf_display_type = (\<lambda>_. ''type''), bf_memory = (\<lambda>_. 0)\<rparr>,
      me_source = \<lparr>ms_list_catalogs = (\<lambda>_. Inr []), ms_list_schemas = (\<lambda>_ _. Inr []),
        ms_list_tables = (\<lambda>_ _ _. Inr []), ms_table = (\<lambda>_ _. Inl (Unity ''none''))\<rparr>\<rparr>"

definition example_engine :: "words engine_fns" where
  "example_engine =
     \<lparr>ef_tokenize = (\<lambda>_. Inr []), ef_show_token = (\<lambda>_. ''token''), ef_metadata = example_metadata,
      ef_parser = example_parser, ef_write = example_write,
      ef_sql = \<lparr>sf_expr = (\<lambda>_. []), sf_function = (\<lambda>_. []), sf_name = (\<lambda>_. []), sf_arg = (\<lambda>_. []),
        sf_literal = (\<lambda>_. []), sf_binary = (\<lambda>_. []), sf_unary = (\<lambda>_. []), sf_statement = (\<lambda>_. []), sf_parse = (\<lambda>_. None)\<rparr>,
      ef_sql_to_statement = (\<lambda>_. Inr (DfStatement (QueryStatement (Sql_Rewrite.Query None (OtherSet ''SELECT 1'') None [])))),
      ef_mem = (\<lambda>_. 0), ef_display_type = (\<lambda>_. ''type'')\<rparr>"

definition example_env :: env where
  "example_env = [''DATABRICKS_HOST'' \<mapsto> ''workspace.example.com/'', ''HARBORSQL_ENABLE_EXTERNAL_WRITES'' \<mapsto> '' True '']"

definition example_host :: host_fns where
  "example_host = \<lparr>hs_parse_addr = Inr, hs_parse_f64 = (\<lambda>_. Inl ''invalid float literal''), hs_parallelism = Some 4\<rparr>"

definition example_config :: config where
  "example_config =
     \<lparr>cf_bind_addr = ''127.0.0.1:1992'', cf_databricks_host = ''https://workspace.example.com'',
      cf_default_catalog = ''workspace'', cf_default_schema = ''default'', cf_aws_region = ''us-west-2'',
      cf_max_result_rows = Some DEFAULT_MAX_RESULT_ROWS, cf_max_result_bytes = Some DEFAULT_MAX_RESULT_BYTES,
      cf_unity_request_timeout = from_secs 30, cf_query_timeout = from_secs 300,
      cf_idle_session_timeout = from_secs 1800, cf_completed_operation_ttl = from_secs 600, cf_cleanup_interval = from_secs 60,
      cf_max_sessions = 256, cf_max_operations = 512, cf_request_body_limit_bytes = 1048576,
      cf_parquet_pushdown_filters = DEFAULT_PARQUET_PUSHDOWN_FILTERS, cf_parquet_reorder_filters = DEFAULT_PARQUET_PUSHDOWN_FILTERS,
      cf_target_partitions = max 4 DEFAULT_MIN_TARGET_PARTITIONS,
      cf_skip_partial_aggregation_probe_rows_threshold = DEFAULT_SKIP_PARTIAL_AGGREGATION_PROBE_ROWS_THRESHOLD,
      cf_skip_partial_aggregation_probe_ratio_threshold = DEFAULT_SKIP_PARTIAL_AGGREGATION_PROBE_RATIO_THRESHOLD,
      cf_table_cache_ttl = from_secs DEFAULT_TABLE_CACHE_TTL_SECONDS, cf_table_cache_max_entries = DEFAULT_TABLE_CACHE_MAX_ENTRIES,
      cf_table_cache_credential_expiry_skew = from_secs TABLE_CACHE_CREDENTIAL_EXPIRY_SKEW_SECONDS,
      cf_databricks_count_star_alias_rewrite = DEFAULT_DATABRICKS_COUNT_STAR_ALIAS_REWRITE,
      cf_databricks_expression_alias_rewrite = DEFAULT_DATABRICKS_EXPRESSION_ALIAS_REWRITE,
      cf_unsafe_log_sql = DEFAULT_UNSAFE_LOG_SQL, cf_enable_external_writes = True\<rparr>"

definition example_sql :: string where
  "example_sql = ''CREATE OR REPLACE TABLE t USING delta LOCATION s3://bucket/table AS SELECT 1''"

definition example_credentials :: temporary_table_credentials where
  "example_credentials =
     \<lparr>tc_access_key_id = ''id'', tc_secret_access_key = ''secret'', tc_session_token = ''session'', tc_expiration_time = 0,
      tc_url = ''s3://bucket/table/''\<rparr>"

definition example_df :: dataframe where
  "example_df = \<lparr>df_fields = [\<lparr>fld_name = ''x'', fld_type = DtInt32, fld_nullable = True\<rparr>], df_plan = 3, df_registry = []\<rparr>"

definition example_table_info :: table_info where
  "example_table_info =
     \<lparr>ti_table_id = Some ''id'', ti_full_name = ''c.s.t'', ti_name = Some ''t'', ti_catalog_name = None, ti_schema_name = None,
      ti_table_type = None, ti_data_source_format = None, ti_storage_location = None, ti_comment = None, ti_owner = None,
      ti_created_at = None, ti_created_by = None, ti_updated_at = None, ti_updated_by = None, ti_columns = []\<rparr>"

fun example_answer :: "engine_request \<Rightarrow> engine_answer" where
  "example_answer (ListTables _ _ _) = TablesAnswer (Inr [])"
| "example_answer (TableDetails _ _) = DetailsAnswer (Inr JNull)"
| "example_answer (WriteCredentials _ _) = CredentialsAnswer (Inr example_credentials)"
| "example_answer (CreatePathCredentials _ _) = CredentialsAnswer (Inr example_credentials)"
| "example_answer (LoadDelta _ _) = LoadAnswer (NotATable ''no log'')"
| "example_answer (RegisterObjectStore _ _) = RegisteredAnswer"
| "example_answer (CommitDelta _ _ _ _) = CommitAnswer (Inr ())"
| "example_answer (RegisterTable _ _) = TableAnswer (Inr example_table_info)"
| "example_answer (InvalidateTable _) = RegisteredAnswer"
| "example_answer (PlanSql _) = PlanAnswer (Inr example_df)"
| "example_answer (ExecuteStream _) = StreamAnswer (Inr [])"

text \<open>What the example parses and computes, and its run.\<close>

definition example_ctas :: ctas where
  "example_ctas =
     \<lparr>ctas_catalog = ''c'', ctas_schema = ''s'', ctas_name = ''t'', ctas_location = ''s3://bucket/table'', ctas_query = ''SELECT 1''\<rparr>"

definition example_columns :: "json list" where
  "example_columns =
     (case unity_columns (\<lambda>_. ''type'') (\<lambda>_. ''json'') (df_fields example_df) of Inr c \<Rightarrow> c | Inl _ \<Rightarrow> [])"

definition example_storage :: storage_opts where
  "example_storage = storage_options example_credentials ''us-west-2''"

definition example_before :: "(engine_request, engine_answer) trace" where
  "example_before =
     [(PlanSql ''SELECT 1'', Some (PlanAnswer (Inr example_df))),
      (ListTables ''token'' ''c'' ''s'', Some (TablesAnswer (Inr []))),
      (CreatePathCredentials ''token'' ''s3://bucket/table'', Some (CredentialsAnswer (Inr example_credentials))),
      (LoadDelta ''s3://bucket/table'' example_storage, Some (LoadAnswer (NotATable ''no log''))),
      (RegisterObjectStore ''s3://bucket/table'' [\<lparr>osr_prefix = ''table'', osr_store = 7\<rparr>], Some RegisteredAnswer)]"

definition example_after :: "(engine_request, engine_answer) trace" where
  "example_after =
     [(RegisterTable ''token'' (register_request example_ctas example_columns), Some (TableAnswer (Inr example_table_info))),
      (InvalidateTable ''c.s.t'', None)]"

lemma example_config_from_env: "from_env example_host example_env = Inr example_config"
proof -
  have host: "normalize_host ''workspace.example.com/'' False = Inr ''https://workspace.example.com''" by code_simp
  have on: "parse_bool_value name '' True '' = Inr True" for name by (simp add: parse_bool_value_def; code_simp)
  show ?thesis
    by (simp add: from_env_def example_env_def example_host_def example_config_def var_or_def unwrap_or_def
        parse_bool_env_def host on parse_optional_usize_env_def parse_usize_env_def parse_duration_seconds_env_def
        parse_ratio_env_def parse_duration_seconds_env_allow_zero_def parse_usize_env_allow_zero_def
        default_target_partitions_def defaults)
qed

lemma example_parsed: "parse_ctas example_parser example_location example_sql ''c'' ''s'' = Inr (Some example_ctas)"
  by code_simp

lemma example_unity_columns:
  "unity_columns (\<lambda>_. ''type'') (\<lambda>_. ''json'') (df_fields example_df) = Inr example_columns"
  by code_simp

lemma example_validated: "validate_location example_location ''s3://bucket/table'' = Inr ''s3://bucket/table''"
  by code_simp

lemma example_routed:
  "table_object_store_route (url_fns.truncate example_location) ''s3://bucket/table'' = Inr (''s3://bucket/table'', ''table'')"
  "map snd (record_store ''s3://bucket/table'' ''table'' 7 []) = [(''s3://bucket/table'', [\<lparr>osr_prefix = ''table'', osr_store = 7\<rparr>])]"
  "prefix_routing_new [\<lparr>osr_prefix = ''table'', osr_store = 7\<rparr>] = [\<lparr>osr_prefix = ''table'', osr_store = 7\<rparr>]"
  "trim_end_matches CHR ''/'' (tc_url example_credentials) = trim_end_matches CHR ''/'' (ctas_location example_ctas)"
  by code_simp+

lemma example_ctas_run:
  "answered example_answer (execute_ctas example_write ''token'' ''us-west-2'' (\<lambda>_. 0) example_ctas example_df) =
     (tl example_before @ (CommitDelta ''s3://bucket/table'' example_storage ErrorIfExists 3, Some (CommitAnswer (Inr ()))) # example_after,
      Some (Inr (empty_result (\<lambda>_. 0))))"
proof -
  have c: "ctas_location example_ctas = ''s3://bucket/table''" "ctas_catalog example_ctas = ''c''" "ctas_schema example_ctas = ''s''"
    "ctas_name example_ctas = ''t''" "full_name_of example_ctas = ''c.s.t''" "df_plan example_df = 3" "df_registry example_df = []"
    by (simp_all add: example_ctas_def full_name_of_def example_df_def)
  show ?thesis
    by (simp add: execute_ctas_def list_tables_def has_table_def example_write_def example_unity_columns or_return_def
        ask_credentials_def open_target_def write_table_def commit_table_def example_validated registry_routes_def example_routed
        example_before_def example_after_def example_storage_def c Let_def)
qed

lemma example_parts:
  "ef_parser example_engine = example_parser" "ef_write example_engine = example_write" "ef_mem example_engine = (\<lambda>_. 0)"
  "wf_location example_write = example_location" "cf_enable_external_writes example_config" "cf_aws_region example_config = ''us-west-2''"
  "df_registry example_df = []"
  "validate_read_only_statement (ef_sql_to_statement example_engine) s = Inr ()"
  "execution_sql example_engine example_config example_sql (Some example_ctas) = ''SELECT 1''"
  "execute_show_statement (ef_tokenize example_engine) (ef_show_token example_engine) (ef_metadata example_engine)
      ''token'' example_sql ''c'' ''s'' = Inr None"
  by (simp_all add: example_engine_def example_write_def example_config_def example_df_def validate_read_only_statement_def
      execution_sql_def rewrite_sql_fast_paths_with_options_def example_ctas_def
      execute_show_statement_def parse_show_statement_def starts_with_show_def)

lemma example_run:
  "executes example_engine example_config ''token'' example_sql ''c'' ''s''
     (example_before @ (CommitDelta ''s3://bucket/table'' example_storage ErrorIfExists 3, Some (CommitAnswer (Inr ()))) # example_after)
     (Inr (empty_result (\<lambda>_. 0)))"
proof -
  have "answered example_answer (execute_inner example_engine example_config ''token'' example_sql ''c'' ''s'') =
      (example_before @ (CommitDelta ''s3://bucket/table'' example_storage ErrorIfExists 3, Some (CommitAnswer (Inr ()))) # example_after,
       Some (Inr (empty_result (\<lambda>_. 0))))"
    by (simp add: execute_inner_def or_return_def example_parts example_parsed plan_sql_def registry_routes_def example_ctas_run)
       (simp add: example_before_def)
  from answered_runs [OF this] show ?thesis by (auto simp: executes_def with_timeout_def)
qed

lemma engine_run_guarded:
  assumes "executes ef cfg token sql catalog schema t result" "t = before @ (q, answer) # after"
  shows "engine_guard ef cfg token sql catalog schema before q"
proof -
  obtain e where "runs (execute_inner ef cfg token sql catalog schema) t e" using assms(1) by (auto simp: executes_def)
  from guarded_runs [OF this guarded_execute_inner [where h = "[]"] assms(2)] show ?thesis by simp
qed

section \<open>Writes\<close>



text \<open>
  C14. Once a statement has sent a commit or a registration, the last thing it does is to invalidate
  the cached table of the name it writes to, whether it returns or is dropped; and a table is
  registered only after its data was committed.
\<close>

theorem written_tables_invalidated:
  assumes run: "executes ef cfg token sql catalog schema t result" and sent: "(q, answer) \<in> set t" "is_write q"
  shows "\<exists>c before. parse_ctas (ef_parser ef) (wf_location (ef_write ef)) sql catalog schema = Inr (Some c) \<and>
    t = before @ [(InvalidateTable (full_name_of c), None)] \<and>
    (\<forall>tk request b1 a b2. t = b1 @ (RegisterTable tk request, a) # b2 \<longrightarrow>
       (\<exists>url options plan. (CommitDelta url options ErrorIfExists plan, Some (CommitAnswer (Inr ()))) \<in> set b1))"
proof -
  have allowed: "writes_allowed ef cfg token sql catalog schema b1 p"
    if "t = b1 @ (p, a) # b2" "is_write p" for b1 p a b2
    using engine_run_guarded [OF run that(1)] that(2) by (cases p) (auto simp: engine_guard_def is_write_def)
  obtain b1 b2 where "t = b1 @ (q, answer) # b2" using sent(1) by (meson split_list)
  from allowed [OF this sent(2)]
  obtain c where c: "parse_ctas (ef_parser ef) (wf_location (ef_write ef)) sql catalog schema = Inr (Some c)"
    by (auto simp: writes_allowed_def)
  obtain e where "runs (execute_inner ef cfg token sql catalog schema) t e" using run by (auto simp: executes_def)
  from finishes_with_runs [OF this finishes_execute_inner [OF c] sent]
  obtain before where "t = before @ [(InvalidateTable (full_name_of c), None)]" by blast
  moreover have "\<exists>url options plan. (CommitDelta url options ErrorIfExists plan, Some (CommitAnswer (Inr ()))) \<in> set b1"
    if "t = b1 @ (RegisterTable tk request, a) # b2" for tk request b1 a b2
    using allowed [OF that] by (auto simp: writes_allowed_def write_guard_def)
  ultimately show ?thesis using c by blast
qed

theorem written_tables_invalidated_witness:
  "\<exists>before. example_before @ (CommitDelta ''s3://bucket/table'' example_storage ErrorIfExists 3, Some (CommitAnswer (Inr ()))) # example_after =
     before @ [(InvalidateTable ''c.s.t'', None)]"
  using written_tables_invalidated [OF example_run, of "CommitDelta ''s3://bucket/table'' example_storage ErrorIfExists 3" "Some (CommitAnswer (Inr ()))"]
  by (auto simp: example_parts example_parsed example_ctas_def full_name_of_def)

text \<open>
  C15. A statement that succeeds has done what it says: its result is that of the \<open>SHOW\<close>
  statement; or the collected rows of the stream of the planned query; or it is empty, and the
  query's rows have been committed, over an existing table or to a new one that Unity has
  registered with the query's columns.
\<close>

theorem successful_statements:
  assumes "executes ef cfg token sql catalog schema t (Inr result)"
  shows "statement_done ef cfg token sql catalog schema (set t) result"
proof -
  obtain e where run: "runs (execute_inner ef cfg token sql catalog schema) t e" and e: "Inr result = with_timeout cfg e"
    using assms by (auto simp: executes_def)
  have returned: "e = Returned (Inr result)" using e by (cases e) (auto simp: with_timeout_def)
  have mono: "on_success (statement_done ef cfg token sql catalog schema) H' x"
    if "on_success (statement_done ef cfg token sql catalog schema) H x" "H \<subseteq> H'" for H H' x
    using that by (auto simp: on_success_def statement_done_mono split: sum.splits)
  from ensures_runs [OF run ensures_execute_inner [where H = "{}"] returned mono] show ?thesis by simp
qed

theorem successful_statements_witness:
  "committed example_write ''token'' example_ctas example_df
     (set (example_before @ (CommitDelta ''s3://bucket/table'' example_storage ErrorIfExists 3, Some (CommitAnswer (Inr ()))) # example_after))"
proof -
  have "df = example_df" if "(PlanSql s, Some (PlanAnswer (Inr df))) \<in> set (example_before @
      (CommitDelta ''s3://bucket/table'' example_storage ErrorIfExists 3, Some (CommitAnswer (Inr ()))) # example_after)" for s df
    using that by (auto simp: example_before_def example_after_def)
  then show ?thesis
    using successful_statements [OF example_run] by (auto simp: statement_done_def example_parts example_parsed)
qed

section \<open>Configuration\<close>

text \<open>
  C39. A configuration that is accepted reaches Unity by HTTPS unless the unsafe override is set,
  writes and logs SQL exactly if the environment says so, and has positive limits and timeouts and
  a ratio within its bounds.
\<close>

theorem accepted_configuration:
  assumes "from_env hs env = Inr c"
  shows "config_ok env c"
  using assms by (rule from_env_ok)

theorem accepted_configuration_witness: "config_ok example_env example_config"
  by (rule accepted_configuration [OF example_config_from_env])

section \<open>SQL functions\<close>

text \<open>
  \<open>length\<close> of a text column, dictionaries included, is the column of the numbers of
  characters: of the bytes that do not continue a character. It is null where the text is null.
\<close>

lemma length_counts_characters:
  assumes "wf_udf_array a" "type_of_array a \<in> {DtUtf8, DtUtf8View}"
    and "\<forall>c \<in> set (stored_cells a). \<forall>s. cell_string c = Some s \<longrightarrow> char_count s < 2 ^ 31"
    and "\<forall>c \<in> set (expand a). \<forall>s. cell_string c = Some s \<longrightarrow> s = [] \<or> \<not> is_continuation (hd s)"
  shows "length_array uf a = Inr \<lparr>arr_type = DtInt32,
    arr_cells = map (\<lambda>c. map_option (\<lambda>s. AvInt32 (of_nat (length (filter (\<lambda>b. \<not> is_continuation b) s)))) (cell_string c)) (expand a)\<rparr>"
proof -
  have "map length_cell (expand a) =
      map (\<lambda>c. map_option (\<lambda>s. AvInt32 (of_nat (length (filter (\<lambda>b. \<not> is_continuation b) s)))) (cell_string c)) (expand a)"
    using assms(4) by (intro map_cong refl) (auto simp: length_cell_def char_count_bytes intro!: option.map_cong)
  then show ?thesis using length_array_expand [of a uf] assms(1,2,3) by (simp add: list_all_iff)
qed

definition example_udf_fns :: "unit udf_fns" where
  "example_udf_fns =
     \<lparr>ud_length = Inr, ud_date_part_minute = Inr, ud_scalar_to_array = (\<lambda>_. Inl (Plan ''none'')),
      ud_scalar_from_array = (\<lambda>_. Inl (Plan ''none'')), ud_regex_new = (\<lambda>_. Inr ()), ud_captures = (\<lambda>_ _. None),
      ud_show_type = (\<lambda>_. ''type''), ud_debug_scalar = (\<lambda>_. ''scalar''), ud_debug_column = (\<lambda>_. ''column''),
      ud_debug_type = (\<lambda>_. ''type'')\<rparr>"

definition example_texts :: udf_array where
  "example_texts =
     Dictionary [Some 1, None, Some 0]
       (Plain \<lparr>arr_type = DtUtf8, arr_cells = [Some (AvUtf8 ''abc''), Some (AvUtf8 [CHR 0xC3, CHR 0xA9])]\<rparr>)"

text \<open>
  C40. The minute of a UTC timestamp column, whatever its unit and also before 1970, is the column
  of the minutes of the hour in which the instants lie, and there is no other such minute.
\<close>

theorem minute_of_timestamps:
  assumes "arr_type a = DtTimestamp unit timezone" "is_utc_timezone timezone"
  shows "\<exists>cells. extract_minute_array uf (Plain a) = Inr (Plain \<lparr>arr_type = DtInt32, arr_cells = cells\<rparr>) \<and>
    list_all2 (\<lambda>c r. case cell_timestamp c of
        None \<Rightarrow> r = None
      | Some t \<Rightarrow> (\<exists>m. r = Some (AvInt32 m) \<and> in_minute (units_per_second unit) (sint t) (sint m) \<and>
          (\<forall>n. in_minute (units_per_second unit) (sint t) n \<longrightarrow> n = sint m))) (arr_cells a) cells"
proof -
  have u: "0 < units_per_second unit" by (cases unit) (simp_all add: units_per_second_def)
  have "extract_minute_array uf (Plain a) = Inr (Plain \<lparr>arr_type = DtInt32,
      arr_cells = map (\<lambda>c. map_option (\<lambda>t. AvInt32 (minute_of (units_per_second unit) t)) (cell_timestamp c)) (arr_cells a)\<rparr>)"
    using assms by (simp add: extract_minute_array_def extract_timestamp_minute_def)
  moreover have "list_all2 (\<lambda>c r. case cell_timestamp c of
        None \<Rightarrow> r = None
      | Some t \<Rightarrow> (\<exists>m. r = Some (AvInt32 m) \<and> in_minute (units_per_second unit) (sint t) (sint m) \<and>
          (\<forall>n. in_minute (units_per_second unit) (sint t) n \<longrightarrow> n = sint m)))
      cells (map (\<lambda>c. map_option (\<lambda>t. AvInt32 (minute_of (units_per_second unit) t)) (cell_timestamp c)) cells)" for cells
    by (induction cells) (auto split: option.split intro!: minute_of_in_minute [OF u] dest: in_minute_unique [OF u _ minute_of_in_minute [OF u]])
  ultimately show ?thesis by blast
qed

theorem minute_of_timestamps_witness:
  "\<exists>cells. extract_minute_array example_udf_fns
      (Plain \<lparr>arr_type = DtTimestamp TuSecond None, arr_cells = [Some (AvTimestamp 3661), None, Some (AvTimestamp (- 1))]\<rparr>) =
        Inr (Plain \<lparr>arr_type = DtInt32, arr_cells = cells\<rparr>) \<and> length cells = 3"
  using minute_of_timestamps [of "\<lparr>arr_type = DtTimestamp TuSecond None, arr_cells = [Some (AvTimestamp 3661), None, Some (AvTimestamp (- 1))]\<rparr>"
    TuSecond None example_udf_fns]
  by (auto simp: is_utc_timezone_def dest: list_all2_lengthD)

end
