(* ===== verification/Thrift_State.thy ===== *)
theory Thrift_State
  imports Result_Encoding
begin

text \<open>
  The state of sessions and operations (\<open>src/src/thrift/state.rs\<close>). A
  \<open>JoinHandle\<close> is the number of its task; whether the task has finished, and with what,
  is known to the runtime and is an argument here. A call of \<open>Instant::now()\<close> is the
  argument \<open>now\<close>; instants and durations are numbers of nanoseconds.
\<close>

section \<open>Data\<close>

type_synonym task_id = nat

record session_state =
  ss_id :: string
  ss_secret :: bytes
  ss_token_fingerprint :: bytes
  ss_catalog :: string
  ss_schema :: string
  ss_last_access :: instant

record operation_completion =
  oc_duration_ms :: "64 word"
  oc_result :: "client_err + query_result"

datatype join_error = JoinCancelled | JoinPanic string

datatype operation_execution =
    Running instant task_id
  | Refreshing instant
  | Finished query_result "64 word" instant
  | Failed client_err "64 word" instant
  | Canceled "64 word" instant

record operation_state =
  os_secret :: bytes
  os_session_id :: string
  os_token_fingerprint :: bytes
  os_state :: operation_execution

record query_history =
  qh_query_id :: string
  qh_status :: string
  qh_duration :: "64 word"

section \<open>Sessions\<close>

definition session_is_expired :: "session_state \<Rightarrow> instant \<Rightarrow> duration \<Rightarrow> bool" where
  "session_is_expired s now idle_timeout \<longleftrightarrow> idle_timeout \<le> now - ss_last_access s"

section \<open>Execution states\<close>

text \<open>\<open>started.elapsed().as_millis() as u64\<close>\<close>

definition elapsed_ms :: "instant \<Rightarrow> instant \<Rightarrow> 64 word" where
  "elapsed_ms now since = of_nat ((now - since) div 1000000)"

fun execution_is_active :: "operation_execution \<Rightarrow> bool" where
  "execution_is_active (Running _ _) = True"
| "execution_is_active (Refreshing _) = True"
| "execution_is_active _ = False"

definition from_completion :: "instant \<Rightarrow> operation_completion \<Rightarrow> operation_execution" where
  "from_completion now completion =
     (case oc_result completion of
        Inr result \<Rightarrow> Finished result (oc_duration_ms completion) now
      | Inl error \<Rightarrow> Failed error (oc_duration_ms completion) now)"

fun from_join_result :: "instant \<Rightarrow> instant \<Rightarrow> join_error + operation_completion \<Rightarrow> operation_execution" where
  "from_join_result now since (Inr completion) = from_completion now completion"
| "from_join_result now since (Inl JoinCancelled) = Canceled (elapsed_ms now since) now"
| "from_join_result now since (Inl (JoinPanic _)) = Failed client_error_internal (elapsed_ms now since) now"

fun execution_result :: "operation_execution \<Rightarrow> query_result option" where
  "execution_result (Finished result _ _) = Some result"
| "execution_result _ = None"

fun execution_status_code :: "operation_execution \<Rightarrow> i32" where
  "execution_status_code (Failed _ _ _) = ERROR_STATUS"
| "execution_status_code _ = SUCCESS_STATUS"

fun execution_operation_state :: "operation_execution \<Rightarrow> i32" where
  "execution_operation_state (Running _ _) = RUNNING_STATE"
| "execution_operation_state (Refreshing _) = RUNNING_STATE"
| "execution_operation_state (Finished _ _ _) = FINISHED_STATE"
| "execution_operation_state (Failed _ _ _) = ERROR_STATE"
| "execution_operation_state (Canceled _ _) = CANCELED_STATE"

fun execution_duration_ms :: "instant \<Rightarrow> operation_execution \<Rightarrow> 64 word" where
  "execution_duration_ms now (Running since _) = elapsed_ms now since"
| "execution_duration_ms now (Refreshing since) = elapsed_ms now since"
| "execution_duration_ms now (Finished _ ms _) = ms"
| "execution_duration_ms now (Failed _ ms _) = ms"
| "execution_duration_ms now (Canceled ms _) = ms"

fun history_status :: "operation_execution \<Rightarrow> string" where
  "history_status (Running _ _) = ''RUNNING''"
| "history_status (Refreshing _) = ''RUNNING''"
| "history_status (Finished _ _ _) = ''FINISHED''"
| "history_status (Failed _ _ _) = ''FAILED''"
| "history_status (Canceled _ _) = ''CANCELED''"

fun error_message :: "operation_execution \<Rightarrow> string option" where
  "error_message (Running _ _) = Some ''OPERATION_RUNNING: operation is still running''"
| "error_message (Refreshing _) = Some ''OPERATION_RUNNING: operation is still running''"
| "error_message (Failed error _ _) = Some (status_message error)"
| "error_message (Canceled _ _) = Some ''OPERATION_CANCELED: operation was canceled''"
| "error_message (Finished _ _ _) = None"

fun execution_is_expired :: "operation_execution \<Rightarrow> instant \<Rightarrow> duration \<Rightarrow> bool" where
  "execution_is_expired (Running _ _) now ttl = False"
| "execution_is_expired (Refreshing _) now ttl = False"
| "execution_is_expired (Finished _ _ at) now ttl = (ttl \<le> now - at)"
| "execution_is_expired (Failed _ _ at) now ttl = (ttl \<le> now - at)"
| "execution_is_expired (Canceled _ at) now ttl = (ttl \<le> now - at)"

section \<open>Operations\<close>

definition operation_is_active :: "operation_state \<Rightarrow> bool" where
  "operation_is_active op = execution_is_active (os_state op)"

definition has_finished_task :: "(task_id \<Rightarrow> bool) \<Rightarrow> operation_state \<Rightarrow> bool" where
  "has_finished_task is_finished op =
     (case os_state op of Running _ t \<Rightarrow> is_finished t | _ \<Rightarrow> False)"

definition take_finished_task ::
  "(task_id \<Rightarrow> bool) \<Rightarrow> operation_state \<Rightarrow> (instant \<times> task_id) option \<times> operation_state" where
  "take_finished_task is_finished op =
     (if \<not> has_finished_task is_finished op then (None, op)
      else case os_state op of
        Running since t \<Rightarrow> (Some (since, t), op\<lparr>os_state := Refreshing since\<rparr>)
      | _ \<Rightarrow> (None, op))"

definition finish_refresh ::
  "instant \<Rightarrow> operation_state \<Rightarrow> instant \<Rightarrow> join_error + operation_completion \<Rightarrow> operation_state" where
  "finish_refresh now op since result =
     (case os_state op of
        Refreshing _ \<Rightarrow> op\<lparr>os_state := from_join_result now since result\<rparr>
      | _ \<Rightarrow> op)"

text \<open>The tasks an operation asks the runtime to abort.\<close>

definition abort :: "operation_state \<Rightarrow> task_id list" where
  "abort op = (case os_state op of Running _ t \<Rightarrow> [t] | _ \<Rightarrow> [])"

definition cancel :: "instant \<Rightarrow> operation_state \<Rightarrow> operation_state \<times> task_id list" where
  "cancel now op =
     (case os_state op of
        Running _ _ \<Rightarrow>
          (op\<lparr>os_state := Canceled (execution_duration_ms now (os_state op)) now\<rparr>, abort op)
      | _ \<Rightarrow> (op, []))"

definition operation_is_expired :: "operation_state \<Rightarrow> instant \<Rightarrow> duration \<Rightarrow> bool" where
  "operation_is_expired op now ttl = execution_is_expired (os_state op) now ttl"

section \<open>Its response\<close>

definition write_get_operation_status_response :: "i32 \<Rightarrow> operation_state \<Rightarrow> bytes" where
  "write_get_operation_status_response seqid op =
     write_success_response ''GetOperationStatus'' seqid
       (write_operation_status_response (execution_status_code (os_state op))
          (execution_operation_state (os_state op))
          (execution_result (os_state op) \<noteq> None)
          (error_message (os_state op)))"

section \<open>The life of an operation\<close>

text \<open>
  The states an operation passes through: it runs, may be taken for a refresh, and completes.
  The two operations on it move it forward along this order only, so a completed operation
  never changes again.
\<close>

fun stage :: "operation_execution \<Rightarrow> nat" where
  "stage (Running _ _) = 0"
| "stage (Refreshing _) = 1"
| "stage _ = 2"

definition completed :: "operation_execution \<Rightarrow> bool" where
  "completed e \<longleftrightarrow> \<not> execution_is_active e"

lemma completed_stage: "completed e \<longleftrightarrow> stage e = 2"
  by (cases e) (simp_all add: completed_def)

lemma completed_from_join_result [simp]: "completed (from_join_result now since r)"
  by (cases "(now, since, r)" rule: from_join_result.cases)
     (simp_all add: completed_def from_completion_def split: sum.split)

lemma completed_from_completion [simp]: "completed (from_completion now c)"
  by (simp add: completed_def from_completion_def split: sum.split)

lemma cancel_completed: "completed (os_state op) \<Longrightarrow> cancel now op = (op, [])"
  by (cases "os_state op") (simp_all add: cancel_def completed_def)

lemma finish_refresh_completed: "completed (os_state op) \<Longrightarrow> finish_refresh now op since r = op"
  by (cases "os_state op") (simp_all add: finish_refresh_def completed_def)

lemma take_finished_completed: "completed (os_state op) \<Longrightarrow> take_finished_task fin op = (None, op)"
  by (cases "os_state op") (simp_all add: take_finished_task_def has_finished_task_def completed_def)

lemma take_finished_stage: "stage (os_state op) \<le> stage (os_state (snd (take_finished_task fin op)))"
  by (cases "os_state op") (simp_all add: take_finished_task_def)

text \<open>Only the execution state changes; secret, session and owner of an operation are fixed.\<close>

definition same_owner :: "operation_state \<Rightarrow> operation_state \<Rightarrow> bool" where
  "same_owner a b \<longleftrightarrow>
     os_secret a = os_secret b \<and> os_session_id a = os_session_id b \<and>
     os_token_fingerprint a = os_token_fingerprint b"

lemma same_owner_refl [simp]: "same_owner a a"
  by (simp add: same_owner_def)

lemma same_owner_state [simp]: "same_owner a (a\<lparr>os_state := e\<rparr>)"
  by (simp add: same_owner_def)

lemma same_owner_ops [simp]:
  "same_owner op (snd (take_finished_task fin op))"
  "same_owner op (finish_refresh now op since r)"
  "same_owner op (fst (cancel now op))"
  by (simp_all add: take_finished_task_def finish_refresh_def cancel_def split: operation_execution.split)

end
