(* ===== verification/Async_Programs.thy ===== *)
theory Async_Programs
  imports Main
begin

text \<open>
  Asynchronous code as sequences of atomic actions. An \<open>async fn\<close> runs from one
  \<open>await\<close> to the next without yielding to another request that needs the same lock, so
  the code between acquiring a lock and releasing it is one atomic action on the shared world;
  between two actions of a request any other request, background task or clock tick may act.

  A program is a result or an action; an action that is not enabled (a future that is still
  pending) is \<open>None\<close>. \<open>pool_step\<close> interleaves programs, lets new requests arrive,
  drops the future of a request whose client has gone, and lets the environment act. What
  every program guarantees when it can rely on the others holds across every interleaving:
  that is the locale \<open>pool\<close>.
\<close>

datatype ('w, 'a) prog =
    Ret 'a
  | Act "'w \<Rightarrow> ('w \<times> ('w, 'a) prog) option"

primrec pbind :: "('w, 'a) prog \<Rightarrow> ('a \<Rightarrow> ('w, 'b) prog) \<Rightarrow> ('w, 'b) prog" where
  "pbind (Ret x) k = k x"
| "pbind (Act f) k = Act (\<lambda>w. map_option (map_prod id (\<lambda>p. pbind p k)) (f w))"

text \<open>One action that always completes, and one that waits until it has a value.\<close>

definition atomic :: "('w \<Rightarrow> 'a \<times> 'w) \<Rightarrow> ('w, 'a) prog" where
  "atomic f = Act (\<lambda>w. case f w of (x, w') \<Rightarrow> Some (w', Ret x))"

definition await :: "('w \<Rightarrow> 'a option) \<Rightarrow> ('w, 'a) prog" where
  "await f = Act (\<lambda>w. map_option (\<lambda>x. (w, Ret x)) (f w))"

primrec pfor :: "'b list \<Rightarrow> ('b \<Rightarrow> ('w, unit) prog) \<Rightarrow> ('w, unit) prog" where
  "pfor [] body = Ret ()"
| "pfor (x # xs) body = pbind (body x) (\<lambda>_. pfor xs body)"

text \<open>A run that nothing interrupts.\<close>

primrec run :: "('w, 'a) prog \<Rightarrow> 'w \<Rightarrow> ('a \<times> 'w) option" where
  "run (Ret x) = (\<lambda>w. Some (x, w))"
| "run (Act f) = (\<lambda>w. case map_option (map_prod id run) (f w) of None \<Rightarrow> None | Some (w', go) \<Rightarrow> go w')"

lemma run_pbind:
  "run (pbind p k) w = (case run p w of None \<Rightarrow> None | Some (x, w') \<Rightarrow> run (k x) w')"
proof (induction p arbitrary: w)
  case (Act f)
  show ?case
  proof (cases "f w")
    case (Some wp)
    obtain w' p where wp: "wp = (w', p)" by force
    have "run (pbind p k) w' = (case run p w' of None \<Rightarrow> None | Some (x, w'') \<Rightarrow> run (k x) w'')"
      by (rule Act.IH [of "f w" wp p]) (use Some wp in \<open>auto intro: range_eqI [of _ f w]\<close>)
    with Some wp show ?thesis by simp
  qed simp
qed simp

lemma run_atomic [simp]: "run (atomic f) w = Some (f w)"
  by (simp add: atomic_def split: prod.split)

lemma run_await [simp]: "run (await f) w = map_option (\<lambda>x. (x, w)) (f w)"
  by (simp add: await_def split: option.split)

section \<open>Rely and guarantee\<close>

text \<open>
  \<open>rg R G Q p w\<close>: started when the world is \<open>w\<close>, with others changing it between
  two actions only as \<open>R\<close> allows, every action of \<open>p\<close> changes it as \<open>G\<close>
  promises, and if \<open>p\<close> returns \<open>x\<close> its last action leaves a world \<open>w'\<close> with
  \<open>Q x w'\<close>.
\<close>

inductive rg :: "('w \<Rightarrow> 'w \<Rightarrow> bool) \<Rightarrow> ('w \<Rightarrow> 'w \<Rightarrow> bool) \<Rightarrow> ('a \<Rightarrow> 'w \<Rightarrow> bool) \<Rightarrow> ('w, 'a) prog \<Rightarrow> 'w \<Rightarrow> bool"
  for R G Q where
  rg_Ret: "Q x w \<Longrightarrow> rg R G Q (Ret x) w"
| rg_Act: "(\<And>v w' p. R w v \<Longrightarrow> f v = Some (w', p) \<Longrightarrow> G v w' \<and> rg R G Q p w') \<Longrightarrow> rg R G Q (Act f) w"

inductive_cases rg_ActE: "rg R G Q (Act f) w"
inductive_cases rg_RetE: "rg R G Q (Ret x) w"

lemma rg_weaken:
  assumes "rg R G Q p w" "\<And>x v. Q x v \<Longrightarrow> Q' x v"
  shows "rg R G Q' p w"
  using assms(1)
proof (induction rule: rg.induct)
  case (rg_Ret x w)
  then show ?case by (auto intro: rg.rg_Ret assms(2))
next
  case (rg_Act w f)
  then show ?case by (blast intro: rg.rg_Act)
qed

lemma rg_blocked: "rg R G Q (Act (\<lambda>_. None)) w"
  by (rule rg_Act) simp

lemma rg_atomic:
  assumes "\<And>v x w'. R w v \<Longrightarrow> f v = (x, w') \<Longrightarrow> G v w' \<and> Q x w'"
  shows "rg R G Q (atomic f) w"
  unfolding atomic_def
  by (rule rg_Act) (auto split: prod.splits intro!: rg_Ret dest: assms)

lemma rg_await:
  "(\<And>v x. R w v \<Longrightarrow> f v = Some x \<Longrightarrow> G v v \<and> Q x v) \<Longrightarrow> rg R G Q (await f) w"
  unfolding await_def by (rule rg_Act) (auto intro!: rg_Ret)

text \<open>
  The composition rules need the rely to be a preorder that includes the guarantee: what one
  program does is what the others have to expect.
\<close>

locale rely_guarantee =
  fixes R :: "'w \<Rightarrow> 'w \<Rightarrow> bool" and G :: "'w \<Rightarrow> 'w \<Rightarrow> bool"
  assumes R_refl: "R w w"
    and R_trans: "R u v \<Longrightarrow> R v w \<Longrightarrow> R u w"
    and G_R: "G v w \<Longrightarrow> R v w"
begin

lemma rg_later: "rg R G Q (p :: ('w, 'a) prog) w \<Longrightarrow> R w w' \<Longrightarrow> (\<And>x. Q x w \<Longrightarrow> Q x w') \<Longrightarrow> rg R G Q p w'"
proof (cases p)
  case (Ret x)
  assume "rg R G Q p w" "\<And>x. Q x w \<Longrightarrow> Q x w'"
  with Ret show ?thesis by (auto elim: rg_RetE intro: rg_Ret)
next
  case (Act f)
  assume "rg R G Q p w" "R w w'"
  with Act show ?thesis by (auto elim!: rg_ActE intro!: rg_Act intro: R_trans)
qed

lemma rg_pbind:
  assumes "rg R G Q p w" "\<And>x v. R w v \<Longrightarrow> Q x v \<Longrightarrow> rg R G Q' (k x) v"
  shows "rg R G Q' (pbind p k) w"
  using assms
proof (induction rule: rg.induct)
  case (rg_Ret x w)
  then show ?case by (simp add: R_refl)
next
  case (rg_Act w f)
  show ?case unfolding pbind.simps
  proof (rule rg.rg_Act)
    fix v w' q
    assume v: "R w v" and "map_option (map_prod id (\<lambda>p. pbind p k)) (f v) = Some (w', q)"
    then obtain p where p: "f v = Some (w', p)" "q = pbind p k" by auto
    from rg_Act.IH [OF v p(1)] have G: "G v w'" by blast
    have "rg R G Q' (k x) u" if "R w' u" "Q x u" for x u
      by (rule rg_Act.prems) (use that v G G_R R_trans in blast)+
    with rg_Act.IH [OF v p(1)] show "G v w' \<and> rg R G Q' q w'" using p(2) by blast
  qed
qed

lemma rg_pfor:
  assumes "\<And>x v. R w v \<Longrightarrow> rg R G (\<lambda>_ _. True) (body x) v"
  shows "rg R G (\<lambda>_ _. True) (pfor xs body) w"
  using assms
proof (induction xs arbitrary: w)
  case Nil
  then show ?case by (simp add: rg_Ret)
next
  case (Cons x xs)
  have "rg R G (\<lambda>_ _. True) (body x) w" by (rule Cons.prems) (rule R_refl)
  then show ?case unfolding pfor.simps
    by (rule rg_pbind) (blast intro: Cons.IH Cons.prems R_trans)
qed

lemma run_rg: "rg R G Q p w \<Longrightarrow> run p w = Some (x, w') \<Longrightarrow> R w w' \<and> Q x w'"
proof (induction p arbitrary: w)
  case (Ret y)
  then show ?case by (auto simp: R_refl elim: rg_RetE)
next
  case (Act f)
  from Act.prems(2) obtain v p where p: "f w = Some (v, p)" "run p v = Some (x, w')"
    by (auto split: option.splits)
  then have step: "G w v \<and> rg R G Q p v" using Act.prems(1) R_refl by (blast elim: rg_ActE)
  have "R v w' \<and> Q x w'"
    by (rule Act.IH [of "f w" "(v, p)" p]) (use p step in \<open>auto intro: range_eqI [of _ f w]\<close>)
  with step show ?case using G_R R_trans by blast
qed

end

section \<open>Interleaving\<close>

inductive pool_step ::
  "(('w, 'a) prog \<Rightarrow> bool) \<Rightarrow> ('w \<Rightarrow> 'w \<Rightarrow> bool) \<Rightarrow>
   'w \<times> ('w, 'a) prog list \<Rightarrow> 'w \<times> ('w, 'a) prog list \<Rightarrow> bool"
  for request env where
  act: "i < length ps \<Longrightarrow> ps ! i = Act f \<Longrightarrow> f w = Some (w', p) \<Longrightarrow>
    pool_step request env (w, ps) (w', ps[i := p])"
| arrive: "request p \<Longrightarrow> pool_step request env (w, ps) (w, ps @ [p])"
| drop: "pool_step request env (w, ps @ p # qs) (w, ps @ qs)"
| env: "env w w' \<Longrightarrow> pool_step request env (w, ps) (w', ps)"

text \<open>
  Programs that guarantee what they rely on can be interleaved freely: whatever steps are
  taken, in whatever order, the world changes only as the rely allows.
\<close>

locale pool = rely_guarantee R G
  for R :: "'w \<Rightarrow> 'w \<Rightarrow> bool" and G :: "'w \<Rightarrow> 'w \<Rightarrow> bool" +
  fixes I :: "'w \<Rightarrow> bool"
    and request :: "('w, 'a) prog \<Rightarrow> bool"
    and env :: "'w \<Rightarrow> 'w \<Rightarrow> bool"
  assumes R_I: "R w w' \<Longrightarrow> I w \<Longrightarrow> I w'"
    and request_rg: "request p \<Longrightarrow> I w \<Longrightarrow> rg R G (\<lambda>_ _. True) p w"
    and env_R: "env w w' \<Longrightarrow> R w w'"
begin

definition pool_ok :: "'w \<times> ('w, 'a) prog list \<Rightarrow> bool" where
  "pool_ok c \<longleftrightarrow> I (fst c) \<and> list_all (\<lambda>p. rg R G (\<lambda>_ _. True) p (fst c)) (snd c)"

lemma pool_ok_later: "pool_ok (w, ps) \<Longrightarrow> R w w' \<Longrightarrow> pool_ok (w', ps)"
  by (auto simp: pool_ok_def list_all_iff intro: rg_later R_I)

lemma pool_step_R:
  assumes "pool_step request env c c'" "pool_ok c"
  shows "R (fst c) (fst c') \<and> pool_ok c'"
  using assms
proof (induction rule: pool_step.induct)
  case (act i ps f w w' p)
  then have "rg R G (\<lambda>_ _. True) (Act f) w" by (auto simp: pool_ok_def list_all_length)
  then have step: "G w w' \<and> rg R G (\<lambda>_ _. True) p w'"
    using act(3) R_refl by (blast elim: rg_ActE)
  then have "pool_ok (w', ps)" using act.prems G_R by (blast intro: pool_ok_later)
  with step show ?case
    by (auto simp: pool_ok_def list_all_iff G_R dest!: set_update_subset_insert [THEN subsetD])
next
  case (arrive p w ps)
  then show ?case by (simp add: pool_ok_def R_refl request_rg)
next
  case (drop w ps p qs)
  then show ?case by (simp add: pool_ok_def R_refl)
next
  case (env w w' ps)
  then have "R w w'" by (simp add: env_R)
  with env.prems show ?case by (auto intro: pool_ok_later)
qed

lemma pool_steps_R:
  assumes "(pool_step request env)\<^sup>*\<^sup>* c c'" "pool_ok c"
  shows "R (fst c) (fst c') \<and> pool_ok c'"
  using assms
proof (induction rule: rtranclp_induct)
  case base
  then show ?case by (simp add: R_refl)
next
  case (step c' c'')
  with pool_step_R [of c' c''] show ?case using R_trans by blast
qed

end

end
