(* ===== verification/Thrift_Service.thy ===== *)
theory Thrift_Service
  imports Thrift_State Async_Programs
begin

text \<open>
  The Thrift service (\<open>DatabricksThriftService\<close> in \<open>src/src/thrift.rs\<close>): sessions,
  operations and the RPC handlers. The two maps behind \<open>RwLock\<close>s, the clock, the UUID
  source and the tasks given to the runtime are the fields of \<open>world\<close>; every critical
  section of a method is one function on it, and a method is the program of its critical
  sections in the source's order.

  \<open>svc\<close> collects the configuration the service reads and what it calls outside this
  code: the UUID and SHA-256 crates, the query engine (a relation between a request and its
  possible results) and Arrow's formatting.
\<close>

section \<open>The world\<close>

record svc_config =
  cfg_max_sessions :: nat
  cfg_max_operations :: nat
  cfg_idle_session_timeout :: duration
  cfg_completed_operation_ttl :: duration
  cfg_default_catalog :: string
  cfg_default_schema :: string

record svc =
  sv_config :: svc_config
  sv_uuid :: "nat \<Rightarrow> bytes"
  sv_uuid_string :: "bytes \<Rightarrow> string"
  sv_fingerprint :: "string \<Rightarrow> bytes"
  sv_fns :: arrow_fns
  sv_mem :: "record_batch \<Rightarrow> nat"
  sv_execute :: "string \<Rightarrow> string \<Rightarrow> string \<Rightarrow> string \<Rightarrow> string \<Rightarrow> query_result res \<Rightarrow> bool"
  sv_get_columns :: "string \<Rightarrow> get_columns_req \<Rightarrow> string \<Rightarrow> string \<Rightarrow> query_result res \<Rightarrow> bool"

text \<open>What a spawned task was given to do; \<open>ColumnsJob\<close> starts with its operation's id.\<close>

datatype job =
    StatementJob string string string string string
  | ColumnsJob string string get_columns_req string string

datatype task_status = TaskRunning | TaskFinished "join_error + operation_completion"

datatype outcome = Succeeded | OutcomeFailed string

text \<open>
  \<open>w_tasks\<close> holds every spawned task, its number being its position; \<open>w_outcomes\<close>
  are the values sent through one-shot channels, \<open>w_receivers\<close> the channels whose
  receiver is still there.
\<close>

record world =
  w_now :: instant
  w_uuids :: nat
  w_sessions :: "(string \<times> session_state) list"
  w_operations :: "(string \<times> operation_state) list"
  w_tasks :: "(job \<times> task_status) list"
  w_aborted :: "task_id list"
  w_receivers :: "task_id list"
  w_outcomes :: "(task_id \<times> outcome) list"

definition service_new :: "instant \<Rightarrow> world" where
  "service_new now =
     \<lparr>w_now = now, w_uuids = 0, w_sessions = [], w_operations = [], w_tasks = [], w_aborted = [],
      w_receivers = [], w_outcomes = []\<rparr>"

definition is_finished :: "world \<Rightarrow> task_id \<Rightarrow> bool" where
  "is_finished w t \<longleftrightarrow> t < length (w_tasks w) \<and> snd (w_tasks w ! t) \<noteq> TaskRunning"

definition join_result :: "world \<Rightarrow> task_id \<Rightarrow> (join_error + operation_completion) option" where
  "join_result w t =
     (if t < length (w_tasks w) then
        (case snd (w_tasks w ! t) of TaskRunning \<Rightarrow> None | TaskFinished r \<Rightarrow> Some r)
      else None)"

definition read_now :: "(world, instant) prog" where
  "read_now = atomic (\<lambda>w. (w_now w, w))"

text \<open>
  \<open>Uuid::new_v4()\<close> draws the next identifier of \<open>sv_uuid\<close>. It shares no state with
  other requests, so the two identifiers a request draws before it takes the lock are drawn
  here as the lock is taken.
\<close>

definition draw_uuids :: "svc \<Rightarrow> world \<Rightarrow> (bytes \<times> bytes) \<times> world" where
  "draw_uuids sv w =
     ((sv_uuid sv (w_uuids w), sv_uuid sv (Suc (w_uuids w))), w\<lparr>w_uuids := w_uuids w + 2\<rparr>)"

section \<open>Statements that do nothing\<close>

definition is_noop_statement :: "string \<Rightarrow> bool" where
  "is_noop_statement statement =
     (let normalized = trim (trim_end_matches (CHR '';'') (trim statement));
          upper = to_ascii_uppercase normalized
      in upper = ''SET'' \<or> starts_with upper ''SET '')"

section \<open>Critical sections\<close>

definition session_matches :: "svc \<Rightarrow> handle \<Rightarrow> string \<Rightarrow> session_state \<Rightarrow> bool" where
  "session_matches sv h bearer_token s \<longleftrightarrow>
     ss_secret s = h_secret h \<and> ss_token_fingerprint s = sv_fingerprint sv bearer_token"

definition operation_matches :: "svc \<Rightarrow> handle \<Rightarrow> string \<Rightarrow> operation_state \<Rightarrow> bool" where
  "operation_matches sv h bearer_token op \<longleftrightarrow>
     os_secret op = h_secret h \<and> os_token_fingerprint op = sv_fingerprint sv bearer_token"

datatype lookup = Unknown | Expired | Found session_state

definition session_for_section :: "svc \<Rightarrow> handle \<Rightarrow> string \<Rightarrow> instant \<Rightarrow> world \<Rightarrow> lookup \<times> world" where
  "session_for_section sv h bearer_token now w =
     (case map_of (w_sessions w) (h_id h) of
        None \<Rightarrow> (Unknown, w)
      | Some s \<Rightarrow>
          if session_is_expired s now (cfg_idle_session_timeout (sv_config sv))
          then (Expired, w\<lparr>w_sessions := AList.delete (h_id h) (w_sessions w)\<rparr>)
          else if session_matches sv h bearer_token s
          then let s' = s\<lparr>ss_last_access := now\<rparr> in
               (Found s', w\<lparr>w_sessions := AList.update (h_id h) s' (w_sessions w)\<rparr>)
          else (Unknown, w))"

definition remove_operations_section :: "string \<Rightarrow> world \<Rightarrow> world" where
  "remove_operations_section session_id w =
     w\<lparr>w_operations := filter (\<lambda>(_, op). os_session_id op \<noteq> session_id) (w_operations w),
       w_aborted := concat (map (\<lambda>(_, op). if os_session_id op = session_id then abort op else []) (w_operations w))
                    @ w_aborted w\<rparr>"

definition remove_session_section :: "svc \<Rightarrow> handle \<Rightarrow> string \<Rightarrow> world \<Rightarrow> bool \<times> world" where
  "remove_session_section sv h bearer_token w =
     (case map_of (w_sessions w) (h_id h) of
        Some s \<Rightarrow>
          if session_matches sv h bearer_token s
          then (True, w\<lparr>w_sessions := AList.delete (h_id h) (w_sessions w)\<rparr>)
          else (False, w)
      | None \<Rightarrow> (False, w))"

definition touch_section :: "string \<Rightarrow> world \<Rightarrow> world" where
  "touch_section session_id w =
     (case map_of (w_sessions w) session_id of
        Some s \<Rightarrow> w\<lparr>w_sessions := AList.update session_id (s\<lparr>ss_last_access := w_now w\<rparr>) (w_sessions w)\<rparr>
      | None \<Rightarrow> w)"

definition open_session_section ::
  "svc \<Rightarrow> string \<Rightarrow> string \<Rightarrow> string \<Rightarrow> world \<Rightarrow> (bytes \<times> bytes) option \<times> world" where
  "open_session_section sv bearer_token catalog schema w0 =
     (let ((guid, secret), w) = draw_uuids sv w0;
          sid = sv_uuid_string sv guid
      in if cfg_max_sessions (sv_config sv) \<le> length (w_sessions w) then (None, w)
         else (Some (guid, secret), w\<lparr>w_sessions := AList.update sid
            \<lparr>ss_id = sid, ss_secret = secret, ss_token_fingerprint = sv_fingerprint sv bearer_token,
             ss_catalog = catalog, ss_schema = schema, ss_last_access = w_now w\<rparr> (w_sessions w)\<rparr>))"

text \<open>\<open>job\<close> is what the spawned task does, given its operation's id.\<close>

definition start_operation_section ::
  "svc \<Rightarrow> string \<Rightarrow> session_state \<Rightarrow> (string \<Rightarrow> job) \<Rightarrow> instant \<Rightarrow> world \<Rightarrow>
   (bytes \<times> bytes \<times> task_id) option \<times> world" where
  "start_operation_section sv bearer_token session job started w0 =
     (let ((guid, secret), w) = draw_uuids sv w0;
          query_id = sv_uuid_string sv guid;
          t = length (w_tasks w)
      in if cfg_max_operations (sv_config sv) \<le> length (w_operations w) then (None, w)
         else (Some (guid, secret, t), w\<lparr>w_tasks := w_tasks w @ [(job query_id, TaskRunning)],
          w_operations := AList.update query_id
            \<lparr>os_secret = secret, os_session_id = ss_id session,
             os_token_fingerprint = sv_fingerprint sv bearer_token,
             os_state = Running started t\<rparr> (w_operations w)\<rparr>))"

text \<open>The same for a metadata operation, whose request keeps the receiver of its task's outcome.\<close>

definition start_columns_section ::
  "svc \<Rightarrow> string \<Rightarrow> session_state \<Rightarrow> (string \<Rightarrow> job) \<Rightarrow> instant \<Rightarrow> world \<Rightarrow>
   (bytes \<times> bytes \<times> task_id) option \<times> world" where
  "start_columns_section sv bearer_token session job started w =
     (case start_operation_section sv bearer_token session job started w of
        (None, w') \<Rightarrow> (None, w')
      | (Some (guid, secret, t), w') \<Rightarrow> (Some (guid, secret, t), w'\<lparr>w_receivers := t # w_receivers w'\<rparr>))"

definition take_finished_section :: "string \<Rightarrow> world \<Rightarrow> (instant \<times> task_id) option \<times> world" where
  "take_finished_section operation_id w =
     (case map_of (w_operations w) operation_id of
        None \<Rightarrow> (None, w)
      | Some op \<Rightarrow>
          let (taken, op') = take_finished_task (is_finished w) op in
          (taken, w\<lparr>w_operations := AList.update operation_id op' (w_operations w)\<rparr>))"

definition finish_refresh_section ::
  "string \<Rightarrow> instant \<Rightarrow> join_error + operation_completion \<Rightarrow> world \<Rightarrow> world" where
  "finish_refresh_section operation_id started result w =
     (case map_of (w_operations w) operation_id of
        None \<Rightarrow> w
      | Some op \<Rightarrow>
          w\<lparr>w_operations := AList.update operation_id (finish_refresh (w_now w) op started result)
              (w_operations w)\<rparr>)"

definition expire_sessions_section :: "svc \<Rightarrow> instant \<Rightarrow> world \<Rightarrow> string list \<times> world" where
  "expire_sessions_section sv now w =
     (let expired = (\<lambda>(sid, s). session_is_expired s now (cfg_idle_session_timeout (sv_config sv))) in
      (map fst (filter expired (w_sessions w)),
       w\<lparr>w_sessions := filter (\<lambda>entry. \<not> expired entry) (w_sessions w)\<rparr>))"

definition operation_dropped :: "svc \<Rightarrow> instant \<Rightarrow> string list \<Rightarrow> operation_state \<Rightarrow> bool" where
  "operation_dropped sv now expired_sessions op \<longleftrightarrow>
     os_session_id op \<in> set expired_sessions \<or>
     operation_is_expired op now (cfg_completed_operation_ttl (sv_config sv))"

definition expire_operations_section :: "svc \<Rightarrow> instant \<Rightarrow> string list \<Rightarrow> world \<Rightarrow> world" where
  "expire_operations_section sv now expired_sessions w =
     w\<lparr>w_operations := filter (\<lambda>(_, op). \<not> operation_dropped sv now expired_sessions op) (w_operations w),
       w_aborted := concat (map (\<lambda>(_, op). if operation_dropped sv now expired_sessions op then abort op else [])
                              (w_operations w)) @ w_aborted w\<rparr>"

definition remove_operation_section :: "svc \<Rightarrow> handle \<Rightarrow> string \<Rightarrow> world \<Rightarrow> bool \<times> world" where
  "remove_operation_section sv h bearer_token w =
     (case map_of (w_operations w) (h_id h) of
        Some op \<Rightarrow>
          if operation_matches sv h bearer_token op
          then (True, w\<lparr>w_operations := AList.delete (h_id h) (w_operations w),
                        w_aborted := abort op @ w_aborted w\<rparr>)
          else (False, w)
      | None \<Rightarrow> (False, w))"

definition cancel_operation_section :: "svc \<Rightarrow> handle \<Rightarrow> string \<Rightarrow> world \<Rightarrow> bool \<times> world" where
  "cancel_operation_section sv h bearer_token w =
     (case map_of (w_operations w) (h_id h) of
        Some op \<Rightarrow>
          if operation_matches sv h bearer_token op
          then let (op', ts) = cancel (w_now w) op in
               (True, w\<lparr>w_operations := AList.update (h_id h) op' (w_operations w),
                        w_aborted := ts @ w_aborted w\<rparr>)
          else (False, w)
      | None \<Rightarrow> (False, w))"

definition remove_unreturned_section :: "string \<Rightarrow> world \<Rightarrow> world" where
  "remove_unreturned_section operation_id w =
     (case map_of (w_operations w) operation_id of
        Some op \<Rightarrow> w\<lparr>w_operations := AList.delete operation_id (w_operations w),
                     w_aborted := abort op @ w_aborted w\<rparr>
      | None \<Rightarrow> w)"

section \<open>Methods\<close>

definition refresh_operation :: "string \<Rightarrow> (world, unit) prog" where
  "refresh_operation operation_id =
     pbind (atomic (take_finished_section operation_id)) (\<lambda>finished_task.
       case finished_task of
         None \<Rightarrow> Ret ()
       | Some (started, t) \<Rightarrow>
           pbind (await (\<lambda>w. join_result w t)) (\<lambda>result.
             atomic (\<lambda>w. ((), finish_refresh_section operation_id started result w))))"

definition refresh_finished_operations :: "(world, unit) prog" where
  "refresh_finished_operations =
     pbind (atomic (\<lambda>w. (map fst (filter (\<lambda>(_, op). has_finished_task (is_finished w) op) (w_operations w)), w)))
       (\<lambda>operation_ids. pfor operation_ids refresh_operation)"

definition cleanup_expired :: "svc \<Rightarrow> (world, unit) prog" where
  "cleanup_expired sv =
     pbind refresh_finished_operations (\<lambda>_.
     pbind read_now (\<lambda>now.
     pbind (atomic (expire_sessions_section sv now)) (\<lambda>expired_sessions.
       atomic (\<lambda>w. ((), expire_operations_section sv now expired_sessions w)))))"

definition remove_operations_for_session :: "string \<Rightarrow> (world, unit) prog" where
  "remove_operations_for_session session_id = atomic (\<lambda>w. ((), remove_operations_section session_id w))"

definition session_for :: "svc \<Rightarrow> handle option \<Rightarrow> string \<Rightarrow> (world, session_state option) prog" where
  "session_for sv handle bearer_token =
     (case handle of
        None \<Rightarrow> Ret None
      | Some h \<Rightarrow>
          pbind read_now (\<lambda>now.
          pbind (atomic (session_for_section sv h bearer_token now)) (\<lambda>found.
            case found of
              Unknown \<Rightarrow> Ret None
            | Expired \<Rightarrow> pbind (remove_operations_for_session (h_id h)) (\<lambda>_. Ret None)
            | Found s \<Rightarrow> Ret (Some s))))"

definition remove_session :: "svc \<Rightarrow> handle option \<Rightarrow> string \<Rightarrow> (world, bool) prog" where
  "remove_session sv handle bearer_token =
     (case handle of
        None \<Rightarrow> Ret False
      | Some h \<Rightarrow>
          pbind (atomic (remove_session_section sv h bearer_token)) (\<lambda>valid.
            if \<not> valid then Ret False
            else pbind (remove_operations_for_session (h_id h)) (\<lambda>_. Ret True)))"

definition touch_session :: "string \<Rightarrow> (world, unit) prog" where
  "touch_session session_id = atomic (\<lambda>w. ((), touch_section session_id w))"

definition with_operation ::
  "svc \<Rightarrow> handle option \<Rightarrow> string \<Rightarrow> (operation_state \<Rightarrow> 'r) \<Rightarrow> (world, 'r option) prog" where
  "with_operation sv handle bearer_token write =
     (case handle of
        None \<Rightarrow> Ret None
      | Some h \<Rightarrow>
          pbind (cleanup_expired sv) (\<lambda>_.
          pbind (refresh_operation (h_id h)) (\<lambda>_.
          pbind (atomic (\<lambda>w. (map_of (w_operations w) (h_id h), w))) (\<lambda>found.
            case found of
              None \<Rightarrow> Ret None
            | Some op \<Rightarrow>
                if operation_matches sv h bearer_token op
                then pbind (touch_session (os_session_id op)) (\<lambda>_. Ret (Some (write op)))
                else Ret None))))"

definition remove_operation :: "svc \<Rightarrow> handle option \<Rightarrow> string \<Rightarrow> (world, bool) prog" where
  "remove_operation sv handle bearer_token =
     (case handle of
        None \<Rightarrow> Ret False
      | Some h \<Rightarrow>
          pbind (cleanup_expired sv) (\<lambda>_. atomic (remove_operation_section sv h bearer_token)))"

definition cancel_operation :: "svc \<Rightarrow> handle option \<Rightarrow> string \<Rightarrow> (world, bool) prog" where
  "cancel_operation sv handle bearer_token =
     (case handle of
        None \<Rightarrow> Ret False
      | Some h \<Rightarrow>
          pbind (cleanup_expired sv) (\<lambda>_. atomic (cancel_operation_section sv h bearer_token)))"

definition remove_unreturned_operation :: "string \<Rightarrow> (world, unit) prog" where
  "remove_unreturned_operation operation_id = atomic (\<lambda>w. ((), remove_unreturned_section operation_id w))"

definition query_history :: "svc \<Rightarrow> string \<Rightarrow> string \<Rightarrow> (world, query_history option) prog" where
  "query_history sv bearer_token query_id =
     pbind (cleanup_expired sv) (\<lambda>_.
     pbind (refresh_operation query_id) (\<lambda>_.
     pbind (atomic (\<lambda>w. ((map_of (w_operations w) query_id, w_now w), w))) (\<lambda>(found, now).
       case found of
         None \<Rightarrow> Ret None
       | Some op \<Rightarrow>
           if os_token_fingerprint op = sv_fingerprint sv bearer_token
           then pbind (touch_session (os_session_id op)) (\<lambda>_.
             Ret (Some \<lparr>qh_query_id = query_id, qh_status = history_status (os_state op),
                        qh_duration = execution_duration_ms now (os_state op)\<rparr>))
           else Ret None)))"

section \<open>RPC handlers\<close>

text \<open>\<open>read_args(payload, reader)?\<close> at the start of a handler.\<close>

definition with_args ::
  "bytes \<Rightarrow> 'r rd \<Rightarrow> ('r \<Rightarrow> (world, bytes res) prog) \<Rightarrow> (world, bytes res) prog" where
  "with_args payload reader k =
     (case read_args payload reader of
        None \<Rightarrow> Act (\<lambda>_. None)
      | Some (Inl e) \<Rightarrow> Ret (Inl e)
      | Some (Inr request) \<Rightarrow> k request)"

definition rpc_open_session :: "svc \<Rightarrow> string \<Rightarrow> message \<Rightarrow> (world, bytes res) prog" where
  "rpc_open_session sv bearer_token msg =
     with_args (msg_payload msg) read_open_session_req (\<lambda>request.
       pbind (cleanup_expired sv) (\<lambda>_.
       let catalog = (case osr_catalog request of Some c \<Rightarrow> c | None \<Rightarrow> cfg_default_catalog (sv_config sv));
           schema = (case osr_schema request of Some s \<Rightarrow> s | None \<Rightarrow> cfg_default_schema (sv_config sv))
       in pbind (atomic (open_session_section sv bearer_token catalog schema)) (\<lambda>opened.
          Ret (Inr (case opened of
              Some (session_id, secret) \<Rightarrow>
                write_open_session_response (msg_seqid msg) session_id secret catalog schema
                  (osr_get_info_types request)
            | None \<Rightarrow> write_open_session_error (msg_seqid msg) ''maximum session count exceeded'')))))"

definition rpc_close_session :: "svc \<Rightarrow> string \<Rightarrow> message \<Rightarrow> (world, bytes res) prog" where
  "rpc_close_session sv bearer_token msg =
     with_args (msg_payload msg) (read_close_session_req (sv_uuid_string sv)) (\<lambda>handle.
       pbind (remove_session sv handle bearer_token) (\<lambda>removed.
         Ret (Inr (write_close_session_response (msg_seqid msg) removed))))"

definition rpc_get_info :: "svc \<Rightarrow> string \<Rightarrow> message \<Rightarrow> (world, bytes res) prog" where
  "rpc_get_info sv bearer_token msg =
     with_args (msg_payload msg) (read_get_info_req (sv_uuid_string sv)) (\<lambda>request.
       pbind (session_for sv (gir_session_handle request) bearer_token) (\<lambda>session.
         case session of
           None \<Rightarrow> Ret (Inr (write_get_info_invalid (msg_seqid msg)))
         | Some s \<Rightarrow> Ret (Inr (write_get_info_response (msg_seqid msg) (gir_info_type request) (ss_catalog s)))))"

text \<open>\<open>await_operation_completion\<close>: a dropped sender is an internal failure.\<close>

definition await_operation_completion :: "task_id \<Rightarrow> (world, outcome) prog" where
  "await_operation_completion t =
     await (\<lambda>w. case map_of (w_outcomes w) t of
        Some result \<Rightarrow> Some result
      | None \<Rightarrow> if is_finished w t then Some (OutcomeFailed (status_message client_error_internal)) else None)"

definition rpc_get_columns :: "svc \<Rightarrow> string \<Rightarrow> message \<Rightarrow> (world, bytes res) prog" where
  "rpc_get_columns sv bearer_token msg =
     with_args (msg_payload msg) (read_get_columns_req (sv_uuid_string sv)) (\<lambda>request.
       pbind (cleanup_expired sv) (\<lambda>_.
       pbind (session_for sv (gcr_session_handle request) bearer_token) (\<lambda>session.
         case session of
           None \<Rightarrow> Ret (Inr (write_get_columns_invalid (msg_seqid msg) ''invalid session handle''))
         | Some s \<Rightarrow>
             pbind read_now (\<lambda>operation_started.
             pbind (atomic (start_columns_section sv bearer_token s
                      (\<lambda>query_id. ColumnsJob query_id bearer_token request (ss_catalog s) (ss_schema s))
                      operation_started)) (\<lambda>started.
               case started of
                 None \<Rightarrow> Ret (Inr (write_get_columns_error (msg_seqid msg) ''maximum operation count exceeded''))
               | Some (operation_id, secret, t) \<Rightarrow>
                   pbind (await_operation_completion t) (\<lambda>result.
                     case result of
                       Succeeded \<Rightarrow> Ret (Inr (write_get_columns_response (msg_seqid msg) operation_id secret))
                     | OutcomeFailed failure \<Rightarrow>
                         pbind (remove_unreturned_operation (sv_uuid_string sv operation_id)) (\<lambda>_.
                           Ret (Inr (write_get_columns_error (msg_seqid msg) failure)))))))))"

definition rpc_execute_statement :: "svc \<Rightarrow> string \<Rightarrow> message \<Rightarrow> (world, bytes res) prog" where
  "rpc_execute_statement sv bearer_token msg =
     with_args (msg_payload msg) (read_execute_statement_req (sv_uuid_string sv)) (\<lambda>request.
       pbind (cleanup_expired sv) (\<lambda>_.
       pbind (session_for sv (esr_session_handle request) bearer_token) (\<lambda>session.
         case session of
           None \<Rightarrow> Ret (Inr (write_execute_statement_invalid (msg_seqid msg) ''invalid session handle''))
         | Some s \<Rightarrow>
             pbind (atomic (\<lambda>w. start_operation_section sv bearer_token s
                      (\<lambda>query_id. StatementJob query_id bearer_token (trim (esr_statement request))
                         (ss_catalog s) (ss_schema s)) (w_now w) w)) (\<lambda>started.
               Ret (Inr (case started of
                   None \<Rightarrow> write_execute_statement_error (msg_seqid msg) ''maximum operation count exceeded''
                 | Some (operation_id, secret, _) \<Rightarrow>
                     write_execute_statement_response (msg_seqid msg) operation_id secret))))))"

definition rpc_get_operation_status :: "svc \<Rightarrow> string \<Rightarrow> message \<Rightarrow> (world, bytes res) prog" where
  "rpc_get_operation_status sv bearer_token msg =
     with_args (msg_payload msg) (read_operation_req (sv_uuid_string sv)) (\<lambda>handle.
       pbind (with_operation sv handle bearer_token (write_get_operation_status_response (msg_seqid msg)))
         (\<lambda>r. Ret (Inr (case r of Some bs \<Rightarrow> bs | None \<Rightarrow> write_get_operation_status_invalid (msg_seqid msg)))))"

definition handle_id :: "handle option \<Rightarrow> string" where
  "handle_id handle = (case handle of Some h \<Rightarrow> h_id h | None \<Rightarrow> [])"

definition rpc_get_query_id :: "svc \<Rightarrow> string \<Rightarrow> message \<Rightarrow> (world, bytes res) prog" where
  "rpc_get_query_id sv bearer_token msg =
     with_args (msg_payload msg) (read_operation_req (sv_uuid_string sv)) (\<lambda>handle.
       pbind (with_operation sv handle bearer_token
                (\<lambda>_. write_get_query_id_response (msg_seqid msg) (handle_id handle)))
         (\<lambda>r. Ret (Inr (case r of Some bs \<Rightarrow> bs | None \<Rightarrow> write_get_query_id_response (msg_seqid msg) []))))"

definition metadata_of_operation :: "svc \<Rightarrow> i32 \<Rightarrow> operation_state \<Rightarrow> bytes" where
  "metadata_of_operation sv seqid op =
     (case execution_result (os_state op) of
        Some result \<Rightarrow> write_get_result_set_metadata_response (sv_fns sv) seqid result
      | None \<Rightarrow> write_get_result_set_metadata_not_ready seqid (error_message (os_state op)))"

definition rpc_get_result_set_metadata :: "svc \<Rightarrow> string \<Rightarrow> message \<Rightarrow> (world, bytes res) prog" where
  "rpc_get_result_set_metadata sv bearer_token msg =
     with_args (msg_payload msg) (read_operation_req (sv_uuid_string sv)) (\<lambda>handle.
       pbind (with_operation sv handle bearer_token (metadata_of_operation sv (msg_seqid msg)))
         (\<lambda>r. Ret (Inr (case r of Some bs \<Rightarrow> bs | None \<Rightarrow> write_get_result_set_metadata_invalid (msg_seqid msg)))))"

definition rows_of_operation :: "svc \<Rightarrow> i32 \<Rightarrow> fetch_results_req \<Rightarrow> operation_state \<Rightarrow> bytes" where
  "rows_of_operation sv seqid request op =
     (case execution_result (os_state op) of
        Some result \<Rightarrow>
          write_fetch_results_response (sv_fns sv) seqid result True
            (case frr_start_row_offset request of Some off \<Rightarrow> off | None \<Rightarrow> 0) (frr_max_rows request)
      | None \<Rightarrow> write_fetch_results_not_ready seqid (error_message (os_state op)))"

definition rpc_fetch_results :: "svc \<Rightarrow> string \<Rightarrow> message \<Rightarrow> (world, bytes res) prog" where
  "rpc_fetch_results sv bearer_token msg =
     with_args (msg_payload msg) (read_fetch_results_req (sv_uuid_string sv)) (\<lambda>request.
       pbind (with_operation sv (frr_operation_handle request) bearer_token
                (rows_of_operation sv (msg_seqid msg) request))
         (\<lambda>r. Ret (Inr (case r of Some bs \<Rightarrow> bs | None \<Rightarrow> write_fetch_results_invalid (msg_seqid msg)))))"

definition rpc_close_operation :: "svc \<Rightarrow> string \<Rightarrow> message \<Rightarrow> (world, bytes res) prog" where
  "rpc_close_operation sv bearer_token msg =
     with_args (msg_payload msg) (read_operation_req (sv_uuid_string sv)) (\<lambda>handle.
       pbind (remove_operation sv handle bearer_token) (\<lambda>removed.
         Ret (Inr (write_close_operation_response (msg_seqid msg) removed))))"

definition rpc_cancel_operation :: "svc \<Rightarrow> string \<Rightarrow> message \<Rightarrow> (world, bytes res) prog" where
  "rpc_cancel_operation sv bearer_token msg =
     with_args (msg_payload msg) (read_operation_req (sv_uuid_string sv)) (\<lambda>handle.
       pbind (cancel_operation sv handle bearer_token) (\<lambda>canceled.
         Ret (Inr (write_cancel_operation_response (msg_seqid msg) canceled))))"

definition handle_decoded :: "svc \<Rightarrow> string \<Rightarrow> message \<Rightarrow> (world, bytes res) prog" where
  "handle_decoded sv bearer_token msg =
     (if msg_type msg \<noteq> T_MESSAGE_CALL then
        Ret (Inr (write_application_exception (msg_name msg) (msg_seqid msg) ''expected a Thrift CALL message''))
      else if msg_name msg = ''OpenSession'' then rpc_open_session sv bearer_token msg
      else if msg_name msg = ''CloseSession'' then rpc_close_session sv bearer_token msg
      else if msg_name msg = ''GetInfo'' then rpc_get_info sv bearer_token msg
      else if msg_name msg = ''GetColumns'' then rpc_get_columns sv bearer_token msg
      else if msg_name msg = ''ExecuteStatement'' then rpc_execute_statement sv bearer_token msg
      else if msg_name msg = ''GetOperationStatus'' then rpc_get_operation_status sv bearer_token msg
      else if msg_name msg = ''GetQueryId'' then rpc_get_query_id sv bearer_token msg
      else if msg_name msg = ''GetResultSetMetadata'' then rpc_get_result_set_metadata sv bearer_token msg
      else if msg_name msg = ''FetchResults'' then rpc_fetch_results sv bearer_token msg
      else if msg_name msg = ''CloseOperation'' then rpc_close_operation sv bearer_token msg
      else if msg_name msg = ''CancelOperation'' then rpc_cancel_operation sv bearer_token msg
      else Ret (Inr (write_application_exception (msg_name msg) (msg_seqid msg)
             (''unsupported Thrift method `'' @ msg_name msg @ ''`''))))"

definition handle_request :: "svc \<Rightarrow> string \<Rightarrow> bytes \<Rightarrow> (world, bytes res) prog" where
  "handle_request sv bearer_token body =
     (case decode_message body of
        None \<Rightarrow> Act (\<lambda>_. None)
      | Some (Inl error) \<Rightarrow> Ret (Inl error)
      | Some (Inr msg) \<Rightarrow> handle_decoded sv bearer_token msg)"

section \<open>Tasks and the clock\<close>

definition operation_completion_outcome :: "operation_completion \<Rightarrow> outcome" where
  "operation_completion_outcome completion =
     (case oc_result completion of Inr _ \<Rightarrow> Succeeded | Inl error \<Rightarrow> OutcomeFailed (status_message error))"

text \<open>What the code of a task computes: an engine error leaves it only as its client error.\<close>

fun job_result :: "svc \<Rightarrow> job \<Rightarrow> client_err + query_result \<Rightarrow> bool" where
  "job_result sv (StatementJob query_id token statement catalog schema) r \<longleftrightarrow>
     (if is_noop_statement statement then r = Inr (empty_result (sv_mem sv))
      else (\<exists>res. sv_execute sv query_id token statement catalog schema res \<and> r = map_sum client_error id res))"
| "job_result sv (ColumnsJob query_id token request catalog schema) r \<longleftrightarrow>
     (\<exists>res. sv_get_columns sv token request catalog schema res \<and> r = map_sum client_error id res)"

text \<open>The last section of a metadata task: publish the result, then report it.\<close>

definition complete_columns_section :: "string \<Rightarrow> task_id \<Rightarrow> operation_completion \<Rightarrow> world \<Rightarrow> world" where
  "complete_columns_section query_id t completion w =
     (let found = map_of (w_operations w) query_id;
          ops = (case found of
                   Some op \<Rightarrow> AList.update query_id
                     (op\<lparr>os_state := from_completion (w_now w) completion\<rparr>) (w_operations w)
                 | None \<Rightarrow> w_operations w);
          delivered = (t \<in> set (w_receivers w))
      in w\<lparr>w_operations := (if found \<noteq> None \<and> \<not> delivered then AList.delete query_id ops else ops),
           w_outcomes := (if delivered then (t, operation_completion_outcome completion) # w_outcomes w
                          else w_outcomes w)\<rparr>)"

definition set_task :: "task_id \<Rightarrow> join_error + operation_completion \<Rightarrow> world \<Rightarrow> world" where
  "set_task t result w =
     w\<lparr>w_tasks := (w_tasks w)[t := (fst (w_tasks w ! t), TaskFinished result)]\<rparr>"

inductive runtime_step :: "svc \<Rightarrow> world \<Rightarrow> world \<Rightarrow> bool" for sv where
  tick: "w_now w \<le> now \<Longrightarrow> runtime_step sv w (w\<lparr>w_now := now\<rparr>)"
| statement_done:
    "t < length (w_tasks w) \<Longrightarrow> w_tasks w ! t = (StatementJob q tok stmt cat sch, TaskRunning) \<Longrightarrow>
     job_result sv (StatementJob q tok stmt cat sch) (oc_result completion) \<Longrightarrow>
     runtime_step sv w (set_task t (Inr completion) w)"
| columns_done:
    "t < length (w_tasks w) \<Longrightarrow> w_tasks w ! t = (ColumnsJob q tok req cat sch, TaskRunning) \<Longrightarrow>
     job_result sv (ColumnsJob q tok req cat sch) (oc_result completion) \<Longrightarrow>
     runtime_step sv w (set_task t (Inr completion) (complete_columns_section q t completion w))"
| task_panicked:
    "t < length (w_tasks w) \<Longrightarrow> snd (w_tasks w ! t) = TaskRunning \<Longrightarrow>
     runtime_step sv w (set_task t (Inl (JoinPanic m)) w)"
| task_cancelled:
    "t < length (w_tasks w) \<Longrightarrow> snd (w_tasks w ! t) = TaskRunning \<Longrightarrow> t \<in> set (w_aborted w) \<Longrightarrow>
     runtime_step sv w (set_task t (Inl JoinCancelled) w)"
| receiver_dropped:
    "runtime_step sv w (w\<lparr>w_receivers := removeAll t (w_receivers w)\<rparr>)"

text \<open>
  Everything that runs against the service: requests, query-history lookups and the periodic
  clean-up, each as a program whose result no longer matters.
\<close>

inductive service_request :: "svc \<Rightarrow> (world, unit) prog \<Rightarrow> bool" for sv where
  "service_request sv (pbind (handle_request sv token body) (\<lambda>_. Ret ()))"
| "service_request sv (pbind (query_history sv token query_id) (\<lambda>_. Ret ()))"
| "service_request sv (cleanup_expired sv)"

definition service_step :: "svc \<Rightarrow> world \<times> (world, unit) prog list \<Rightarrow> world \<times> (world, unit) prog list \<Rightarrow> bool" where
  "service_step sv = pool_step (service_request sv) (runtime_step sv)"

definition reachable :: "svc \<Rightarrow> world \<Rightarrow> bool" where
  "reachable sv w \<longleftrightarrow> (\<exists>start ps. (service_step sv)\<^sup>*\<^sup>* (service_new start, []) (w, ps))"

end
