(* ===== verification/Thrift_Invariant.thy ===== *)
theory Thrift_Invariant
  imports Thrift_Service
begin

text \<open>
  The invariant of the Thrift service: both maps stay within their configured sizes, every
  identifier in them was issued by the UUID source, an operation belongs to the same principal
  as its session, a running operation has a task of its own which nobody has asked to abort,
  every recorded failure is one of the fixed client errors, and every result was computed by the
  task of its own operation, with a token of the operation's principal. The lemmas show it for
  every critical section of \<open>Thrift_Service\<close>.
\<close>

section \<open>The invariant\<close>

definition uuid_key :: "svc \<Rightarrow> nat \<Rightarrow> string" where
  "uuid_key sv n = sv_uuid_string sv (sv_uuid sv n)"

text \<open>What the service relies on of version 4 UUIDs: they never repeat.\<close>

definition uuids_unique :: "svc \<Rightarrow> bool" where
  "uuids_unique sv \<longleftrightarrow> inj (uuid_key sv)"

definition issued :: "svc \<Rightarrow> world \<Rightarrow> string \<Rightarrow> bool" where
  "issued sv w k \<longleftrightarrow> (\<exists>n < w_uuids w. k = uuid_key sv n)"

definition running_task :: "operation_state \<Rightarrow> task_id option" where
  "running_task op = (case os_state op of Running _ t \<Rightarrow> Some t | _ \<Rightarrow> None)"

definition error_ok :: "client_err \<Rightarrow> bool" where
  "error_ok e \<longleftrightarrow> e \<in> range client_error"

definition state_ok :: "operation_execution \<Rightarrow> bool" where
  "state_ok e \<longleftrightarrow> (case e of Failed err _ _ \<Rightarrow> error_ok err | _ \<Rightarrow> True)"

definition result_ok :: "join_error + operation_completion \<Rightarrow> bool" where
  "result_ok r \<longleftrightarrow> (case r of Inr c \<Rightarrow> (case oc_result c of Inl e \<Rightarrow> error_ok e | Inr _ \<Rightarrow> True) | Inl _ \<Rightarrow> True)"

definition session_ok :: "svc \<Rightarrow> world \<Rightarrow> string \<Rightarrow> session_state \<Rightarrow> bool" where
  "session_ok sv w k s \<longleftrightarrow> ss_id s = k \<and> issued sv w k"

text \<open>\<open>owned sv w sid f\<close>: the session identified by \<open>sid\<close>, if it is still open, belongs to \<open>f\<close>.\<close>

definition owned :: "svc \<Rightarrow> world \<Rightarrow> string \<Rightarrow> bytes \<Rightarrow> bool" where
  "owned sv w sid f \<longleftrightarrow>
     issued sv w sid \<and> (\<forall>s. map_of (w_sessions w) sid = Some s \<longrightarrow> ss_token_fingerprint s = f)"

definition operation_ok :: "svc \<Rightarrow> world \<Rightarrow> string \<Rightarrow> operation_state \<Rightarrow> bool" where
  "operation_ok sv w k op \<longleftrightarrow>
     issued sv w k \<and> owned sv w (os_session_id op) (os_token_fingerprint op) \<and> state_ok (os_state op) \<and>
     (\<forall>t. running_task op = Some t \<longrightarrow> t < length (w_tasks w) \<and> t \<notin> set (w_aborted w))"

definition tasks_unique :: "(string \<times> operation_state) list \<Rightarrow> bool" where
  "tasks_unique ops \<longleftrightarrow>
     (\<forall>(k, a) \<in> set ops. \<forall>(k', b) \<in> set ops. running_task a \<noteq> None \<longrightarrow> running_task a = running_task b \<longrightarrow> k = k')"

subsection \<open>Where results come from\<close>

fun job_id :: "job \<Rightarrow> string" where
  "job_id (StatementJob query_id _ _ _ _) = query_id"
| "job_id (ColumnsJob query_id _ _ _ _) = query_id"

fun job_token :: "job \<Rightarrow> string" where
  "job_token (StatementJob _ token _ _ _) = token"
| "job_token (ColumnsJob _ token _ _ _) = token"

definition job_of :: "world \<Rightarrow> task_id \<Rightarrow> job" where
  "job_of w t = fst (w_tasks w ! t)"

text \<open>The job was spawned for the operation \<open>k\<close> of the principal with fingerprint \<open>f\<close>.\<close>

definition belongs :: "svc \<Rightarrow> string \<Rightarrow> bytes \<Rightarrow> job \<Rightarrow> bool" where
  "belongs sv k f job \<longleftrightarrow> job_id job = k \<and> sv_fingerprint sv (job_token job) = f"

definition computed :: "svc \<Rightarrow> world \<Rightarrow> string \<Rightarrow> bytes \<Rightarrow> query_result \<Rightarrow> bool" where
  "computed sv w k f r \<longleftrightarrow> (\<exists>t < length (w_tasks w). belongs sv k f (job_of w t) \<and> job_result sv (job_of w t) (Inr r))"

definition op_origin :: "svc \<Rightarrow> world \<Rightarrow> string \<Rightarrow> operation_state \<Rightarrow> bool" where
  "op_origin sv w k op \<longleftrightarrow>
     (\<forall>t. running_task op = Some t \<longrightarrow> t < length (w_tasks w) \<and> belongs sv k (os_token_fingerprint op) (job_of w t)) \<and>
     (\<forall>r. execution_result (os_state op) = Some r \<longrightarrow> computed sv w k (os_token_fingerprint op) r)"

definition task_origin :: "svc \<Rightarrow> world \<Rightarrow> job \<Rightarrow> task_status \<Rightarrow> bool" where
  "task_origin sv w job st \<longleftrightarrow>
     issued sv w (job_id job) \<and>
     (\<forall>op. map_of (w_operations w) (job_id job) = Some op \<longrightarrow> os_token_fingerprint op = sv_fingerprint sv (job_token job)) \<and>
     (\<forall>c. st = TaskFinished (Inr c) \<longrightarrow> job_result sv job (oc_result c))"

definition origin_inv :: "svc \<Rightarrow> world \<Rightarrow> bool" where
  "origin_inv sv w \<longleftrightarrow>
     (\<forall>(k, op) \<in> set (w_operations w). op_origin sv w k op) \<and>
     (\<forall>(job, st) \<in> set (w_tasks w). task_origin sv w job st)"

definition service_inv :: "svc \<Rightarrow> world \<Rightarrow> bool" where
  "service_inv sv w \<longleftrightarrow>
     distinct_keys (w_sessions w) \<and> distinct_keys (w_operations w) \<and>
     length (w_sessions w) \<le> cfg_max_sessions (sv_config sv) \<and>
     length (w_operations w) \<le> cfg_max_operations (sv_config sv) \<and>
     (\<forall>(k, s) \<in> set (w_sessions w). session_ok sv w k s) \<and>
     (\<forall>(k, op) \<in> set (w_operations w). operation_ok sv w k op) \<and>
     tasks_unique (w_operations w) \<and>
     set (w_aborted w) \<subseteq> {..<length (w_tasks w)} \<and>
     (\<forall>(job, st) \<in> set (w_tasks w). case st of TaskFinished r \<Rightarrow> result_ok r | TaskRunning \<Rightarrow> True) \<and>
     origin_inv sv w"

lemma service_invD:
  assumes "service_inv sv w"
  shows "distinct_keys (w_sessions w)" "distinct_keys (w_operations w)"
    "length (w_sessions w) \<le> cfg_max_sessions (sv_config sv)"
    "length (w_operations w) \<le> cfg_max_operations (sv_config sv)"
    "\<And>k s. (k, s) \<in> set (w_sessions w) \<Longrightarrow> session_ok sv w k s"
    "\<And>k op. (k, op) \<in> set (w_operations w) \<Longrightarrow> operation_ok sv w k op"
    "tasks_unique (w_operations w)"
    "set (w_aborted w) \<subseteq> {..<length (w_tasks w)}"
    "\<And>job r. (job, TaskFinished r) \<in> set (w_tasks w) \<Longrightarrow> result_ok r"
    "origin_inv sv w"
  using assms unfolding service_inv_def by (auto; force)+

text \<open>Tasks are never forgotten, and what they were given to do does not change.\<close>

definition jobs_kept :: "world \<Rightarrow> world \<Rightarrow> bool" where
  "jobs_kept w w' \<longleftrightarrow>
     length (w_tasks w) \<le> length (w_tasks w') \<and> (\<forall>t < length (w_tasks w). job_of w' t = job_of w t)"

lemma jobs_kept_same [simp]: "w_tasks w' = w_tasks w \<Longrightarrow> jobs_kept w w'"
  by (simp add: jobs_kept_def job_of_def)

lemma jobs_kept_append [simp]: "w_tasks w' = w_tasks w @ ts \<Longrightarrow> jobs_kept w w'"
  by (simp add: jobs_kept_def job_of_def nth_append)

lemma jobs_kept_trans: "jobs_kept u v \<Longrightarrow> jobs_kept v w \<Longrightarrow> jobs_kept u w"
  by (auto simp: jobs_kept_def)

lemma computed_mono: "computed sv w k f r \<Longrightarrow> jobs_kept w w' \<Longrightarrow> computed sv w' k f r"
  unfolding computed_def jobs_kept_def by (metis less_le_trans)

lemma op_origin_mono: "op_origin sv w k op \<Longrightarrow> jobs_kept w w' \<Longrightarrow> op_origin sv w' k op"
  unfolding op_origin_def using computed_mono by (auto simp: jobs_kept_def)

lemma issued_mono: "issued sv w k \<Longrightarrow> w_uuids w \<le> w_uuids w' \<Longrightarrow> issued sv w' k"
  unfolding issued_def using less_le_trans by blast

lemma origin_inv_channels [simp]:
  "origin_inv sv (w\<lparr>w_receivers := rs\<rparr>) = origin_inv sv w" "origin_inv sv (w\<lparr>w_outcomes := os\<rparr>) = origin_inv sv w"
  "jobs_kept w (w'\<lparr>w_receivers := rs\<rparr>) = jobs_kept w w'" "jobs_kept w (w'\<lparr>w_outcomes := os\<rparr>) = jobs_kept w w'"
  by (simp_all add: origin_inv_def op_origin_def task_origin_def computed_def issued_def jobs_kept_def job_of_def)

text \<open>A job that is made for the operation it is given, and with the token of its request.\<close>

definition makes_job :: "string \<Rightarrow> (string \<Rightarrow> job) \<Rightarrow> bool" where
  "makes_job token job \<longleftrightarrow> (\<forall>query_id. job_id (job query_id) = query_id \<and> job_token (job query_id) = token)"

text \<open>What may be recorded for the operation \<open>k\<close>: only what was computed for it.\<close>

definition refresh_ok :: "svc \<Rightarrow> world \<Rightarrow> string \<Rightarrow> join_error + operation_completion \<Rightarrow> bool" where
  "refresh_ok sv w k result \<longleftrightarrow>
     (\<forall>op c r. map_of (w_operations w) k = Some op \<longrightarrow> result = Inr c \<longrightarrow> oc_result c = Inr r \<longrightarrow>
        computed sv w k (os_token_fingerprint op) r)"

lemma task_refresh_ok:
  assumes "origin_inv sv w" "t < length (w_tasks w)" "\<And>c. result = Inr c \<Longrightarrow> job_result sv (job_of w t) (oc_result c)"
  shows "refresh_ok sv w (job_id (job_of w t)) result"
proof -
  have "task_origin sv w (job_of w t) (snd (w_tasks w ! t))"
    using assms(1) nth_mem [OF assms(2)] unfolding origin_inv_def job_of_def by (auto simp: case_prod_unfold)
  then show ?thesis using assms(2,3) unfolding refresh_ok_def computed_def belongs_def task_origin_def by metis
qed

lemma result_of_join: "execution_result (from_join_result now started result) = Some r \<Longrightarrow> \<exists>c. result = Inr c \<and> oc_result c = Inr r"
  by (cases "(now, started, result)" rule: from_join_result.cases) (auto simp: from_completion_def split: sum.splits)

text \<open>How the maps may change.\<close>

lemma set_update_entry:
  "distinct_keys m \<Longrightarrow> set (AList.update k v m) = insert (k, v) {(k', v') \<in> set m. k' \<noteq> k}"
  by (induction m) (auto simp: rev_image_eqI)

lemma origin_sessions:
  assumes "origin_inv sv w" "w_operations w' = w_operations w" "w_tasks w' = w_tasks w" "w_uuids w \<le> w_uuids w'"
  shows "origin_inv sv w'"
  using assms op_origin_mono [of sv w _ _ w'] issued_mono [of sv w _ w']
  by (fastforce simp: origin_inv_def task_origin_def)

lemma origin_drop:
  assumes "origin_inv sv w" "distinct_keys (w_operations w)" "w_operations w' = filter P (w_operations w)"
    "w_tasks w' = w_tasks w" "w_uuids w' = w_uuids w"
  shows "origin_inv sv w'"
  using assms op_origin_mono [of sv w _ _ w'] issued_mono [of sv w _ w']
  by (fastforce simp: origin_inv_def task_origin_def map_of_filter_distinct simp del: map_of_eq_Some_iff split: option.splits if_splits)

lemma origin_update:
  assumes inv: "origin_inv sv w" and keys: "distinct_keys (w_operations w)" and op: "map_of (w_operations w) k = Some op"
    and op': "os_token_fingerprint op' = os_token_fingerprint op" "running_task op' = None"
      "\<And>r. execution_result (os_state op') = Some r \<Longrightarrow> computed sv w k (os_token_fingerprint op) r"
    and w': "w_operations w' = AList.update k op' (w_operations w)" "w_tasks w' = w_tasks w" "w_uuids w' = w_uuids w"
  shows "origin_inv sv w'"
proof -
  have mono: "op_origin sv w' k' v" if "op_origin sv w k' v" for k' v using op_origin_mono [OF that, of w'] w'(2) by simp
  have "op_origin sv w' k op'"
    by (rule mono) (use op' in \<open>simp add: op_origin_def\<close>)
  moreover have "op_origin sv w' k' v" if "(k', v) \<in> set (w_operations w)" for k' v
    using inv that mono by (auto simp: origin_inv_def)
  ultimately have "\<forall>(k', v) \<in> set (w_operations w'). op_origin sv w' k' v"
    unfolding w'(1) using set_update_entry [OF keys, of k op'] by auto
  moreover have "task_origin sv w' job st" if "(job, st) \<in> set (w_tasks w)" for job st
  proof -
    have t: "task_origin sv w job st" using inv that by (auto simp: origin_inv_def)
    then have "issued sv w' (job_id job)" using issued_mono [of sv w _ w'] w'(3) by (simp add: task_origin_def)
    with t op op'(1) show ?thesis by (auto simp: task_origin_def w'(1) update_conv' simp del: map_of_eq_Some_iff split: if_splits)
  qed
  ultimately show ?thesis using w'(2) by (auto simp: origin_inv_def)
qed

lemma origin_insert:
  assumes inv: "origin_inv sv w" and keys: "distinct_keys (w_operations w)"
    and new: "\<And>k'. issued sv w k' \<Longrightarrow> k' \<noteq> k" "issued sv w' k"
    and op: "os_state op = Running started (length (w_tasks w))" "belongs sv k (os_token_fingerprint op) job"
    and w': "w_operations w' = AList.update k op (w_operations w)" "w_tasks w' = w_tasks w @ [(job, TaskRunning)]" "w_uuids w \<le> w_uuids w'"
  shows "origin_inv sv w'"
proof -
  have jobs: "jobs_kept w w'" using w'(2) by simp
  have "op_origin sv w' k op" using op by (simp add: op_origin_def running_task_def w'(2) job_of_def)
  moreover have "op_origin sv w' k' v" if "(k', v) \<in> set (w_operations w)" for k' v
    using inv that op_origin_mono [OF _ jobs] by (auto simp: origin_inv_def)
  ultimately have "\<forall>(k', v) \<in> set (w_operations w'). op_origin sv w' k' v"
    unfolding w'(1) using set_update_entry [OF keys, of k op] by auto
  moreover have "task_origin sv w' j st" if "(j, st) \<in> set (w_tasks w)" for j st
  proof -
    have t: "task_origin sv w j st" using inv that by (auto simp: origin_inv_def)
    then have "issued sv w (job_id j)" by (simp add: task_origin_def)
    then have "job_id j \<noteq> k" "issued sv w' (job_id j)" using new(1) issued_mono w'(3) by auto
    with t show ?thesis by (simp add: task_origin_def w'(1) update_conv' del: map_of_eq_Some_iff)
  qed
  moreover have "task_origin sv w' job TaskRunning"
    using op(2) new(2) by (auto simp: task_origin_def belongs_def w'(1) update_conv' simp del: map_of_eq_Some_iff)
  ultimately show ?thesis using w'(2) by (auto simp: origin_inv_def)
qed

lemma origin_set_task:
  assumes inv: "origin_inv sv w" and t: "t < length (w_tasks w)"
    and r: "\<And>c. r = Inr c \<Longrightarrow> job_result sv (job_of w t) (oc_result c)"
  shows "origin_inv sv (set_task t r w)" "jobs_kept w (set_task t r w)"
proof -
  let ?w = "set_task t r w" and ?e = "(job_of w t, TaskFinished r)"
  have tasks: "w_tasks ?w = (w_tasks w)[t := ?e]" by (simp add: set_task_def job_of_def)
  have "job_of ?w t' = job_of w t'" if "t' < length (w_tasks w)" for t'
    using that unfolding job_of_def tasks by (cases "t' = t") simp_all
  then show jobs: "jobs_kept w ?w" by (simp add: jobs_kept_def tasks)
  have same: "w_operations ?w = w_operations w" "issued sv ?w = issued sv w" by (auto simp: set_task_def issued_def)
  have old: "task_origin sv w (job_of w t) (snd (w_tasks w ! t))" using inv nth_mem [OF t] unfolding origin_inv_def job_of_def
    by (auto simp: case_prod_unfold)
  then have "task_origin sv ?w (job_of w t) (TaskFinished r)" using r by (simp add: task_origin_def same)
  moreover have "task_origin sv ?w j st" if "(j, st) \<in> set (w_tasks w)" for j st
    using inv that by (auto simp: origin_inv_def task_origin_def same)
  ultimately have "\<forall>(j, st) \<in> set (w_tasks ?w). task_origin sv ?w j st"
    unfolding tasks using set_update_subset_insert [of "w_tasks w" t ?e] by auto
  then show "origin_inv sv ?w" using inv op_origin_mono [OF _ jobs] by (auto simp: origin_inv_def same)
qed

text \<open>
  What others may do between two actions of a program: time passes, identifiers are used up,
  the invariant is kept, and a session or operation that is gone does not come back under its
  identifier nor change its owner.
\<close>

definition kept :: "svc \<Rightarrow> world \<Rightarrow> world \<Rightarrow> bool" where
  "kept sv w w' \<longleftrightarrow>
     w_now w \<le> w_now w' \<and> w_uuids w \<le> w_uuids w' \<and>
     (\<forall>k s'. issued sv w k \<longrightarrow> map_of (w_sessions w') k = Some s' \<longrightarrow>
        (\<exists>s. map_of (w_sessions w) k = Some s \<and> ss_token_fingerprint s = ss_token_fingerprint s')) \<and>
     (\<forall>k op'. issued sv w k \<longrightarrow> map_of (w_operations w') k = Some op' \<longrightarrow>
        (\<exists>op. map_of (w_operations w) k = Some op \<and> same_owner op op')) \<and>
     jobs_kept w w'"

definition preserved :: "svc \<Rightarrow> world \<Rightarrow> world \<Rightarrow> bool" where
  "preserved sv w w' \<longleftrightarrow> service_inv sv w' \<and> kept sv w w'"

definition rely :: "svc \<Rightarrow> world \<Rightarrow> world \<Rightarrow> bool" where
  "rely sv w w' \<longleftrightarrow> (service_inv sv w \<longrightarrow> preserved sv w w')"

lemma kept_refl: "kept sv w w"
  by (simp add: kept_def)

lemma same_owner_trans: "same_owner a b \<Longrightarrow> same_owner b c \<Longrightarrow> same_owner a c"
  by (simp add: same_owner_def)

lemma keptD:
  assumes "kept sv w w'" "issued sv w k"
  shows "map_of (w_sessions w') k = Some s' \<Longrightarrow>
      \<exists>s. map_of (w_sessions w) k = Some s \<and> ss_token_fingerprint s = ss_token_fingerprint s'"
    and "map_of (w_operations w') k = Some op' \<Longrightarrow>
      \<exists>op. map_of (w_operations w) k = Some op \<and> same_owner op op'"
    and "issued sv w' k"
    and "jobs_kept w w'"
  using assms issued_mono unfolding kept_def by blast+

lemma kept_trans:
  assumes "kept sv u v" "kept sv v w"
  shows "kept sv u w"
  unfolding kept_def
proof (intro conjI allI impI)
  show "w_now u \<le> w_now w" "w_uuids u \<le> w_uuids w" using assms by (auto simp: kept_def)
  show "jobs_kept u w" using assms jobs_kept_trans by (auto simp: kept_def)
  fix k assume k: "issued sv u k"
  note uv = keptD [OF assms(1) k]
  note vw = keptD [OF assms(2) uv(3)]
  show "\<exists>s. map_of (w_sessions u) k = Some s \<and> ss_token_fingerprint s = ss_token_fingerprint s'"
    if "map_of (w_sessions w) k = Some s'" for s'
    using vw(1) [OF that] uv(1) by fastforce
  show "\<exists>op. map_of (w_operations u) k = Some op \<and> same_owner op op'"
    if "map_of (w_operations w) k = Some op'" for op'
    using vw(2) [OF that] uv(2) same_owner_trans by fastforce
qed

lemma rely_refl: "rely sv w w"
  by (simp add: rely_def preserved_def kept_refl)

lemma preserved_refl: "service_inv sv w \<Longrightarrow> preserved sv w w"
  by (simp add: preserved_def kept_refl)

lemma rely_trans: "rely sv u v \<Longrightarrow> rely sv v w \<Longrightarrow> rely sv u w"
  unfolding rely_def preserved_def using kept_trans by blast

lemma owned_kept: "owned sv w sid f \<Longrightarrow> kept sv w w' \<Longrightarrow> owned sv w' sid f"
  unfolding owned_def using keptD(1,3) by fastforce

definition gone :: "svc \<Rightarrow> world \<Rightarrow> string \<Rightarrow> bool" where
  "gone sv w sid \<longleftrightarrow> issued sv w sid \<and> map_of (w_sessions w) sid = None"

lemma gone_kept: "gone sv w sid \<Longrightarrow> kept sv w w' \<Longrightarrow> gone sv w' sid"
  unfolding gone_def using keptD(1,3) by (metis not_None_eq option.distinct(1))

section \<open>Changes to the map of operations\<close>

lemma delete_filter: "AList.delete k m = filter (\<lambda>(k', _). k' \<noteq> k) m"
  by (auto simp: AList.delete_eq intro!: filter_cong)

lemma update_same: "map_of m k = Some v \<Longrightarrow> AList.update k v m = m"
  by (induction m) (auto split: if_splits)

lemma running_task_abort: "set (abort op) = {t. running_task op = Some t}"
  by (simp add: abort_def running_task_def split: operation_execution.split)

text \<open>Dropping operations and asking for their tasks to be aborted.\<close>

lemma inv_drop_operations:
  assumes inv: "service_inv sv w"
    and ops: "w_operations w' = filter P (w_operations w)"
    and ab: "set (w_aborted w') \<subseteq> set (w_aborted w) \<union> {t. \<exists>(k, op) \<in> set (w_operations w). \<not> P (k, op) \<and> running_task op = Some t}"
    and same: "w_sessions w' = w_sessions w" "w_tasks w' = w_tasks w" "w_uuids w' = w_uuids w"
  shows "service_inv sv w'"
proof -
  note d = service_invD [OF inv]
  have issued: "issued sv w' k = issued sv w k" for k by (simp add: issued_def same)
  have op: "operation_ok sv w' k op" if "(k, op) \<in> set (w_operations w')" for k op
  proof -
    from that ops have old: "(k, op) \<in> set (w_operations w)" "P (k, op)" by auto
    have "t \<notin> set (w_aborted w')" if "running_task op = Some t" for t
    proof
      assume "t \<in> set (w_aborted w')"
      then consider "t \<in> set (w_aborted w)"
        | k' op' where "(k', op') \<in> set (w_operations w)" "\<not> P (k', op')" "running_task op' = Some t"
        using ab by blast
      then show False
      proof cases
        case 1
        then show False using d(6) [OF old(1)] that by (auto simp: operation_ok_def)
      next
        case 2
        then have "k = k'" using d(7) old(1) that unfolding tasks_unique_def by fastforce
        then have "op' = op" using d(2) old(1) 2(1) by (metis eq_key_imp_eq_value)
        then show False using 2 old(2) \<open>k = k'\<close> by blast
      qed
    qed
    with d(6) [OF old(1)] show ?thesis by (auto simp: operation_ok_def owned_def issued same)
  qed
  have "set (w_aborted w') \<subseteq> {..<length (w_tasks w')}"
  proof
    fix t assume "t \<in> set (w_aborted w')"
    with ab consider "t \<in> set (w_aborted w)"
      | k op where "(k, op) \<in> set (w_operations w)" "running_task op = Some t" by blast
    then show "t \<in> {..<length (w_tasks w')}"
      using d(6,8) by cases (auto simp: same operation_ok_def)
  qed
  moreover have "tasks_unique (w_operations w')"
    using d(7) unfolding tasks_unique_def ops by fastforce
  moreover have "length (w_operations w') \<le> cfg_max_operations (sv_config sv)"
    unfolding ops by (rule le_trans [OF length_filter_le d(4)])
  moreover have "origin_inv sv w'" by (rule origin_drop [OF d(10,2) ops same(2,3)])
  ultimately show ?thesis using inv d(2) op
    unfolding service_inv_def by (auto simp: same issued session_ok_def ops)
qed

text \<open>Changing the execution state of one operation, to one that is not running.\<close>

lemma inv_update_operation:
  assumes inv: "service_inv sv w" and op: "map_of (w_operations w) k = Some op"
    and op': "same_owner op op'" "running_task op' = None" "state_ok (os_state op')"
      "\<And>r. execution_result (os_state op') = Some r \<Longrightarrow> computed sv w k (os_token_fingerprint op) r"
    and ops: "w_operations w' = AList.update k op' (w_operations w)"
    and ab: "set (w_aborted w') \<subseteq> set (w_aborted w) \<union> {t. running_task op = Some t}"
    and same: "w_sessions w' = w_sessions w" "w_tasks w' = w_tasks w" "w_uuids w' = w_uuids w"
  shows "service_inv sv w'"
proof -
  note d = service_invD [OF inv]
  have mem: "(k, op) \<in> set (w_operations w)" using op by (rule map_of_SomeD)
  have issued: "issued sv w' k = issued sv w k" for k by (simp add: issued_def same)
  have set: "set (w_operations w') = insert (k, op') {(k', v') \<in> set (w_operations w). k' \<noteq> k}"
    by (simp add: ops set_update_entry [OF d(2)])
  have old: "t \<notin> set (w_aborted w')" if "(k', v) \<in> set (w_operations w)" "k' \<noteq> k" "running_task v = Some t" for k' v t
  proof
    assume "t \<in> set (w_aborted w')"
    with ab d(6) [OF that(1)] that(3) have "running_task op = Some t" by (auto simp: operation_ok_def)
    then show False using d(7) mem that unfolding tasks_unique_def by fastforce
  qed
  have "operation_ok sv w' k' v" if "(k', v) \<in> set (w_operations w')" for k' v
    using that d(6) d(6) [OF mem] op'(1-3) old
    unfolding set by (auto simp: operation_ok_def owned_def issued same same_owner_def)
  moreover have "tasks_unique (w_operations w')"
    using d(7) op'(2) unfolding tasks_unique_def set by fastforce
  moreover have "set (w_aborted w') \<subseteq> {..<length (w_tasks w')}"
    using ab d(8) d(6) [OF mem] by (auto simp: same operation_ok_def)
  moreover have "length (w_operations w') \<le> cfg_max_operations (sv_config sv)"
    using d(4) length_update_present [of k "w_operations w" op'] mem by (force simp: ops)
  moreover have "origin_inv sv w'"
    by (rule origin_update [OF d(10,2) op _ op'(2,4) ops same(2,3)]) (use op'(1) in \<open>simp_all add: same_owner_def\<close>)
  ultimately show ?thesis using inv d(2)
    unfolding service_inv_def by (auto simp: same issued session_ok_def ops)
qed


text \<open>A new operation under a fresh identifier, with a task of its own.\<close>

lemma fresh_key:
  assumes "uuids_unique sv" "w_uuids w \<le> n" "issued sv w k"
  shows "k \<noteq> uuid_key sv n"
  using assms unfolding issued_def uuids_unique_def inj_def by (metis not_le)

lemma inv_insert_operation:
  assumes inv: "service_inv sv w" and unique: "uuids_unique sv"
    and room: "length (w_operations w) < cfg_max_operations (sv_config sv)"
    and op: "owned sv w (os_session_id op) (os_token_fingerprint op)" "os_state op = Running started (length (w_tasks w))"
      "belongs sv (uuid_key sv (w_uuids w)) (os_token_fingerprint op) job"
    and ops: "w_operations w' = AList.update (uuid_key sv (w_uuids w)) op (w_operations w)"
    and new: "w_tasks w' = w_tasks w @ [(job, TaskRunning)]" "w_uuids w' = w_uuids w + 2"
    and same: "w_sessions w' = w_sessions w" "w_aborted w' = w_aborted w"
  shows "service_inv sv w'"
proof -
  note d = service_invD [OF inv]
  let ?k = "uuid_key sv (w_uuids w)"
  have issued: "issued sv w k \<Longrightarrow> issued sv w' k" for k by (erule issued_mono) (simp add: new)
  have k: "issued sv w' ?k" unfolding issued_def by (intro exI [of _ "w_uuids w"]) (simp add: new)
  have fresh: "k \<noteq> ?k" if "(k, v) \<in> set (w_operations w)" for k v
    using d(6) [OF that] fresh_key [OF unique order_refl] by (auto simp: operation_ok_def)
  then have nk: "?k \<notin> fst ` set (w_operations w)" by force
  have set: "set (w_operations w') = insert (?k, op) (set (w_operations w))"
    using fresh by (auto simp: ops set_update_entry [OF d(2)])
  have owned: "owned sv w' sid f" if "owned sv w sid f" for sid f
    using that issued by (auto simp: owned_def same)
  have "operation_ok sv w' k v" if "(k, v) \<in> set (w_operations w')" for k v
    using that d(6,8) op(1,2) k unfolding set
    by (auto simp: operation_ok_def state_ok_def running_task_def issued owned same new)
       (fastforce simp: operation_ok_def state_ok_def running_task_def issued owned same new)+
  moreover have "tasks_unique (w_operations w')"
  proof -
    have new: "running_task op = Some (length (w_tasks w))" using op(2) by (simp add: running_task_def)
    have old: "running_task v \<noteq> Some (length (w_tasks w))" if "(k, v) \<in> set (w_operations w)" for k v
      using d(6) [OF that] by (auto simp: operation_ok_def)
    show ?thesis using d(7) new old unfolding tasks_unique_def set by fastforce
  qed
  moreover have "length (w_operations w') \<le> cfg_max_operations (sv_config sv)"
    using room length_update_le [of ?k op "w_operations w"] by (simp add: ops)
  moreover have "set (w_aborted w') \<subseteq> {..<length (w_tasks w')}" using d(8) by (auto simp: same new)
  moreover have "origin_inv sv w'"
    by (rule origin_insert [OF d(10,2) _ k op(2,3) ops new(1)]) (use fresh_key [OF unique order_refl] new(2) in auto)
  ultimately show ?thesis using inv d(2) issued
    unfolding service_inv_def by (auto simp: same session_ok_def ops new)
qed

section \<open>Changes to the map of sessions\<close>

text \<open>Sessions may vanish or be touched; their identity and owner stay.\<close>

lemma inv_change_sessions:
  assumes inv: "service_inv sv w"
    and keys: "distinct_keys (w_sessions w')" "length (w_sessions w') \<le> length (w_sessions w)"
    and old: "\<And>k s'. map_of (w_sessions w') k = Some s' \<Longrightarrow>
       \<exists>s. map_of (w_sessions w) k = Some s \<and> ss_id s = ss_id s' \<and> ss_token_fingerprint s = ss_token_fingerprint s'"
    and same: "w_operations w' = w_operations w" "w_tasks w' = w_tasks w" "w_uuids w' = w_uuids w"
      "w_aborted w' = w_aborted w" "w_now w \<le> w_now w'"
  shows "preserved sv w w'"
  unfolding preserved_def
proof
  note d = service_invD [OF inv]
  have issued: "issued sv w' k = issued sv w k" for k by (simp add: issued_def same)
  have "session_ok sv w' k s" if "(k, s) \<in> set (w_sessions w')" for k s
    using old [of k s] that keys(1) d(5) by (fastforce simp: session_ok_def issued dest: map_of_SomeD)
  moreover have owned: "owned sv w' sid f" if "owned sv w sid f" for sid f
    using that old by (fastforce simp: owned_def issued)
  moreover have "operation_ok sv w' k op" if "(k, op) \<in> set (w_operations w)" for k op
    using d(6) [OF that] owned by (auto simp: operation_ok_def issued same)
  moreover have "origin_inv sv w'" by (rule origin_sessions [OF d(10) same(1,2)]) (simp add: same)
  ultimately show "service_inv sv w'" using inv keys
    unfolding service_inv_def by (auto simp: same)
  show "kept sv w w'" using old by (auto simp: kept_def same simp del: map_of_eq_Some_iff)
qed

lemma inv_insert_session:
  assumes inv: "service_inv sv w" and unique: "uuids_unique sv"
    and room: "length (w_sessions w) < cfg_max_sessions (sv_config sv)"
    and sess: "w_sessions w' = AList.update (uuid_key sv (w_uuids w)) s (w_sessions w)" "ss_id s = uuid_key sv (w_uuids w)"
    and same: "w_operations w' = w_operations w" "w_tasks w' = w_tasks w" "w_uuids w' = w_uuids w + 2"
      "w_aborted w' = w_aborted w" "w_now w' = w_now w"
  shows "preserved sv w w'"
  unfolding preserved_def
proof
  note d = service_invD [OF inv]
  let ?k = "uuid_key sv (w_uuids w)"
  have issued: "issued sv w k \<Longrightarrow> issued sv w' k" for k by (erule issued_mono) (simp add: same)
  have k: "issued sv w' ?k" unfolding issued_def by (intro exI [of _ "w_uuids w"]) (simp add: same)
  have other: "map_of (w_sessions w') k = map_of (w_sessions w) k" if "issued sv w k" for k
    using fresh_key [OF unique order_refl that] by (simp add: sess update_conv')
  have owned: "owned sv w' sid f" if "owned sv w sid f" for sid f
    using that issued other by (auto simp: owned_def)
  have "session_ok sv w' k v" if "(k, v) \<in> set (w_sessions w')" for k v
    using that d(5) k sess(2) issued
    by (auto simp: sess(1) set_update_entry [OF d(1)] session_ok_def)
  moreover have "length (w_sessions w') \<le> cfg_max_sessions (sv_config sv)"
    using room length_update_le [of ?k s "w_sessions w"] by (simp add: sess)
  moreover have "operation_ok sv w' k op" if "(k, op) \<in> set (w_operations w)" for k op
    using d(6) [OF that] owned issued by (auto simp: operation_ok_def same)
  moreover have "origin_inv sv w'" by (rule origin_sessions [OF d(10) same(1,2)]) (simp add: same)
  ultimately show "service_inv sv w'" using inv d(1)
    unfolding service_inv_def by (auto simp: same sess)
  show "kept sv w w'" using other by (auto simp: kept_def same simp del: map_of_eq_Some_iff)
qed


section \<open>Every critical section keeps the invariant\<close>

lemma kept_same_sessions:
  assumes "w_sessions w' = w_sessions w" "w_now w \<le> w_now w'" "w_uuids w \<le> w_uuids w'"
    and "\<And>k op'. issued sv w k \<Longrightarrow> map_of (w_operations w') k = Some op' \<Longrightarrow>
      \<exists>op. map_of (w_operations w) k = Some op \<and> same_owner op op'"
    and "jobs_kept w w'"
  shows "kept sv w w'"
  using assms by (simp add: kept_def del: map_of_eq_Some_iff)

lemma kept_same_maps:
  "w_sessions w' = w_sessions w \<Longrightarrow> w_operations w' = w_operations w \<Longrightarrow> w_now w \<le> w_now w' \<Longrightarrow>
   w_uuids w \<le> w_uuids w' \<Longrightarrow> jobs_kept w w' \<Longrightarrow> kept sv w w'"
  by (rule kept_same_sessions) auto

lemma preserved_delete_session:
  assumes "service_inv sv w"
  shows "preserved sv w (w\<lparr>w_sessions := AList.delete k (w_sessions w)\<rparr>)"
  by (rule inv_change_sessions [OF assms])
     (use service_invD(1) [OF assms] in \<open>auto simp: length_delete_alist_le delete_conv' simp del: map_of_eq_Some_iff split: if_splits\<close>)

lemma preserved_filter_sessions:
  assumes "service_inv sv w"
  shows "preserved sv w (w\<lparr>w_sessions := filter P (w_sessions w)\<rparr>)"
  by (rule inv_change_sessions [OF assms])
     (use service_invD(1) [OF assms] in
       \<open>simp_all add: map_of_filter_distinct del: map_of_eq_Some_iff split: option.splits if_splits\<close>)

lemma preserved_touch:
  assumes "service_inv sv w" "map_of (w_sessions w) k = Some s"
  shows "preserved sv w (w\<lparr>w_sessions := AList.update k (s\<lparr>ss_last_access := t\<rparr>) (w_sessions w)\<rparr>)"
proof (rule inv_change_sessions [OF assms(1)])
  have "k \<in> fst ` set (w_sessions w)" using map_of_SomeD [OF assms(2)] by force
  then show "length (w_sessions (w\<lparr>w_sessions := AList.update k (s\<lparr>ss_last_access := t\<rparr>) (w_sessions w)\<rparr>))
      \<le> length (w_sessions w)" by (simp add: length_update_present)
qed (use assms service_invD(1) [OF assms(1)] in
      \<open>auto simp: update_conv' simp del: map_of_eq_Some_iff split: if_splits\<close>)

lemma inv_session_for:
  assumes "service_inv sv w" "session_for_section sv h token now w = (r, w')"
  shows "preserved sv w w'"
  using assms
  by (auto simp: session_for_section_def Let_def preserved_refl preserved_delete_session preserved_touch
      split: option.splits if_splits)

lemma inv_remove_session:
  assumes "service_inv sv w" "remove_session_section sv h token w = (r, w')"
  shows "preserved sv w w'"
  using assms
  by (auto simp: remove_session_section_def preserved_refl preserved_delete_session
      split: option.splits if_splits)

lemma inv_touch: "service_inv sv w \<Longrightarrow> preserved sv w (touch_section sid w)"
  by (simp add: touch_section_def preserved_refl preserved_touch split: option.split)

lemma inv_expire_sessions:
  "service_inv sv w \<Longrightarrow> expire_sessions_section sv now w = (r, w') \<Longrightarrow> preserved sv w w'"
  by (auto simp: expire_sessions_section_def Let_def preserved_filter_sessions)

lemma inv_more_uuids: "service_inv sv w \<Longrightarrow> preserved sv w (w\<lparr>w_uuids := w_uuids w + 2\<rparr>)"
proof -
  let ?w = "w\<lparr>w_uuids := w_uuids w + 2\<rparr>"
  assume inv: "service_inv sv w"
  have "origin_inv sv ?w" by (rule origin_sessions [OF service_invD(10) [OF inv]]) simp_all
  moreover have "session_ok sv ?w k s" if "session_ok sv w k s" for k s
    using that issued_mono [of sv w _ ?w] by (simp add: session_ok_def)
  moreover have "operation_ok sv ?w k op" if "operation_ok sv w k op" for k op
    using that issued_mono [of sv w _ ?w] by (simp add: operation_ok_def owned_def)
  ultimately show ?thesis using inv unfolding preserved_def service_inv_def by (auto intro: kept_same_maps)
qed

lemma inv_open_session:
  assumes "service_inv sv w" "uuids_unique sv" "open_session_section sv token catalog schema w = (r, w')"
  shows "preserved sv w w'"
proof (cases "cfg_max_sessions (sv_config sv) \<le> length (w_sessions w)")
  case True
  with assms(3) inv_more_uuids [OF assms(1)] show ?thesis
    by (simp add: open_session_section_def draw_uuids_def Let_def)
next
  case False
  show ?thesis
    by (rule inv_insert_session [OF assms(1,2)])
       (use False assms(3) in \<open>auto simp: open_session_section_def draw_uuids_def Let_def uuid_key_def\<close>)
qed

lemma inv_start_operation:
  assumes "service_inv sv w" "uuids_unique sv" "owned sv w (ss_id s) (sv_fingerprint sv token)" "makes_job token job"
    "start_operation_section sv token s job started w = (r, w')"
  shows "preserved sv w w'"
proof (cases "cfg_max_operations (sv_config sv) \<le> length (w_operations w)")
  case True
  with assms(5) inv_more_uuids [OF assms(1)] show ?thesis
    by (simp add: start_operation_section_def draw_uuids_def Let_def)
next
  case False
  have "service_inv sv w'"
    by (rule inv_insert_operation [OF assms(1,2)])
       (use False assms(3-5) in \<open>auto simp: start_operation_section_def draw_uuids_def Let_def uuid_key_def makes_job_def belongs_def\<close>)
  moreover have "kept sv w w'"
    by (rule kept_same_sessions)
       (use False assms(5) fresh_key [OF assms(2) order_refl, of w] in
         \<open>auto simp: start_operation_section_def draw_uuids_def Let_def update_conv' uuid_key_def
            simp del: map_of_eq_Some_iff\<close>)
  ultimately show ?thesis by (simp add: preserved_def)
qed

lemma preserved_receivers: "preserved sv w (w'\<lparr>w_receivers := rs\<rparr>) = preserved sv w w'"
  by (simp add: preserved_def service_inv_def session_ok_def operation_ok_def owned_def issued_def kept_def)

lemma inv_start_columns:
  assumes "service_inv sv w" "uuids_unique sv" "owned sv w (ss_id s) (sv_fingerprint sv token)" "makes_job token job"
    "start_columns_section sv token s job started w = (r, w')"
  shows "preserved sv w w'"
  using assms(5) inv_start_operation [OF assms(1-4), of started]
  by (auto simp: start_columns_section_def preserved_receivers split: prod.splits option.splits)

lemma preserved_drop:
  assumes "service_inv sv w"
    and "\<And>t. t \<in> set ts \<Longrightarrow> \<exists>k op. (k, op) \<in> set (w_operations w) \<and> \<not> P (k, op) \<and> running_task op = Some t"
  shows "preserved sv w (w\<lparr>w_operations := filter P (w_operations w), w_aborted := ts @ w_aborted w\<rparr>)"
  unfolding preserved_def
  by (intro conjI inv_drop_operations [OF assms(1), where P = P] kept_same_sessions)
     (use assms(2) service_invD(2) [OF assms(1)] in
       \<open>auto simp: map_of_filter_distinct simp del: map_of_eq_Some_iff split: option.splits if_splits\<close>)

lemma inv_remove_operations: "service_inv sv w \<Longrightarrow> preserved sv w (remove_operations_section sid w)"
  unfolding remove_operations_section_def
  by (rule preserved_drop) (auto simp: running_task_abort split: if_splits)

lemma inv_expire_operations: "service_inv sv w \<Longrightarrow> preserved sv w (expire_operations_section sv now ids w)"
  unfolding expire_operations_section_def
  by (rule preserved_drop) (auto simp: running_task_abort split: if_splits)

lemma inv_delete_operation:
  assumes "service_inv sv w" "map_of (w_operations w) k = Some op"
  shows "preserved sv w (w\<lparr>w_operations := AList.delete k (w_operations w), w_aborted := abort op @ w_aborted w\<rparr>)"
  unfolding delete_filter
  by (rule preserved_drop) (use assms map_of_SomeD [OF assms(2)] in \<open>auto simp: running_task_abort\<close>)

lemma inv_remove_operation:
  assumes "service_inv sv w" "remove_operation_section sv h token w = (r, w')"
  shows "preserved sv w w'"
  using assms inv_delete_operation [OF assms(1)]
  by (auto simp: remove_operation_section_def preserved_refl simp del: map_of_eq_Some_iff
      split: option.splits if_splits)

lemma inv_remove_unreturned:
  "service_inv sv w \<Longrightarrow> preserved sv w (remove_unreturned_section k w)"
  using inv_delete_operation
  by (simp add: remove_unreturned_section_def preserved_refl split: option.splits)

text \<open>Replacing the state of an operation, when it leaves the running state or stays as it is.\<close>

lemma preserved_update:
  assumes "service_inv sv w" "map_of (w_operations w) k = Some op"
    and "same_owner op op'" "running_task op' = None" "state_ok (os_state op')"
      "\<And>r. execution_result (os_state op') = Some r \<Longrightarrow> computed sv w k (os_token_fingerprint op) r"
    and "set ts \<subseteq> set (abort op)"
  shows "preserved sv w (w\<lparr>w_operations := AList.update k op' (w_operations w), w_aborted := ts @ w_aborted w\<rparr>)"
  unfolding preserved_def
  by (intro conjI inv_update_operation [OF assms(1-6)] kept_same_sessions)
     (use assms in \<open>auto simp: running_task_abort update_conv' simp del: map_of_eq_Some_iff split: if_splits\<close>)

lemma inv_cancel_operation:
  assumes "service_inv sv w" "cancel_operation_section sv h token w = (r, w')"
  shows "preserved sv w w'"
proof (cases "map_of (w_operations w) (h_id h)")
  case None
  with assms show ?thesis by (simp add: cancel_operation_section_def preserved_refl)
next
  case (Some op)
  show ?thesis
  proof (cases "\<exists>st t. os_state op = Running st t")
    case True
    then have "preserved sv w (w\<lparr>w_operations := AList.update (h_id h) (fst (cancel (w_now w) op)) (w_operations w),
        w_aborted := snd (cancel (w_now w) op) @ w_aborted w\<rparr>)"
      by (intro preserved_update [OF assms(1) Some])
         (auto simp: cancel_def running_task_def state_ok_def)
    with assms Some show ?thesis
      by (auto simp: cancel_operation_section_def preserved_refl case_prod_unfold Let_def split: if_splits)
  next
    case False
    then have "cancel (w_now w) op = (op, [])" by (cases "os_state op") (auto simp: cancel_def)
    with assms Some show ?thesis
      by (auto simp: cancel_operation_section_def update_same preserved_refl split: if_splits)
  qed
qed

lemma inv_take_finished:
  assumes "service_inv sv w" "take_finished_section k w = (r, w')"
  shows "preserved sv w w'"
proof (cases "map_of (w_operations w) k")
  case None
  with assms show ?thesis by (simp add: take_finished_section_def preserved_refl)
next
  case (Some op)
  show ?thesis
  proof (cases "has_finished_task (is_finished w) op")
    case True
    then obtain st t where st: "os_state op = Running st t"
      by (auto simp: has_finished_task_def split: operation_execution.splits)
    have "preserved sv w (w\<lparr>w_operations := AList.update k (op\<lparr>os_state := Refreshing st\<rparr>) (w_operations w),
        w_aborted := [] @ w_aborted w\<rparr>)"
      by (rule preserved_update [OF assms(1) Some]) (auto simp: running_task_def state_ok_def)
    with True st assms Some show ?thesis
      by (auto simp: take_finished_section_def take_finished_task_def)
  next
    case False
    with assms Some show ?thesis
      by (auto simp: take_finished_section_def take_finished_task_def update_same preserved_refl)
  qed
qed

lemma error_ok_internal [simp]: "error_ok client_error_internal"
  unfolding error_ok_def using client_error.simps(15) by (metis rangeI)

lemma state_ok_completion: "result_ok (Inr c) \<Longrightarrow> state_ok (from_completion now c)"
  by (auto simp: state_ok_def result_ok_def from_completion_def split: sum.splits)

lemma state_ok_join: "result_ok r \<Longrightarrow> state_ok (from_join_result now since r)"
  by (cases "(now, since, r)" rule: from_join_result.cases)
     (auto simp: state_ok_completion, auto simp: state_ok_def)

lemma completed_not_running: "completed e \<Longrightarrow> running_task (op\<lparr>os_state := e\<rparr>) = None"
  by (cases e) (auto simp: running_task_def completed_def)

lemma inv_finish_refresh:
  assumes "service_inv sv w" "result_ok result" "refresh_ok sv w k result"
  shows "preserved sv w (finish_refresh_section k started result w)"
proof (cases "map_of (w_operations w) k")
  case None
  with assms show ?thesis by (simp add: finish_refresh_section_def preserved_refl)
next
  case (Some op)
  show ?thesis
  proof (cases "\<exists>st. os_state op = Refreshing st")
    case True
    have "preserved sv w (w\<lparr>w_operations := AList.update k
        (op\<lparr>os_state := from_join_result (w_now w) started result\<rparr>) (w_operations w), w_aborted := [] @ w_aborted w\<rparr>)"
      by (rule preserved_update [OF assms(1) Some])
         (use assms(2,3) Some in \<open>auto simp: completed_not_running state_ok_join refresh_ok_def dest!: result_of_join\<close>)
    with True Some show ?thesis by (auto simp: finish_refresh_section_def finish_refresh_def)
  next
    case False
    then have "finish_refresh (w_now w) op started result = op"
      by (cases "os_state op") (auto simp: finish_refresh_def)
    with Some show ?thesis by (simp add: finish_refresh_section_def update_same preserved_refl assms(1))
  qed
qed


section \<open>So does the runtime\<close>

lemma preserved_trans: "preserved sv u v \<Longrightarrow> preserved sv v w \<Longrightarrow> preserved sv u w"
  unfolding preserved_def using kept_trans by blast

lemma preserved_outcomes: "preserved sv w (w'\<lparr>w_outcomes := os\<rparr>) = preserved sv w w'"
  by (simp add: preserved_def service_inv_def session_ok_def operation_ok_def owned_def issued_def kept_def)

lemma inv_same_maps:
  assumes "service_inv sv w" "w_sessions w' = w_sessions w" "w_operations w' = w_operations w"
    "w_uuids w' = w_uuids w" "w_aborted w' = w_aborted w" "length (w_tasks w') = length (w_tasks w)"
    "\<forall>(job, st) \<in> set (w_tasks w'). case st of TaskFinished r \<Rightarrow> result_ok r | TaskRunning \<Rightarrow> True"
    "w_now w \<le> w_now w'" "origin_inv sv w'" "jobs_kept w w'"
  shows "preserved sv w w'"
proof -
  have "session_ok sv w' = session_ok sv w" "operation_ok sv w' = operation_ok sv w"
    by (intro ext, simp add: session_ok_def operation_ok_def owned_def issued_def assms)+
  with assms show ?thesis
    unfolding preserved_def service_inv_def by (simp add: kept_same_maps)
qed

lemma error_ok_client: "map_sum client_error id res = Inl e \<Longrightarrow> error_ok e"
  by (cases res) (auto simp: error_ok_def)

lemma job_result_ok: "job_result sv job (oc_result c) \<Longrightarrow> result_ok (Inr c)"
  by (cases job; cases "oc_result c")
     (auto simp: result_ok_def split: if_splits dest: error_ok_client [OF sym])

lemma preserved_set_task:
  assumes "service_inv sv w" "t < length (w_tasks w)" "result_ok r" "\<And>c. r = Inr c \<Longrightarrow> job_result sv (job_of w t) (oc_result c)"
  shows "preserved sv w (set_task t r w)"
proof -
  let ?e = "(fst (w_tasks w ! t), TaskFinished r)"
  have "\<forall>(job, st) \<in> set ((w_tasks w)[t := ?e]). case st of TaskFinished r \<Rightarrow> result_ok r | TaskRunning \<Rightarrow> True"
    using assms set_update_subset_insert [of "w_tasks w" t ?e]
    unfolding service_inv_def by (fastforce split: task_status.splits)
  moreover note origin_set_task [OF service_invD(10) [OF assms(1)] assms(2,4)]
  ultimately show ?thesis by (intro inv_same_maps [OF assms(1)]) (simp_all add: set_task_def)
qed

lemma preserved_complete_columns:
  assumes "service_inv sv w" "result_ok (Inr c)" "refresh_ok sv w q (Inr c)"
  shows "preserved sv w (complete_columns_section q t c w)"
proof (cases "map_of (w_operations w) q")
  case None
  with assms show ?thesis
    by (simp add: complete_columns_section_def preserved_outcomes preserved_refl)
next
  case (Some op)
  let ?ops = "AList.update q (op\<lparr>os_state := from_completion (w_now w) c\<rparr>) (w_operations w)"
  let ?w = "w\<lparr>w_operations := ?ops\<rparr>"
  have step: "preserved sv w ?w"
    using preserved_update [OF assms(1) Some, of "op\<lparr>os_state := from_completion (w_now w) c\<rparr>" "[]"]
    using assms(3) Some result_of_join [of "w_now w" 0 "Inr c"]
    by (auto simp: completed_not_running state_ok_completion assms(2) refresh_ok_def simp del: map_of_eq_Some_iff)
  then have "preserved sv ?w (?w\<lparr>w_operations := filter (\<lambda>(k, _). k \<noteq> q) (w_operations ?w), w_aborted := [] @ w_aborted ?w\<rparr>)"
    by (intro preserved_drop) (simp_all add: preserved_def)
  with preserved_trans [OF step] have "preserved sv w (w\<lparr>w_operations := AList.delete q ?ops\<rparr>)"
    by (simp add: delete_filter)
  with step Some show ?thesis
    by (simp add: complete_columns_section_def Let_def preserved_outcomes)
qed

lemma inv_runtime_step: "runtime_step sv w w' \<Longrightarrow> service_inv sv w \<Longrightarrow> preserved sv w w'"
proof (induction rule: runtime_step.induct)
  case (tick w now)
  then show ?case
    by (intro inv_same_maps) (simp_all add: service_inv_def origin_sessions [of sv w])
next
  case (statement_done t w q tok stmt cat sch c)
  then show ?case using job_result_ok [OF statement_done(3)]
    by (intro preserved_set_task) (auto simp: job_of_def simp del: job_result.simps)
next
  case (columns_done t w q tok req cat sch c)
  have ok: "result_ok (Inr c)" by (rule job_result_ok [OF columns_done(3)])
  have job: "job_of w t = ColumnsJob q tok req cat sch" using columns_done(2) by (simp add: job_of_def)
  have "refresh_ok sv w q (Inr c)"
    using task_refresh_ok [OF service_invD(10) [OF columns_done.prems] columns_done(1), of "Inr c"] columns_done(3) by (simp add: job)
  note complete = preserved_complete_columns [OF columns_done.prems ok this, of t]
  have tasks: "w_tasks (complete_columns_section q t c w) = w_tasks w" by (simp add: complete_columns_section_def Let_def)
  with complete columns_done(1,3) job show ?case
    by (intro preserved_trans [OF complete] preserved_set_task ok) (auto simp: preserved_def job_of_def)
next
  case (task_panicked t w m)
  then show ?case by (intro preserved_set_task) (simp_all add: result_ok_def)
next
  case (task_cancelled t w)
  then show ?case by (intro preserved_set_task) (simp_all add: result_ok_def)
next
  case (receiver_dropped w t)
  then show ?case by (simp add: preserved_receivers preserved_refl)
qed

lemma service_inv_new: "service_inv sv (service_new start)"
  by (simp add: service_inv_def service_new_def tasks_unique_def origin_inv_def)

end
