(* ===== verification/Thrift_Isolation.thy ===== *)
theory Thrift_Isolation
  imports Thrift_Invariant
begin

text \<open>
  From critical sections to whole requests. The locale \<open>service_sections\<close> asks of a
  relation \<open>G\<close> on worlds that every critical section of the service, in the circumstances
  in which the code runs it, is in \<open>G\<close>; its lemmas conclude that every method and every
  RPC handler guarantees \<open>G\<close> in every interleaving. It is interpreted twice: for the
  invariant, and for the isolation of principals.
\<close>

section \<open>From sections to requests\<close>

lemma kept_now: "kept sv w w' \<Longrightarrow> w_now w \<le> w_now w'"
  by (simp add: kept_def)

lemma preserved_kept: "preserved sv w w' \<Longrightarrow> kept sv w w'"
  by (simp add: preserved_def)

locale service_sections =
  fixes sv :: svc and token :: string and G :: "world \<Rightarrow> world \<Rightarrow> bool"
  assumes uuids: "uuids_unique sv"
    and G_rely: "G w w' \<Longrightarrow> rely sv w w'"
    and G_refl: "G w w"
    and G_session_for: "service_inv sv w \<Longrightarrow> now \<le> w_now w \<Longrightarrow>
      session_for_section sv h token now w = (found, w') \<Longrightarrow> G w w'"
    and G_remove_session: "service_inv sv w \<Longrightarrow> remove_session_section sv h token w = (valid, w') \<Longrightarrow> G w w'"
    and G_remove_operations: "service_inv sv w \<Longrightarrow> gone sv w sid \<Longrightarrow> G w (remove_operations_section sid w)"
    and G_touch: "service_inv sv w \<Longrightarrow> owned sv w sid (sv_fingerprint sv token) \<Longrightarrow> G w (touch_section sid w)"
    and G_open: "service_inv sv w \<Longrightarrow> open_session_section sv token catalog schema w = (opened, w') \<Longrightarrow> G w w'"
    and G_start: "service_inv sv w \<Longrightarrow> owned sv w (ss_id s) (sv_fingerprint sv token) \<Longrightarrow> makes_job token job \<Longrightarrow>
      start_operation_section sv token s job at w = (started, w') \<Longrightarrow> G w w'"
    and G_columns: "service_inv sv w \<Longrightarrow> owned sv w (ss_id s) (sv_fingerprint sv token) \<Longrightarrow> makes_job token job \<Longrightarrow>
      start_columns_section sv token s job at w = (started, w') \<Longrightarrow> G w w'"
    and G_take: "service_inv sv w \<Longrightarrow> take_finished_section k w = (taken, w') \<Longrightarrow> G w w'"
    and G_finish: "service_inv sv w \<Longrightarrow> result_ok result \<Longrightarrow> refresh_ok sv w k result \<Longrightarrow> G w (finish_refresh_section k at result w)"
    and G_expire_sessions: "service_inv sv w \<Longrightarrow> now \<le> w_now w \<Longrightarrow>
      expire_sessions_section sv now w = (ids, w') \<Longrightarrow> G w w'"
    and G_expire_operations: "service_inv sv w \<Longrightarrow> now \<le> w_now w \<Longrightarrow> (\<And>sid. sid \<in> set ids \<Longrightarrow> gone sv w sid) \<Longrightarrow>
      G w (expire_operations_section sv now ids w)"
    and G_remove_operation: "service_inv sv w \<Longrightarrow> remove_operation_section sv h token w = (valid, w') \<Longrightarrow> G w w'"
    and G_cancel: "service_inv sv w \<Longrightarrow> cancel_operation_section sv h token w = (valid, w') \<Longrightarrow> G w w'"
    and G_unreturned: "service_inv sv w \<Longrightarrow>
      (\<And>op. map_of (w_operations w) k = Some op \<Longrightarrow> os_token_fingerprint op = sv_fingerprint sv token) \<Longrightarrow>
      G w (remove_unreturned_section k w)"
begin

sublocale rely_guarantee "rely sv" G
  by unfold_locales (rule rely_refl, erule rely_trans, assumption, erule G_rely)

definition safe :: "('a \<Rightarrow> world \<Rightarrow> bool) \<Rightarrow> (world, 'a) prog \<Rightarrow> world \<Rightarrow> bool" where
  "safe Q p w \<longleftrightarrow> (service_inv sv w \<longrightarrow> rg (rely sv) G Q p w)"

lemma safe_ret: "Q x w \<Longrightarrow> safe Q (Ret x) w"
  by (simp add: safe_def rg_Ret)

lemma safe_blocked: "safe Q (Act (\<lambda>_. None)) w"
  by (simp add: safe_def rg_blocked)

lemma safe_bind:
  assumes "safe Q p w"
    and "\<And>x v. preserved sv w v \<Longrightarrow> Q x v \<Longrightarrow> safe Q' (k x) v"
  shows "safe Q' (pbind p k) w"
  unfolding safe_def
proof
  assume inv: "service_inv sv w"
  show "rg (rely sv) G Q' (pbind p k) w"
  proof (rule rg_pbind)
    show "rg (rely sv) G Q p w" using assms(1) inv by (simp add: safe_def)
    fix x v assume "rely sv w v" "Q x v"
    with inv have "preserved sv w v" by (simp add: rely_def)
    with assms(2) [OF this \<open>Q x v\<close>] show "rg (rely sv) G Q' (k x) v"
      by (simp add: safe_def preserved_def)
  qed
qed

lemma safe_atomic:
  assumes "\<And>v x w'. service_inv sv v \<Longrightarrow> kept sv w v \<Longrightarrow> f v = (x, w') \<Longrightarrow> G v w' \<and> (preserved sv v w' \<longrightarrow> Q x w')"
  shows "safe Q (atomic f) w"
  unfolding safe_def
proof (intro impI rg_atomic)
  fix v x w' assume "service_inv sv w" "rely sv w v" and f: "f v = (x, w')"
  then have v: "service_inv sv v" "kept sv w v" by (simp_all add: rely_def preserved_def)
  from assms [OF this f] have "G v w'" "preserved sv v w' \<longrightarrow> Q x w'" by blast+
  moreover have "preserved sv v w'" using G_rely [OF \<open>G v w'\<close>] v by (simp add: rely_def)
  ultimately show "G v w' \<and> Q x w'" by blast
qed

lemma safe_await:
  assumes "\<And>v x. service_inv sv v \<Longrightarrow> f v = Some x \<Longrightarrow> Q x v"
  shows "safe Q (await f) w"
  unfolding safe_def by (auto intro!: rg_await simp: G_refl rely_def preserved_def assms)

abbreviation any :: "'a \<Rightarrow> world \<Rightarrow> bool" where
  "any \<equiv> \<lambda>_ _. True"

lemma safe_weaken: "safe Q p w \<Longrightarrow> safe any p w"
  unfolding safe_def by (auto elim: rg_weaken)

lemma safe_pfor: "(\<And>x v. safe any (body x) v) \<Longrightarrow> safe any (pfor xs body) w"
  by (induction xs arbitrary: w) (auto intro: safe_ret safe_bind)

lemma safe_read_now: "safe (\<lambda>now v. now \<le> w_now v) read_now w"
  unfolding read_now_def by (rule safe_atomic) (auto simp: G_refl)

subsection \<open>Methods\<close>

lemma join_result_ok: "service_inv sv w \<Longrightarrow> join_result w t = Some r \<Longrightarrow> result_ok r"
proof -
  assume inv: "service_inv sv w" and "join_result w t = Some r"
  then have "t < length (w_tasks w)" "snd (w_tasks w ! t) = TaskFinished r"
    by (auto simp: join_result_def split: if_splits task_status.splits)
  then have "(fst (w_tasks w ! t), TaskFinished r) \<in> set (w_tasks w)"
    by (metis nth_mem prod.collapse)
  with service_invD(9) [OF inv] show ?thesis by blast
qed

text \<open>Between taking a finished task and recording its result, the task stays the operation's own.\<close>

definition task_for :: "string \<Rightarrow> task_id \<Rightarrow> world \<Rightarrow> bool" where
  "task_for k t w \<longleftrightarrow> issued sv w k \<and> t < length (w_tasks w) \<and>
     (\<forall>op. map_of (w_operations w) k = Some op \<longrightarrow> belongs sv k (os_token_fingerprint op) (job_of w t))"

lemma task_for_kept:
  assumes "task_for k t w" "kept sv w w'"
  shows "task_for k t w'"
proof -
  have k: "issued sv w k" and t: "t < length (w_tasks w)" using assms(1) by (auto simp: task_for_def)
  note kept = keptD [OF assms(2) k]
  have "job_of w' t = job_of w t" "t < length (w_tasks w')" using kept(4) t by (auto simp: jobs_kept_def)
  moreover have "belongs sv k (os_token_fingerprint op') (job_of w t)" if "map_of (w_operations w') k = Some op'" for op'
    using kept(2) [OF that] assms(1) by (auto simp: task_for_def same_owner_def)
  ultimately show ?thesis using kept(3) by (simp add: task_for_def)
qed

lemma take_finished_task_for:
  assumes "service_inv sv w" "take_finished_section k w = (Some (started, t), w')"
  shows "task_for k t w'"
proof -
  obtain op where op: "map_of (w_operations w) k = Some op" "os_state op = Running started t"
      "w' = w\<lparr>w_operations := AList.update k (op\<lparr>os_state := Refreshing started\<rparr>) (w_operations w)\<rparr>"
    using assms(2) by (auto simp: take_finished_section_def take_finished_task_def has_finished_task_def Let_def
        split: option.splits operation_execution.splits if_splits)
  have ok: "operation_ok sv w k op" "op_origin sv w k op"
    using service_invD(6,10) [OF assms(1)] map_of_SomeD [OF op(1)] by (auto simp: origin_inv_def)
  then have "issued sv w k" "t < length (w_tasks w)" "belongs sv k (os_token_fingerprint op) (job_of w t)"
    using op(2) by (auto simp: operation_ok_def op_origin_def running_task_def)
  then show ?thesis unfolding op(3) by (auto simp: task_for_def issued_def job_of_def update_conv' simp del: map_of_eq_Some_iff)
qed

lemma join_refresh_ok:
  assumes "service_inv sv w" "task_for k t w" "join_result w t = Some r"
  shows "result_ok r \<and> refresh_ok sv w k r"
proof
  show "result_ok r" by (rule join_result_ok [OF assms(1,3)])
  have t: "t < length (w_tasks w)" "w_tasks w ! t = (job_of w t, TaskFinished r)"
    using assms(3) by (auto simp: join_result_def job_of_def split: if_splits task_status.splits intro: prod_eqI)
  then have "task_origin sv w (job_of w t) (TaskFinished r)"
    using service_invD(10) [OF assms(1)] nth_mem [OF t(1)] by (auto simp: origin_inv_def)
  then show "refresh_ok sv w k r"
    using assms(2) t(1) by (auto simp: refresh_ok_def computed_def task_for_def task_origin_def)
qed

lemma refresh_ok_kept: "refresh_ok sv w k r \<Longrightarrow> issued sv w k \<Longrightarrow> kept sv w w' \<Longrightarrow> refresh_ok sv w' k r"
proof -
  assume r: "refresh_ok sv w k r" and k: "issued sv w k" and w': "kept sv w w'"
  note kept = keptD [OF w' k]
  have "computed sv w' k (os_token_fingerprint op') x" if "map_of (w_operations w') k = Some op'" "r = Inr c" "oc_result c = Inr x" for op' c x
    using kept(2) [OF that(1)] r that(2,3) computed_mono [OF _ kept(4)]
    by (auto simp: refresh_ok_def same_owner_def simp del: map_of_eq_Some_iff)
  then show ?thesis by (simp add: refresh_ok_def del: map_of_eq_Some_iff)
qed

lemma safe_refresh: "safe any (refresh_operation k) w"
  unfolding refresh_operation_def
proof (rule safe_bind)
  let ?Q = "\<lambda>x v. \<forall>started :: instant. \<forall>t. x = Some (started, t) \<longrightarrow> task_for k t v"
  show "safe ?Q (atomic (take_finished_section k)) w"
    by (rule safe_atomic) (auto intro: G_take take_finished_task_for)
  fix x v assume x: "?Q x v"
  show "safe any (case x of None \<Rightarrow> Ret () | Some (started, t) \<Rightarrow>
      pbind (await (\<lambda>w. join_result w t)) (\<lambda>result.
        atomic (\<lambda>w. ((), finish_refresh_section k started result w)))) v"
  proof (cases x)
    case None
    then show ?thesis by (simp add: safe_ret)
  next
    case (Some st)
    obtain started t where st: "st = (started, t)" by (cases st)
    let ?R = "\<lambda>r u. result_ok r \<and> refresh_ok sv u k r \<and> issued sv u k"
    have t: "task_for k t v" using x Some st by simp
    have "?R r u" if "service_inv sv u" "kept sv v u" "join_result u t = Some r" for r u
      using join_refresh_ok [OF that(1) task_for_kept [OF t that(2)] that(3)] task_for_kept [OF t that(2)] by (simp add: task_for_def)
    then have "safe ?R (await (\<lambda>w. join_result w t)) v"
      unfolding safe_def by (auto intro!: rg_await simp: G_refl rely_def preserved_def)
    then show ?thesis unfolding Some st option.case prod.case
      by (rule safe_bind) (auto intro!: safe_atomic G_finish elim: refresh_ok_kept)
  qed
qed

lemma safe_cleanup: "safe any (cleanup_expired sv) w"
  unfolding cleanup_expired_def
proof (rule safe_bind [where Q = any])
  show "safe any refresh_finished_operations w"
    unfolding refresh_finished_operations_def
    by (rule safe_bind [where Q = any]) (auto intro!: safe_atomic G_refl safe_pfor safe_refresh)
next
  fix v
  show "safe any (pbind read_now (\<lambda>now. pbind (atomic (expire_sessions_section sv now)) (\<lambda>expired_sessions.
      atomic (\<lambda>w. ((), expire_operations_section sv now expired_sessions w))))) v"
  proof (rule safe_bind [OF safe_read_now])
    fix now and u :: world assume now: "now \<le> w_now u"
    let ?Q = "\<lambda>ids (x :: world). now \<le> w_now x \<and> (\<forall>sid \<in> set ids. gone sv x sid)"
    have gone: "\<forall>sid \<in> set ids. gone sv w' sid"
      if "service_inv sv x" "expire_sessions_section sv now x = (ids, w')" for x ids w'
      using that(2) service_invD(1,5) [OF that(1)]
      by (auto simp: expire_sessions_section_def Let_def gone_def issued_def session_ok_def map_of_filter_distinct
          simp del: map_of_eq_Some_iff split: option.splits)
    show "safe any (pbind (atomic (expire_sessions_section sv now)) (\<lambda>expired_sessions.
        atomic (\<lambda>w. ((), expire_operations_section sv now expired_sessions w)))) u"
    proof (rule safe_bind [where Q = ?Q])
      show "safe ?Q (atomic (expire_sessions_section sv now)) u"
        using now gone
        by (intro safe_atomic)
           (blast intro: G_expire_sessions order_trans dest: kept_now preserved_kept)
      fix ids x assume "?Q ids x"
      then show "safe any (atomic (\<lambda>w. ((), expire_operations_section sv now ids w))) x"
        by (intro safe_atomic) (auto intro!: G_expire_operations elim: gone_kept intro: order_trans dest: kept_now)
    qed
  qed
qed

lemma safe_remove_operations:
  "gone sv w sid \<Longrightarrow> safe any (remove_operations_for_session sid) w"
  unfolding remove_operations_for_session_def
  by (rule safe_atomic) (auto intro: G_remove_operations gone_kept)

definition session_found :: "session_state option \<Rightarrow> world \<Rightarrow> bool" where
  "session_found r w \<longleftrightarrow> (\<forall>s. r = Some s \<longrightarrow> owned sv w (ss_id s) (sv_fingerprint sv token))"

text \<open>What looking up a session tells: whose it is, or that it is gone.\<close>

lemma session_for_section_facts:
  assumes inv: "service_inv sv w" and r: "session_for_section sv h token now w = (r, w')"
  shows "r = Expired \<Longrightarrow> gone sv w' (h_id h)"
    and "r = Found s \<Longrightarrow> owned sv w' (ss_id s) (sv_fingerprint sv token)"
proof -
  have ok: "ss_id u = h_id h \<and> issued sv w (h_id h)" if "map_of (w_sessions w) (h_id h) = Some u" for u
    using service_invD(5) [OF inv map_of_SomeD [OF that]] by (simp add: session_ok_def)
  show "r = Expired \<Longrightarrow> gone sv w' (h_id h)"
    using r ok by (auto simp: session_for_section_def Let_def gone_def issued_def delete_conv'
        simp del: map_of_eq_Some_iff split: option.splits if_splits)
  show "r = Found s \<Longrightarrow> owned sv w' (ss_id s) (sv_fingerprint sv token)"
    using r ok by (auto simp: session_for_section_def Let_def owned_def issued_def update_conv' session_matches_def
        simp del: map_of_eq_Some_iff split: option.splits if_splits)
qed

lemma safe_session_for: "safe session_found (session_for sv handle token) w"
proof (cases handle)
  case None
  then show ?thesis by (simp add: session_for_def safe_ret session_found_def)
next
  case (Some h)
  let ?Q = "\<lambda>r v. (r = Expired \<longrightarrow> gone sv v (h_id h)) \<and>
      (\<forall>s. r = Found s \<longrightarrow> owned sv v (ss_id s) (sv_fingerprint sv token))"
  have lookup: "safe ?Q (atomic (session_for_section sv h token now)) v" if "now \<le> w_now v" for now and v :: world
  proof (rule safe_atomic)
    fix u r w' assume u: "service_inv sv u" "kept sv v u" "session_for_section sv h token now u = (r, w')"
    have "now \<le> w_now u" using that kept_now [OF u(2)] by simp
    from G_session_for [OF u(1) this u(3)] session_for_section_facts [OF u(1,3)]
    show "G u w' \<and> (preserved sv u w' \<longrightarrow> ?Q r w')" by simp
  qed
  have result: "safe session_found (case r of Unknown \<Rightarrow> Ret None
      | Expired \<Rightarrow> pbind (remove_operations_for_session (h_id h)) (\<lambda>_. Ret None)
      | Found s \<Rightarrow> Ret (Some s)) v" if "?Q r v" for r v
    using that by (cases r)
      (auto intro!: safe_ret safe_bind [OF safe_remove_operations] simp: session_found_def)
  show ?thesis unfolding session_for_def Some option.case
    by (intro safe_bind [OF safe_read_now] safe_bind [OF lookup] result)
qed

lemma safe_remove_session: "safe any (remove_session sv handle token) w"
proof (cases handle)
  case None
  then show ?thesis by (simp add: remove_session_def safe_ret)
next
  case (Some h)
  let ?Q = "\<lambda>valid v. valid \<longrightarrow> gone sv v (h_id h)"
  have "gone sv w' (h_id h)" if "service_inv sv v" "remove_session_section sv h token v = (True, w')" for v w'
  proof -
    from that(2) obtain u where u: "map_of (w_sessions v) (h_id h) = Some u"
      "w' = v\<lparr>w_sessions := AList.delete (h_id h) (w_sessions v)\<rparr>"
      by (auto simp: remove_session_section_def split: option.splits if_splits)
    with service_invD(5) [OF that(1) map_of_SomeD [OF u(1)]] show ?thesis
      by (simp add: gone_def issued_def session_ok_def delete_conv')
  qed
  then have removed: "safe ?Q (atomic (remove_session_section sv h token)) w"
    by (intro safe_atomic) (auto intro: G_remove_session)
  show ?thesis unfolding remove_session_def Some option.case
    by (rule safe_bind [OF removed])
       (auto intro!: safe_ret safe_bind [OF safe_remove_operations])
qed

lemma safe_touch: "owned sv w sid (sv_fingerprint sv token) \<Longrightarrow> safe any (touch_session sid) w"
  unfolding touch_session_def by (rule safe_atomic) (auto intro: G_touch owned_kept)

lemma operation_owned:
  "service_inv sv w \<Longrightarrow> map_of (w_operations w) k = Some op \<Longrightarrow>
   owned sv w (os_session_id op) (os_token_fingerprint op)"
  using service_invD(6) map_of_SomeD unfolding operation_ok_def by fast

lemma safe_with_operation: "safe any (with_operation sv handle token write) w"
proof (cases handle)
  case None
  then show ?thesis by (simp add: with_operation_def safe_ret)
next
  case (Some h)
  let ?Q = "\<lambda>found v. \<forall>op. found = Some op \<longrightarrow> owned sv v (os_session_id op) (os_token_fingerprint op)"
  have found: "safe ?Q (atomic (\<lambda>w. (map_of (w_operations w) (h_id h), w))) v" for v
    by (rule safe_atomic) (auto simp: G_refl operation_owned simp del: map_of_eq_Some_iff)
  show ?thesis unfolding with_operation_def Some option.case
    by (intro safe_bind [OF safe_cleanup] safe_bind [OF safe_refresh] safe_bind [OF found])
       (auto simp: operation_matches_def intro!: safe_ret safe_bind [OF safe_touch] split: option.split)
qed

lemma safe_remove_operation: "safe any (remove_operation sv handle token) w"
  unfolding remove_operation_def
  by (auto intro!: safe_ret safe_bind [OF safe_cleanup] safe_atomic intro: G_remove_operation split: option.split)

lemma safe_cancel_operation: "safe any (cancel_operation sv handle token) w"
  unfolding cancel_operation_def
  by (auto intro!: safe_ret safe_bind [OF safe_cleanup] safe_atomic intro: G_cancel split: option.split)

lemma safe_query_history: "safe any (query_history sv token query_id) w"
proof -
  let ?Q = "\<lambda>(found, now) v. \<forall>op. found = Some op \<longrightarrow> owned sv v (os_session_id op) (os_token_fingerprint op)"
  have found: "safe ?Q (atomic (\<lambda>w. ((map_of (w_operations w) query_id, w_now w), w))) v" for v
    by (rule safe_atomic) (auto simp: G_refl operation_owned simp del: map_of_eq_Some_iff)
  show ?thesis unfolding query_history_def
    by (intro safe_bind [OF safe_cleanup] safe_bind [OF safe_refresh] safe_bind [OF found])
       (auto intro!: safe_ret safe_bind [OF safe_touch] split: option.split prod.split)
qed

subsection \<open>Handlers\<close>

lemma safe_with_args: "(\<And>r. safe any (k r) w) \<Longrightarrow> safe any (with_args payload reader k) w"
  unfolding with_args_def by (auto simp: safe_blocked safe_ret split: option.split sum.split)

lemma safe_open_session: "safe any (rpc_open_session sv token msg) w"
  unfolding rpc_open_session_def Let_def
  by (auto intro!: safe_with_args safe_bind [OF safe_cleanup] safe_bind [where Q = any] safe_ret safe_atomic
      intro: G_open)

lemma safe_execute_statement: "safe any (rpc_execute_statement sv token msg) w"
proof -
  have start: "safe any (atomic (\<lambda>w. start_operation_section sv token s job (w_now w) w)) v"
    if "owned sv v (ss_id s) (sv_fingerprint sv token)" "makes_job token job" for s job v
    using that by (intro safe_atomic) (blast intro: G_start owned_kept)
  show ?thesis unfolding rpc_execute_statement_def
    by (intro safe_with_args safe_bind [OF safe_cleanup] safe_bind [OF safe_session_for])
       (auto simp: session_found_def makes_job_def split: option.split intro!: safe_ret safe_bind [OF start])
qed

text \<open>The operation a metadata request may have to remove is the one it started itself.\<close>

definition mine :: "string \<Rightarrow> world \<Rightarrow> bool" where
  "mine k w \<longleftrightarrow> issued sv w k \<and>
     (\<forall>op. map_of (w_operations w) k = Some op \<longrightarrow> os_token_fingerprint op = sv_fingerprint sv token)"

lemma mine_kept: "mine k w \<Longrightarrow> kept sv w w' \<Longrightarrow> mine k w'"
  unfolding mine_def using keptD(2,3) by (fastforce simp: same_owner_def)

lemma start_columns_mine:
  "start_columns_section sv token s job at w = (Some (guid, secret, t), w') \<Longrightarrow> mine (sv_uuid_string sv guid) w'"
  unfolding mine_def issued_def
  by (auto simp: start_columns_section_def start_operation_section_def draw_uuids_def Let_def update_conv'
      uuid_key_def simp del: map_of_eq_Some_iff split: if_splits intro!: exI [of _ "w_uuids w"])

lemma safe_unreturned: "mine k w \<Longrightarrow> safe any (remove_unreturned_operation k) w"
  unfolding remove_unreturned_operation_def
  by (rule safe_atomic, drule (1) mine_kept) (auto intro!: G_unreturned simp: mine_def)

lemma safe_get_columns: "safe any (rpc_get_columns sv token msg) w"
proof -
  let ?Q = "\<lambda>r v. \<forall>guid secret t. r = Some (guid, secret, t) \<longrightarrow> mine (sv_uuid_string sv guid) v"
  have start: "safe ?Q (atomic (start_columns_section sv token s job at)) v"
    if "owned sv v (ss_id s) (sv_fingerprint sv token)" "makes_job token job" for s job at v
    using that start_columns_mine by (intro safe_atomic) (blast intro: G_columns owned_kept)
  have wait: "safe any (await_operation_completion t) v" for t v
    unfolding await_operation_completion_def by (rule safe_await) simp
  show ?thesis unfolding rpc_get_columns_def
    by (intro safe_with_args safe_bind [OF safe_cleanup] safe_bind [OF safe_session_for])
       (auto simp: session_found_def makes_job_def split: option.split outcome.split
         intro!: safe_ret safe_bind [OF safe_read_now] safe_bind [OF start] safe_bind [OF wait]
           safe_bind [OF safe_unreturned] intro: owned_kept [OF _ preserved_kept],
        erule mine_kept, erule preserved_kept)
qed

lemma safe_get_info: "safe any (rpc_get_info sv token msg) w"
  unfolding rpc_get_info_def
  by (auto intro!: safe_with_args safe_bind [OF safe_session_for] safe_ret split: option.split)

lemma safe_operation_requests:
  "safe any (rpc_close_session sv token msg) w"
  "safe any (rpc_get_operation_status sv token msg) w"
  "safe any (rpc_get_query_id sv token msg) w"
  "safe any (rpc_get_result_set_metadata sv token msg) w"
  "safe any (rpc_fetch_results sv token msg) w"
  "safe any (rpc_close_operation sv token msg) w"
  "safe any (rpc_cancel_operation sv token msg) w"
  unfolding rpc_close_session_def rpc_get_operation_status_def rpc_get_query_id_def
    rpc_get_result_set_metadata_def rpc_fetch_results_def rpc_close_operation_def rpc_cancel_operation_def
  by (auto intro!: safe_with_args safe_bind [OF safe_remove_session] safe_bind [OF safe_with_operation]
      safe_bind [OF safe_remove_operation] safe_bind [OF safe_cancel_operation] safe_ret)

lemma safe_handle_request: "safe any (handle_request sv token body) w"
  unfolding handle_request_def handle_decoded_def
  by (auto simp: safe_blocked intro!: safe_ret safe_open_session safe_execute_statement safe_get_columns safe_get_info
      safe_operation_requests split: option.split sum.split)

lemma requests_rg:
  assumes "service_inv sv w"
  shows "rg (rely sv) G any (handle_request sv token body) w"
    and "rg (rely sv) G any (query_history sv token query_id) w"
    and "rg (rely sv) G any (cleanup_expired sv) w"
  using assms safe_handle_request safe_query_history safe_cleanup by (auto simp: safe_def)

end


section \<open>The invariant holds in every reachable state\<close>

locale unique_service =
  fixes sv :: svc
  assumes unique: "uuids_unique sv"

sublocale unique_service \<subseteq> sections: service_sections sv token "rely sv" for token
  by unfold_locales
     (auto simp: rely_def intro: unique preserved_refl inv_session_for inv_remove_session inv_remove_operations inv_touch
       inv_open_session inv_start_operation inv_start_columns inv_take_finished inv_finish_refresh
       inv_expire_sessions inv_expire_operations inv_remove_operation inv_cancel_operation inv_remove_unreturned)

sublocale unique_service \<subseteq> service: pool "rely sv" "rely sv" "service_inv sv" "service_request sv" "runtime_step sv"
proof unfold_locales
  show "rely sv w w' \<Longrightarrow> service_inv sv w \<Longrightarrow> service_inv sv w'" for w w'
    by (simp add: rely_def preserved_def)
  show "runtime_step sv w w' \<Longrightarrow> rely sv w w'" for w w'
    by (simp add: rely_def inv_runtime_step)
  show "rg (rely sv) (rely sv) (\<lambda>_ _. True) p w" if "service_request sv p" "service_inv sv w" for p w
    using that(1)
  proof cases
    case (1 token body)
    then show ?thesis
      by (auto intro!: sections.rg_pbind [OF sections.requests_rg(1) [OF that(2)]] rg_Ret)
  next
    case (2 token query_id)
    then show ?thesis
      by (auto intro!: sections.rg_pbind [OF sections.requests_rg(2) [OF that(2)]] rg_Ret)
  next
    case 3
    then show ?thesis by (simp add: sections.requests_rg(3) that(2))
  qed
qed

context unique_service
begin

lemma reachable_inv: "reachable sv w \<Longrightarrow> service_inv sv w"
proof -
  assume "reachable sv w"
  then obtain start ps where steps: "(service_step sv)\<^sup>*\<^sup>* (service_new start, []) (w, ps)"
    unfolding reachable_def by blast
  have "service.pool_ok (service_new start, [])"
    by (simp add: service.pool_ok_def service_inv_new)
  from service.pool_steps_R [OF steps [unfolded service_step_def] this]
  show ?thesis by (simp add: service.pool_ok_def)
qed

end


section \<open>Isolation of principals\<close>

text \<open>
  What an action on behalf of the principal with fingerprint \<open>f\<close> may do to others: their
  sessions stay as they are or are cleaned up once idle for too long; their operations stay as
  they are, are refreshed when their task has finished, or are cleaned up with their session or
  once their result has been kept long enough. What it adds belongs to \<open>f\<close>.
\<close>

definition refreshes :: "world \<Rightarrow> operation_state \<Rightarrow> operation_state \<Rightarrow> bool" where
  "refreshes w op op' \<longleftrightarrow>
     op' = op \<or> op' = snd (take_finished_task (is_finished w) op) \<or>
     (\<exists>since result. op' = finish_refresh (w_now w) op since result)"

definition others_sessions :: "svc \<Rightarrow> bytes \<Rightarrow> world \<Rightarrow> world \<Rightarrow> bool" where
  "others_sessions sv f w w' \<longleftrightarrow>
     (\<forall>k s. map_of (w_sessions w) k = Some s \<longrightarrow> ss_token_fingerprint s \<noteq> f \<longrightarrow>
        map_of (w_sessions w') k = Some s \<or>
        map_of (w_sessions w') k = None \<and>
        session_is_expired s (w_now w) (cfg_idle_session_timeout (sv_config sv))) \<and>
     (\<forall>k s. map_of (w_sessions w) k = None \<longrightarrow> map_of (w_sessions w') k = Some s \<longrightarrow> ss_token_fingerprint s = f)"

definition others_operations :: "svc \<Rightarrow> bytes \<Rightarrow> world \<Rightarrow> world \<Rightarrow> bool" where
  "others_operations sv f w w' \<longleftrightarrow>
     (\<forall>k op. map_of (w_operations w) k = Some op \<longrightarrow> os_token_fingerprint op \<noteq> f \<longrightarrow>
        (\<exists>op'. map_of (w_operations w') k = Some op' \<and> refreshes w op op') \<or>
        map_of (w_operations w') k = None \<and>
        (gone sv w (os_session_id op) \<or>
         operation_is_expired op (w_now w) (cfg_completed_operation_ttl (sv_config sv)))) \<and>
     (\<forall>k op. map_of (w_operations w) k = None \<longrightarrow> map_of (w_operations w') k = Some op \<longrightarrow>
        os_token_fingerprint op = f)"

definition isolated :: "svc \<Rightarrow> bytes \<Rightarrow> world \<Rightarrow> world \<Rightarrow> bool" where
  "isolated sv f w w' \<longleftrightarrow>
     (service_inv sv w \<longrightarrow> preserved sv w w' \<and> others_sessions sv f w w' \<and> others_operations sv f w w')"

lemma refreshes_refl [simp]: "refreshes w op op"
  by (simp add: refreshes_def)

lemma others_sessions_same [simp]: "w_sessions w' = w_sessions w \<Longrightarrow> others_sessions sv f w w'"
  by (simp add: others_sessions_def)

lemma others_operations_same [simp]: "w_operations w' = w_operations w \<Longrightarrow> others_operations sv f w w'"
  by (simp add: others_operations_def)

lemma session_expired_later:
  "session_is_expired s now idle \<Longrightarrow> now \<le> later \<Longrightarrow> session_is_expired s later idle"
  by (simp add: session_is_expired_def)

lemma operation_expired_later:
  "operation_is_expired op now ttl \<Longrightarrow> now \<le> later \<Longrightarrow> operation_is_expired op later ttl"
  by (cases "os_state op") (auto simp: operation_is_expired_def)

lemma isolated_session_for:
  assumes "service_inv sv w" "now \<le> w_now w" "session_for_section sv h token now w = (found, w')"
  shows "isolated sv (sv_fingerprint sv token) w w'"
  using assms inv_session_for [OF assms(1,3)] session_expired_later [OF _ assms(2)]
  by (auto simp: isolated_def others_sessions_def session_for_section_def session_matches_def delete_conv' update_conv'
      Let_def simp del: map_of_eq_Some_iff split: option.splits if_splits)

lemma isolated_remove_session:
  assumes "service_inv sv w" "remove_session_section sv h token w = (valid, w')"
  shows "isolated sv (sv_fingerprint sv token) w w'"
  using assms inv_remove_session [OF assms]
  by (auto simp: isolated_def others_sessions_def remove_session_section_def session_matches_def delete_conv'
      simp del: map_of_eq_Some_iff split: option.splits if_splits)

lemma isolated_touch:
  assumes "service_inv sv w" "owned sv w sid f"
  shows "isolated sv f w (touch_section sid w)"
  using assms inv_touch [OF assms(1), of sid]
  by (auto simp: isolated_def others_sessions_def touch_section_def owned_def update_conv'
      simp del: map_of_eq_Some_iff split: option.splits)

lemma others_operations_filter:
  assumes "distinct_keys (w_operations w)" "w_operations w' = filter P (w_operations w)"
    and "\<And>k op. map_of (w_operations w) k = Some op \<Longrightarrow> \<not> P (k, op) \<Longrightarrow> os_token_fingerprint op \<noteq> f \<Longrightarrow>
      gone sv w (os_session_id op) \<or>
      operation_is_expired op (w_now w) (cfg_completed_operation_ttl (sv_config sv))"
  shows "others_operations sv f w w'"
  using assms by (auto simp: others_operations_def map_of_filter_distinct simp del: map_of_eq_Some_iff
      split: option.splits)

lemma isolated_remove_operations:
  assumes "service_inv sv w" "gone sv w sid"
  shows "isolated sv f w (remove_operations_section sid w)"
proof -
  have "others_operations sv f w (remove_operations_section sid w)"
    by (rule others_operations_filter [OF service_invD(2) [OF assms(1)],
          where P = "\<lambda>(_, op). os_session_id op \<noteq> sid"])
       (use assms(2) in \<open>auto simp: remove_operations_section_def\<close>)
  then show ?thesis using inv_remove_operations [OF assms(1), of sid]
    by (simp add: isolated_def remove_operations_section_def)
qed

lemma isolated_expire_operations:
  assumes "service_inv sv w" "now \<le> w_now w" "\<And>sid. sid \<in> set ids \<Longrightarrow> gone sv w sid"
  shows "isolated sv f w (expire_operations_section sv now ids w)"
proof -
  have "others_operations sv f w (expire_operations_section sv now ids w)"
    by (rule others_operations_filter [OF service_invD(2) [OF assms(1)],
          where P = "\<lambda>(_, op). \<not> operation_dropped sv now ids op"])
       (use assms(2,3) operation_expired_later in \<open>auto simp: expire_operations_section_def operation_dropped_def\<close>)
  then show ?thesis using inv_expire_operations [OF assms(1), of now ids]
    by (simp add: isolated_def expire_operations_section_def)
qed

lemma isolated_expire_sessions:
  assumes "service_inv sv w" "now \<le> w_now w" "expire_sessions_section sv now w = (ids, w')"
  shows "isolated sv f w w'"
  using assms inv_expire_sessions [OF assms(1,3)] service_invD(1) [OF assms(1)] session_expired_later [OF _ assms(2)]
  by (auto simp: isolated_def others_sessions_def expire_sessions_section_def Let_def map_of_filter_distinct
      simp del: map_of_eq_Some_iff split: option.splits if_splits)

lemma isolated_open:
  assumes "service_inv sv w" "uuids_unique sv" "open_session_section sv token catalog schema w = (opened, w')"
  shows "isolated sv (sv_fingerprint sv token) w w'"
proof -
  have "map_of (w_sessions w) (uuid_key sv (w_uuids w)) = None"
    using service_invD(5) [OF assms(1)] fresh_key [OF assms(2) order_refl, of w]
    by (cases "map_of (w_sessions w) (uuid_key sv (w_uuids w))")
       (auto simp: session_ok_def simp del: map_of_eq_Some_iff dest!: map_of_SomeD)
  then show ?thesis using assms inv_open_session [OF assms]
    by (auto simp: isolated_def others_sessions_def open_session_section_def draw_uuids_def Let_def update_conv'
        uuid_key_def simp del: map_of_eq_Some_iff split: if_splits)
qed

lemma isolated_start:
  assumes "service_inv sv w" "uuids_unique sv" "owned sv w (ss_id s) (sv_fingerprint sv token)" "makes_job token job"
    "start_operation_section sv token s job at w = (started, w')"
  shows "isolated sv (sv_fingerprint sv token) w w'"
proof -
  have "map_of (w_operations w) (uuid_key sv (w_uuids w)) = None"
    using service_invD(6) [OF assms(1)] fresh_key [OF assms(2) order_refl, of w]
    by (cases "map_of (w_operations w) (uuid_key sv (w_uuids w))")
       (auto simp: operation_ok_def simp del: map_of_eq_Some_iff dest!: map_of_SomeD)
  then show ?thesis using assms inv_start_operation [OF assms]
    by (auto simp: isolated_def others_operations_def start_operation_section_def draw_uuids_def Let_def update_conv'
        uuid_key_def simp del: map_of_eq_Some_iff split: if_splits)
qed

lemma isolated_receivers: "isolated sv f w (w'\<lparr>w_receivers := rs\<rparr>) = isolated sv f w w'"
  by (simp add: isolated_def preserved_receivers others_sessions_def others_operations_def)

lemma isolated_columns:
  assumes "service_inv sv w" "uuids_unique sv" "owned sv w (ss_id s) (sv_fingerprint sv token)" "makes_job token job"
    "start_columns_section sv token s job at w = (started, w')"
  shows "isolated sv (sv_fingerprint sv token) w w'"
  using assms(5) isolated_start [OF assms(1-4), of at]
  by (auto simp: start_columns_section_def isolated_receivers split: prod.splits option.splits)

lemma others_operations_update:
  assumes "map_of (w_operations w) k = Some op" "w_operations w' = AList.update k op' (w_operations w)"
    "refreshes w op op' \<or> os_token_fingerprint op = f"
  shows "others_operations sv f w w'"
  using assms by (auto simp: others_operations_def update_conv' simp del: map_of_eq_Some_iff)

lemma refreshes_take: "take_finished_task (is_finished w) op = (taken, op') \<Longrightarrow> refreshes w op op'"
  by (simp add: refreshes_def)

lemma refreshes_finish: "refreshes w op (finish_refresh (w_now w) op since result)"
  by (auto simp: refreshes_def)

lemma isolated_take:
  assumes "service_inv sv w" "take_finished_section k w = (taken, w')"
  shows "isolated sv f w w'"
  using assms inv_take_finished [OF assms]
  by (auto simp: isolated_def take_finished_section_def Let_def refreshes_take split: option.splits prod.splits
      intro!: others_operations_update)

lemma isolated_finish:
  assumes "service_inv sv w" "result_ok result" "refresh_ok sv w k result"
  shows "isolated sv f w (finish_refresh_section k at result w)"
  using assms inv_finish_refresh [OF assms, of at]
  by (auto simp: isolated_def finish_refresh_section_def refreshes_finish split: option.splits
      intro!: others_operations_update)

lemma isolated_cancel:
  assumes "service_inv sv w" "cancel_operation_section sv h token w = (valid, w')"
  shows "isolated sv (sv_fingerprint sv token) w w'"
  using assms inv_cancel_operation [OF assms]
  by (auto simp: isolated_def cancel_operation_section_def operation_matches_def Let_def
      split: option.splits prod.splits if_splits intro!: others_operations_update)

lemma isolated_delete:
  assumes "map_of (w_operations w) k = Some op" "os_token_fingerprint op = f"
    "w_operations w' = AList.delete k (w_operations w)"
  shows "others_operations sv f w w'"
  using assms by (auto simp: others_operations_def delete_conv' simp del: map_of_eq_Some_iff)

lemma isolated_remove_operation:
  assumes "service_inv sv w" "remove_operation_section sv h token w = (valid, w')"
  shows "isolated sv (sv_fingerprint sv token) w w'"
  using assms inv_remove_operation [OF assms]
  by (auto simp: isolated_def remove_operation_section_def operation_matches_def
      split: option.splits if_splits intro!: isolated_delete)

lemma isolated_unreturned:
  assumes "service_inv sv w" "\<And>op. map_of (w_operations w) k = Some op \<Longrightarrow> os_token_fingerprint op = f"
  shows "isolated sv f w (remove_unreturned_section k w)"
  using assms inv_remove_unreturned [OF assms(1), of k]
  by (auto simp: isolated_def remove_unreturned_section_def simp del: map_of_eq_Some_iff
      split: option.splits intro!: isolated_delete)

sublocale unique_service \<subseteq> isolation: service_sections sv token "isolated sv (sv_fingerprint sv token)" for token
proof unfold_locales
  show "isolated sv (sv_fingerprint sv token) w w' \<Longrightarrow> rely sv w w'" for w w'
    by (simp add: isolated_def rely_def)
  show "isolated sv (sv_fingerprint sv token) w w" for w by (simp add: isolated_def preserved_refl)
qed (rule unique isolated_session_for isolated_remove_session isolated_remove_operations isolated_touch
      isolated_open [OF _ unique] isolated_start [OF _ unique] isolated_columns [OF _ unique] isolated_take
      isolated_finish isolated_expire_sessions isolated_expire_operations isolated_remove_operation
      isolated_cancel isolated_unreturned; assumption)+


section \<open>Operations only move forward\<close>

text \<open>
  No request moves an operation back, and once it has completed no request changes it: it stays
  as it is until it is removed.
\<close>

definition forward :: "world \<Rightarrow> world \<Rightarrow> bool" where
  "forward w w' \<longleftrightarrow>
     (\<forall>k op op'. map_of (w_operations w) k = Some op \<longrightarrow> map_of (w_operations w') k = Some op' \<longrightarrow>
        stage (os_state op) \<le> stage (os_state op') \<and> (completed (os_state op) \<longrightarrow> op' = op))"

definition progressing :: "svc \<Rightarrow> world \<Rightarrow> world \<Rightarrow> bool" where
  "progressing sv w w' \<longleftrightarrow> (service_inv sv w \<longrightarrow> preserved sv w w' \<and> forward w w')"

lemma progressingI:
  "(service_inv sv w \<Longrightarrow> preserved sv w w') \<Longrightarrow> forward w w' \<Longrightarrow> progressing sv w w'"
  by (simp add: progressing_def)

lemma forward_same [simp]: "w_operations w' = w_operations w \<Longrightarrow> forward w w'"
  by (simp add: forward_def del: map_of_eq_Some_iff)

lemma forward_filter:
  "distinct_keys (w_operations w) \<Longrightarrow> w_operations w' = filter P (w_operations w) \<Longrightarrow> forward w w'"
  by (auto simp: forward_def map_of_filter_distinct simp del: map_of_eq_Some_iff split: if_splits)

lemma forward_delete: "w_operations w' = AList.delete k (w_operations w) \<Longrightarrow> forward w w'"
  by (auto simp: forward_def delete_conv' simp del: map_of_eq_Some_iff split: if_splits)

lemma forward_update:
  assumes "map_of (w_operations w) k = Some op" "w_operations w' = AList.update k op' (w_operations w)"
    "stage (os_state op) \<le> stage (os_state op')" "completed (os_state op) \<Longrightarrow> op' = op"
  shows "forward w w'"
  using assms by (auto simp: forward_def update_conv' simp del: map_of_eq_Some_iff split: if_splits)

lemma forward_insert:
  assumes "map_of (w_operations w) k = None" "w_operations w' = AList.update k op' (w_operations w)"
  shows "forward w w'"
  using assms by (auto simp: forward_def update_conv' simp del: map_of_eq_Some_iff split: if_splits)

lemma stage_le: "completed (os_state op') \<Longrightarrow> stage (os_state op) \<le> stage (os_state op')"
  by (cases "os_state op") (auto simp: completed_stage)

lemma forward_take: "take_finished_section k w = (taken, w') \<Longrightarrow> forward w w'"
  using take_finished_stage [of _ "is_finished w"] take_finished_completed [of _ "is_finished w"]
  by (auto simp: take_finished_section_def Let_def split: option.splits prod.splits
      intro!: forward_update) (metis snd_conv)+

lemma forward_finish: "forward w (finish_refresh_section k at result w)"
proof (cases "map_of (w_operations w) k")
  case (Some op)
  have "stage (os_state op) \<le> stage (os_state (finish_refresh (w_now w) op at result))"
    by (cases "os_state op") (auto simp: finish_refresh_def completed_stage [THEN iffD1])
  with Some show ?thesis
    by (auto simp: finish_refresh_section_def finish_refresh_completed intro!: forward_update)
qed (simp add: finish_refresh_section_def forward_same)

lemma forward_cancel: "cancel_operation_section sv h token w = (valid, w') \<Longrightarrow> forward w w'"
proof (cases "map_of (w_operations w) (h_id h)")
  case (Some op)
  assume "cancel_operation_section sv h token w = (valid, w')"
  moreover have "stage (os_state op) \<le> stage (os_state (fst (cancel (w_now w) op)))"
    by (cases "os_state op") (auto simp: cancel_def)
  ultimately show ?thesis using Some cancel_completed [of op "w_now w"]
    by (auto simp: cancel_operation_section_def Let_def split: if_splits prod.splits
        intro!: forward_update)
qed (simp add: cancel_operation_section_def forward_same)

lemma forward_start:
  assumes "service_inv sv w" "uuids_unique sv" "start_operation_section sv token s job at w = (started, w')"
  shows "forward w w'"
proof -
  have "map_of (w_operations w) (uuid_key sv (w_uuids w)) = None"
    using service_invD(6) [OF assms(1)] fresh_key [OF assms(2) order_refl, of w]
    by (cases "map_of (w_operations w) (uuid_key sv (w_uuids w))")
       (auto simp: operation_ok_def simp del: map_of_eq_Some_iff dest!: map_of_SomeD)
  with assms(3) show ?thesis
    by (auto simp: start_operation_section_def draw_uuids_def Let_def uuid_key_def split: if_splits
        intro: forward_insert)
qed

lemma forward_columns:
  assumes "service_inv sv w" "uuids_unique sv" "start_columns_section sv token s job at w = (started, w')"
  shows "forward w w'"
  using assms(3) forward_start [OF assms(1,2)]
  by (auto simp: start_columns_section_def forward_def split: prod.splits option.splits)

lemma forward_sessions:
  "session_for_section sv h token now w = (found, w') \<Longrightarrow> forward w w'"
  "remove_session_section sv h token w = (valid, w') \<Longrightarrow> forward w w'"
  "forward w (touch_section sid w)"
  "open_session_section sv token catalog schema w = (opened, w') \<Longrightarrow> forward w w'"
  "expire_sessions_section sv now w = (ids, w') \<Longrightarrow> forward w w'"
  by (auto simp: session_for_section_def remove_session_section_def touch_section_def open_session_section_def
      draw_uuids_def expire_sessions_section_def Let_def intro!: forward_same split: option.splits if_splits)

lemma forward_removals:
  assumes "distinct_keys (w_operations w)"
  shows "forward w (remove_operations_section sid w)" "forward w (expire_operations_section sv now ids w)"
    "remove_operation_section sv h token w = (valid, w') \<Longrightarrow> forward w w'"
    "forward w (remove_unreturned_section k w)"
  using assms
  by (auto simp: remove_operations_section_def expire_operations_section_def remove_operation_section_def
      remove_unreturned_section_def split: option.splits if_splits
      intro: forward_filter forward_delete forward_same)

lemmas distinct_operations = service_invD(2)

sublocale unique_service \<subseteq> progress: service_sections sv token "progressing sv" for token
proof unfold_locales
  show "progressing sv w w' \<Longrightarrow> rely sv w w'" for w w'
    by (simp add: progressing_def rely_def)
  show "progressing sv w w" for w by (simp add: progressing_def preserved_refl forward_same)
qed (auto simp: progressing_def
      intro: unique inv_session_for inv_remove_session inv_remove_operations inv_touch
       inv_open_session inv_start_operation inv_start_columns inv_take_finished inv_finish_refresh
       inv_expire_sessions inv_expire_operations inv_remove_operation inv_cancel_operation inv_remove_unreturned
       forward_sessions forward_removals [OF distinct_operations] forward_take forward_finish forward_cancel
       forward_start forward_columns)

end
