(* ===== verification/Thrift_Requests_Run.thy ===== *)
theory Thrift_Requests_Run
  imports Thrift_Isolation
begin

text \<open>
  What a request answers when it runs to its end: that it does run to its end, that an
  operation can be reached only with its secret and its owner's token, and what opening a
  session and starting a statement do.
\<close>

section \<open>Requests return\<close>

definition returns :: "(world, 'a) prog \<Rightarrow> bool" where
  "returns p \<longleftrightarrow> (\<forall>w. run p w \<noteq> None)"

lemma returns_ret: "returns (Ret x)"
  by (simp add: returns_def)

lemma returns_atomic: "returns (atomic f)"
  by (simp add: returns_def)

lemma returns_bind: "returns p \<Longrightarrow> (\<And>x. returns (k x)) \<Longrightarrow> returns (pbind p k)"
  by (fastforce simp: returns_def run_pbind split: option.splits)

lemma returns_pfor: "(\<And>x. returns (body x)) \<Longrightarrow> returns (pfor xs body)"
  by (induction xs) (auto intro: returns_ret returns_bind)

text \<open>A refresh waits only for a task that has finished.\<close>

lemma returns_refresh: "returns (refresh_operation k)"
  unfolding returns_def
proof
  fix w
  show "run (refresh_operation k) w \<noteq> None"
  proof (cases "fst (take_finished_section k w)")
    case None
    then show ?thesis
      by (cases "take_finished_section k w") (simp add: refresh_operation_def run_pbind)
  next
    case (Some st)
    then obtain since t w' where take: "take_finished_section k w = (Some (since, t), w')"
      by (cases "take_finished_section k w"; cases st) auto
    then have "is_finished w t" and tasks: "w_tasks w' = w_tasks w"
      by (auto simp: take_finished_section_def take_finished_task_def has_finished_task_def Let_def
          split: option.splits if_splits operation_execution.splits)
    then obtain r where "join_result w' t = Some r"
      by (cases "snd (w_tasks w ! t)") (auto simp: is_finished_def join_result_def tasks)
    with take show ?thesis by (simp add: refresh_operation_def run_pbind)
  qed
qed

lemma returns_cleanup: "returns (cleanup_expired sv)"
  unfolding cleanup_expired_def refresh_finished_operations_def read_now_def
  by (intro returns_bind returns_atomic returns_pfor returns_refresh)

lemma returns_session_for: "returns (session_for sv handle token)"
  unfolding session_for_def remove_operations_for_session_def read_now_def
  by (auto intro!: returns_ret returns_bind returns_atomic split: option.split lookup.split)

lemma returns_methods:
  "returns (remove_session sv handle token)"
  "returns (with_operation sv handle token write)"
  "returns (remove_operation sv handle token)"
  "returns (cancel_operation sv handle token)"
  "returns (query_history sv token query_id)"
  unfolding remove_session_def with_operation_def remove_operation_def cancel_operation_def query_history_def
    remove_operations_for_session_def touch_session_def
  by (auto intro!: returns_ret returns_bind returns_atomic returns_cleanup returns_refresh
      split: option.split prod.split)

lemma returns_with_args:
  assumes "advances (Suc 0) reader" "\<And>r. returns (k r)"
  shows "returns (with_args payload reader k)"
  using read_args_returns [OF assms(1), of payload] assms(2)
  by (auto simp: with_args_def returns_ret split: option.split sum.split)

lemma returns_handlers:
  "returns (rpc_open_session sv token msg)"
  "returns (rpc_close_session sv token msg)"
  "returns (rpc_get_info sv token msg)"
  "returns (rpc_execute_statement sv token msg)"
  "returns (rpc_get_operation_status sv token msg)"
  "returns (rpc_get_query_id sv token msg)"
  "returns (rpc_get_result_set_metadata sv token msg)"
  "returns (rpc_fetch_results sv token msg)"
  "returns (rpc_close_operation sv token msg)"
  "returns (rpc_cancel_operation sv token msg)"
  unfolding rpc_open_session_def rpc_close_session_def rpc_get_info_def rpc_execute_statement_def
    rpc_get_operation_status_def rpc_get_query_id_def rpc_get_result_set_metadata_def rpc_fetch_results_def
    rpc_close_operation_def rpc_cancel_operation_def Let_def
  by (auto intro!: returns_with_args request_readers_advance returns_bind returns_atomic returns_ret
      returns_cleanup returns_session_for returns_methods split: option.split)

section \<open>Looking up an operation\<close>

text \<open>Cleaning up and refreshing add no operation and change no owner.\<close>

definition only_shrinks :: "world \<Rightarrow> world \<Rightarrow> bool" where
  "only_shrinks w w' \<longleftrightarrow>
     (distinct_keys (w_operations w) \<longrightarrow> distinct_keys (w_operations w') \<and>
       (\<forall>k op'. map_of (w_operations w') k = Some op' \<longrightarrow>
          (\<exists>op. map_of (w_operations w) k = Some op \<and> same_owner op op')))"

lemma only_shrinks_refl [simp]: "w_operations w' = w_operations w \<Longrightarrow> only_shrinks w w'"
  by (auto simp: only_shrinks_def simp del: map_of_eq_Some_iff)

lemma only_shrinks_trans: "only_shrinks u v \<Longrightarrow> only_shrinks v w \<Longrightarrow> only_shrinks u w"
  unfolding only_shrinks_def using same_owner_trans by metis

interpretation shrinking: rely_guarantee only_shrinks only_shrinks
  by unfold_locales (auto intro: only_shrinks_trans)

lemma only_shrinks_filter:
  "w_operations w' = filter P (w_operations w) \<Longrightarrow> only_shrinks w w'"
  by (auto simp: only_shrinks_def map_of_filter_distinct simp del: map_of_eq_Some_iff split: option.splits if_splits)

lemma only_shrinks_update:
  "map_of (w_operations w) k = Some op \<Longrightarrow> same_owner op op' \<Longrightarrow>
   w_operations w' = AList.update k op' (w_operations w) \<Longrightarrow> only_shrinks w w'"
  by (auto simp: only_shrinks_def update_conv' simp del: map_of_eq_Some_iff split: if_splits)

abbreviation shrinks :: "(world, 'a) prog \<Rightarrow> world \<Rightarrow> bool" where
  "shrinks \<equiv> rg only_shrinks only_shrinks (\<lambda>_ _. True)"

lemma shrinks_refresh: "shrinks (refresh_operation k) w"
proof -
  have take: "only_shrinks v w'" if "take_finished_section k v = (x, w')" for v x w'
  proof (cases "map_of (w_operations v) k")
    case (Some op)
    with that obtain op' where t: "take_finished_task (is_finished v) op = (x, op')"
      "w' = v\<lparr>w_operations := AList.update k op' (w_operations v)\<rparr>"
      by (auto simp: take_finished_section_def Let_def split: prod.splits)
    have "same_owner op op'" using same_owner_ops(1) [of op "is_finished v"] unfolding t(1) by simp
    with Some t(2) show ?thesis by (intro only_shrinks_update) auto
  qed (use that in \<open>simp add: take_finished_section_def\<close>)
  have finish: "only_shrinks v (finish_refresh_section k since r v)" for v since r
    by (auto simp: finish_refresh_section_def simp del: map_of_eq_Some_iff split: option.split
        intro!: only_shrinks_update)
  show ?thesis unfolding refresh_operation_def
  proof (rule shrinking.rg_pbind [where Q = "\<lambda>_ _. True"])
    show "shrinks (atomic (take_finished_section k)) w" by (rule rg_atomic) (auto intro: take)
    show "shrinks (case x of None \<Rightarrow> Ret () | Some (started, t) \<Rightarrow>
        pbind (await (\<lambda>w. join_result w t)) (\<lambda>result.
          atomic (\<lambda>w. ((), finish_refresh_section k started result w)))) v" for x v
      by (auto intro!: rg_Ret shrinking.rg_pbind [where Q = "\<lambda>_ _. True"] rg_await rg_atomic finish
          split: option.split)
  qed
qed

lemma shrinks_cleanup: "shrinks (cleanup_expired sv) w"
proof -
  have expire: "only_shrinks v (expire_operations_section sv now ids v)" for v now ids
    by (rule only_shrinks_filter) (simp add: expire_operations_section_def)
  have sessions: "only_shrinks v w'" if "expire_sessions_section sv now v = (x, w')" for v w' x now
    using that by (auto simp: expire_sessions_section_def Let_def)
  show ?thesis unfolding cleanup_expired_def refresh_finished_operations_def read_now_def
    by (intro shrinking.rg_pbind [where Q = "\<lambda>_ _. True"] shrinking.rg_pfor shrinks_refresh rg_atomic conjI TrueI)
       (auto intro: expire sessions)
qed

text \<open>An operation is reachable with a handle and a token when both belong to it.\<close>

definition authorized :: "svc \<Rightarrow> handle \<Rightarrow> string \<Rightarrow> world \<Rightarrow> bool" where
  "authorized sv h token w \<longleftrightarrow>
     (case map_of (w_operations w) (h_id h) of Some op \<Rightarrow> operation_matches sv h token op | None \<Rightarrow> False)"

lemma authorized_shrinks:
  "only_shrinks w w' \<Longrightarrow> distinct_keys (w_operations w) \<Longrightarrow> authorized sv h token w' \<Longrightarrow> authorized sv h token w"
  unfolding only_shrinks_def authorized_def
  by (fastforce simp: operation_matches_def same_owner_def simp del: map_of_eq_Some_iff split: option.splits)

lemma run_cleanup:
  obtains w' where "run (cleanup_expired sv) w = Some ((), w')" "only_shrinks w w'"
proof -
  obtain w' where w': "run (cleanup_expired sv) w = Some ((), w')"
    using returns_cleanup unfolding returns_def by fastforce
  moreover have "only_shrinks w w'" using shrinking.run_rg [OF shrinks_cleanup w'] by blast
  ultimately show thesis by (rule that)
qed

lemma run_refresh:
  obtains w' where "run (refresh_operation k) w = Some ((), w')" "only_shrinks w w'"
proof -
  obtain w' where w': "run (refresh_operation k) w = Some ((), w')"
    using returns_refresh unfolding returns_def by fastforce
  moreover have "only_shrinks w w'" using shrinking.run_rg [OF shrinks_refresh w'] by blast
  ultimately show thesis by (rule that)
qed

lemma with_operation_unauthorized:
  assumes "distinct_keys (w_operations w)" "\<not> authorized sv h token w"
    "run (with_operation sv (Some h) token write) w = Some (r, w')"
  shows "r = None"
proof -
  obtain w1 where w1: "run (cleanup_expired sv) w = Some ((), w1)" "only_shrinks w w1" by (rule run_cleanup)
  obtain w2 where w2: "run (refresh_operation (h_id h)) w1 = Some ((), w2)" "only_shrinks w1 w2" by (rule run_refresh)
  have "\<not> authorized sv h token w2"
    using authorized_shrinks [OF only_shrinks_trans [OF w1(2) w2(2)] assms(1)] assms(2) by blast
  with assms(3) w1(1) w2(1) show ?thesis
    by (auto simp: with_operation_def run_pbind authorized_def touch_session_def simp del: map_of_eq_Some_iff
        split: option.splits if_splits)
qed

lemma remove_operation_unauthorized:
  assumes "distinct_keys (w_operations w)" "\<not> authorized sv h token w"
    "run (remove_operation sv (Some h) token) w = Some (r, w')"
  shows "\<not> r"
proof -
  obtain w1 where w1: "run (cleanup_expired sv) w = Some ((), w1)" "only_shrinks w w1" by (rule run_cleanup)
  have "\<not> authorized sv h token w1" using authorized_shrinks [OF w1(2) assms(1)] assms(2) by blast
  with assms(3) w1(1) show ?thesis
    by (auto simp: remove_operation_def run_pbind authorized_def remove_operation_section_def
        simp del: map_of_eq_Some_iff split: option.splits if_splits)
qed

lemma cancel_operation_unauthorized:
  assumes "distinct_keys (w_operations w)" "\<not> authorized sv h token w"
    "run (cancel_operation sv (Some h) token) w = Some (r, w')"
  shows "\<not> r"
proof -
  obtain w1 where w1: "run (cleanup_expired sv) w = Some ((), w1)" "only_shrinks w w1" by (rule run_cleanup)
  have "\<not> authorized sv h token w1" using authorized_shrinks [OF w1(2) assms(1)] assms(2) by blast
  with assms(3) w1(1) show ?thesis
    by (auto simp: cancel_operation_def run_pbind authorized_def cancel_operation_section_def Let_def
        simp del: map_of_eq_Some_iff split: option.splits if_splits prod.splits)
qed


section \<open>Opening a session and starting a statement\<close>

lemma run_with_args:
  "read_args payload reader = Some (Inr request) \<Longrightarrow> with_args payload reader k = k request"
  by (simp add: with_args_def)

lemma open_session_section_result:
  assumes "open_session_section sv token catalog schema w = (Some (guid, secret), w')"
  shows "\<exists>s. map_of (w_sessions w') (sv_uuid_string sv guid) = Some s \<and>
      session_matches sv \<lparr>h_id = sv_uuid_string sv guid, h_secret = secret\<rparr> token s \<and>
      ss_catalog s = catalog \<and> ss_schema s = schema \<and> ss_last_access s = w_now w'"
  using assms
  by (auto simp: open_session_section_def draw_uuids_def Let_def session_matches_def update_conv'
      simp del: map_of_eq_Some_iff split: if_splits)

lemma open_session_section_full:
  "open_session_section sv token catalog schema w = (None, w') \<Longrightarrow>
   cfg_max_sessions (sv_config sv) \<le> length (w_sessions w') \<and> w_sessions w' = w_sessions w"
  by (auto simp: open_session_section_def draw_uuids_def Let_def split: if_splits)

end
