(* ===== verification/Thrift_Lifecycle.thy ===== *)
theory Thrift_Lifecycle
  imports Thrift_Requests_Run
begin

text \<open>
  What a request that nothing interrupts does to the service: the refresh of finished
  operations and the clean-up as functions of the two maps, how a finished task's result
  reaches the next request for its operation, closing a session and cancelling. The last
  section turns such runs into reachable states.
\<close>

section \<open>Refreshing\<close>

text \<open>An operation after its task has been looked at.\<close>

definition refreshed :: "world \<Rightarrow> operation_state \<Rightarrow> operation_state" where
  "refreshed w op =
     (case os_state op of
        Running since t \<Rightarrow>
          (case join_result w t of
             Some result \<Rightarrow> op\<lparr>os_state := from_join_result (w_now w) since result\<rparr>
           | None \<Rightarrow> op)
      | _ \<Rightarrow> op)"

lemma refreshed_cong:
  assumes "w_tasks w' = w_tasks w" "w_now w' = w_now w"
  shows "refreshed w' = refreshed w"
proof
  show "refreshed w' op = refreshed w op" for op
    unfolding refreshed_def join_result_def assms by (rule refl)
qed

text \<open>Everything but the operations.\<close>

definition same_frame :: "world \<Rightarrow> world \<Rightarrow> bool" where
  "same_frame w w' \<longleftrightarrow> w' = w\<lparr>w_operations := w_operations w'\<rparr>"

lemma same_frame_trans: "same_frame u v \<Longrightarrow> same_frame v w \<Longrightarrow> same_frame u w"
  unfolding same_frame_def by (cases u; cases v; cases w) simp

lemma same_frame_refl [simp]: "same_frame w w"
  by (simp add: same_frame_def)

lemma same_frameD:
  assumes "same_frame w w'"
  shows "w_now w' = w_now w" "w_tasks w' = w_tasks w" "w_sessions w' = w_sessions w" "refreshed w' = refreshed w"
proof -
  show now: "w_now w' = w_now w" and tasks: "w_tasks w' = w_tasks w" and "w_sessions w' = w_sessions w"
    using assms unfolding same_frame_def by (metis world.select_convs world.surjective world.update_convs(4))+
  show "refreshed w' = refreshed w" using tasks now by (rule refreshed_cong)
qed

lemma join_result_finished: "is_finished w t \<longleftrightarrow> join_result w t \<noteq> None"
  by (auto simp: is_finished_def join_result_def split: task_status.split)

lemma refreshed_idle: "\<not> has_finished_task (is_finished w) op \<Longrightarrow> refreshed w op = op"
  by (auto simp: refreshed_def has_finished_task_def join_result_finished split: operation_execution.splits option.splits)

lemma refreshed_idem [simp]: "refreshed w (refreshed w op) = refreshed w op"
proof (cases "refreshed w op = op")
  case False
  then obtain since r where "refreshed w op = op\<lparr>os_state := from_join_result (w_now w) since r\<rparr>"
    by (auto simp: refreshed_def split: operation_execution.splits option.splits)
  then have "completed (os_state (refreshed w op))" by simp
  then show ?thesis
    by (intro refreshed_idle) (auto simp: has_finished_task_def completed_def split: operation_execution.split)
qed simp

lemma same_owner_refreshed: "same_owner op (refreshed w op)"
  by (auto simp: refreshed_def split: operation_execution.split option.split)

definition refreshes_at :: "string set \<Rightarrow> world \<Rightarrow> world \<Rightarrow> bool" where
  "refreshes_at ks w w' \<longleftrightarrow>
     same_frame w w' \<and> (distinct_keys (w_operations w) \<longrightarrow> distinct_keys (w_operations w')) \<and>
     (\<forall>k. map_of (w_operations w') k =
        (if k \<in> ks then map_option (refreshed w) (map_of (w_operations w) k) else map_of (w_operations w) k))"

lemma refreshes_at_trans:
  assumes "refreshes_at ks u v" "refreshes_at ls v w"
  shows "refreshes_at (ks \<union> ls) u w"
proof -
  have frame: "same_frame u v" "same_frame v w" using assms by (simp_all add: refreshes_at_def)
  have at: "map_of (w_operations v) k = (if k \<in> ks then map_option (refreshed u) (map_of (w_operations u) k)
      else map_of (w_operations u) k)"
    "map_of (w_operations w) k = (if k \<in> ls then map_option (refreshed u) (map_of (w_operations v) k)
      else map_of (w_operations v) k)" for k
    using assms same_frameD(4) [OF frame(1)] by (simp_all add: refreshes_at_def del: map_of_eq_Some_iff)
  have "map_of (w_operations w) k =
      (if k \<in> ks \<union> ls then map_option (refreshed u) (map_of (w_operations u) k) else map_of (w_operations u) k)" for k
    unfolding at by (simp add: option.map_comp comp_def)
  with same_frame_trans [OF frame] assms show ?thesis by (simp add: refreshes_at_def del: map_of_eq_Some_iff)
qed

lemma run_refresh_at: "\<exists>w'. run (refresh_operation j) w = Some ((), w') \<and> refreshes_at {j} w w'"
proof (cases "map_of (w_operations w) j")
  case None
  then show ?thesis
    by (simp add: refresh_operation_def run_pbind take_finished_section_def refreshes_at_def del: map_of_eq_Some_iff)
next
  case op: (Some op)
  show ?thesis
  proof (cases "has_finished_task (is_finished w) op")
    case False
    let ?w = "w\<lparr>w_operations := AList.update j op (w_operations w)\<rparr>"
    have "run (refresh_operation j) w = Some ((), ?w)"
      using op False by (simp add: refresh_operation_def run_pbind take_finished_section_def take_finished_task_def
          del: map_of_eq_Some_iff)
    moreover have "refreshes_at {j} w ?w"
      using op refreshed_idle [OF False]
      by (auto simp: refreshes_at_def same_frame_def update_conv' simp del: map_of_eq_Some_iff)
    ultimately show ?thesis by blast
  next
    case True
    then obtain since t r where run: "os_state op = Running since t" "is_finished w t" "join_result w t = Some r"
      by (auto simp: has_finished_task_def join_result_finished split: operation_execution.splits)
    let ?op = "op\<lparr>os_state := from_join_result (w_now w) since r\<rparr>"
    let ?ops = "AList.update j ?op (AList.update j (op\<lparr>os_state := Refreshing since\<rparr>) (w_operations w))"
    have "run (refresh_operation j) w = Some ((), w\<lparr>w_operations := ?ops\<rparr>)"
      using op run True
      by (simp add: refresh_operation_def run_pbind take_finished_section_def take_finished_task_def
          finish_refresh_section_def finish_refresh_def join_result_def update_conv' split: if_splits
          del: map_of_eq_Some_iff)
    moreover have "refreshes_at {j} w (w\<lparr>w_operations := ?ops\<rparr>)"
      using op run
      by (auto simp: refreshes_at_def same_frame_def update_conv' refreshed_def simp del: map_of_eq_Some_iff)
    ultimately show ?thesis by blast
  qed
qed

lemma run_refresh_all: "\<exists>w'. run (pfor js refresh_operation) w = Some ((), w') \<and> refreshes_at (set js) w w'"
proof (induction js arbitrary: w)
  case Nil
  then show ?case by (simp add: refreshes_at_def)
next
  case (Cons j js)
  obtain v where v: "run (refresh_operation j) w = Some ((), v)" "refreshes_at {j} w v"
    using run_refresh_at by blast
  obtain w' where "run (pfor js refresh_operation) v = Some ((), w')" "refreshes_at (set js) v w'"
    using Cons.IH by blast
  with v refreshes_at_trans [OF v(2)] show ?case by (fastforce simp: run_pbind)
qed

lemma run_refresh_finished:
  "\<exists>w'. run refresh_finished_operations w = Some ((), w') \<and> refreshes_at UNIV w w'"
proof -
  let ?ids = "map fst (filter (\<lambda>(_, op). has_finished_task (is_finished w) op) (w_operations w))"
  obtain w' where w': "run (pfor ?ids refresh_operation) w = Some ((), w')" "refreshes_at (set ?ids) w w'"
    using run_refresh_all by blast
  have "refreshed w op = op" if "map_of (w_operations w) k = Some op" "k \<notin> set ?ids" for k op
    using that map_of_SomeD [OF that(1)] by (intro refreshed_idle) force
  then have "map_of (w_operations w) k = map_option (refreshed w) (map_of (w_operations w) k)" if "k \<notin> set ?ids" for k
    using that by (cases "map_of (w_operations w) k") (simp_all del: map_of_eq_Some_iff)
  then have "refreshes_at UNIV w w'"
    using w'(2) unfolding refreshes_at_def by (metis UNIV_I)
  with w'(1) show ?thesis by (simp add: refresh_finished_operations_def run_pbind)
qed

section \<open>Cleaning up\<close>

definition session_expired_at :: "svc \<Rightarrow> world \<Rightarrow> string \<Rightarrow> bool" where
  "session_expired_at sv w k \<longleftrightarrow>
     (\<exists>s. map_of (w_sessions w) k = Some s \<and>
        session_is_expired s (w_now w) (cfg_idle_session_timeout (sv_config sv)))"

text \<open>What is left of the two maps: a specification of \<open>cleanup_expired\<close>.\<close>

definition live_session :: "svc \<Rightarrow> world \<Rightarrow> string \<Rightarrow> session_state option" where
  "live_session sv w k = (if session_expired_at sv w k then None else map_of (w_sessions w) k)"

definition live_operation :: "svc \<Rightarrow> world \<Rightarrow> string \<Rightarrow> operation_state option" where
  "live_operation sv w k =
     (case map_of (w_operations w) k of
        None \<Rightarrow> None
      | Some op \<Rightarrow>
          if session_expired_at sv w (os_session_id op) \<or>
             operation_is_expired (refreshed w op) (w_now w) (cfg_completed_operation_ttl (sv_config sv))
          then None else Some (refreshed w op))"

lemma expired_ids:
  assumes "distinct_keys (w_sessions w)"
  shows "k \<in> set (fst (expire_sessions_section sv (w_now w) w)) \<longleftrightarrow> session_expired_at sv w k"
  using assms by (force simp: expire_sessions_section_def session_expired_at_def Let_def)

lemma run_cleanup_live:
  assumes "distinct_keys (w_sessions w)" "distinct_keys (w_operations w)"
  obtains w' where "run (cleanup_expired sv) w = Some ((), w')"
    "map_of (w_sessions w') = live_session sv w" "map_of (w_operations w') = live_operation sv w"
    "distinct_keys (w_sessions w')" "distinct_keys (w_operations w')"
    "w_now w' = w_now w" "w_tasks w' = w_tasks w" "w_uuids w' = w_uuids w"
proof -
  obtain v where v: "run refresh_finished_operations w = Some ((), v)" "refreshes_at UNIV w v"
    using run_refresh_finished by blast
  then have frame: "same_frame w v" and distinct: "distinct_keys (w_operations v)"
    and ops: "\<And>k. map_of (w_operations v) k = map_option (refreshed w) (map_of (w_operations w) k)"
    using assms(2) by (simp_all add: refreshes_at_def del: map_of_eq_Some_iff)
  note fr = same_frameD [OF frame]
  let ?ids = "fst (expire_sessions_section sv (w_now w) v)"
  let ?u = "snd (expire_sessions_section sv (w_now w) v)"
  let ?w = "expire_operations_section sv (w_now w) ?ids ?u"
  have run: "run (cleanup_expired sv) w = Some ((), ?w)"
    using v(1) by (simp add: cleanup_expired_def run_pbind read_now_def fr split: prod.split)
  have ids: "k \<in> set ?ids \<longleftrightarrow> session_expired_at sv w k" for k
    using expired_ids [of v k sv] assms(1) by (simp add: fr session_expired_at_def del: map_of_eq_Some_iff)
  have "map_of (w_sessions ?w) = live_session sv w"
    using assms(1) by (intro ext) (auto simp: expire_operations_section_def expire_sessions_section_def Let_def
        map_of_filter_distinct live_session_def session_expired_at_def fr split: option.split simp del: map_of_eq_Some_iff)
  moreover have "map_of (w_operations ?w) = live_operation sv w"
  proof
    fix k
    have u: "w_operations ?u = w_operations v" by (simp add: expire_sessions_section_def Let_def)
    have sid: "os_session_id (refreshed w op) = os_session_id op" for op
      using same_owner_refreshed [of op w] by (simp add: same_owner_def)
    show "map_of (w_operations ?w) k = live_operation sv w k"
      using distinct ops [of k]
      by (cases "map_of (w_operations w) k")
         (auto simp: expire_operations_section_def u map_of_filter_distinct live_operation_def operation_dropped_def ids
           fr sid simp del: map_of_eq_Some_iff)
  qed
  moreover have "distinct_keys (w_sessions ?w)" "distinct_keys (w_operations ?w)"
    using assms(1) distinct by (simp_all add: expire_operations_section_def expire_sessions_section_def Let_def fr)
  moreover have "w_now ?w = w_now w" "w_tasks ?w = w_tasks w"
    using fr by (simp_all add: expire_operations_section_def expire_sessions_section_def Let_def)
  moreover have "w_uuids ?w = w_uuids v"
    by (simp add: expire_operations_section_def expire_sessions_section_def Let_def)
  moreover have "w_uuids v = w_uuids w"
    using frame unfolding same_frame_def by (metis world.select_convs(2) world.surjective world.update_convs(4))
  ultimately show thesis using run that by simp
qed

section \<open>Results become visible\<close>

lemma refreshed_live:
  assumes "live_operation sv w k = Some op'" "w_tasks w' = w_tasks w" "w_now w' = w_now w"
  shows "refreshed w' op' = op'"
  using assms(1) unfolding refreshed_cong [OF assms(2,3)]
  by (auto simp: live_operation_def split: option.splits if_splits simp del: map_of_eq_Some_iff)

lemma run_with_operation:
  assumes "distinct_keys (w_sessions w)" "distinct_keys (w_operations w)"
  shows "\<exists>w'. run (with_operation sv (Some h) token write) w =
    Some (case live_operation sv w (h_id h) of
        Some op \<Rightarrow> if operation_matches sv h token op then Some (write op) else None
      | None \<Rightarrow> None, w')"
proof -
  obtain u where u: "run (cleanup_expired sv) w = Some ((), u)"
    "map_of (w_operations u) = live_operation sv w" "w_now u = w_now w" "w_tasks u = w_tasks w"
    by (rule run_cleanup_live [OF assms])
  obtain v where v: "run (refresh_operation (h_id h)) u = Some ((), v)" "refreshes_at {h_id h} u v"
    using run_refresh_at by blast
  have "map_of (w_operations v) (h_id h) = live_operation sv w (h_id h)"
    using v(2) u(2) refreshed_live [OF _ u(4,3)]
    by (cases "live_operation sv w (h_id h)") (simp_all add: refreshes_at_def del: map_of_eq_Some_iff)
  then show ?thesis
    using u(1) v(1)
    by (auto simp: with_operation_def run_pbind touch_session_def simp del: map_of_eq_Some_iff split: option.split)
qed

section \<open>Closing a session\<close>

text \<open>A handle is good for a session when it names it and carries its secret and the owner's token.\<close>

definition session_authorized :: "svc \<Rightarrow> handle \<Rightarrow> string \<Rightarrow> world \<Rightarrow> bool" where
  "session_authorized sv h token w \<longleftrightarrow>
     (case map_of (w_sessions w) (h_id h) of Some s \<Rightarrow> session_matches sv h token s | None \<Rightarrow> False)"

lemma run_remove_session:
  "run (remove_session sv (Some h) token) w =
     (if session_authorized sv h token w
      then Some (True, remove_operations_section (h_id h) (w\<lparr>w_sessions := AList.delete (h_id h) (w_sessions w)\<rparr>))
      else Some (False, w))"
  by (auto simp: remove_session_def run_pbind remove_session_section_def session_authorized_def
      remove_operations_for_session_def simp del: map_of_eq_Some_iff split: option.split)

section \<open>Cancelling\<close>

lemma run_cancel_operation:
  assumes "distinct_keys (w_sessions w)" "distinct_keys (w_operations w)"
  obtains w1 where "run (cleanup_expired sv) w = Some ((), w1)" "map_of (w_operations w1) = live_operation sv w"
    "run (cancel_operation sv (Some h) token) w = Some (cancel_operation_section sv h token w1)"
proof -
  obtain w1 where w1: "run (cleanup_expired sv) w = Some ((), w1)" "map_of (w_operations w1) = live_operation sv w"
    by (rule run_cleanup_live [OF assms])
  then have "run (cancel_operation sv (Some h) token) w = Some (cancel_operation_section sv h token w1)"
    by (simp add: cancel_operation_def run_pbind)
  with w1 that show thesis by blast
qed

section \<open>Runs are executions\<close>

lemma run_pool_steps:
  "run p w = Some (x, w') \<Longrightarrow> (pool_step request env)\<^sup>*\<^sup>* (w, ps @ [p]) (w', ps @ [Ret x])"
proof (induction p arbitrary: w)
  case (Ret y)
  then show ?case by simp
next
  case (Act f)
  from Act.prems obtain v p where p: "f w = Some (v, p)" "run p v = Some (x, w')"
    by (auto split: option.splits)
  have "pool_step request env (w, ps @ [Act f]) (v, (ps @ [Act f])[length ps := p])"
    by (rule act [where f = f]) (simp_all add: p(1))
  moreover have "(pool_step request env)\<^sup>*\<^sup>* (v, ps @ [p]) (w', ps @ [Ret x])"
    by (rule Act.IH [of "f w" "(v, p)" p]) (use p in \<open>auto intro: range_eqI [of _ f w]\<close>)
  ultimately show ?case by (simp add: converse_rtranclp_into_rtranclp)
qed

lemma reachable_run:
  assumes "reachable sv w" "service_request sv p" "run p w = Some ((), w')"
  shows "reachable sv w'"
proof -
  obtain start ps where "(service_step sv)\<^sup>*\<^sup>* (service_new start, []) (w, ps)"
    using assms(1) by (auto simp: reachable_def)
  moreover have "service_step sv (w, ps) (w, ps @ [p])"
    unfolding service_step_def using assms(2) by (rule arrive)
  moreover have "(service_step sv)\<^sup>*\<^sup>* (w, ps @ [p]) (w', ps @ [Ret ()])"
    unfolding service_step_def by (rule run_pool_steps) (rule assms(3))
  ultimately show ?thesis
    unfolding reachable_def by (meson rtranclp.rtrancl_into_rtrancl rtranclp_trans)
qed

lemma reachable_request:
  assumes "reachable sv w" "run (handle_request sv token body) w = Some (r, w')"
  shows "reachable sv w'"
  by (rule reachable_run [OF assms(1) service_request.intros(1) [of _ token body]]) (simp add: run_pbind assms(2))

lemma reachable_new: "reachable sv (service_new start)"
  unfolding reachable_def by blast

lemma reachable_runtime:
  assumes "reachable sv w" "runtime_step sv w w'"
  shows "reachable sv w'"
proof -
  obtain start ps where "(service_step sv)\<^sup>*\<^sup>* (service_new start, []) (w, ps)"
    using assms(1) by (auto simp: reachable_def)
  moreover have "service_step sv (w, ps) (w', ps)"
    unfolding service_step_def using assms(2) by (rule env)
  ultimately show ?thesis
    unfolding reachable_def by (meson rtranclp.rtrancl_into_rtrancl)
qed

text \<open>One action of the last program of a pool, and the end of a dropped one.\<close>

fun step_prog :: "('w, 'a) prog \<Rightarrow> 'w \<Rightarrow> ('w \<times> ('w, 'a) prog) option" where
  "step_prog (Ret x) w = None"
| "step_prog (Act f) w = f w"

lemma step_prog_pool:
  "step_prog p w = Some (w', p') \<Longrightarrow> pool_step request env (w, ps @ [p]) (w', ps @ [p'])"
  using act [of "length ps" "ps @ [p]" _ w w' p' request env] by (cases p) auto

lemma step_prog_pbind:
  "step_prog (pbind p k) w =
     (case p of Ret x \<Rightarrow> step_prog (k x) w | Act f \<Rightarrow> map_option (map_prod id (\<lambda>p. pbind p k)) (f w))"
  by (cases p) simp_all

text \<open>A request that is dropped after its second action.\<close>

lemma reachable_dropped:
  assumes "reachable sv w" "service_request sv p" "step_prog p w = Some (w1, p1)" "step_prog p1 w1 = Some (w2, p2)"
  shows "reachable sv w2"
proof -
  obtain start ps where "(service_step sv)\<^sup>*\<^sup>* (service_new start, []) (w, ps)"
    using assms(1) by (auto simp: reachable_def)
  moreover have "service_step sv (w, ps) (w, ps @ [p])"
    unfolding service_step_def using assms(2) by (rule arrive)
  moreover have "service_step sv (w, ps @ [p]) (w1, ps @ [p1])" "service_step sv (w1, ps @ [p1]) (w2, ps @ [p2])"
    unfolding service_step_def using assms(3,4) by (auto intro: step_prog_pool)
  ultimately show ?thesis
    unfolding reachable_def by (meson rtranclp.rtrancl_into_rtrancl)
qed

section \<open>Contracts of the interleaved requests\<close>

context unique_service
begin

lemma isolated_requests:
  assumes "service_inv sv w"
  shows "rg (rely sv) (isolated sv (sv_fingerprint sv token)) (\<lambda>_ _. True) (handle_request sv token body) w"
    and "rg (rely sv) (isolated sv (sv_fingerprint sv token)) (\<lambda>_ _. True) (query_history sv token query_id) w"
  using isolation.requests_rg [OF assms] by blast+

lemma progressing_requests:
  assumes "service_inv sv w"
  shows "rg (rely sv) (progressing sv) (\<lambda>_ _. True) (handle_request sv token body) w"
    and "rg (rely sv) (progressing sv) (\<lambda>_ _. True) (query_history sv token query_id) w"
    and "rg (rely sv) (progressing sv) (\<lambda>_ _. True) (cleanup_expired sv) w"
  using progress.requests_rg [OF assms] by blast+

end

end
