(* ===== verification/Service_Engine.thy ===== *)
theory Service_Engine
  imports Engine Thrift_Lifecycle
begin

text \<open>
  The Thrift service with the query engine behind it (\<open>ThriftService::new\<close> in
  \<open>src/src/thrift.rs\<close>): the jobs of its tasks are runs of \<open>execute_with_query_id\<close> and
  \<open>get_columns_metadata\<close>, and its limits are those of the configuration. The lemmas trace a
  result that a request finds back to the run of the engine that produced it.
\<close>

section \<open>The service and its engine\<close>

definition thrift_config :: "config \<Rightarrow> svc_config" where
  "thrift_config cfg =
     \<lparr>cfg_max_sessions = cf_max_sessions cfg, cfg_max_operations = cf_max_operations cfg,
      cfg_idle_session_timeout = cf_idle_session_timeout cfg, cfg_completed_operation_ttl = cf_completed_operation_ttl cfg,
      cfg_default_catalog = cf_default_catalog cfg, cfg_default_schema = cf_default_schema cfg\<rparr>"

definition metadata_request :: "get_columns_req \<Rightarrow> get_columns_request" where
  "metadata_request request =
     \<lparr>gr_catalog = gcr_catalog_name request, gr_schema = gcr_schema_name request,
      gr_table = gcr_table_name request, gr_column = gcr_column_name request\<rparr>"

definition with_engine :: "'p engine_fns \<Rightarrow> config \<Rightarrow> svc \<Rightarrow> svc" where
  "with_engine ef cfg sv = sv
     \<lparr>sv_config := thrift_config cfg,
      sv_mem := ef_mem ef,
      sv_execute := (\<lambda>query_id token statement catalog schema r. \<exists>t. executes ef cfg token statement catalog schema t r),
      sv_get_columns := (\<lambda>token request catalog schema r.
        r = get_columns_metadata ef token (metadata_request request) catalog schema)\<rparr>"

lemma with_engine_simps [simp]:
  "sv_config (with_engine ef cfg sv) = thrift_config cfg" "sv_mem (with_engine ef cfg sv) = ef_mem ef"
  "sv_uuid (with_engine ef cfg sv) = sv_uuid sv" "sv_uuid_string (with_engine ef cfg sv) = sv_uuid_string sv"
  "sv_fingerprint (with_engine ef cfg sv) = sv_fingerprint sv" "sv_fns (with_engine ef cfg sv) = sv_fns sv"
  by (simp_all add: with_engine_def)

section \<open>From a result back to the engine\<close>

text \<open>What the engine may answer to a job.\<close>

fun produces :: "'p engine_fns \<Rightarrow> config \<Rightarrow> job \<Rightarrow> query_result \<Rightarrow> bool" where
  "produces ef cfg (StatementJob query_id token statement catalog schema) result \<longleftrightarrow>
     (if is_noop_statement statement then result = empty_result (ef_mem ef)
      else (\<exists>t. executes ef cfg token statement catalog schema t (Inr result)))"
| "produces ef cfg (ColumnsJob query_id token request catalog schema) result \<longleftrightarrow>
     get_columns_metadata ef token (metadata_request request) catalog schema = Inr result"

lemma map_sum_InrD: "Inr y = map_sum f id x \<Longrightarrow> x = Inr y"
  by (cases x) auto

lemma job_result_produces: "job_result (with_engine ef cfg sv) job (Inr r) \<longleftrightarrow> produces ef cfg job r"
proof (cases job)
  case (StatementJob query_id token statement catalog schema)
  have "(\<exists>res. (\<exists>t. executes ef cfg token statement catalog schema t res) \<and> Inr r = map_sum client_error id res) \<longleftrightarrow>
      (\<exists>t. executes ef cfg token statement catalog schema t (Inr r))"
    by (auto dest: map_sum_InrD intro!: exI [of _ "Inr r"])
  then show ?thesis by (simp add: StatementJob with_engine_def)
next
  case (ColumnsJob query_id token request catalog schema)
  then show ?thesis by (auto simp: with_engine_def dest: map_sum_InrD)
qed

text \<open>
  The result that a request finds for an operation, recorded or just finished, was computed by
  the operation's own task.
\<close>

lemma live_operationE:
  assumes "live_operation sv w k = Some op"
  obtains (recorded) "map_of (w_operations w) k = Some op"
  | (finished) old since t result where "map_of (w_operations w) k = Some old" "os_state old = Running since t"
      "t < length (w_tasks w)" "w_tasks w ! t = (job_of w t, TaskFinished result)"
      "op = old\<lparr>os_state := from_join_result (w_now w) since result\<rparr>"
proof -
  obtain old where old: "map_of (w_operations w) k = Some old" and op: "op = refreshed w old"
    using assms by (auto simp: live_operation_def simp del: map_of_eq_Some_iff split: option.splits if_splits)
  show thesis
  proof (cases "op = old")
    case True
    with old show ?thesis by (intro recorded) simp
  next
    case False
    then obtain since t result where running: "os_state old = Running since t" and result: "join_result w t = Some result"
      and op': "op = old\<lparr>os_state := from_join_result (w_now w) since result\<rparr>"
      using op by (auto simp: refreshed_def split: operation_execution.splits option.splits)
    from result have "t < length (w_tasks w)" "w_tasks w ! t = (job_of w t, TaskFinished result)"
      by (auto simp: join_result_def job_of_def prod_eq_iff split: if_splits task_status.splits)
    with finished old running op' show ?thesis by blast
  qed
qed

lemma live_result_computed:
  assumes inv: "service_inv sv w" and live: "live_operation sv w k = Some op"
    and result: "execution_result (os_state op) = Some r"
  shows "computed sv w k (os_token_fingerprint op) r"
proof -
  have origin: "op_origin sv w k old" if "map_of (w_operations w) k = Some old" for old
    using service_invD(10) [OF inv] map_of_SomeD [OF that] by (auto simp: origin_inv_def)
  from live show ?thesis
  proof (cases rule: live_operationE)
    case recorded
    with origin result show ?thesis by (simp add: op_origin_def)
  next
    case (finished old since t x)
    from result finished(5) obtain c where c: "x = Inr c" "oc_result c = Inr r" using result_of_join by fastforce
    have "task_origin sv w (job_of w t) (TaskFinished x)"
      using service_invD(10) [OF inv] nth_mem [OF finished(3)] unfolding origin_inv_def finished(4) by auto
    then have "job_result sv (job_of w t) (Inr r)" using c by (auto simp: task_origin_def)
    moreover have "belongs sv k (os_token_fingerprint old) (job_of w t)"
      using origin [OF finished(1)] finished(2) by (auto simp: op_origin_def running_task_def)
    ultimately show ?thesis using finished(3,5) by (auto simp: computed_def)
  qed
qed

text \<open>Why an operation that a request finds has no result.\<close>

definition no_result_message :: "string \<Rightarrow> bool" where
  "no_result_message m \<longleftrightarrow>
     m = ''OPERATION_RUNNING: operation is still running'' \<or> m = ''OPERATION_CANCELED: operation was canceled'' \<or>
     (\<exists>e. m = status_message (client_error e))"

lemma live_no_result:
  assumes inv: "service_inv sv w" and live: "live_operation sv w k = Some op" and none: "execution_result (os_state op) = None"
  shows "\<exists>m. error_message (os_state op) = Some m \<and> no_result_message m"
proof -
  from live have "state_ok (os_state op)"
  proof (cases rule: live_operationE)
    case recorded
    then show ?thesis using service_invD(6) [OF inv] map_of_SomeD by (fastforce simp: operation_ok_def)
  next
    case (finished old since t x)
    then show ?thesis using service_invD(9) [OF inv] nth_mem [OF finished(3)] by (auto intro: state_ok_join)
  qed
  with none show ?thesis
    by (cases "os_state op") (auto simp: state_ok_def error_ok_def no_result_message_def)
qed

lemma computed_produced:
  assumes "computed (with_engine ef cfg sv) w k f r"
  shows "\<exists>(job, st) \<in> set (w_tasks w). job_id job = k \<and> sv_fingerprint sv (job_token job) = f \<and> produces ef cfg job r"
proof -
  obtain t where "t < length (w_tasks w)" "belongs (with_engine ef cfg sv) k f (job_of w t)"
    "job_result (with_engine ef cfg sv) (job_of w t) (Inr r)"
    using assms by (auto simp: computed_def)
  then show ?thesis
    by (intro bexI [of _ "w_tasks w ! t"]) (simp_all add: case_prod_unfold job_of_def belongs_def job_result_produces)
qed

text \<open>What fetching answers, by what the clean-up leaves of the operation.\<close>

lemma run_fetch_results:
  assumes "distinct_keys (w_sessions w)" "distinct_keys (w_operations w)"
    and args: "read_args (msg_payload msg) (read_fetch_results_req (sv_uuid_string sv)) = Some (Inr request)"
      "frr_operation_handle request = Some h"
  shows "\<exists>w'. run (rpc_fetch_results sv token msg) w =
    Some (Inr (case live_operation sv w (h_id h) of
        Some op \<Rightarrow> if operation_matches sv h token op then rows_of_operation sv (msg_seqid msg) request op
                   else write_fetch_results_invalid (msg_seqid msg)
      | None \<Rightarrow> write_fetch_results_invalid (msg_seqid msg)), w')"
  using run_with_operation [OF assms(1,2), of sv h token "rows_of_operation sv (msg_seqid msg) request"]
  unfolding rpc_fetch_results_def run_with_args [OF args(1)] args(2)
  by (auto simp: run_pbind split: option.splits)

end
