(* ===== verification/Example_Service.thy ===== *)
theory Example_Service
  imports Engine_Properties Service_Engine
begin

text \<open>
  A concrete service on which the properties are tried out: the engine of \<open>Engine_Properties\<close>, for
  which DataFusion plans a query without columns and rows, identifiers that count up (16 bytes long as far as the
  example goes), a fingerprint that is the token itself, and formatting that returns fixed
  texts. It opens a session, starts a statement and lets it finish.
\<close>

definition example_fns :: arrow_fns where
  "example_fns =
     \<lparr>af_display_type = (\<lambda>_. ''type''), af_value_to_string = (\<lambda>_ _. Inr ''value''),
      af_f64_to_string = (\<lambda>_. ''0.0''), af_json_string = (\<lambda>s. Inr s), af_json_bytes = (\<lambda>_. Inr ''bytes''),
      af_date32 = (\<lambda>_. None), af_date64 = (\<lambda>_. None), af_timestamp = (\<lambda>_ _. None)\<rparr>"

definition service_config :: config where
  "service_config = example_config
     \<lparr>cf_max_sessions := 1, cf_max_operations := 2, cf_idle_session_timeout := 100, cf_completed_operation_ttl := 50,
      cf_default_catalog := ''main''\<rparr>"

definition example_base :: svc where
  "example_base =
     \<lparr>sv_config = thrift_config service_config,
      sv_uuid = (\<lambda>n. if n < 256 then replicate 15 0 @ [of_nat n] else replicate n 0),
      sv_uuid_string = bytes_str,
      sv_fingerprint = str_bytes,
      sv_fns = example_fns,
      sv_mem = (\<lambda>_. 0),
      sv_execute = (\<lambda>_ _ _ _ _ _. False),
      sv_get_columns = (\<lambda>_ _ _ _ _. False)\<rparr>"

definition example_service :: svc where
  "example_service = with_engine example_engine service_config example_base"

lemma example_service_fns [simp]: "sv_fns example_service = example_fns"
  by (simp add: example_service_def example_base_def)

lemma str_bytes_bytes_str: "str_bytes (bytes_str bs) = bs"
proof -
  have "of_char (char_of (unat b)) = b" for b :: u8
  proof -
    have "of_char (char_of (unat b)) = (of_nat (of_char (char_of (unat b))) :: u8)"
      by (rule of_nat_of_char [symmetric])
    also have "\<dots> = of_nat (unat b mod 2 ^ 8)" by simp
    also have "\<dots> = b" using unsigned_less [of b, where 'a = nat] by simp
    finally show ?thesis .
  qed
  then show ?thesis by (simp add: str_bytes_def bytes_str_def comp_def)
qed

lemma example_unique: "uuids_unique example_service"
proof -
  have "sv_uuid example_service m \<noteq> sv_uuid example_service n" if "m < n" for m n
  proof (cases "n < 256")
    case True
    then have "unat (of_nat m :: 8 word) \<noteq> unat (of_nat n :: 8 word)"
      using that by (simp add: unat_of_nat)
    then show ?thesis using True that by (auto simp: example_service_def example_base_def)
  next
    case False
    then have "length (sv_uuid example_service n) = n" by (simp add: example_service_def example_base_def)
    moreover have "length (sv_uuid example_service m) < n" using that False by (simp add: example_service_def example_base_def)
    ultimately show ?thesis by (metis less_irrefl)
  qed
  then have "sv_uuid example_service m \<noteq> sv_uuid example_service n" if "m \<noteq> n" for m n
    using that by (metis linorder_neqE_nat)
  moreover have "uuid_key example_service n = bytes_str (sv_uuid example_service n)" for n
    by (simp add: uuid_key_def example_service_def example_base_def)
  ultimately show ?thesis
    unfolding uuids_unique_def inj_on_def by (metis str_bytes_bytes_str)
qed

interpretation example: unique_service example_service
  by unfold_locales (rule example_unique)

section \<open>Requests as a client writes them\<close>

definition call :: "string \<Rightarrow> i32 \<Rightarrow> bytes \<Rightarrow> bytes" where
  "call name seqid request =
     write_message_begin name T_MESSAGE_CALL seqid @ write_field T_STRUCT 1 request @ write_stop"

definition session_guid :: bytes where "session_guid = replicate 15 0 @ [0]"
definition session_secret :: bytes where "session_secret = replicate 15 0 @ [1]"
definition operation_guid :: bytes where "operation_guid = replicate 15 0 @ [2]"
definition operation_secret :: bytes where "operation_secret = replicate 15 0 @ [3]"

definition open_call :: bytes where
  "open_call = call ''OpenSession'' 1 write_stop"

definition execute_call :: bytes where
  "execute_call = call ''ExecuteStatement'' 2
     (write_field T_STRUCT 1 (write_session_handle session_guid session_secret) @
      write_field T_STRING 2 (write_string ''select 1'') @ write_stop)"

lemma skip_stop: "parses skip_remaining_struct_fields write_stop ()"
proof -
  have "skips (struct_loop (\<lambda>(_::unit) t _. skip_at_depth t 1) ()) write_stop True"
    by (rule skips_struct_stop)
  then show ?thesis
    by (simp add: skip_remaining_struct_fields_def skip_fields_eq MAX_SKIP_DEPTH_def skips_def)
qed

lemma args_of_call:
  "parses reader request x \<Longrightarrow> read_args (write_field T_STRUCT 1 request @ write_stop) reader = Some (Inr x)"
  using run_reader_parses [OF parses_args [OF _ skip_stop], of reader request x "[]"] by (simp add: read_args_def)

lemma handle_call:
  "valid_str name \<Longrightarrow> length name < 2 ^ 31 \<Longrightarrow>
   handle_request sv token (call name seqid request) =
     handle_decoded sv token \<lparr>msg_name = name, msg_type = T_MESSAGE_CALL, msg_seqid = seqid,
       msg_payload = write_field T_STRUCT 1 request @ write_stop\<rparr>"
  by (simp add: handle_request_def call_def parses_message)

section \<open>The run\<close>

definition example_session :: session_state where
  "example_session =
     \<lparr>ss_id = bytes_str session_guid, ss_secret = session_secret, ss_token_fingerprint = str_bytes ''token'',
      ss_catalog = ''main'', ss_schema = ''default'', ss_last_access = 10\<rparr>"

definition example_operation :: operation_state where
  "example_operation =
     \<lparr>os_secret = operation_secret, os_session_id = bytes_str session_guid,
      os_token_fingerprint = str_bytes ''token'', os_state = Running 10 0\<rparr>"

definition example_job :: job where
  "example_job = StatementJob (bytes_str operation_guid) ''token'' ''select 1'' ''main'' ''default''"

definition example_completion :: operation_completion where
  "example_completion = \<lparr>oc_duration_ms = 4, oc_result = Inr (empty_result (\<lambda>_. 0))\<rparr>"

definition opened_world :: world where
  "opened_world = (service_new 10)\<lparr>w_uuids := 2, w_sessions := [(bytes_str session_guid, example_session)]\<rparr>"

definition started_world :: world where
  "started_world = opened_world\<lparr>w_uuids := 4, w_operations := [(bytes_str operation_guid, example_operation)],
     w_tasks := [(example_job, TaskRunning)]\<rparr>"

definition finished_world :: world where
  "finished_world = set_task 0 (Inr example_completion) started_world"

lemma example_uuids:
  "sv_uuid example_service 0 = session_guid" "sv_uuid example_service (Suc 0) = session_secret"
  "sv_uuid example_service 2 = operation_guid" "sv_uuid example_service 3 = operation_secret"
  by (simp_all add: example_service_def example_base_def session_guid_def session_secret_def operation_guid_def operation_secret_def)

lemma example_uuids_Suc:
  "sv_uuid example_service (Suc (Suc 0)) = operation_guid"
  "sv_uuid example_service (Suc (Suc (Suc 0))) = operation_secret"
  using example_uuids(3,4) by (simp_all add: numeral_eq_Suc)

lemma example_service_simps [simp]:
  "sv_uuid_string example_service = bytes_str" "sv_fingerprint example_service = str_bytes"
  "cfg_max_sessions (sv_config example_service) = 1" "cfg_max_operations (sv_config example_service) = 2"
  "cfg_idle_session_timeout (sv_config example_service) = 100"
  "cfg_completed_operation_ttl (sv_config example_service) = 50"
  "cfg_default_catalog (sv_config example_service) = ''main''"
  "cfg_default_schema (sv_config example_service) = ''default''"
  by (simp_all add: example_service_def example_base_def thrift_config_def service_config_def example_config_def)

lemma run_open:
  "run (handle_request example_service ''token'' open_call) (service_new 10) =
     Some (Inr (write_open_session_response 1 session_guid session_secret ''main'' ''default'' []), opened_world)"
proof -
  have args: "read_args (write_field T_STRUCT 1 write_stop @ write_stop) read_open_session_req =
      Some (Inr \<lparr>osr_catalog = None, osr_schema = None, osr_get_info_types = []\<rparr>)"
    unfolding read_open_session_req_def by (intro args_of_call parses_struct_stop)
  have "run (cleanup_expired example_service) (service_new 10) = Some ((), service_new 10)"
    by (simp add: cleanup_expired_def refresh_finished_operations_def run_pbind read_now_def service_new_def
        expire_sessions_section_def expire_operations_section_def Let_def)
  then show ?thesis
    unfolding open_call_def
    by (subst handle_call)
       (simp_all add: valid_str_names handle_decoded_def rpc_open_session_def with_args_def args run_pbind
        open_session_section_def draw_uuids_def example_uuids service_new_def opened_world_def example_session_def
        Let_def del: T_STRUCT_def)
qed

lemma guid_lengths [simp]:
  "length session_guid = 16" "length session_secret = 16" "length operation_guid = 16" "length operation_secret = 16"
  by (simp_all add: session_guid_def session_secret_def operation_guid_def operation_secret_def)

definition session_handle :: handle where
  "session_handle = \<lparr>h_id = bytes_str session_guid, h_secret = session_secret\<rparr>"

definition operation_handle :: handle where
  "operation_handle = \<lparr>h_id = bytes_str operation_guid, h_secret = operation_secret\<rparr>"

lemma parses_execute_call:
  "parses (read_execute_statement_req bytes_str)
     (write_field T_STRUCT 1 (write_session_handle session_guid session_secret) @
      write_field T_STRING 2 (write_string ''select 1'') @ write_stop)
     \<lparr>esr_session_handle = Some session_handle, esr_statement = ''select 1''\<rparr>"
proof -
  let ?body = "execute_statement_field bytes_str"
  have 1: "parses (?body (None, None) T_STRUCT 1) (write_session_handle session_guid session_secret) (Some session_handle, None)"
    using parses_bind_rret_eq [OF parses_session_handle [of session_guid session_secret bytes_str], of _ "\<lambda>h. (h, None)"]
    by (simp add: execute_statement_field_def session_handle_def)
  have 2: "parses (?body (Some session_handle, None) T_STRING 2) (write_string ''select 1'') (Some session_handle, Some ''select 1'')"
    using parses_bind_rret_eq [OF parses_read_string [of "''select 1''"], of _ "\<lambda>s. (Some session_handle, Some s)"]
    by (simp add: execute_statement_field_def valid_str_ascii)
  have "parses (struct_loop ?body (None, None))
     (write_field T_STRUCT 1 (write_session_handle session_guid session_secret) @
      write_field T_STRING 2 (write_string ''select 1'') @ write_stop) (Some session_handle, Some ''select 1'')"
    by (intro parses_struct_field [where body = ?body, OF _ 1] parses_struct_field [where body = ?body, OF _ 2] parses_struct_stop)
       (simp_all add: valid_field_type_def)
  then have "parses (read_execute_statement_req bytes_str)
     ((write_field T_STRUCT 1 (write_session_handle session_guid session_secret) @
      write_field T_STRING 2 (write_string ''select 1'') @ write_stop) @ [])
     \<lparr>esr_session_handle = Some session_handle, esr_statement = ''select 1''\<rparr>"
    unfolding read_execute_statement_req_def by (rule parses_bind) (simp add: parses_rret)
  then show ?thesis by (simp only: append_Nil2)
qed

lemma cleanup_opened: "run (cleanup_expired example_service) opened_world = Some ((), opened_world)"
  by (simp add: cleanup_expired_def refresh_finished_operations_def run_pbind read_now_def opened_world_def service_new_def
      expire_sessions_section_def expire_operations_section_def Let_def example_session_def session_is_expired_def)

lemma session_opened:
  "run (session_for example_service (Some session_handle) ''token'') opened_world = Some (Some example_session, opened_world)"
  by (simp add: session_for_def run_pbind read_now_def session_for_section_def opened_world_def service_new_def
      session_handle_def session_matches_def example_session_def session_is_expired_def Let_def)

lemma trim_select: "trim ''select 1'' = ''select 1''"
  by code_simp

lemma run_execute:
  "run (handle_request example_service ''token'' execute_call) opened_world =
     Some (Inr (write_execute_statement_response 2 operation_guid operation_secret), started_world)"
proof -
  note args = args_of_call [OF parses_execute_call]
  show ?thesis
    unfolding execute_call_def
    by (subst handle_call)
       (simp_all add: valid_str_names handle_decoded_def rpc_execute_statement_def with_args_def args run_pbind
        cleanup_opened session_opened del: T_STRUCT_def T_STRING_def,
        simp add: start_operation_section_def draw_uuids_def example_uuids opened_world_def service_new_def
        started_world_def example_job_def example_operation_def example_session_def trim_select Let_def example_uuids_Suc numeral_eq_Suc)
qed

text \<open>The engine's run of the statement.\<close>

fun select_answer :: "engine_request \<Rightarrow> engine_answer" where
  "select_answer (PlanSql _) = PlanAnswer (Inr (example_df\<lparr>df_fields := []\<rparr>))"
| "select_answer q = example_answer q"

lemma select_run: "\<exists>t. executes example_engine service_config ''token'' ''select 1'' ''main'' ''default'' t (Inr (empty_result (\<lambda>_. 0)))"
proof -
  have parsed: "parse_ctas example_parser example_location ''select 1'' ''main'' ''default'' = Inr None" by code_simp
  have shown: "execute_show_statement (ef_tokenize example_engine) (ef_show_token example_engine) (ef_metadata example_engine)
      ''token'' ''select 1'' ''main'' ''default'' = Inr None"
    by (simp add: example_engine_def execute_show_statement_def parse_show_statement_def starts_with_show_def)
  have rows: "materialize_stream (\<lambda>_. 0) (ef_display_type example_engine) [] [] limits = Inr (empty_result (\<lambda>_. 0))" for limits
    by (simp add: materialize_stream_def example_engine_def empty_result_def from_batches_def infer_result_data_types_def)
  have "snd (answered select_answer (execute_inner example_engine service_config ''token'' ''select 1'' ''main'' ''default'')) =
      Some (Inr (empty_result (\<lambda>_. 0)))"
    by (simp add: execute_inner_def or_return_def example_parts parsed shown plan_sql_def registry_routes_def run_query_def rows)
  then obtain t where "answered select_answer (execute_inner example_engine service_config ''token'' ''select 1'' ''main'' ''default'') =
      (t, Some (Inr (empty_result (\<lambda>_. 0))))"
    by (metis prod.collapse)
  from answered_runs [OF this] show ?thesis
    by (intro exI [of _ t]) (auto simp: executes_def with_timeout_def intro!: exI [of _ "Returned (Inr (empty_result (\<lambda>_. 0)))"])
qed

lemma example_reachable: "reachable example_service opened_world" "reachable example_service started_world"
    "reachable example_service finished_world"
proof -
  show opened: "reachable example_service opened_world"
    by (rule reachable_request [OF reachable_new run_open])
  show started: "reachable example_service started_world"
    by (rule reachable_request [OF opened run_execute])
  have "is_noop_statement ''select 1'' = False" by code_simp
  then have "runtime_step example_service started_world finished_world"
    unfolding finished_world_def
    by (intro statement_done [where q = "bytes_str operation_guid" and tok = "''token''" and stmt = "''select 1''"
          and cat = "''main''" and sch = "''default''"])
       (use select_run in \<open>auto simp: started_world_def example_job_def example_completion_def example_service_def with_engine_def
          intro!: exI [of _ "Inr (empty_result (\<lambda>_. 0))"]\<close>)
  with started show "reachable example_service finished_world" by (rule reachable_runtime)
qed

end
