(* ===== verification/Wire_Properties.thy ===== *)
theory Wire_Properties
  imports Result_Encoding
begin

text \<open>
  The properties of what crosses the wire: errors, the Thrift codec, requests, responses and
  the pages of a query result, with the concrete values on which they are tried.
\<close>

section \<open>Rows of a fetched page\<close>

lemma column_cells_rows:
  "list_all (has_column i) bs \<Longrightarrow> column_cells i bs = map (\<lambda>row. row ! i) (rows_of bs)"
proof (induction bs)
  case (Cons b bs)
  have "arr_cells (rb_columns b ! i) = map (\<lambda>row. row ! i) (batch_rows b)"
    using Cons.prems by (intro nth_equalityI) (auto simp: has_column_def batch_rows_def)
  with Cons show ?case by simp
qed simp

text \<open>Every batch of the store has the columns that the result announces.\<close>

definition typed_result :: "query_result \<Rightarrow> bool" where
  "typed_result result \<longleftrightarrow>
     list_all (\<lambda>b. map arr_type (rb_columns b) = qr_data_types result) (irs_batches (qr_store result))"

lemma page_batches_typed:
  assumes "wf_store s" "list_all (\<lambda>b. map arr_type (rb_columns b) = ts) (irs_batches s)" "i < length ts"
  shows "list_all (\<lambda>b. has_column i b \<and> arr_type (rb_columns b ! i) = ts ! i) (pg_batches (store_page s off limit))"
proof -
  obtain start n where p: "pg_batches (store_page s off limit) = page_loop (irs_batches s) start n"
    by (simp add: store_page_def Let_def)
  have "list_all wf_batch (page_loop (irs_batches s) start n)"
    "list_all (\<lambda>b. map arr_type (rb_columns b) = ts) (page_loop (irs_batches s) start n)"
    using assms(1,2) by (auto simp: wf_store_def intro: page_loop_wf page_loop_columns)
  moreover have "has_column i b \<and> arr_type (rb_columns b ! i) = ts ! i"
    if "wf_batch b" "map arr_type (rb_columns b) = ts" for b
    using that assms(3) by (auto simp: has_column_def wf_batch_def list_all_iff)
  ultimately show ?thesis unfolding p by (simp add: list_all_iff)
qed

section \<open>Example data\<close>

definition plain_fns :: arrow_fns where
  "plain_fns =
     \<lparr>af_display_type = (\<lambda>_. ''type''), af_value_to_string = (\<lambda>_ _. Inr ''value''),
      af_f64_to_string = (\<lambda>_. ''0.0''), af_json_string = (\<lambda>s. Inr s), af_json_bytes = (\<lambda>_. Inr ''bytes''),
      af_date32 = (\<lambda>_. None), af_date64 = (\<lambda>_. None), af_timestamp = (\<lambda>_ _. None)\<rparr>"

definition example_batch :: "arrow_value option list \<Rightarrow> record_batch" where
  "example_batch cells =
     \<lparr>rb_schema = [\<lparr>fld_name = ''n'', fld_type = DtInt32, fld_nullable = True\<rparr>],
      rb_columns = [\<lparr>arr_type = DtInt32, arr_cells = cells\<rparr>], rb_num_rows = length cells\<rparr>"

definition example_store :: inline_result_store where
  "example_store =
     inline_result_store_new (\<lambda>_. 8) [example_batch [Some (AvInt32 7), None], example_batch [Some (AvInt32 9)]]"

definition example_result :: query_result where
  "example_result =
     \<lparr>qr_columns = [\<lparr>col_name = ''n'', col_data_type = ''Int32'', col_nullable = True\<rparr>], qr_row_count = 3,
      qr_data_types = [DtInt32], qr_store = example_store\<rparr>"

lemma example_store_wf: "wf_store example_store"
  by (simp add: example_store_def example_batch_def inline_result_store_new_def wf_store_def wf_batch_def)

lemma example_store_rows: "store_rows example_store = [[Some (AvInt32 7)], [None], [Some (AvInt32 9)]]"
  by (simp add: example_store_def example_batch_def inline_result_store_new_def store_rows_def rows_of_def batch_rows_def)

lemma example_typed: "typed_result example_result"
  by (simp add: typed_result_def example_result_def example_store_def example_batch_def inline_result_store_new_def)

section \<open>Properties of results\<close>

text \<open>
  A page of a result is a window of its rows: it starts at the requested offset (at the
  first row if that is negative, at the end if it lies beyond), holds the next
  \<open>limit\<close> rows in order, and says whether more follow. No offset makes it fail.
\<close>

lemma page_is_window:
  fixes start_row_offset :: i64 and s :: inline_result_store and limit :: nat
  assumes "wf_store s"
  defines "start \<equiv> min (nat (max (sint start_row_offset) 0)) (length (store_rows s))"
    and "p \<equiv> store_page s start_row_offset limit"
  shows "rows_of (pg_batches p) = take limit (drop start (store_rows s)) \<and>
    pg_row_count p = length (rows_of (pg_batches p)) \<and>
    sint (pg_start_row_offset p) = int start \<and>
    (pg_has_more_rows p \<longleftrightarrow> start + limit < length (store_rows s))"
proof -
  note w = store_page_window [OF assms(1), of start_row_offset limit]
  show ?thesis unfolding p_def start_def w(1) by (intro conjI refl w(2-4))
qed

text \<open>
  C12. A client that pages through a result, asking for some positive number of rows at a time
  and continuing after the rows it got until no more are announced, reads every row exactly once
  and in order; one request per row is always enough.
\<close>

theorem paging_reads_every_row:
  assumes "wf_store s" "0 < limit" "length (store_rows s) < fuel"
  shows "inline_store.read_all fuel s 0 limit = Some (store_rows s)"
  using inline_store.read_all_rows [OF assms(1,2), of 0 fuel] assms(3) by simp

theorem paging_reads_every_row_witness:
  "inline_store.read_all 4 example_store 0 2 = Some [[Some (AvInt32 7)], [None], [Some (AvInt32 9)]]"
  using paging_reads_every_row [OF example_store_wf, of 2 4] by (simp add: example_store_rows)

text \<open>
  C13. What \<open>FetchResults\<close> sends: if the response could be written, its row set is the
  encoding of one column per result column whose values are, row by row, the conversions of
  that column's cells in the requested window of the result.
\<close>

theorem fetch_sends_requested_rows:
  fixes start_row_offset :: i64 and result :: query_result and max_rows :: "i64 option"
  assumes "wf_store (qr_store result)" "typed_result result"
    and ok: "write_fetch_results_response_struct af result include_metadata start_row_offset max_rows = Inr bs"
  defines "page \<equiv> row_page result start_row_offset max_rows"
    and "window \<equiv> take (requested_row_limit max_rows)
      (drop (min (nat (max (sint start_row_offset) 0)) (length (store_rows (qr_store result)))) (store_rows (qr_store result)))"
  shows "\<exists>es vss rest. column_encoders af result = Inr es \<and>
    bs = write_field T_STRUCT 1 (write_status SUCCESS_STATUS None) @
      write_field T_BOOL 2 (write_bool (pg_has_more_rows page)) @
      write_field T_STRUCT 3 (enc (row_set_tval page es vss)) @ rest \<and>
    (\<forall>i<length es. list_all2 (\<lambda>row v. \<exists>r. reader_of af (enc_physical_type (es ! i)) (qr_data_types result ! i) r (row ! i) = Inr v)
       window (vss ! i))"
proof -
  obtain es rows rest where es: "column_encoders af result = Inr es"
    and rows: "write_row_set_with_encoders af result page es = Inr rows"
    and bs: "bs = write_field T_STRUCT 1 (write_status SUCCESS_STATUS None) @
        write_field T_BOOL 2 (write_bool (pg_has_more_rows page)) @ write_field T_STRUCT 3 rows @ rest"
    using ok unfolding write_fetch_results_response_struct_def page_def Let_def
    by (auto simp: sbind_Inr_iff write_raw_def simp del: SUCCESS_STATUS_def T_STRUCT_def T_BOOL_def)
  from write_row_set_enc [OF row_page_count(1) [OF assms(1)] column_encoders_length [OF es, symmetric] rows [unfolded page_def]]
  obtain vss where vss: "\<And>i. i < length es \<Longrightarrow> column_values (reader_of af (enc_physical_type (es ! i))) (pg_batches page) i = Inr (vss ! i)"
    and enc: "rows = enc (row_set_tval page es vss)" unfolding page_def by blast
  have pg: "pg_batches page = pg_batches (store_page (qr_store result) start_row_offset (requested_row_limit max_rows))"
    by (simp add: page_def row_page_def result_page_def)
  have "list_all2 (\<lambda>row v. \<exists>r. reader_of af (enc_physical_type (es ! i)) (qr_data_types result ! i) r (row ! i) = Inr v)
       window (vss ! i)" if i: "i < length es" for i
  proof -
    have "i < length (qr_data_types result)"
      using es i by (auto simp: column_encoders_def collect_res_Inr split: if_splits dest: list_all2_lengthD)
    then have typed: "list_all (\<lambda>b. has_column i b \<and> arr_type (rb_columns b ! i) = qr_data_types result ! i) (pg_batches page)"
      unfolding pg using assms(1,2) by (intro page_batches_typed) (simp_all add: typed_result_def)
    then have "column_cells i (pg_batches page) = map (\<lambda>row. row ! i) (rows_of (pg_batches page))"
      by (intro column_cells_rows) (auto simp: list_all_iff)
    moreover have "rows_of (pg_batches page) = window"
      unfolding pg window_def by (rule store_page_window(1) [OF assms(1)])
    ultimately show ?thesis
      using column_values_cells [OF vss [OF i] typed] by (simp add: list_all2_map1)
  qed
  with es bs enc show ?thesis by blast
qed

lemma example_fetch:
  "\<exists>bs. write_fetch_results_response_struct plain_fns example_result False 1 (Some 1) = Inr bs"
proof -
  have page: "row_page example_result 1 (Some 1) =
      \<lparr>pg_batches = [example_batch [None]], pg_start_row_offset = 1, pg_row_count = 1, pg_has_more_rows = True\<rparr>"
    by (simp add: row_page_def result_page_def store_page_def example_result_def example_store_def
        inline_result_store_new_def example_batch_def requested_row_limit_def MAX_FETCH_ROWS_def
        usize_max_def batch_slice_def array_slice_def Let_def)
  have es: "column_encoders plain_fns example_result =
      Inr [\<lparr>enc_schema_type = INT_TYPE, enc_physical_type = PhysI32, enc_decimal = None\<rparr>]"
    by (simp add: column_encoders_def column_encoder_def example_result_def)
  show ?thesis
    unfolding write_fetch_results_response_struct_def page es write_row_set_with_encoders_def write_column_def
      write_column_values_def write_field_result_def Let_def
    by (simp add: example_batch_def)
qed

theorem fetch_sends_requested_rows_witness:
  "\<exists>es vss. column_encoders plain_fns example_result = Inr es \<and> length es = 1 \<and>
     list_all2 (\<lambda>row v. \<exists>r. reader_of plain_fns (enc_physical_type (es ! 0)) DtInt32 r (row ! 0) = Inr v) [[None]] (vss ! 0)"
proof -
  obtain bs where "write_fetch_results_response_struct plain_fns example_result False 1 (Some 1) = Inr bs"
    using example_fetch by blast
  from fetch_sends_requested_rows [OF _ example_typed this] example_store_wf
  obtain es vss where es: "column_encoders plain_fns example_result = Inr es"
    and rows: "\<forall>i<length es. list_all2 (\<lambda>row v. \<exists>r. reader_of plain_fns (enc_physical_type (es ! i)) (qr_data_types example_result ! i) r
      (row ! i) = Inr v) (take (requested_row_limit (Some 1)) (drop 1 (store_rows example_store))) (vss ! i)"
    by (auto simp: example_result_def example_store_rows)
  have one: "length es = 1" using column_encoders_length [OF es] by (simp add: example_result_def)
  moreover have "requested_row_limit (Some 1) = 1" by (simp add: requested_row_limit_def MAX_FETCH_ROWS_def)
  ultimately show ?thesis
    using es rows by (intro exI [of _ es] exI [of _ vss]) (simp add: example_result_def example_store_rows)
qed

text \<open>
  The null bitmap of a column has one bit per row of the page, in as many bytes as that
  takes; a bit is set exactly for the rows whose cell is null, and the spare bits are clear.
\<close>

lemma null_bitmap_marks_nulls:
  assumes "list_all (has_column i) batches" "sum_list (map rb_num_rows batches) = n"
  shows "length (null_bitset batches i n) = (n + 7) div 8 \<and>
    (\<forall>r < 8 * ((n + 7) div 8). null_bit (null_bitset batches i n) r \<longleftrightarrow> r < n \<and> rows_of batches ! r ! i = None)"
proof -
  have "null_bit (null_bitset batches i n) r \<longleftrightarrow> r < n \<and> rows_of batches ! r ! i = None"
    if "r < 8 * ((n + 7) div 8)" for r
  proof -
    have "r div 8 < (n + 7) div 8" using that by linarith
    note bit = null_bitset_bit(2) [OF assms this]
    have "r < n \<Longrightarrow> column_cells i batches ! r = rows_of batches ! r ! i"
      using assms(2) by (simp add: column_cells_rows [OF assms(1)] length_rows_of)
    then show ?thesis unfolding bit by metis
  qed
  with null_bitset_bit(1) [OF assms] show ?thesis by blast
qed

text \<open>
  Collecting a query's stream of batches succeeds exactly when no batch is an error and the
  totals of rows and of bytes (saturating at the largest size) stay within the limits that are
  set; the result then holds the batches in order.
\<close>

lemma materialize_within_limits:
  "(\<exists>r. materialize_stream mem display_type schema_fields stream limits = Inr r \<and> irs_batches (qr_store r) = bs) \<longleftrightarrow>
   stream_batches stream = Some bs \<and>
   within (sum_list (map rb_num_rows bs)) (lim_max_rows limits) \<and>
   within (min (sum_list (map mem bs)) usize_max) (lim_max_bytes limits)"
proof -
  have start: "within 0 (lim_max_rows limits)" "within 0 (lim_max_bytes limits)" "0 \<le> usize_max"
    by (auto simp: within_def split: option.split)
  have "(\<exists>r. materialize_stream mem display_type schema_fields stream limits = Inr r \<and> irs_batches (qr_store r) = bs) \<longleftrightarrow>
      materialize_loop mem limits stream 0 0 [] = Inr bs"
    by (auto simp: Let_def materialize_stream_def from_batches_with_data_types_def inline_result_store_new_def split: sum.split)
  also have "\<dots> \<longleftrightarrow> stream_batches stream = Some bs \<and>
      within (sum_list (map rb_num_rows bs)) (lim_max_rows limits) \<and>
      within (min (sum_list (map mem bs)) usize_max) (lim_max_bytes limits)"
    using materialize_loop_iff [OF start, of mem stream "[]" bs] by auto
  finally show ?thesis .
qed

text \<open>
  The number of rows a client may fetch at once: 1,000 unless it asks for a number; what it
  asks for is capped at 10,000, and nothing is sent for a number that is not positive.
\<close>

lemma fetch_row_limit:
  "requested_row_limit None = 1000 \<and> requested_row_limit (Some v) \<le> 10000 \<and>
   (requested_row_limit (Some v) = 0 \<longleftrightarrow> sint v \<le> 0) \<and>
   (0 < sint v \<and> sint v \<le> 10000 \<longrightarrow> int (requested_row_limit (Some v)) = sint v)"
  by (auto simp: requested_row_limit_def DEFAULT_FETCH_ROWS_def MAX_FETCH_ROWS_def min_def)

section \<open>Properties of the codec\<close>

lemma pfails_read_string:
  assumes "\<not> valid_str s" "length s < 2 ^ 31"
  shows "\<exists>m. pfails read_string (write_string s) (Thrift m)"
proof -
  obtain err where err: "utf8_error 0 (str_bytes s) = Some err"
    using assms(1) by (auto simp: valid_str_def utf8_valid_def)
  have "parses read_binary (write_string s) (str_bytes s)"
    unfolding write_string_def using assms(2) by (intro parses_read_binary) simp
  then have "pfails read_string (write_string s @ []) (Thrift (''invalid UTF-8 string: '' @ utf8_error_display err))"
    unfolding read_string_def by (rule pfails_bind_second) (simp add: err pfails_rfail)
  then show ?thesis by auto
qed

text \<open>
  C33. \<open>skip\<close> on any value of the protocol, anywhere in a buffer: it consumes exactly the
  encoding if the value nests at most 32 levels deep (two for a struct's fields, one for a
  container's elements), and otherwise fails with the depth error without reading further.
\<close>

theorem skip_accepts_up_to_depth:
  assumes "wf_tval v"
  shows "if nesting v \<le> MAX_SKIP_DEPTH then parses (skip (tval_type v)) (enc v) ()
     else pfails (skip (tval_type v)) (enc v) depth_error"
  using skips_enc [OF assms, of 0] unfolding skips_def skip_def add_0 .

lemma nested_lists:
  "wf_tval (((\<lambda>v. VList T_LIST [v]) ^^ n) (VList T_I32 []))"
  "nesting (((\<lambda>v. VList T_LIST [v]) ^^ n) (VList T_I32 [])) = n"
  "tval_type (((\<lambda>v. VList T_LIST [v]) ^^ n) (VList T_I32 [])) = T_LIST"
  by (induction n) (simp_all add: MAX_CONTAINER_ELEMENTS_def valid_field_type_def)

theorem skip_accepts_up_to_depth_witness:
  "parses (skip T_LIST) (enc (((\<lambda>v. VList T_LIST [v]) ^^ 32) (VList T_I32 []))) () \<and>
   pfails (skip T_LIST) (enc (((\<lambda>v. VList T_LIST [v]) ^^ 33) (VList T_I32 []))) depth_error"
proof -
  have "(32 :: nat) \<le> MAX_SKIP_DEPTH" "\<not> (33 :: nat) \<le> MAX_SKIP_DEPTH"
    by (simp_all add: MAX_SKIP_DEPTH_def)
  with skip_accepts_up_to_depth [OF nested_lists(1) [of 32]] skip_accepts_up_to_depth [OF nested_lists(1) [of 33]]
  show ?thesis unfolding nested_lists by metis
qed

text \<open>
  \<open>skip\<close> is safe on arbitrary bytes: for every type byte and every reader inside its
  buffer it returns; if it succeeds, it has consumed at least one byte and still is inside the
  same buffer.
\<close>

lemma skip_safe_on_any_input:
  assumes "position r \<le> length (buffer r)"
  shows "\<exists>result. skip t r = Some result \<and>
    (\<forall>r'. result = Inr ((), r') \<longrightarrow>
       buffer r' = buffer r \<and> position r < position r' \<and> position r' \<le> length (buffer r'))"
proof -
  have at: "advances_at (Suc 0) (skip t) r"
    using assms by (intro advancesD [OF skip_advances]) (simp add: reader_ok_def)
  then obtain result where result: "skip t r = Some result"
    unfolding advances_at_def by blast
  have "buffer r' = buffer r \<and> position r < position r' \<and> position r' \<le> length (buffer r')" if "result = Inr ((), r')" for r'
    using advances_atD [OF at, of "()" r'] result that by (simp add: reader_ok_def)
  with result show ?thesis by blast
qed

text \<open>
  Decoding a request returns for every sequence of bytes a client may send: the envelope,
  and the arguments of each of the seven request structs.
\<close>

lemma decoding_requests_returns:
  "decode_message body \<noteq> None \<and>
   read_args payload read_open_session_req \<noteq> None \<and>
   read_args payload (read_close_session_req uts) \<noteq> None \<and>
   read_args payload (read_get_info_req uts) \<noteq> None \<and>
   read_args payload (read_get_columns_req uts) \<noteq> None \<and>
   read_args payload (read_execute_statement_req uts) \<noteq> None \<and>
   read_args payload (read_operation_req uts) \<noteq> None \<and>
   read_args payload (read_fetch_results_req uts) \<noteq> None"
  by (intro conjI decode_message_returns read_args_returns request_readers_advance)

text \<open>
  The envelope of a message is decoded as it was written: the method, the message type and
  the sequence number, and the payload that follows, whatever it is.
\<close>

lemma message_round_trip:
  assumes "valid_str name" "length name < 2 ^ 31"
  shows "decode_message (write_message_begin name message_type seqid @ payload) =
    Some (Inr \<lparr>msg_name = name, msg_type = message_type, msg_seqid = seqid, msg_payload = payload\<rparr>)"
  using assms by (rule parses_message)

text \<open>
  Values survive the wire: every integer and every double bit for bit, every byte string
  shorter than 2 GiB, and every such string that is valid UTF-8; a string that is not is
  refused.
\<close>

lemma values_round_trip:
  "parses read_i16 (write_i16 a) a \<and> parses read_i32 (write_i32 b) b \<and> parses read_i64 (write_i64 c) c \<and>
   parses read_double (write_double d) d \<and>
   (length bs < 2 ^ 31 \<longrightarrow> parses read_binary (write_binary bs) bs) \<and>
   (length s < 2 ^ 31 \<longrightarrow>
      (if valid_str s then parses read_string (write_string s) s
       else \<exists>m. pfails read_string (write_string s) (Thrift m)))"
  by (intro conjI impI parses_read_i16 parses_read_i32 parses_read_i64 parses_read_double parses_read_binary)
     (auto intro: parses_read_string pfails_read_string)

text \<open>
  The handles a client sends back are the ones it was given: reading the session handle or
  the operation handle that the server wrote for a pair of 16-byte identifiers gives that pair,
  with the identifier rendered as the key of the server's maps.
\<close>

lemma handles_round_trip:
  assumes "length guid = 16" "length secret = 16"
  shows "parses (read_session_handle uts) (write_session_handle guid secret) (Some \<lparr>h_id = uts guid, h_secret = secret\<rparr>) \<and>
    parses (read_operation_handle uts) (write_operation_handle_with_type guid secret has_result_set operation_type)
      (Some \<lparr>h_id = uts guid, h_secret = secret\<rparr>)"
  using parses_session_handle [OF assms] parses_operation_handle [OF assms] by blast

section \<open>Properties of responses\<close>

text \<open>
  C16. A \<open>FetchResults\<close> response is always a well-formed Thrift reply: whatever rows are
  asked for and whether or not the result can be encoded, the message decodes to its method and
  sequence number and its payload is one struct within the nesting limit that is consumed to
  the last byte.
\<close>

theorem fetch_response_well_formed:
  assumes "wf_store (qr_store result)" "columns_fit (qr_columns result)"
    "values_fit af result (row_page result start_row_offset max_rows)"
  shows "well_formed_message ''FetchResults'' T_MESSAGE_REPLY seqid
    (write_fetch_results_response af seqid result include_metadata start_row_offset max_rows)"
  using assms by (rule well_formed_fetch)

lemma example_fits:
  "columns_fit (qr_columns example_result)"
  "values_fit plain_fns example_result (row_page example_result off m)"
proof -
  show "columns_fit (qr_columns example_result)"
    by (simp add: columns_fit_def example_result_def MAX_CONTAINER_ELEMENTS_def)
  have es: "column_encoders plain_fns example_result =
      Inr [\<lparr>enc_schema_type = INT_TYPE, enc_physical_type = PhysI32, enc_decimal = None\<rparr>]"
    by (simp add: column_encoders_def column_encoder_def example_result_def)
  have "tv_fits v" if "reader_of af PhysI32 t row c = Inr v" for af t row c v
    using that by (auto simp: reader_of_def map_sum_def split: sum.splits)
  then have "list_all tv_fits vs" if "column_values (reader_of af PhysI32) bs i = Inr vs" for af bs i vs
    unfolding list_all_iff using column_values_mem [OF that] by blast
  then show "values_fit plain_fns example_result (row_page example_result off m)"
    unfolding values_fit_def es by (auto split: sum.split)
qed

theorem fetch_response_well_formed_witness:
  "well_formed_message ''FetchResults'' T_MESSAGE_REPLY 3
     (write_fetch_results_response plain_fns 3 example_result True 0 (Some 2))"
  by (rule fetch_response_well_formed) (simp_all add: example_fits, simp add: example_result_def example_store_wf)

text \<open>
  The same for \<open>GetResultSetMetadata\<close>: with a result, without one, and for an unknown
  operation handle.
\<close>

lemma metadata_response_well_formed:
  assumes "columns_fit (qr_columns result)" "\<And>m. message = Some m \<Longrightarrow> length m < 2 ^ 31"
  shows "well_formed_message ''GetResultSetMetadata'' T_MESSAGE_REPLY seqid (write_get_result_set_metadata_response af seqid result) \<and>
    well_formed_message ''GetResultSetMetadata'' T_MESSAGE_REPLY seqid (write_get_result_set_metadata_not_ready seqid message) \<and>
    well_formed_message ''GetResultSetMetadata'' T_MESSAGE_REPLY seqid (write_get_result_set_metadata_invalid seqid)"
  using well_formed_metadata [OF assms(1)] well_formed_metadata_errors [OF assms(2)] by blast

text \<open>
  Every response that carries no rows is a well-formed Thrift reply under its method's
  name, for 16-byte identifiers and texts shorter than 2 GiB: opening and closing a session,
  server information, starting a statement or a metadata operation, the query id, closing and
  cancelling, and each of their error answers.
\<close>

lemma session_responses_well_formed:
  assumes "length guid = 16" "length secret = 16" "length catalog < 2 ^ 31" "length schema < 2 ^ 31" "length m < 2 ^ 31"
    "length infos \<le> MAX_CONTAINER_ELEMENTS"
  shows
    "well_formed_message ''OpenSession'' T_MESSAGE_REPLY seqid (write_open_session_response seqid guid secret catalog schema infos) \<and>
     well_formed_message ''OpenSession'' T_MESSAGE_REPLY seqid (write_open_session_error seqid m) \<and>
     well_formed_message ''CloseSession'' T_MESSAGE_REPLY seqid (write_close_session_response seqid valid) \<and>
     well_formed_message ''GetInfo'' T_MESSAGE_REPLY seqid (write_get_info_response seqid info catalog) \<and>
     well_formed_message ''GetInfo'' T_MESSAGE_REPLY seqid (write_get_info_invalid seqid) \<and>
     well_formed_message ''GetColumns'' T_MESSAGE_REPLY seqid (write_get_columns_response seqid guid secret) \<and>
     well_formed_message ''GetColumns'' T_MESSAGE_REPLY seqid (write_get_columns_error seqid m) \<and>
     well_formed_message ''GetColumns'' T_MESSAGE_REPLY seqid (write_get_columns_invalid seqid m) \<and>
     well_formed_message ''ExecuteStatement'' T_MESSAGE_REPLY seqid (write_execute_statement_response seqid guid secret) \<and>
     well_formed_message ''ExecuteStatement'' T_MESSAGE_REPLY seqid (write_execute_statement_error seqid m) \<and>
     well_formed_message ''ExecuteStatement'' T_MESSAGE_REPLY seqid (write_execute_statement_invalid seqid m) \<and>
     well_formed_message ''GetOperationStatus'' T_MESSAGE_REPLY seqid (write_get_operation_status_invalid seqid) \<and>
     well_formed_message ''GetQueryId'' T_MESSAGE_REPLY seqid (write_get_query_id_response seqid m) \<and>
     well_formed_message ''FetchResults'' T_MESSAGE_REPLY seqid (write_fetch_results_invalid seqid) \<and>
     well_formed_message ''FetchResults'' T_MESSAGE_REPLY seqid (write_fetch_results_not_ready seqid (Some m)) \<and>
     well_formed_message ''CloseOperation'' T_MESSAGE_REPLY seqid (write_close_operation_response seqid valid) \<and>
     well_formed_message ''CancelOperation'' T_MESSAGE_REPLY seqid (write_cancel_operation_response seqid valid)"
  by (intro conjI well_formed_open_session [OF assms(1-4,6)] well_formed_responses [OF assms(1-3,5)])

section \<open>Properties of errors\<close>

text \<open>The same error with another text inside.\<close>

fun with_detail :: "string \<Rightarrow> harbor_error \<Rightarrow> harbor_error" where
  "with_detail m (Config _) = Config m"
| "with_detail m MissingBearerToken = MissingBearerToken"
| "with_detail m (UnsupportedSql _) = UnsupportedSql m"
| "with_detail m (Unity _) = Unity m"
| "with_detail m (Query _) = Query m"
| "with_detail m (UnsupportedResultType _) = UnsupportedResultType m"
| "with_detail m (Thrift _) = Thrift m"
| "with_detail m (Http _) = Http m"
| "with_detail m (Url _) = Url m"
| "with_detail m (Delta _) = Delta m"
| "with_detail m (DataFusion _) = DataFusion m"
| "with_detail m (ArrowJson _) = ArrowJson m"
| "with_detail m (Json _) = Json m"
| "with_detail m (Logger _) = Logger m"
| "with_detail m (Io _) = Io m"

text \<open>
  Nothing of an error's text reaches a client: the HTTP response of an error, and the
  message of a failed Thrift operation, are the same whatever text the error carries, and so
  is the encoded Thrift status.
\<close>

lemma errors_reveal_no_detail:
  "into_response (with_detail m e) = into_response e \<and>
   thrift_client_error_message (with_detail m e) = thrift_client_error_message e \<and>
   write_status code (Some (thrift_client_error_message (with_detail m e))) =
     write_status code (Some (thrift_client_error_message e))"
  by (cases e) (simp_all add: into_response_def thrift_client_error_message_def)

text \<open>
  Truncating a message keeps it whole if it fits; otherwise it keeps the longest prefix of at
  most \<open>max_len\<close> bytes that ends between two characters, and marks the cut.
\<close>

lemma truncate_at_char_boundary:
  "(length s \<le> max_len \<and> Harbor_Error.truncate s max_len = s) \<or>
   (max_len < length s \<and>
    (\<exists>e \<le> max_len. is_char_boundary s e \<and> (\<forall>i \<le> max_len. is_char_boundary s i \<longrightarrow> i \<le> e) \<and>
       Harbor_Error.truncate s max_len = take e s @ ''...''))"
proof (cases "length s \<le> max_len")
  case True
  then show ?thesis by (simp add: Harbor_Error.truncate_def)
next
  case False
  let ?e = "char_boundary_below s max_len"
  have "?e \<le> max_len \<and> is_char_boundary s ?e \<and> (\<forall>i \<le> max_len. is_char_boundary s i \<longrightarrow> i \<le> ?e) \<and>
      Harbor_Error.truncate s max_len = take ?e s @ ''...''"
    using False char_boundary_below_greatest [of s _ max_len]
    by (auto simp: Harbor_Error.truncate_def char_boundary_below_le char_boundary_below_boundary)
  with False show ?thesis by auto
qed

text \<open>
  An error of this server that comes back inside a chain of DataFusion causes keeps its
  client-facing meaning: the first such cause decides, whatever wraps it, and the response is
  that error's own for every error that is part of a query's contract.
\<close>

lemma datafusion_errors_keep_meaning:
  assumes "list_all (\<lambda>cause. cause = None) wrappers"
    "e \<in> {Config m, MissingBearerToken, UnsupportedSql m, Unity m, Query m, UnsupportedResultType m, Thrift m}"
  shows "into_response (harbor_error_from_datafusion rendered (wrappers @ Some e # causes)) = into_response e"
proof -
  have "harbor_error_source (wrappers @ Some e # causes) = Some (clone_harbor_error e)"
    using assms(1) by (induction wrappers) auto
  then show ?thesis using assms(2) by (auto simp: harbor_error_from_datafusion_def)
qed

end
