(* ===== verification/Table_Cache_Waiting.thy ===== *)
theory Table_Cache_Waiting
  imports Table_Cache
begin

text \<open>
  What becomes of the clients of the table cache. Without dropped futures no wake-up is lost
  and every call of \<open>get_or_load\<close> can finish; an invalidation detaches the slots made before
  it; a slot whose loader was dropped stays \<open>Loading\<close> for good.
\<close>

section \<open>Wake-ups\<close>

fun pc_busy :: "pc \<Rightarrow> slot_id \<Rightarrow> bool" where
  "pc_busy (Loads s) s' \<longleftrightarrow> s = s'"
| "pc_busy (Removing s _) s' \<longleftrightarrow> s = s'"
| "pc_busy (Notifying s _) s' \<longleftrightarrow> s = s'"
| "pc_busy _ _ \<longleftrightarrow> False"

text \<open>Some client will still call \<open>notify_waiters\<close> on the slot.\<close>

definition busy :: "cache \<Rightarrow> slot_id \<Rightarrow> bool" where
  "busy c s \<longleftrightarrow> (\<exists>j p. at_pc c j p \<and> pc_busy p s)"

abbreviation notified_count :: "cache \<Rightarrow> slot_id \<Rightarrow> nat" where
  "notified_count c s \<equiv> sl_notified (c_slots c ! s)"

definition wait_ok :: "cache \<Rightarrow> pc \<Rightarrow> bool" where
  "wait_ok c p =
     (case p of
        Subscribed s e \<Rightarrow> e \<le> notified_count c s
      | Waiting s e \<Rightarrow> e < notified_count c s \<or> (e = notified_count c s \<and> busy c s)
      | Dropped \<Rightarrow> False
      | _ \<Rightarrow> True)"

definition wakeups_ok :: "cache \<Rightarrow> bool" where
  "wakeups_ok c \<longleftrightarrow>
     (\<forall>s < length (c_slots c). sl_state (c_slots c ! s) = Loading \<longrightarrow> (\<exists>j. at_pc c j (Loads s))) \<and>
     (\<forall>i p. at_pc c i p \<longrightarrow> wait_ok c p)"

lemma busy_set_pc:
  assumes "busy c s" "at_pc c i q" "c_clients c' = c_clients c" "pc_busy q s \<Longrightarrow> pc_busy p s"
  shows "busy (set_pc i p c') s"
proof -
  obtain j r where j: "at_pc c j r" "pc_busy r s"
    using assms(1) by (auto simp: busy_def)
  have at: "at_pc (set_pc i p c') k x \<longleftrightarrow> (if k = i then x = p else at_pc c k x)" for k x
    using assms(2,3) at_pc_set_pc [of i c' p k x] at_pc_frame [OF assms(3)] by (simp add: at_pc_def)
  show ?thesis
  proof (cases "j = i")
    case True
    then have "pc_busy p s" using assms(2,4) j by (simp add: at_pc_def)
    then show ?thesis using at [of i p] by (auto simp: busy_def)
  next
    case False
    then show ?thesis using at [of j r] j by (auto simp: busy_def)
  qed
qed

lemma wakeups_ok_step:
  assumes inv: "clients_ok loads c" and ok: "wakeups_ok c" and at: "at_pc c i q"
    and same: "c_clients c' = c_clients c"
    and count: "\<And>s. s < length (c_slots c) \<Longrightarrow> notified_count c s \<le> notified_count c' s"
    and work: "\<And>s. s < length (c_slots c) \<Longrightarrow> pc_busy q s \<Longrightarrow> pc_busy p s \<or> notified_count c s < notified_count c' s"
    and load: "\<And>s. s < length (c_slots c') \<Longrightarrow> sl_state (c_slots c' ! s) = Loading \<Longrightarrow>
      p = Loads s \<or> (s < length (c_slots c) \<and> sl_state (c_slots c ! s) = Loading \<and> q \<noteq> Loads s)"
    and new: "wait_ok (set_pc i p c') p"
  shows "wakeups_ok (set_pc i p c')"
proof -
  have atc: "at_pc (set_pc i p c') k x \<longleftrightarrow> (if k = i then x = p else at_pc c k x)" for k x
    using at same at_pc_set_pc [of i c' p k x] at_pc_frame [OF same] by (simp add: at_pc_def)
  have "\<exists>j. at_pc (set_pc i p c') j (Loads s)"
    if s: "s < length (c_slots c')" "sl_state (c_slots c' ! s) = Loading" for s
  proof (cases "p = Loads s")
    case True
    then show ?thesis using atc by auto
  next
    case False
    then obtain j where "at_pc c j (Loads s)" "q \<noteq> Loads s"
      using load [OF s] ok by (auto simp: wakeups_ok_def)
    then show ?thesis using atc at by (metis at_pc_def)
  qed
  moreover have "wait_ok (set_pc i p c') r" if r: "at_pc c j r" "j \<noteq> i" for j r
  proof (cases r)
    case (Waiting s e)
    have s: "s < length (c_slots c)"
      using pc_ok_at [OF inv r(1)] Waiting by (simp add: pc_ok_def slot_is_def)
    have was: "wait_ok c r" using ok r by (auto simp: wakeups_ok_def)
    show ?thesis
    proof (cases "notified_count c s < notified_count c' s")
      case True
      then show ?thesis using was Waiting by (auto simp: wait_ok_def)
    next
      case False
      then have "notified_count c' s = notified_count c s" using count [OF s] by simp
      then show ?thesis
        using was Waiting busy_set_pc [OF _ at same, of s p] work [OF s] by (auto simp: wait_ok_def)
    qed
  next
    case (Subscribed s e)
    have "s < length (c_slots c)"
      using pc_ok_at [OF inv r(1)] Subscribed by (simp add: pc_ok_def slot_is_def)
    then show ?thesis
      using ok r(1) Subscribed count [of s] by (fastforce simp: wakeups_ok_def wait_ok_def)
  qed (use ok r(1) in \<open>fastforce simp: wakeups_ok_def wait_ok_def\<close>)+
  ultimately show ?thesis
    using new atc unfolding wakeups_ok_def by (auto split: if_splits)
qed

lemma notified_set_slot [simp]: "notified_count (set_slot s st c) s' = notified_count c s'"
  by (simp add: set_slot_def nth_list_update_split)

lemma notified_notify: 
  "s < length (c_slots c) \<Longrightarrow> notified_count (notify_waiters s c) s' = notified_count c s' + (if s' = s then 1 else 0)"
  by (simp add: notify_waiters_def nth_list_update_split)

lemma length_slots [simp]:
  "length (c_slots (set_slot s st c)) = length (c_slots c)"
  "length (c_slots (notify_waiters s c)) = length (c_slots c)"
  by (simp_all add: set_slot_def notify_waiters_def)

lemma state_set_slot:
  "s < length (c_slots c) \<Longrightarrow>
   sl_state (c_slots (set_slot s st c) ! s') = (if s' = s then st else sl_state (c_slots c ! s'))"
  by simp

lemma slot_for_key_new_state:
  "slot_for_key cfg key c = (found, c') \<Longrightarrow> s < length (c_slots c') \<Longrightarrow> sl_state (c_slots c' ! s) = Loading \<Longrightarrow>
   s < length (c_slots c) \<and> sl_state (c_slots c ! s) = Loading"
  by (auto simp: slot_for_key_def Let_def nth_append less_Suc_eq split: option.splits if_splits)

text \<open>A client that moves while the slots keep their states and counts.\<close>

lemma wakeups_ok_quiet:
  assumes "clients_ok loads c" "wakeups_ok c" "at_pc c i q" "\<And>s. \<not> pc_busy q s" "wait_ok c p"
    "c_clients c' = c_clients c" "c_slots c' = c_slots c" "\<And>s e. p \<noteq> Waiting s e"
  shows "wakeups_ok (set_pc i p c')"
proof (rule wakeups_ok_step [OF assms(1-3,6)])
  show "wait_ok (set_pc i p c') p"
    using assms(5,7,8) by (simp add: wait_ok_def split: pc.splits)
qed (use assms(4) assms(7) in \<open>(auto dest: meta_spec)\<close>)

lemma check_wakeups:
  assumes inv: "clients_ok loads c" and ok: "wakeups_ok c" and at: "at_pc c i (Subscribed slot epoch)"
    and step: "check_slot slot epoch c = (p, c')"
  shows "wakeups_ok (set_pc i p c')"
proof -
  have slot: "slot < length (c_slots c)"
    using pc_ok_at [OF inv at] by (simp add: pc_ok_def slot_is_def)
  have epoch: "epoch \<le> notified_count c slot"
    using ok at by (fastforce simp: wakeups_ok_def wait_ok_def)
  show ?thesis
  proof (cases "sl_state (c_slots c ! slot) = Loading")
    case True
    then have p: "p = Waiting slot epoch" "c' = c"
      using step by (auto simp: check_slot_def)
    obtain j where "at_pc c j (Loads slot)"
      using True ok slot by (auto simp: wakeups_ok_def)
    then have "busy c slot" unfolding busy_def by (meson pc_busy.simps(1))
    then have "busy (set_pc i p c) slot" by (rule busy_set_pc [OF _ at refl]) simp
    then show ?thesis
      using epoch p by (intro wakeups_ok_step [OF inv ok at]) (auto simp: wait_ok_def)
  next
    case False
    then have "(\<exists>t. p = Done (Inr t)) \<and> c' = c \<or> p = Loads slot \<and> c' = set_slot slot Loading c"
      using step by (auto simp: check_slot_def split: entry_state.splits if_splits)
    then show ?thesis
      using slot by (intro wakeups_ok_step [OF inv ok at]) (auto simp: wait_ok_def state_set_slot split: if_splits)
  qed
qed

lemma finish_load_wakeups:
  assumes inv: "clients_ok loads c" and ok: "wakeups_ok c" and at: "at_pc c i (Loads slot)"
    and step: "finish_load cfg slot loaded c = (p, c')"
  shows "wakeups_ok (set_pc i p c')"
proof -
  have slot: "slot < length (c_slots c)"
    using pc_ok_at [OF inv at] by (simp add: pc_ok_def slot_is_def)
  obtain st r where "p = Removing slot r \<or> p = Notifying slot r" "c' = set_slot slot st c" "st \<noteq> Loading"
    using step by (rule finish_load_cases) auto
  then show ?thesis
    using slot by (intro wakeups_ok_step [OF inv ok at]) (auto simp: wait_ok_def state_set_slot split: if_splits)
qed

lemma at_pc_enter:
  "at_pc (c\<lparr>c_clients := c_clients c @ [cl]\<rparr>) i p \<longleftrightarrow> at_pc c i p \<or> (i = length (c_clients c) \<and> p = cl_pc cl)"
  by (auto simp: at_pc_def nth_append less_Suc_eq)

lemma wakeups_ok_enter:
  assumes "wakeups_ok c" "p = Start \<or> p = LoadsUncached"
  shows "wakeups_ok (c\<lparr>c_clients := c_clients c @ [\<lparr>cl_key = key, cl_pc = p\<rparr>]\<rparr>)" (is "wakeups_ok ?c")
proof -
  have "busy ?c s" if "busy c s" for s
    using that unfolding busy_def at_pc_enter by blast
  then have "wait_ok ?c q" if "wait_ok c q" for q
    using that by (auto simp: wait_ok_def split: pc.splits)
  then show ?thesis
    using assms unfolding wakeups_ok_def at_pc_enter by (auto simp: wait_ok_def)
qed

lemma wakeups_ok_frame:
  assumes "wakeups_ok c" "c_clients c' = c_clients c" "c_slots c' = c_slots c"
  shows "wakeups_ok c'"
proof -
  have "wait_ok c' = wait_ok c"
    using at_pc_frame [OF assms(2)] assms(3) by (intro ext) (simp add: wait_ok_def busy_def split: pc.split)
  then show ?thesis
    using assms at_pc_frame [OF assms(2)] by (simp add: wakeups_ok_def)
qed

lemma wakeups_ok_cache_step:
  assumes "cache_step cfg loads False c c'" "cache_inv cfg loads c" "wakeups_ok c"
  shows "wakeups_ok c'"
proof -
  have inv: "clients_ok loads c" using assms(2) by (simp add: cache_inv_def)
  note step = wakeups_ok_step [OF inv assms(3)]
  note quiet = wakeups_ok_quiet [OF inv assms(3)]
  show ?thesis
    using assms(1)
  proof (cases rule: cache_step.cases)
    case (tick now)
    then show ?thesis using wakeups_ok_frame [OF assms(3)] by simp
  next
    case (enter key)
    then show ?thesis using wakeups_ok_enter [OF assms(3)] by simp
  next
    case (lookup i found c'')
    then show ?thesis
      using slot_for_key_clients [OF lookup(3)] slot_for_key_states [OF lookup(3)] slot_for_key_new_state [OF lookup(3)]
      by (auto simp: wait_ok_def intro!: step split: option.split)
  next
    case (subscribe i slot)
    then show ?thesis by (auto simp: wait_ok_def intro!: quiet)
  next
    case (check i slot epoch p c'')
    then show ?thesis using check_wakeups [OF inv assms(3)] by simp
  next
    case (wake i slot epoch)
    then show ?thesis by (auto simp: wait_ok_def intro!: quiet)
  next
    case (loaded i slot result p c'')
    then show ?thesis using finish_load_wakeups [OF inv assms(3)] by simp
  next
    case (removed i slot result)
    then show ?thesis by (auto simp: wait_ok_def intro!: step)
  next
    case (notified i slot result)
    then show ?thesis
      using pc_ok_at [OF inv notified(2)] by (auto simp: wait_ok_def pc_ok_def slot_is_def notified_notify intro!: step)
  next
    case (loaded_uncached i result)
    then show ?thesis by (auto simp: wait_ok_def intro!: quiet)
  next
    case (invalidate full_name)
    then show ?thesis using wakeups_ok_frame [OF assms(3)] by (simp add: invalidate_table_def)
  qed simp
qed

lemma wakeups_ok_reachable: "cache_reachable cfg loads False c \<Longrightarrow> wakeups_ok c \<and> cache_inv cfg loads c"
  unfolding cache_reachable_def
proof (erule exE, erule rtranclp_induct)
  show "wakeups_ok (table_cache_new start) \<and> cache_inv cfg loads (table_cache_new start)" for start
    by (simp add: cache_inv_new) (simp add: wakeups_ok_def at_pc_def table_cache_new_def)
qed (blast intro: wakeups_ok_cache_step cache_inv_step)

section \<open>Every call can finish\<close>

definition can_finish ::
  "cache_config \<Rightarrow> (cache_key \<Rightarrow> cached_table res \<Rightarrow> bool) \<Rightarrow> cache \<Rightarrow> nat \<Rightarrow> bool" where
  "can_finish cfg loads c i \<longleftrightarrow> (\<exists>c' r. (cache_step cfg loads False)\<^sup>*\<^sup>* c c' \<and> at_pc c' i (Done r))"

lemma can_finish_step: "cache_step cfg loads False c c' \<Longrightarrow> can_finish cfg loads c' i \<Longrightarrow> can_finish cfg loads c i"
  unfolding can_finish_def by (meson converse_rtranclp_into_rtranclp)

lemma at_pc_mine [simp]: "i < length (c_clients c) \<Longrightarrow> at_pc (set_pc i p c) i q \<longleftrightarrow> q = p"
  by (simp add: at_pc_set_pc)

lemma at_pc_other [simp]: "i \<noteq> j \<Longrightarrow> at_pc (set_pc i p c) j q \<longleftrightarrow> at_pc c j q"
  by (auto simp: at_pc_def set_pc_def)

lemma at_pc_index: "at_pc c i p \<Longrightarrow> i < length (c_clients c)"
  by (simp add: at_pc_def)

lemma can_finish_Done: "at_pc c i (Done r) \<Longrightarrow> can_finish cfg loads c i"
  unfolding can_finish_def by blast

lemma can_finish_Notifying: "at_pc c i (Notifying s r) \<Longrightarrow> can_finish cfg loads c i"
  by (rule can_finish_step [OF notified]) (auto intro!: can_finish_Done [of _ _ r] simp: at_pc_index)

lemma can_finish_Removing: "at_pc c i (Removing s r) \<Longrightarrow> can_finish cfg loads c i"
  by (rule can_finish_step [OF removed]) (auto intro!: can_finish_Notifying [of _ _ s r] simp: at_pc_index)

lemma can_finish_LoadsUncached:
  "\<forall>key. \<exists>r. loads key r \<Longrightarrow> at_pc c i LoadsUncached \<Longrightarrow> can_finish cfg loads c i"
  by (erule allE [of _ "cl_key (c_clients c ! i)"], erule exE, rule can_finish_step [OF loaded_uncached])
     (auto intro!: can_finish_Done simp: at_pc_index)

lemma finish_load_moves:
  assumes "finish_load cfg s r c = (p, c')" "at_pc c i (Loads s)"
  shows "c_clients c' = c_clients c" "\<exists>r. p = Removing s r \<or> p = Notifying s r"
    "s < length (c_slots c) \<Longrightarrow> sl_state (c_slots c' ! s) \<noteq> Loading"
  using assms(1) by (auto elim!: finish_load_cases)

lemma can_finish_Loads:
  assumes "\<forall>key. \<exists>r. loads key r" "at_pc c i (Loads s)"
  shows "can_finish cfg loads c i"
proof -
  obtain r where r: "loads (cl_key (c_clients c ! i)) r" using assms(1) by blast
  obtain p c' where step: "finish_load cfg s r c = (p, c')" by fastforce
  have i: "i < length (c_clients c')"
    using finish_load_moves(1) [OF step assms(2)] assms(2) by (simp add: at_pc_def)
  show ?thesis
    using finish_load_moves(2) [OF step assms(2)] i
    by (intro can_finish_step [OF loaded [of _ _ _ loads, OF assms(2) r step]])
       (auto intro: can_finish_Removing can_finish_Notifying)
qed

lemma can_finish_Subscribed:
  assumes total: "\<forall>key. \<exists>r. loads key r" and inv: "clients_ok loads c" and ok: "wakeups_ok c"
    and at: "at_pc c i (Subscribed s e)"
  shows "can_finish cfg loads c i"
proof -
  have slot: "s < length (c_slots c)"
    using pc_ok_at [OF inv at] by (simp add: pc_ok_def slot_is_def)
  have ready: "can_finish cfg loads d i"
    if d: "at_pc d i (Subscribed s e)" "sl_state (c_slots d ! s) \<noteq> Loading" for d
  proof -
    obtain p d' where step: "check_slot s e d = (p, d')" by fastforce
    then have p: "(\<exists>r. p = Done r) \<or> p = Loads s" and "c_clients d' = c_clients d"
      using d(2) by (auto simp: check_slot_def split: entry_state.splits if_splits)
    then have "at_pc (set_pc i p d') i p"
      using at_pc_index [OF d(1)] by simp
    then have "can_finish cfg loads (set_pc i p d') i"
      using p can_finish_Done can_finish_Loads [OF total] by metis
    then show ?thesis by (rule can_finish_step [OF check [OF d(1) step]])
  qed
  show ?thesis
  proof (cases "sl_state (c_slots c ! s) = Loading")
    case True
    then obtain j where j: "at_pc c j (Loads s)" using ok slot by (auto simp: wakeups_ok_def)
    then have ij: "j \<noteq> i" using at by (auto simp: at_pc_def)
    obtain r where r: "loads (cl_key (c_clients c ! j)) r" using total by blast
    obtain p c' where step: "finish_load cfg s r c = (p, c')" by fastforce
    note moves = finish_load_moves [OF step j]
    have "at_pc (set_pc j p c') i (Subscribed s e)"
      using ij at at_pc_frame [OF moves(1)] by simp
    then show ?thesis
      using moves(3) [OF slot] by (intro can_finish_step [OF loaded [of _ _ _ loads, OF j r step]] ready) simp_all
  qed (use ready at in blast)
qed

lemma can_finish_Start:
  assumes total: "\<forall>key. \<exists>r. loads key r" and inv: "cache_inv cfg loads c" and ok: "wakeups_ok c"
    and at: "at_pc c i Start"
  shows "can_finish cfg loads c i"
proof -
  obtain found c' where found: "slot_for_key cfg (cl_key (c_clients c ! i)) c = (found, c')" by fastforce
  have i: "i < length (c_clients c')"
    using slot_for_key_clients [OF found] at by (simp add: at_pc_def)
  let ?p = "case found of Some slot \<Rightarrow> Got slot | None \<Rightarrow> LoadsUncached"
  have step: "cache_step cfg loads False c (set_pc i ?p c')"
    by (rule lookup [OF at found])
  note inv' = cache_inv_step [OF step inv] wakeups_ok_cache_step [OF step inv ok]
  have "can_finish cfg loads (set_pc i ?p c') i"
  proof (cases found)
    case None
    then show ?thesis using i by (intro can_finish_LoadsUncached [OF total]) simp
  next
    case (Some s)
    let ?c = "set_pc i ?p c'"
    have got: "at_pc ?c i (Got s)" using Some i by simp
    have sub: "cache_step cfg loads False ?c (set_pc i (Subscribed s (sl_notified (c_slots ?c ! s))) ?c)" (is "cache_step _ _ _ _ ?d")
      by (rule subscribe [OF got])
    have "at_pc ?d i (Subscribed s (sl_notified (c_slots ?c ! s)))"
      using at_pc_index [OF got] by simp
    then have "can_finish cfg loads ?d i"
      using cache_inv_step [OF sub inv'(1)] wakeups_ok_cache_step [OF sub inv']
      by (intro can_finish_Subscribed [OF total]) (simp_all add: cache_inv_def)
    then show ?thesis by (rule can_finish_step [OF sub])
  qed
  then show ?thesis by (rule can_finish_step [OF step])
qed

lemma can_finish_notified:
  assumes "\<forall>key. \<exists>r. loads key r" "cache_inv cfg loads c" "wakeups_ok c" "at_pc c i (Waiting s e)" "e < notified_count c s"
  shows "can_finish cfg loads c i"
proof -
  have step: "cache_step cfg loads False c (set_pc i Start c)"
    by (rule wake [OF assms(4,5)])
  have "can_finish cfg loads (set_pc i Start c) i"
    using at_pc_index [OF assms(4)] cache_inv_step [OF step assms(2)] wakeups_ok_cache_step [OF step assms(2,3)]
    by (intro can_finish_Start [OF assms(1)]) simp_all
  then show ?thesis by (rule can_finish_step [OF step])
qed

text \<open>Whoever is busy on the slot reaches its \<open>notify_waiters\<close>; the waiter stays where it is.\<close>

lemma busy_notifies:
  assumes total: "\<forall>key. \<exists>r. loads key r" and inv: "clients_ok loads c"
    and j: "at_pc c j p" "pc_busy p s" and i: "at_pc c i (Waiting s e)"
  shows "\<exists>c'. (cache_step cfg loads False)\<^sup>*\<^sup>* c c' \<and> at_pc c' i (Waiting s e) \<and> notified_count c s < notified_count c' s"
proof -
  have ij: "j \<noteq> i" using i j by (auto simp: at_pc_def)
  have slot: "s < length (c_slots c)" using pc_ok_at [OF inv i] by (simp add: pc_ok_def slot_is_def)
  let ?goal = "\<lambda>d. \<exists>c'. (cache_step cfg loads False)\<^sup>*\<^sup>* d c' \<and> at_pc c' i (Waiting s e) \<and> notified_count c s < notified_count c' s"
  have notify: "?goal d" if "at_pc d j (Notifying s r)" "at_pc d i (Waiting s e)"
    "notified_count d s = notified_count c s" "s < length (c_slots d)" for d r
    using that ij at_pc_frame [of "notify_waiters s d" d]
    by (intro exI [of _ "set_pc j (Done r) (notify_waiters s d)"] conjI r_into_rtranclp notified)
       (simp_all add: notified_notify)
  have remove: "?goal d" if d: "at_pc d j (Removing s r)" "at_pc d i (Waiting s e)"
    "notified_count d s = notified_count c s" "s < length (c_slots d)" for d r
  proof -
    let ?d = "set_pc j (Notifying s r) (remove_slot (cl_key (c_clients d ! j)) s d)"
    have "at_pc ?d j (Notifying s r)" "at_pc ?d i (Waiting s e)"
      using d at_pc_index [OF d(1)] ij at_pc_frame [of "remove_slot (cl_key (c_clients d ! j)) s d" d] by simp_all
    then have "?goal ?d" using d by (intro notify) simp_all
    then show ?thesis using converse_rtranclp_into_rtranclp [of "cache_step cfg loads False", OF removed [OF d(1)]] by blast
  qed
  show ?thesis
  proof (cases p)
    case (Loads s')
    then have at: "at_pc c j (Loads s)" using j by simp
    obtain r where r: "loads (cl_key (c_clients c ! j)) r" using total by blast
    obtain q c' where step: "finish_load cfg s r c = (q, c')" by fastforce
    obtain st where c': "c' = set_slot s st c" using finish_load_frame [OF step] by blast
    let ?d = "set_pc j q c'"
    have "at_pc ?d j q" "at_pc ?d i (Waiting s e)"
      using at_pc_index [OF at] i ij at_pc_frame [of c' c] c' by simp_all
    moreover obtain r' where "q = Removing s r' \<or> q = Notifying s r'"
      using finish_load_moves(2) [OF step at] by blast
    ultimately have "?goal ?d" using c' slot notify [of ?d r'] remove [of ?d r'] by auto
    then show ?thesis
      using converse_rtranclp_into_rtranclp [of "cache_step cfg loads False", OF loaded [of _ _ _ loads, OF at r step]] by blast
  qed (use j i slot notify [of c] remove [of c] in auto)
qed

lemma can_finish_reachable:
  assumes reach: "cache_reachable cfg loads False c" and total: "\<forall>key. \<exists>r. loads key r" and i: "i < length (c_clients c)"
  shows "can_finish cfg loads c i"
proof -
  have inv: "cache_inv cfg loads c" and ok: "wakeups_ok c"
    using wakeups_ok_reachable [OF reach] by simp_all
  obtain p where p: "at_pc c i p" using i by (simp add: at_pc_def)
  show ?thesis
  proof (cases p)
    case Start
    then show ?thesis using can_finish_Start [OF total inv ok] p by simp
  next
    case (Got s)
    let ?e = "sl_notified (c_slots c ! s)"
    have step: "cache_step cfg loads False c (set_pc i (Subscribed s ?e) c)"
      using subscribe p Got by blast
    have "can_finish cfg loads (set_pc i (Subscribed s ?e) c) i"
      using i cache_inv_step [OF step inv] wakeups_ok_cache_step [OF step inv ok]
      by (intro can_finish_Subscribed [OF total]) (simp_all add: cache_inv_def)
    then show ?thesis by (rule can_finish_step [OF step])
  next
    case (Subscribed s e)
    then show ?thesis using can_finish_Subscribed [OF total _ ok] inv p by (simp add: cache_inv_def)
  next
    case (Waiting s e)
    then have at: "at_pc c i (Waiting s e)" using p by simp
    show ?thesis
    proof (cases "e < notified_count c s")
      case False
      then have e: "e = notified_count c s" and "busy c s"
        using ok at by (fastforce simp: wakeups_ok_def wait_ok_def)+
      then obtain j q where q: "at_pc c j q" "pc_busy q s" by (auto simp: busy_def)
      then obtain c' where steps: "(cache_step cfg loads False)\<^sup>*\<^sup>* c c'" "at_pc c' i (Waiting s e)"
        and more: "notified_count c s < notified_count c' s"
        using busy_notifies [OF total _ q at] inv by (auto simp: cache_inv_def)
      have "cache_reachable cfg loads False c'"
        using reach steps(1) unfolding cache_reachable_def by (meson rtranclp_trans)
      then have "can_finish cfg loads c' i"
        using wakeups_ok_reachable can_finish_notified [OF total _ _ steps(2)] more e by blast
      then show ?thesis
        using steps(1) unfolding can_finish_def by (meson rtranclp_trans)
    qed (use can_finish_notified [OF total inv ok at] in simp)
  next
    case (Loads s)
    then show ?thesis using can_finish_Loads [OF total] p by simp
  next
    case LoadsUncached
    then show ?thesis using can_finish_LoadsUncached [OF total] p by simp
  next
    case (Removing s r)
    then show ?thesis using can_finish_Removing p by simp
  next
    case (Notifying s r)
    then show ?thesis using can_finish_Notifying p by simp
  next
    case (Done r)
    then show ?thesis using can_finish_Done p by simp
  next
    case Dropped
    then show ?thesis using ok p by (fastforce simp: wakeups_ok_def wait_ok_def)
  qed
qed

section \<open>Abandoned slots\<close>

definition abandoned :: "cache \<Rightarrow> slot_id \<Rightarrow> bool" where
  "abandoned c s \<longleftrightarrow> s < length (c_slots c) \<and> sl_state (c_slots c ! s) = Loading \<and> \<not> busy c s"

text \<open>What a step of any client leaves alone at an abandoned slot.\<close>

definition still_abandoned :: "cache \<Rightarrow> slot_id \<Rightarrow> cache \<Rightarrow> bool" where
  "still_abandoned c s c' \<longleftrightarrow>
     abandoned c' s \<and> notified_count c' s = notified_count c s \<and>
     (\<forall>i. at_pc c i (Waiting s (notified_count c s)) \<longrightarrow>
        at_pc c' i (Waiting s (notified_count c s)) \<or> at_pc c' i Dropped) \<and>
     (\<forall>i. at_pc c i Dropped \<longrightarrow> at_pc c' i Dropped)"

lemma not_busy_set_pc:
  assumes "\<not> busy c s" "i < length (c_clients c)" "c_clients c' = c_clients c" "\<not> pc_busy p s"
  shows "\<not> busy (set_pc i p c') s"
proof -
  have at: "at_pc (set_pc i p c') k x \<longleftrightarrow> (if k = i then x = p else at_pc c k x)" for k x
    using assms(2,3) at_pc_set_pc [of i c' p k x] at_pc_frame [OF assms(3)] by simp
  show ?thesis using assms(1,4) unfolding busy_def at by (auto split: if_splits)
qed

lemma still_abandoned_move:
  assumes "abandoned c s" "at_pc c i q" "c_clients c' = c_clients c"
    "c_slots c' ! s = c_slots c ! s" "length (c_slots c) \<le> length (c_slots c')"
    "\<not> pc_busy p s" "q \<noteq> Dropped" "q = Waiting s (notified_count c s) \<Longrightarrow> p = Dropped"
  shows "still_abandoned c s (set_pc i p c')"
proof -
  have at: "at_pc (set_pc i p c') k x \<longleftrightarrow> (if k = i then x = p else at_pc c k x)" for k x
    using assms(2,3) at_pc_set_pc [of i c' p k x] at_pc_frame [OF assms(3)] by (simp add: at_pc_def)
  have "abandoned (set_pc i p c') s"
    using assms not_busy_set_pc [of c s i c' p] by (auto simp: abandoned_def at_pc_def)
  then show ?thesis
    using assms(2,4,7,8) unfolding still_abandoned_def at by (auto simp: at_pc_def)
qed

lemma still_abandoned_frame:
  assumes "abandoned c s" "c_clients c' = c_clients c" "c_slots c' = c_slots c"
  shows "still_abandoned c s c'"
  using assms at_pc_frame [OF assms(2)] by (auto simp: still_abandoned_def abandoned_def busy_def)

lemma abandoned_not_at: "abandoned c s \<Longrightarrow> at_pc c i p \<Longrightarrow> \<not> pc_busy p s"
  by (auto simp: abandoned_def busy_def)

lemma still_abandoned_step:
  assumes "cache_step cfg loads drops c c'" "abandoned c s"
  shows "still_abandoned c s c'"
proof -
  note move = still_abandoned_move [OF assms(2)]
  note idle = abandoned_not_at [OF assms(2)]
  have s: "s < length (c_slots c)" "sl_state (c_slots c ! s) = Loading"
    using assms(2) by (simp_all add: abandoned_def)
  show ?thesis
    using assms(1)
  proof (cases rule: cache_step.cases)
    case (tick now)
    then show ?thesis using still_abandoned_frame [OF assms(2)] by simp
  next
    case (enter key)
    then show ?thesis
      using assms(2) unfolding still_abandoned_def abandoned_def busy_def enter(1) at_pc_enter
      by auto
  next
    case (lookup i found c'')
    have "length (c_slots c) \<le> length (c_slots c'')"
      using lookup(3) by (auto simp: slot_for_key_def Let_def split: option.splits if_splits)
    then show ?thesis
      using lookup slot_for_key_clients [OF lookup(3)] slot_for_key_states [OF lookup(3) s(1)]
      by (auto intro!: move split: option.split)
  next
    case (check i slot epoch p c'')
    have "c_clients c'' = c_clients c \<and> c_slots c'' ! s = c_slots c ! s \<and> length (c_slots c'') = length (c_slots c) \<and>
        \<not> pc_busy p s"
      using check(3) s by (cases "slot = s") (auto simp: check_slot_def split: entry_state.splits if_splits)
    then show ?thesis
      unfolding check(1) by (intro move [OF check(2)]) auto
  next
    case (loaded i slot result p c'')
    then have "slot \<noteq> s" using idle [OF loaded(2)] by simp
    then show ?thesis
      using loaded finish_load_frame [OF loaded(4)] finish_load_moves(2) [OF loaded(4,2)] by (auto intro!: move)
  next
    case (removed i slot result)
    then show ?thesis using idle [OF removed(2)] by (auto intro!: move)
  next
    case (notified i slot result)
    then show ?thesis
      using idle [OF notified(2)] by (auto simp: notify_waiters_def nth_list_update_split intro!: move)
  next
    case (invalidate full_name)
    then show ?thesis using still_abandoned_frame [OF assms(2)] by (simp add: invalidate_table_def)
  qed (auto intro!: move)
qed

lemma still_abandoned_trans: "still_abandoned c s d \<Longrightarrow> still_abandoned d s e \<Longrightarrow> still_abandoned c s e"
  unfolding still_abandoned_def by metis

lemma still_abandoned_steps:
  assumes "(cache_step cfg loads drops)\<^sup>*\<^sup>* c c'" "abandoned c s"
  shows "still_abandoned c s c'"
  using assms
proof (induction rule: rtranclp_induct)
  case base
  then show ?case by (auto intro: still_abandoned_frame)
next
  case (step d e)
  then show ?case
    using still_abandoned_trans still_abandoned_step by (metis still_abandoned_def)
qed

section \<open>Invalidation\<close>

fun pc_slot :: "pc \<Rightarrow> slot_id option" where
  "pc_slot (Got s) = Some s"
| "pc_slot (Subscribed s _) = Some s"
| "pc_slot (Waiting s _) = Some s"
| "pc_slot (Loads s) = Some s"
| "pc_slot (Removing s _) = Some s"
| "pc_slot (Notifying s _) = Some s"
| "pc_slot _ = None"

text \<open>
  \<open>detached full_name n m c\<close>: the map reaches no slot of the table made before the first
  \<open>n\<close> slots, and no client from the \<open>m\<close>-th on works with such a slot.
\<close>

definition detached :: "string \<Rightarrow> nat \<Rightarrow> nat \<Rightarrow> cache \<Rightarrow> bool" where
  "detached full_name n m c \<longleftrightarrow>
     n \<le> length (c_slots c) \<and> m \<le> length (c_clients c) \<and>
     (\<forall>(key, s) \<in> set (c_entries c). eq_ignore_ascii_case (ck_full_name key) full_name \<longrightarrow> n \<le> s) \<and>
     (\<forall>i p s. m \<le> i \<longrightarrow> at_pc c i p \<longrightarrow> eq_ignore_ascii_case (ck_full_name (cl_key (c_clients c ! i))) full_name \<longrightarrow>
        pc_slot p = Some s \<longrightarrow> n \<le> s)"

lemma detached_invalidate:
  "detached full_name (length (c_slots c)) (length (c_clients c)) (invalidate_table full_name c)"
  by (auto simp: detached_def invalidate_table_def at_pc_def)

lemma detached_move:
  assumes "detached full_name n m c" "at_pc c i q" "c_clients c' = c_clients c"
    "length (c_slots c) \<le> length (c_slots c')"
    "\<And>key s. (key, s) \<in> set (c_entries c') \<Longrightarrow> (key, s) \<in> set (c_entries c) \<or> n \<le> s"
    "\<And>s. pc_slot p = Some s \<Longrightarrow> pc_slot q = Some s \<or>
       (eq_ignore_ascii_case (ck_full_name (cl_key (c_clients c ! i))) full_name \<longrightarrow> n \<le> s)"
  shows "detached full_name n m (set_pc i p c')"
proof -
  have at: "at_pc (set_pc i p c') k x \<longleftrightarrow> (if k = i then x = p else at_pc c k x)" for k x
    using assms(2,3) at_pc_set_pc [of i c' p k x] at_pc_frame [OF assms(3)] by (simp add: at_pc_def)
  have key: "cl_key (c_clients (set_pc i p c') ! k) = cl_key (c_clients c ! k)" for k
    using assms(2,3) by (simp add: set_pc_def at_pc_def nth_list_update_split)
  have len: "length (c_clients (set_pc i p c')) = length (c_clients c)"
    using assms(3) by (simp add: set_pc_def)
  have "n \<le> s" if "(key, s) \<in> set (c_entries c')" "eq_ignore_ascii_case (ck_full_name key) full_name" for key s
    using assms(1) assms(5) [OF that(1)] that(2) by (auto simp: detached_def)
  moreover have "n \<le> s" if "m \<le> k" "if k = i then x = p else at_pc c k x"
    "eq_ignore_ascii_case (ck_full_name (cl_key (c_clients c ! k))) full_name" "pc_slot x = Some s" for k x s
    using assms(1,2) assms(6) [of s] that unfolding detached_def by (metis (full_types))
  ultimately show ?thesis
    using assms(1,4) unfolding detached_def at key len by (auto split: if_splits)
qed

lemma slot_for_key_detached:
  assumes det: "detached full_name n m c" and found: "slot_for_key cfg key c = (found, c')"
  shows "length (c_slots c) \<le> length (c_slots c')"
    and "(k, s) \<in> set (c_entries c') \<Longrightarrow> (k, s) \<in> set (c_entries c) \<or> n \<le> s"
    and "found = Some s \<Longrightarrow> eq_ignore_ascii_case (ck_full_name key) full_name \<Longrightarrow> n \<le> s"
proof -
  define live where "live = prune_expired_entries (c_slots c) (c_now c) (c_entries c)"
  have live: "set live \<subseteq> set (c_entries c)" by (auto simp: live_def prune_expired_entries_def)
  consider (hit) t where "map_of live key = Some t" "found = Some t" "c' = c\<lparr>c_entries := live\<rparr>"
    | (full) "found = None" "c' = c\<lparr>c_entries := live\<rparr>"
    | (fresh) "found = Some (length (c_slots c))" "c_entries c' = AList.update key (length (c_slots c)) live"
        "length (c_slots c') = Suc (length (c_slots c))"
    using found by (auto simp: slot_for_key_def live_def Let_def split: option.splits if_splits)
  then have "length (c_slots c) \<le> length (c_slots c') \<and>
     (\<forall>k s. (k, s) \<in> set (c_entries c') \<longrightarrow> (k, s) \<in> set (c_entries c) \<or> n \<le> s) \<and>
     (\<forall>s. found = Some s \<longrightarrow> eq_ignore_ascii_case (ck_full_name key) full_name \<longrightarrow> n \<le> s)"
  proof cases
    case hit
    then have "(key, t) \<in> set (c_entries c)" using live map_of_SomeD by fastforce
    then show ?thesis using hit live det by (auto simp: detached_def)
  next
    case full
    then show ?thesis using live by auto
  next
    case fresh
    then show ?thesis using live det by (auto simp: detached_def dest!: set_update_cases)
  qed
  then show "length (c_slots c) \<le> length (c_slots c')"
    and "(k, s) \<in> set (c_entries c') \<Longrightarrow> (k, s) \<in> set (c_entries c) \<or> n \<le> s"
    and "found = Some s \<Longrightarrow> eq_ignore_ascii_case (ck_full_name key) full_name \<Longrightarrow> n \<le> s" by auto
qed

lemma detached_step:
  assumes "cache_step cfg loads drops c c'" "detached full_name n m c"
  shows "detached full_name n m c'"
proof -
  note move = detached_move [OF assms(2)]
  show ?thesis
    using assms(1)
  proof (cases rule: cache_step.cases)
    case (tick now)
    then show ?thesis using assms(2) by (auto simp: detached_def at_pc_def)
  next
    case (enter key)
    then show ?thesis
      using assms(2) unfolding detached_def enter(1) at_pc_enter
      by (auto simp: nth_append at_pc_def)
  next
    case (lookup i found c'')
    note det = slot_for_key_detached [OF assms(2) lookup(3)]
    show ?thesis
      unfolding lookup(1) using slot_for_key_clients [OF lookup(3)] det
      by (intro move [OF lookup(2)]) (auto split: option.splits)
  next
    case (check i slot epoch p c'')
    then show ?thesis
      by (auto simp: check_slot_def intro!: move split: entry_state.splits if_splits)
  next
    case (loaded i slot result p c'')
    then show ?thesis
      using finish_load_frame [OF loaded(4)] finish_load_moves(2) [OF loaded(4,2)] by (auto intro!: move)
  next
    case (removed i slot result)
    then show ?thesis by (auto simp: remove_slot_def AList.delete_eq intro!: move)
  next
    case (invalidate name)
    then show ?thesis using assms(2) by (auto simp: detached_def at_pc_def invalidate_table_def)
  qed (auto intro!: move)
qed

lemma detached_steps:
  "(cache_step cfg loads drops)\<^sup>*\<^sup>* c c' \<Longrightarrow> detached full_name n m c \<Longrightarrow> detached full_name n m c'"
  by (induction rule: rtranclp_induct) (auto intro: detached_step)

end
