(* ===== verification/Table_Cache_Properties.thy ===== *)
theory Table_Cache_Properties
  imports Table_Cache_Waiting
begin

text \<open>
  The properties of the table cache, for every state that any interleaving of clients,
  invalidations and clock ticks reaches, and a short run of the cache on which they are tried.
\<close>

section \<open>An example run\<close>

definition example_key :: cache_key where
  "example_key = \<lparr>ck_principal_fingerprint = [1], ck_full_name = ''main.default.hits'', ck_aws_region = ''us-west-2''\<rparr>"

definition example_table :: cached_table where
  "example_table =
     \<lparr>ct_provider = 1, ct_object_store_url = ''s3://bucket'', ct_object_prefix = ''hits'', ct_object_store = 2,
      ct_expires_at = 90\<rparr>"

definition example_config :: cache_config where
  "example_config = \<lparr>cc_max_entries = 1, cc_ttl = 60, cc_fingerprint_key = [7]\<rparr>"

definition example_loads :: "cache_key \<Rightarrow> cached_table res \<Rightarrow> bool" where
  "example_loads key r \<longleftrightarrow> r = Inr example_table"

definition example_slot :: "entry_state \<Rightarrow> nat \<Rightarrow> entry_slot" where
  "example_slot st n = \<lparr>sl_state = st, sl_notified = n, sl_key = example_key\<rparr>"

definition example_cache :: "entry_slot \<Rightarrow> pc list \<Rightarrow> cache" where
  "example_cache slot pcs =
     \<lparr>c_now = 10, c_entries = [(example_key, 0)], c_slots = [slot],
      c_clients = map (\<lambda>p. \<lparr>cl_key = example_key, cl_pc = p\<rparr>) pcs\<rparr>"

lemma cache_reachable_step:
  "cache_reachable cfg loads drops c \<Longrightarrow> cache_step cfg loads drops c c' \<Longrightarrow> cache_reachable cfg loads drops c'"
  unfolding cache_reachable_def by (meson rtranclp.rtrancl_into_rtrancl)

lemmas example_defs = example_config_def example_slot_def example_cache_def example_table_def at_pc_def
  cache_is_enabled_def set_pc_def slot_for_key_def prune_expired_entries_def prunable_def check_slot_def
  set_slot_def finish_load_def cap_expires_at_def checked_deadline_def is_expired_def notify_waiters_def
  instant_max_def example_loads_def Let_def

abbreviation "example_reachable \<equiv> cache_reachable example_config example_loads"

lemma example_got: "example_reachable drops (example_cache (example_slot Empty 0) [Got 0])"
proof -
  let ?c = "\<lparr>c_now = 10, c_entries = [], c_slots = [], c_clients = [\<lparr>cl_key = example_key, cl_pc = Start\<rparr>]\<rparr>"
  have "example_reachable drops (table_cache_new 10)"
    unfolding cache_reachable_def by blast
  from cache_reachable_step [OF this enter [of _ _ _ _ example_key]]
  have "example_reachable drops ?c"
    by (simp add: example_defs table_cache_new_def)
  from cache_reachable_step [OF this lookup [of _ 0 _ "Some 0" "?c\<lparr>c_entries := [(example_key, 0)], c_slots := [example_slot Empty 0]\<rparr>"]]
  show ?thesis by (simp add: example_defs)
qed

lemma example_loading: "example_reachable drops (example_cache (example_slot Loading 0) [Loads 0])"
proof -
  from cache_reachable_step [OF example_got subscribe [of _ 0 0]]
  have "example_reachable drops (example_cache (example_slot Empty 0) [Subscribed 0 0])"
    by (simp add: example_defs)
  from cache_reachable_step [OF this check [of _ 0 0 0 "Loads 0"]]
  show ?thesis by (simp add: example_defs)
qed

lemma example_waiting:
  "example_reachable drops (example_cache (example_slot Loading 0) [Loads 0, Waiting 0 0])"
proof -
  from cache_reachable_step [OF example_loading enter [of _ _ _ _ example_key]]
  have "example_reachable drops (example_cache (example_slot Loading 0) [Loads 0, Start])"
    by (simp add: example_defs)
  from cache_reachable_step [OF this lookup [of _ 1 _ "Some 0" "example_cache (example_slot Loading 0) [Loads 0, Start]"]]
  have "example_reachable drops (example_cache (example_slot Loading 0) [Loads 0, Got 0])"
    by (simp add: example_defs)
  from cache_reachable_step [OF this subscribe [of _ 1 0]]
  have "example_reachable drops (example_cache (example_slot Loading 0) [Loads 0, Subscribed 0 0])"
    by (simp add: example_defs)
  from cache_reachable_step [OF this check [of _ 1 0 0 "Waiting 0 0" "example_cache (example_slot Loading 0) [Loads 0, Subscribed 0 0]"]]
  show ?thesis by (simp add: example_defs)
qed

lemma example_dropped: "example_reachable True (example_cache (example_slot Loading 0) [Dropped, Waiting 0 0])"
  using cache_reachable_step [OF example_waiting dropped [of _ _ 0 "Loads 0" 0 0]] by (simp add: example_defs)

text \<open>The table as it is handed out: it expires with the cache's time to live.\<close>

definition example_cached :: cached_table where
  "example_cached = example_table\<lparr>ct_expires_at := 70\<rparr>"

lemma example_done:
  "example_reachable drops (example_cache (example_slot (Ready example_cached) 1) [Done (Inr example_cached), Subscribed 0 1])"
proof -
  let ?ready = "example_slot (Ready example_cached)"
  from cache_reachable_step [OF example_loading loaded [of _ 0 0 _ "Inr example_table" _ "Notifying 0 (Inr example_cached)"
        "example_cache (?ready 0) [Loads 0]"]]
  have "example_reachable drops (example_cache (?ready 0) [Notifying 0 (Inr example_cached)])"
    by (simp add: example_defs example_cached_def)
  from cache_reachable_step [OF this notified [of _ 0 0 "Inr example_cached"]]
  have "example_reachable drops (example_cache (?ready 1) [Done (Inr example_cached)])"
    by (simp add: example_defs example_cached_def)
  from cache_reachable_step [OF this enter [of _ _ _ _ example_key]]
  have "example_reachable drops (example_cache (?ready 1) [Done (Inr example_cached), Start])"
    by (simp add: example_defs)
  from cache_reachable_step [OF this lookup [of _ 1 _ "Some 0" "example_cache (?ready 1) [Done (Inr example_cached), Start]"]]
  have "example_reachable drops (example_cache (?ready 1) [Done (Inr example_cached), Got 0])"
    by (simp add: example_defs example_cached_def)
  from cache_reachable_step [OF this subscribe [of _ 1 0]]
  show ?thesis by (simp add: example_defs)
qed

lemma same_tableD:
  "same_table a b \<Longrightarrow> ct_expires_at b \<le> ct_expires_at a \<and> b\<lparr>ct_expires_at := ct_expires_at a\<rparr> = a"
  by (cases a; cases b) (simp add: same_table_def)

section \<open>Properties\<close>

text \<open>
  C19. In every reachable state the cache holds at most \<open>max_entries\<close> tables, one entry per
  key, and the slot under a key was made for that key.
\<close>

theorem cache_bounded:
  assumes "cache_reachable cfg loads drops c"
  shows "length (c_entries c) \<le> cc_max_entries cfg \<and> distinct_keys (c_entries c) \<and>
    (\<forall>(key, s) \<in> set (c_entries c). s < length (c_slots c) \<and> sl_key (c_slots c ! s) = key)"
  using cache_inv_reachable [OF assms] by (simp add: cache_inv_def entries_ok_def slot_is_def)

theorem cache_bounded_witness:
  "length (c_entries (example_cache (example_slot Loading 0) [Loads 0, Waiting 0 0])) \<le> 1"
  using cache_bounded [OF example_waiting] by (simp add: example_config_def)

text \<open>
  C17. Single flight: while a client loads into a slot, the slot is \<open>Loading\<close> and no other
  client loads into it.
\<close>

theorem cache_single_flight:
  assumes "cache_reachable cfg loads drops c" "at_pc c i (Loads s)"
  shows "sl_state (c_slots c ! s) = Loading \<and> (\<forall>j. at_pc c j (Loads s) \<longrightarrow> j = i)"
  using cache_inv_reachable [OF assms(1)] assms(2) loads_state [OF _ assms(2)]
  unfolding cache_inv_def clients_ok_def by blast

theorem cache_single_flight_witness:
  "sl_state (c_slots (example_cache (example_slot Loading 0) [Loads 0, Waiting 0 0]) ! 0) = Loading \<and>
   \<not> at_pc (example_cache (example_slot Loading 0) [Loads 0, Waiting 0 0]) 1 (Loads 0)"
proof -
  have "at_pc (example_cache (example_slot Loading 0) [Loads 0, Waiting 0 0]) 0 (Loads 0)"
    by (simp add: at_pc_def example_cache_def)
  from cache_single_flight [OF example_waiting this] show ?thesis by (metis One_nat_def zero_neq_one)
qed

text \<open>
  C18. Principals do not see each other's tables: what \<open>get_or_load\<close> returns to a client is
  what loading under that client's own key (token fingerprint, table name and region) returned,
  expiring no later than the loaded table; an error is one its own load reported.
\<close>

theorem cache_results_for_own_key:
  assumes "cache_reachable cfg loads drops c" "at_pc c i (Done r)"
  shows "case r of
      Inr t \<Rightarrow> \<exists>t0. loads (cl_key (c_clients c ! i)) (Inr t0) \<and> ct_expires_at t \<le> ct_expires_at t0 \<and>
        t\<lparr>ct_expires_at := ct_expires_at t0\<rparr> = t0
    | Inl e \<Rightarrow> loads (cl_key (c_clients c ! i)) (Inl e)"
proof -
  have "result_for loads (cl_key (c_clients c ! i)) r"
    using cache_inv_reachable [OF assms(1)] pc_ok_at [OF _ assms(2)] by (fastforce simp: cache_inv_def pc_ok_def)
  then show ?thesis
    using same_tableD by (fastforce simp: result_for_def loaded_for_def split: sum.splits)
qed

theorem cache_results_for_own_key_witness:
  "\<exists>t0. example_loads example_key (Inr t0) \<and> ct_expires_at example_cached \<le> ct_expires_at t0 \<and>
     example_cached\<lparr>ct_expires_at := ct_expires_at t0\<rparr> = t0"
  using cache_results_for_own_key [OF example_done, of 0 "Inr example_cached"] by (simp add: at_pc_def example_cache_def)

text \<open>
  C21. A table answered from the cache was loaded under the client's key, has not expired, and
  expires within the cache's time to live.
\<close>

theorem cache_hit_fresh:
  assumes "cache_reachable cfg loads drops c" "at_pc c i (Subscribed s e)" "check_slot s e c = (Done (Inr t), c')"
  shows "loaded_for loads (cl_key (c_clients c ! i)) t \<and> c_now c < ct_expires_at t \<and>
    ct_expires_at t \<le> c_now c + cc_ttl cfg \<and> c' = c"
proof -
  have inv: "slots_ok cfg loads c" "clients_ok loads c"
    using cache_inv_reachable [OF assms(1)] by (simp_all add: cache_inv_def)
  have "slot_is c s (cl_key (c_clients c ! i))"
    using pc_ok_at [OF inv(2) assms(2)] by (simp add: pc_ok_def)
  moreover have "sl_state (c_slots c ! s) = Ready t" "\<not> is_expired t (c_now c)" "c' = c"
    using assms(3) by (auto simp: check_slot_def split: entry_state.splits if_splits)
  ultimately show ?thesis
    using inv(1) by (auto simp: slots_ok_def slot_is_def is_expired_def)
qed

theorem cache_hit_fresh_witness: "10 < ct_expires_at example_cached \<and> ct_expires_at example_cached \<le> 10 + 60"
  using cache_hit_fresh [OF example_done, of 1 0 1 example_cached]
  by (simp add: example_defs example_cached_def)

text \<open>
  C20. No lost wake-ups: when no caller's future is dropped and loading a table always returns,
  every call of \<open>get_or_load\<close> can still finish from every reachable state, whatever the
  interleaving was so far.
\<close>

theorem get_or_load_can_finish:
  assumes "cache_reachable cfg loads False c" "\<forall>key. \<exists>r. loads key r" "i < length (c_clients c)"
  shows "\<exists>c' r. (cache_step cfg loads False)\<^sup>*\<^sup>* c c' \<and> at_pc c' i (Done r)"
  using can_finish_reachable [OF assms] by (simp add: can_finish_def)

theorem get_or_load_can_finish_witness:
  "\<exists>c' r. (cache_step example_config example_loads False)\<^sup>*\<^sup>*
      (example_cache (example_slot Loading 0) [Loads 0, Waiting 0 0]) c' \<and> at_pc c' 1 (Done r)"
  by (rule get_or_load_can_finish [OF example_waiting]) (auto simp: example_loads_def example_cache_def)

text \<open>
  C22. Invalidation is final: whatever happens afterwards, the map never again reaches a slot of
  the table made before the invalidation, and no client that arrives later works with such a
  slot, so a load in flight at the invalidation cannot republish its snapshot.
\<close>

theorem invalidate_table_detaches:
  assumes "(cache_step cfg loads drops)\<^sup>*\<^sup>* (invalidate_table full_name c) c'"
  shows "(\<forall>(key, s) \<in> set (c_entries c'). eq_ignore_ascii_case (ck_full_name key) full_name \<longrightarrow> length (c_slots c) \<le> s) \<and>
    (\<forall>i p s. length (c_clients c) \<le> i \<longrightarrow> at_pc c' i p \<longrightarrow>
       eq_ignore_ascii_case (ck_full_name (cl_key (c_clients c' ! i))) full_name \<longrightarrow>
       pc_slot p = Some s \<longrightarrow> length (c_slots c) \<le> s)"
  using detached_steps [OF assms detached_invalidate] by (simp add: detached_def)

theorem invalidate_table_detaches_witness:
  "(example_key, 0) \<notin> set (c_entries (set_pc 0 (Notifying 0 (Inr example_cached))
      (set_slot 0 (Ready example_cached)
        (invalidate_table ''MAIN.default.hits'' (example_cache (example_slot Loading 0) [Loads 0])))))"
proof -
  let ?c = "invalidate_table ''MAIN.default.hits'' (example_cache (example_slot Loading 0) [Loads 0])"
  have "cache_step example_config example_loads False ?c
      (set_pc 0 (Notifying 0 (Inr example_cached)) (set_slot 0 (Ready example_cached) ?c))"
    by (rule loaded [of _ 0 0 _ "Inr example_table"])
       (simp_all add: example_defs example_cached_def invalidate_table_def)
  then have "(cache_step example_config example_loads False)\<^sup>*\<^sup>* ?c
      (set_pc 0 (Notifying 0 (Inr example_cached)) (set_slot 0 (Ready example_cached) ?c))"
    by blast
  from invalidate_table_detaches [OF this] have "\<forall>(key, s) \<in> set (c_entries
      (set_pc 0 (Notifying 0 (Inr example_cached)) (set_slot 0 (Ready example_cached) ?c))).
      eq_ignore_ascii_case (ck_full_name key) ''MAIN.default.hits'' \<longrightarrow> 1 \<le> s"
    by (simp add: example_cache_def)
  moreover have "eq_ignore_ascii_case (ck_full_name example_key) ''MAIN.default.hits''"
    by (simp add: example_key_def eq_ignore_ascii_case_def) code_simp
  ultimately show ?thesis by fastforce
qed

text \<open>
  C34. A load whose future is dropped is never made up for: a \<open>Loading\<close> slot with nobody left
  to finish it stays \<open>Loading\<close>, its waiters are never notified, and each of them waits
  until its own future is dropped, whatever else happens.
\<close>

theorem dropped_load_blocks_waiters:
  assumes "(cache_step cfg loads drops)\<^sup>*\<^sup>* c c'" "abandoned c s" "at_pc c i (Waiting s (notified_count c s))"
  shows "abandoned c' s \<and> (at_pc c' i (Waiting s (notified_count c' s)) \<or> at_pc c' i Dropped)"
  using still_abandoned_steps [OF assms(1,2)] assms(3) by (auto simp: still_abandoned_def)

theorem dropped_load_blocks_waiters_witness:
  "example_reachable True (example_cache (example_slot Loading 0) [Dropped, Waiting 0 0]) \<and>
   at_pc (invalidate_table ''main.default.hits'' (example_cache (example_slot Loading 0) [Dropped, Waiting 0 0])) 1 (Waiting 0 0)"
proof -
  let ?c = "example_cache (example_slot Loading 0) [Dropped, Waiting 0 0]"
  let ?c' = "invalidate_table ''main.default.hits'' ?c"
  have "(cache_step example_config example_loads True)\<^sup>*\<^sup>* ?c ?c'"
    using invalidate by blast
  moreover have "abandoned ?c 0"
    by (auto simp: abandoned_def busy_def example_cache_def example_slot_def at_pc_def nth_Cons split: nat.splits)
  moreover have "at_pc ?c 1 (Waiting 0 (notified_count ?c 0))"
    by (simp add: example_cache_def example_slot_def at_pc_def)
  ultimately have "at_pc ?c' 1 (Waiting 0 (notified_count ?c' 0)) \<or> at_pc ?c' 1 Dropped"
    using dropped_load_blocks_waiters by blast
  then show ?thesis
    using example_dropped by (auto simp: example_cache_def example_slot_def at_pc_def invalidate_table_def)
qed

text \<open>
  The deadline computed from a credential's expiry is never in the past and never later
  than the expiry less the safety margin; it is exactly that, as long as it is a time the clock
  can represent.
\<close>

lemma unity_expiry_deadline:
  fixes ms :: i64 and skew :: duration and now_system :: int and now :: instant
  defines "deadline \<equiv> expires_at_from_unity_expiration_ms_at ms skew now_system now"
    and "margin \<equiv> nat (sint ms * 1000000 - now_system - int skew)"
  shows "now \<le> deadline \<and> deadline \<le> now + margin \<and>
    (0 \<le> sint ms \<and> now + margin \<le> instant_max \<longrightarrow> deadline = now + margin)"
proof -
  have "nat (sint ms * 1000000 - now_system) - skew = margin"
    unfolding margin_def by linarith
  then show ?thesis
    by (simp add: deadline_def expires_at_from_unity_expiration_ms_at_def checked_deadline_def Let_def)
qed

end
