(* ===== verification/Catalog_Properties.thy ===== *)
theory Catalog_Properties
  imports Wire_Properties Metadata Object_Routing "HOL-Library.Multiset"
begin

text \<open>
  The properties of the metadata statements, the Unity Catalog client and the object routes,
  with the lemmas that are specific to them.
\<close>

section \<open>Patterns against names\<close>

text \<open>
  The items of a metadata pattern and what they match: the reference for the translation to a
  regular expression. A literal matches the characters that the engine takes for the same when
  it ignores case, and a dot any character but a line feed.
\<close>

datatype like_item = AnyString | AnyChar | Literal string

fun render :: "regex_fns \<Rightarrow> like_item \<Rightarrow> string" where
  "render rx AnyString = ''.*''"
| "render rx AnyChar = ''.''"
| "render rx (Literal ch) = rx_escape rx ch"

fun like_match :: "(string \<Rightarrow> string \<Rightarrow> bool) \<Rightarrow> like_item list \<Rightarrow> string list \<Rightarrow> bool" where
  "like_match same [] chs \<longleftrightarrow> chs = []"
| "like_match same (AnyString # items) chs \<longleftrightarrow>
     (\<exists>k \<le> length chs. list_all (\<lambda>ch. ch \<noteq> [CHR 0x0A]) (take k chs) \<and> like_match same items (drop k chs))"
| "like_match same (AnyChar # items) chs \<longleftrightarrow>
     (case chs of ch # rest \<Rightarrow> ch \<noteq> [CHR 0x0A] \<and> like_match same items rest | [] \<Rightarrow> False)"
| "like_match same (Literal l # items) chs \<longleftrightarrow>
     (case chs of ch # rest \<Rightarrow> same l ch \<and> like_match same items rest | [] \<Rightarrow> False)"

fun like_items :: "bool \<Rightarrow> string list \<Rightarrow> like_item list" where
  "like_items escaped [] = (if escaped then [Literal [CHR 0x5C]] else [])"
| "like_items escaped (ch # chs) =
     (if escaped then Literal ch # like_items False chs
      else if ch = [CHR 0x5C] then like_items True chs
      else (if ch \<in> {''%'', ''*''} then AnyString else if ch = ''_'' then AnyChar else Literal ch) # like_items False chs)"

text \<open>
  What the \<open>regex\<close> crate documents of the expressions that a pattern is translated to: an
  anchored sequence of escaped characters, dots and starred dots matches a text item by item.
\<close>

fun proper_item :: "like_item \<Rightarrow> bool" where
  "proper_item (Literal ch) \<longleftrightarrow> whole_char ch \<and> starts_char ch"
| "proper_item _ \<longleftrightarrow> True"

definition regex_matches_items :: "regex_fns \<Rightarrow> (string \<Rightarrow> string \<Rightarrow> bool) \<Rightarrow> bool" where
  "regex_matches_items rx same \<longleftrightarrow>
     (\<forall>items. list_all proper_item items \<longrightarrow>
        rx_build rx (''^'' @ concat (map (render rx) items) @ ''$'') =
          Inr (\<lambda>text. like_match same items (utf8_chars text)))"

text \<open>A text starts with the first byte of a character.\<close>

definition is_text :: "string \<Rightarrow> bool" where
  "is_text s \<longleftrightarrow> s = [] \<or> \<not> is_continuation (hd s)"

lemma utf8_chars_proper: "is_text s \<Longrightarrow> list_all (\<lambda>ch. whole_char ch \<and> starts_char ch) (utf8_chars s)"
  using utf8_chars_chunks [of s] utf8_chars_head [of s]
  by (cases "s = []") (auto simp: is_text_def char_chunks_def starts_char_def list_all_iff)

lemma like_items_proper:
  "list_all (\<lambda>ch. whole_char ch \<and> starts_char ch) chs \<Longrightarrow> list_all proper_item (like_items escaped chs)"
  by (induction escaped chs rule: like_items.induct) (auto simp: starts_char_def is_continuation_def utf8_cont_def)

lemma pattern_regex_items: "pattern_regex_loop rx escaped chs = concat (map (render rx) (like_items escaped chs))"
  by (induction rx escaped chs rule: pattern_regex_loop.induct) auto

lemma metadata_pattern_items:
  assumes "regex_matches_items rx same" "p \<noteq> []" "is_text p"
  shows "metadata_pattern_new rx (Some p) = Inr (Some (\<lambda>text. like_match same (like_items False (utf8_chars p)) (utf8_chars text)))"
proof -
  have "list_all proper_item (like_items False (utf8_chars p))"
    by (rule like_items_proper [OF utf8_chars_proper [OF assms(3)]])
  then have "rx_build rx (metadata_pattern_regex rx p) = Inr (\<lambda>text. like_match same (like_items False (utf8_chars p)) (utf8_chars text))"
    using assms(1) unfolding regex_matches_items_def metadata_pattern_regex_def pattern_regex_items by blast
  then show ?thesis using assms(2) by (simp add: metadata_pattern_new_def)
qed

text \<open>Without a wildcard the items are the literal characters that are left without the escapes.\<close>

fun unescaped :: "string list \<Rightarrow> string list" where
  "unescaped [] = []"
| "unescaped [ch] = [ch]"
| "unescaped (ch # next # chs) = (if ch = [CHR 0x5C] then next # unescaped chs else ch # unescaped (next # chs))"

lemma strip_escapes_unescaped: "strip_escapes_loop chs = concat (unescaped chs)"
  by (induction chs rule: strip_escapes_loop.induct) auto

lemma unescaped_chunks: "char_chunks chs \<Longrightarrow> char_chunks (unescaped chs)"
proof -
  have all: "list_all P chs \<Longrightarrow> list_all P (unescaped chs)" for P chs
    by (induction chs rule: unescaped.induct) auto
  have "list_all starts_char (tl chs) \<Longrightarrow> list_all starts_char (tl (unescaped chs))" for chs
    by (cases chs rule: unescaped.cases) (auto simp: all)
  then show "char_chunks chs \<Longrightarrow> char_chunks (unescaped chs)"
    using all by (auto simp: char_chunks_def)
qed

lemma like_items_exact:
  "\<not> contains_wildcard_loop False chs \<Longrightarrow> like_items False chs = map Literal (unescaped chs)"
proof (induction chs rule: unescaped.induct)
  case (3 ch ch' chs)
  then show ?case by (auto split: if_splits)
qed (auto split: if_splits)

lemma like_match_literals: "like_match same (map Literal ls) chs \<longleftrightarrow> list_all2 same ls chs"
  by (induction ls arbitrary: chs) (auto simp: list_all2_Cons1 split: list.splits)

section \<open>Sorting and sending\<close>

lemma plain_arrays:
  "plain_array (string_array xs)" "plain_array (boolean_array bs)" "plain_array (int32_array is)"
  "plain_array (int16_array is16)" "plain_array (int8_array is8)"
  by (auto simp: plain_array_def plain_type_def array_defs list_all_iff split: option.splits)

text \<open>
  \<open>metadata_result bf r\<close>: a result whose columns agree with its schema and hold plain values.
\<close>

definition metadata_result :: "batch_fns \<Rightarrow> query_result \<Rightarrow> bool" where
  "metadata_result bf r \<longleftrightarrow>
     (\<exists>flds arrays n. r = result_of bf flds arrays n \<and> list_all2 (column_fits n) flds arrays \<and> list_all plain_array arrays)"

lemma batch_results:
  assumes "try_new_accepts bf"
  shows "string_result bf name xs = Inr r \<Longrightarrow> metadata_result bf r"
    and "table_rows_result bf c0 c1 c2 rows = Inr r \<Longrightarrow> metadata_result bf r"
    and "table_extended_result bf erows = Inr r \<Longrightarrow> metadata_result bf r"
    and "column_metadata_result bf crows = Inr r \<Longrightarrow> metadata_result bf r"
proof -
  show "string_result bf name xs = Inr r \<Longrightarrow> metadata_result bf r"
    unfolding string_result_fits [OF assms] metadata_result_def
    by (force simp: column_fits_arrays plain_arrays)
  show "table_rows_result bf c0 c1 c2 rows = Inr r \<Longrightarrow> metadata_result bf r"
    unfolding table_rows_result_fits [OF assms] metadata_result_def
    by (auto intro!: exI simp: column_fits_arrays plain_arrays)
  show "table_extended_result bf erows = Inr r \<Longrightarrow> metadata_result bf r"
    unfolding table_extended_result_fits [OF assms] metadata_result_def
    by (auto intro!: exI simp: column_fits_arrays plain_arrays simp del: set_map)
  show "column_metadata_result bf crows = Inr r \<Longrightarrow> metadata_result bf r"
    unfolding column_metadata_result_fits [OF assms] metadata_result_def
    using column_metadata_fits [of crows]
    by (force simp: column_metadata_arrays_def Let_def plain_arrays)
qed

lemma statement_results:
  assumes "try_new_accepts (me_batch me)" "execute_metadata_statement me tok st dc ds = Inr r"
  shows "metadata_result (me_batch me) r"
  using assms(2) batch_results [OF assms(1)]
  by (cases st)
     (auto simp: execute_metadata_statement_def catalogs_result_def schemas_result_def columns_result_def
        tables_result_def views_result_def sbind_Inr_iff split: if_splits)

lemma get_columns_results:
  assumes "try_new_accepts (me_batch me)" "execute_get_columns me tok req dc = Inr r"
  shows "metadata_result (me_batch me) r"
  using assms(2) batch_results(4) [OF assms(1)]
  by (auto simp: execute_get_columns_def Let_def sbind_Inr_iff)

section \<open>An example\<close>

text \<open>
  A small regular expression engine for escaped characters, dots and starred dots, a batch
  constructor, and a catalog with a table and a view.
\<close>

fun example_literal :: "string \<Rightarrow> string \<times> string" where
  "example_literal [] = ([], [])"
| "example_literal [_] = ([], [])"
| "example_literal (m # c # s) =
     (if m = CHR ''x'' then (let (l, r) = example_literal s in (c # l, r)) else ([], c # s))"

fun example_items :: "nat \<Rightarrow> string \<Rightarrow> like_item list" where
  "example_items 0 s = []"
| "example_items (Suc n) s =
     (case s of
        [] \<Rightarrow> []
      | c # r \<Rightarrow>
          if c = CHR ''('' then (let (l, r') = example_literal r in Literal l # example_items n r')
          else if c = CHR ''.'' then
            (case r of d # r' \<Rightarrow> if d = CHR ''*'' then AnyString # example_items n r' else AnyChar # example_items n r
             | [] \<Rightarrow> [AnyChar])
          else [])"

definition example_regex :: regex_fns where
  "example_regex =
     \<lparr>rx_build = \<lambda>re. Inr (\<lambda>text. like_match eq_ignore_ascii_case (example_items (length re) (tl re)) (utf8_chars text)),
      rx_escape = \<lambda>ch. ''('' @ concat (map (\<lambda>c. [CHR ''x'', c]) ch) @ '')''\<rparr>"

lemma example_literal_render: "example_literal (concat (map (\<lambda>c. [CHR ''x'', c]) l) @ CHR '')'' # r # s) = (l, r # s)"
  by (induction l) simp_all

lemma example_items_render:
  "length items < n \<Longrightarrow> example_items n (concat (map (render example_regex) items) @ ''$'') = items"
proof (induction items arbitrary: n)
  case Nil
  then show ?case by (cases n) simp_all
next
  case (Cons item items)
  then obtain m where n: "n = Suc m" "length items < m" by (cases n) simp_all
  let ?rest = "concat (map (render example_regex) items) @ ''$''"
  have IH: "example_items m ?rest = items" by (rule Cons.IH [OF n(2)])
  have "?rest \<noteq> []" "hd ?rest \<noteq> CHR ''*''"
    by (cases items; simp; case_tac "hd items"; simp add: example_regex_def)+
  then obtain d r where rest: "?rest = d # r" "d \<noteq> CHR ''*''" by (cases ?rest) simp_all
  show ?case
  proof (cases item)
    case (Literal l)
    then show ?thesis
      using IH rest example_literal_render [of l d r] by (simp add: n example_regex_def)
  qed (use IH rest in \<open>simp_all add: n\<close>)
qed

lemma example_regex_ok: "regex_matches_items example_regex eq_ignore_ascii_case"
proof -
  have "length items < length (''^'' @ concat (map (render example_regex) items) @ ''$'')" for items
  proof (induction items)
    case (Cons item items)
    then show ?case by (cases item) (simp_all add: example_regex_def)
  qed simp
  note this [THEN example_items_render]
  then show ?thesis unfolding regex_matches_items_def by (simp add: example_regex_def)
qed

definition example_batch_fns :: batch_fns where
  "example_batch_fns =
     \<lparr>bf_try_new = \<lambda>flds arrays. Inr \<lparr>rb_schema = flds, rb_columns = arrays,
        rb_num_rows = (case arrays of a # _ \<Rightarrow> length (arr_cells a) | [] \<Rightarrow> 0)\<rparr>,
      bf_display_type = \<lambda>_. ''type'', bf_memory = \<lambda>_. 0\<rparr>"

lemma example_batch_fns_ok: "try_new_accepts example_batch_fns"
  by (auto simp: try_new_accepts_def example_batch_fns_def list_all2_Cons1 column_fits_def neq_Nil_conv)

definition example_table_info :: "string \<Rightarrow> string \<Rightarrow> table_info" where
  "example_table_info name kind =
     \<lparr>ti_table_id = Some ''id'', ti_full_name = ''main.default.'' @ name, ti_name = Some name,
      ti_catalog_name = Some ''main'', ti_schema_name = Some ''default'', ti_table_type = Some kind,
      ti_data_source_format = Some ''DELTA'', ti_storage_location = Some ''s3://bucket/hits'',
      ti_comment = None, ti_owner = None, ti_created_at = None, ti_created_by = None,
      ti_updated_at = None, ti_updated_by = None, ti_columns = []\<rparr>"

definition example_env :: metadata_env where
  "example_env =
     \<lparr>me_regex = example_regex, me_batch = example_batch_fns,
      me_source = \<lparr>ms_list_catalogs = \<lambda>_. Inr [], ms_list_schemas = \<lambda>_ _. Inr [],
        ms_list_tables = \<lambda>_ _ _. Inr [example_table_info ''Hits'' ''EXTERNAL'', example_table_info ''daily'' ''View''],
        ms_table = \<lambda>_ _. Inl (Unity ''unavailable'')\<rparr>\<rparr>"

section \<open>Properties\<close>

text \<open>
  C29. Every \<open>SHOW\<close> statement is parsed back from its tokens: with any white space and
  comments between the tokens and any number of semicolons at the end, the parser returns the
  statement that was printed, for all names and patterns.
\<close>

theorem show_statement_round_trip:
  assumes "tokenize sql = Inr tokens"
    "filter (\<lambda>token. \<not> is_whitespace_token token) tokens = statement_tokens st @ replicate n SemiColon"
    "wf_statement st"
  shows "parse_show_statement tokenize show_token sql = Inr (Some st)"
proof -
  have "starts_with_show (statement_tokens st @ replicate n SemiColon)"
    using statement_tokens_show [of st] by (auto simp: starts_with_show_def keyword_def)
  then show ?thesis
    using assms parse_show_print [OF assms(3)] show_parser_new_append [of "statement_tokens st" n] statement_tokens_last
    by (simp add: parse_show_statement_def)
qed

theorem show_statement_round_trip_witness:
  "parse_show_statement
     (\<lambda>_. Inr [Word ''SHOW'' None, Space, Word ''TABLES'' None, OtherWhitespace ''/* dbt */'', Word ''IN'' None, Space,
        Word ''main'' (Some CHR ''`''), Period, Word ''from'' (Some CHR ''`''), Space, Word ''LIKE'' None, Space,
        SingleQuotedString ''fact*'', SemiColon]) (\<lambda>_. []) ''show tables'' =
   Inr (Some (Tables (Some [''main'', ''from'']) (Some ''fact*'')))"
  by (rule show_statement_round_trip [where n = 1, OF refl])
     (simp_all add: keyword_def print_in_def print_name_def print_like_def wf_name_def)

text \<open>
  C30. A metadata name without wildcards means the same whether it is looked up or matched: as a
  pattern it matches exactly the names that have the characters of the looked-up name, up to
  case.
\<close>

theorem exact_names_match_patterns:
  assumes "regex_matches_items rx same" "p \<noteq> []" "is_text p" "\<not> contains_metadata_wildcard p"
  shows "\<exists>regex. metadata_pattern_new rx (Some p) = Inr (Some regex) \<and>
    (\<forall>name. regex name \<longleftrightarrow> list_all2 same (utf8_chars (strip_metadata_escapes p)) (utf8_chars name))"
proof -
  have "utf8_chars (strip_metadata_escapes p) = unescaped (utf8_chars p)"
    using utf8_chars_concat [OF unescaped_chunks [OF utf8_chars_chunks]]
    by (simp add: strip_metadata_escapes_def strip_escapes_unescaped)
  then show ?thesis
    using metadata_pattern_items [OF assms(1-3)] assms(4)
    by (simp add: contains_metadata_wildcard_def like_items_exact like_match_literals)
qed

theorem exact_names_match_patterns_witness:
  "\<exists>regex. metadata_pattern_new example_regex (Some [CHR ''a'', CHR 0x5C, CHR ''_'']) = Inr (Some regex) \<and> regex ''A_'' \<and> \<not> regex ''ab''"
proof -
  let ?p = "[CHR ''a'', CHR 0x5C, CHR ''_'']"
  have "is_text ?p" "\<not> contains_metadata_wildcard ?p"
    and chars: "utf8_chars (strip_metadata_escapes ?p) = [''a'', ''_'']" "utf8_chars ''A_'' = [''A'', ''_'']" "utf8_chars ''ab'' = [''a'', ''b'']"
    by (simp_all add: is_text_def contains_metadata_wildcard_def strip_metadata_escapes_def is_continuation_def utf8_cont_def)
  moreover have "eq_ignore_ascii_case ''a'' ''A''" "\<not> eq_ignore_ascii_case ''_'' ''b''"
    by code_simp+
  ultimately show ?thesis
    using exact_names_match_patterns [OF example_regex_ok, of ?p] by auto
qed



lemma example_statement_result:
  "execute_metadata_statement example_env ''token'' (Views None None) ''main'' ''default'' =
     Inr (result_of example_batch_fns
       [field_new ''namespace'' DtUtf8 False, field_new ''viewName'' DtUtf8 False, field_new ''isTemporary'' DtBoolean False]
       [string_array [Some ''default''], string_array [Some ''daily''], boolean_array [False]] 1)"
proof -
  have kinds: "is_view_like (example_table_info ''daily'' ''View'')" "\<not> is_view_like (example_table_info ''Hits'' ''EXTERNAL'')"
    by (simp_all add: is_view_like_def example_table_info_def) code_simp+
  have "listed_rows example_env ''token'' is_view_like None None ''main'' ''default'' =
      Inr [\<lparr>tr_schema = ''default'', tr_name = ''daily''\<rparr>]"
    using kinds by (simp add: listed_rows_def resolve_schema_def show_pattern_new_def example_env_def pattern_matches_def
        sort_table_rows_def) (simp add: table_name_def example_table_info_def)
  then show ?thesis
    by (simp add: execute_metadata_statement_def views_result_def table_rows_result_fits example_batch_fns_ok)
       (simp add: example_env_def table_rows_result_fits example_batch_fns_ok)
qed


text \<open>
  C7. Objects are read and written with the credentials of their own table: a call on
  \<open>PrefixRoutingObjectStore\<close> goes to the store registered last for the longest prefix, by
  path components, that every location of the call lies under, and to no store at all if there
  is none or the locations belong to different stores. Here for a call with locations; the state
  of the stores is unchanged when the router refuses.
\<close>

theorem objects_routed_to_own_store:
  assumes "(url, routes) \<in> set (registry_routes (record_stores recs))" "call_locations call \<noteq> []"
  shows "(\<forall>store. (\<forall>location \<in> set (call_locations call). serves recs url location store) \<longrightarrow>
      routed_call (prefix_routing_new routes) backend call s = backend store call s) \<and>
    ((\<nexists>store. \<forall>location \<in> set (call_locations call). serves recs url location store) \<longrightarrow>
      (\<exists>e. routed_call (prefix_routing_new routes) backend call s = (Inl e, s))) \<and>
    (\<forall>path pre. path_has_prefix path pre \<longleftrightarrow>
       pre = [] \<or> prefix (split_char CHR ''/'' pre) (split_char CHR ''/'' path))"
  by (intro conjI allI impI routed_call_serves [OF assms] path_has_prefix_components)

definition example_records :: "(string \<times> string \<times> nat) list" where
  "example_records = [(''s3://b'', ''a'', 1), (''s3://b'', ''a/b'', 2), (''s3://b'', ''a'', 3)]"

lemma example_registered:
  "registered example_records ''s3://b'' pre store \<longleftrightarrow> (pre = ''a'' \<and> store = 3) \<or> (pre = ''a/b'' \<and> store = 2)"
  by (auto simp: registered_def example_records_def)

theorem objects_routed_to_own_store_witness:
  "routed_call (prefix_routing_new [\<lparr>osr_prefix = ''a/b'', osr_store = 2\<rparr>, \<lparr>osr_prefix = ''a'', osr_store = 3\<rparr>])
     (\<lambda>store call s. (Inr (), store # s)) (GetOpts ''a/bc/x'' ()) [] = (Inr (), [3])"
proof -
  have "(''s3://b'', [\<lparr>osr_prefix = ''a/b'', osr_store = 2\<rparr>, \<lparr>osr_prefix = ''a'', osr_store = 3\<rparr>])
      \<in> set (registry_routes (record_stores example_records))"
    by (simp add: example_records_def record_stores_def registry_new_def registry_routes_def record_store_def)
  moreover have "serves example_records ''s3://b'' ''a/bc/x'' 3"
    by (auto simp: serves_def example_registered path_has_prefix_def strip_prefix_def starts_with_def)
  ultimately show ?thesis
    by (subst objects_routed_to_own_store [THEN conjunct1, rule_format, of "''s3://b''" _ example_records _ 3]) simp_all
qed


definition example_http :: http_fns where
  "example_http =
     \<lparr>hf_send = \<lambda>req. (case req of HttpGet _ url \<Rightarrow> Inr \<lparr>hr_status = 200, hr_body = url\<rparr> | _ \<Rightarrow> Inl ''refused''),
      hf_encode = id, hf_status_text = \<lambda>_. [], hf_error = \<lambda>_. None, hf_redact = \<lambda>s _. s,
      hf_catalogs = \<lambda>_. Inl [], hf_schemas = \<lambda>_. Inl [],
      hf_tables = \<lambda>body. Inr (if contains_str body ''page_token=2''
         then \<lparr>lr_items = [example_table_info ''daily'' ''VIEW''], lr_next_page_token = Some []\<rparr>
         else \<lparr>lr_items = [example_table_info ''hits'' ''EXTERNAL''], lr_next_page_token = Some ''2''\<rparr>),
      hf_table = \<lambda>_. Inl [], hf_credentials = \<lambda>_. Inl [], hf_json = \<lambda>_. Inl []\<rparr>"


end
