(* ===== verification/Sql_Semantics.thy ===== *)
theory Sql_Semantics
  imports Sql_Rewrite
begin

text \<open>
  A reference semantics for the expressions that the rewriting touches, and the proof that
  rewriting keeps the value of an expression.

  The meaning of the functions involved follows the documentation of Databricks
  (\<open>if\<close>, \<open>get\<close>, \<open>element_at\<close> on maps and arrays, \<open>LIKE\<close> with the escape
  character backslash) and of DataFusion (\<open>array_element\<close>, \<open>map_extract\<close>,
  \<open>contains\<close>); everything else an expression may contain is interpreted by the record
  \<open>sem\<close>, a value for each leaf and an operation for each kind of node, so the theorem
  holds whatever those mean. An array index is an unbounded integer: an index of an array in
  memory is far from the limits of its type.
\<close>

section \<open>Values\<close>

datatype sql_value =
    NullV
  | BoolV bool
  | IntV int
  | StrV string
  | is_ArrayV: ArrayV "sql_value list"
  | MapV "(sql_value \<times> sql_value) list"
  | OtherV string

datatype access_value =
    FieldA string
  | DotA sql_value
  | IndexA sql_value
  | SliceA "sql_value option" "sql_value option" "sql_value option"

record sem =
  sm_leaf :: "expr \<Rightarrow> sql_value"
  sm_binary :: "binary_operator \<Rightarrow> sql_value \<Rightarrow> sql_value \<Rightarrow> sql_value"
  sm_distinct :: "bool \<Rightarrow> sql_value \<Rightarrow> sql_value \<Rightarrow> sql_value"
  sm_unary :: "unary_operator \<Rightarrow> sql_value \<Rightarrow> sql_value"
  sm_is :: "is_test \<Rightarrow> sql_value \<Rightarrow> sql_value"
  sm_node :: "string \<Rightarrow> sql_value \<Rightarrow> sql_value"
  sm_access :: "sql_value \<Rightarrow> access_value list \<Rightarrow> sql_value"
  sm_extract :: "date_time_field \<Rightarrow> sql_value \<Rightarrow> sql_value"
  sm_like :: "bool \<Rightarrow> bool \<Rightarrow> sql_value \<Rightarrow> sql_value \<Rightarrow> sql_literal option \<Rightarrow> sql_value"
  sm_text :: "sql_value \<Rightarrow> string option"
  sm_equal :: "sql_value \<Rightarrow> sql_value \<Rightarrow> bool"
  sm_call :: "func \<Rightarrow> sql_value list \<Rightarrow> sql_value"

section \<open>Operations\<close>

fun to_int :: "sql_value \<Rightarrow> int option" where
  "to_int (IntV i) = Some i"
| "to_int _ = None"

fun to_text :: "sem \<Rightarrow> sql_value \<Rightarrow> string option" where
  "to_text sm (StrV s) = Some s"
| "to_text sm v = sm_text sm v"

definition literal_value :: "sem \<Rightarrow> sql_literal \<Rightarrow> sql_value" where
  "literal_value sm l =
     (case l of
        LitNumber digits _ \<Rightarrow>
          (case parse_unsigned (2 ^ 64 - 1) digits of Some n \<Rightarrow> IntV (int n) | None \<Rightarrow> sm_leaf sm (ValueExpr l))
      | LitSingleQuoted s \<Rightarrow> StrV s
      | LitEscaped s \<Rightarrow> StrV s
      | LitDoubleQuoted s \<Rightarrow> StrV s
      | LitOther _ \<Rightarrow> sm_leaf sm (ValueExpr l))"

definition binary_value :: "sem \<Rightarrow> binary_operator \<Rightarrow> sql_value \<Rightarrow> sql_value \<Rightarrow> sql_value" where
  "binary_value sm op a b =
     (case (to_int a, to_int b) of
        (Some i, Some j) \<Rightarrow>
          (if op = OpLt then BoolV (i < j) else if op = OpPlus then IntV (i + j) else sm_binary sm op a b)
      | _ \<Rightarrow> sm_binary sm op a b)"

definition unary_value :: "sem \<Rightarrow> unary_operator \<Rightarrow> sql_value \<Rightarrow> sql_value" where
  "unary_value sm op v =
     (case (op, v) of
        (OpNot, BoolV b) \<Rightarrow> BoolV (\<not> b)
      | (OpNot, NullV) \<Rightarrow> NullV
      | _ \<Rightarrow> sm_unary sm op v)"

text \<open>
  \<open>LIKE\<close>: a percent sign matches any text, an underscore one character with its
  continuation bytes, a backslash takes the next byte literally.
\<close>

function sql_like :: "string \<Rightarrow> string \<Rightarrow> bool" where
  "sql_like [] s \<longleftrightarrow> s = []"
| "sql_like (c # p) s \<longleftrightarrow>
     (if c = CHR ''%'' then (\<exists>k \<in> set [0..<Suc (length s)]. sql_like p (drop k s))
      else if c = CHR ''_'' then s \<noteq> [] \<and> sql_like p (dropWhile is_continuation (tl s))
      else if c = CHR 0x5C \<and> p \<noteq> [] then s \<noteq> [] \<and> hd s = hd p \<and> sql_like (tl p) (tl s)
      else s \<noteq> [] \<and> hd s = c \<and> sql_like p (tl s))"
  by pat_completeness auto
termination
  by (relation "measure (\<lambda>(p, _). length p)") auto

definition like_value :: "sem \<Rightarrow> bool \<Rightarrow> sql_value \<Rightarrow> sql_value \<Rightarrow> sql_value" where
  "like_value sm negated v pattern =
     (case (to_text sm v, to_text sm pattern) of
        (Some s, Some p) \<Rightarrow> BoolV (if negated then \<not> sql_like p s else sql_like p s)
      | _ \<Rightarrow> NullV)"

definition case_value :: "sem \<Rightarrow> sql_value option \<Rightarrow> (sql_value \<times> sql_value) list \<Rightarrow> sql_value option \<Rightarrow> sql_value" where
  "case_value sm operand conditions else_result =
     (case find (\<lambda>(c, _). case operand of None \<Rightarrow> c = BoolV True | Some v \<Rightarrow> sm_equal sm v c) conditions of
        Some (_, r) \<Rightarrow> r
      | None \<Rightarrow> (case else_result of Some r \<Rightarrow> r | None \<Rightarrow> NullV))"

section \<open>Functions\<close>

definition if_value :: "sql_value \<Rightarrow> sql_value \<Rightarrow> sql_value \<Rightarrow> sql_value" where
  "if_value c a b = (if c = BoolV True then a else b)"

text \<open>\<open>get\<close> counts from 0 and is \<open>NULL\<close> outside the array.\<close>

definition get_value :: "sql_value \<Rightarrow> sql_value \<Rightarrow> sql_value" where
  "get_value a index =
     (case (a, to_int index) of
        (ArrayV xs, Some i) \<Rightarrow> if 0 \<le> i \<and> i < int (length xs) then xs ! nat i else NullV
      | _ \<Rightarrow> NullV)"

text \<open>\<open>array_element\<close> counts from 1, or from the end with negative numbers.\<close>

definition array_element_value :: "sql_value \<Rightarrow> sql_value \<Rightarrow> sql_value" where
  "array_element_value a index =
     (case (a, to_int index) of
        (ArrayV xs, Some i) \<Rightarrow>
          if 1 \<le> i \<and> i \<le> int (length xs) then xs ! nat (i - 1)
          else if i < 0 \<and> - i \<le> int (length xs) then xs ! nat (int (length xs) + i)
          else NullV
      | _ \<Rightarrow> NullV)"

definition element_at_value :: "sql_value \<Rightarrow> sql_value \<Rightarrow> sql_value" where
  "element_at_value m key =
     (case m of
        MapV entries \<Rightarrow> (case map_of entries key of Some v \<Rightarrow> v | None \<Rightarrow> NullV)
      | ArrayV _ \<Rightarrow> array_element_value m key
      | _ \<Rightarrow> NullV)"

definition map_extract_value :: "sql_value \<Rightarrow> sql_value \<Rightarrow> sql_value" where
  "map_extract_value m key =
     (case m of MapV entries \<Rightarrow> (case map_of entries key of Some v \<Rightarrow> ArrayV [v] | None \<Rightarrow> ArrayV []) | _ \<Rightarrow> NullV)"

definition contains_value :: "sem \<Rightarrow> sql_value \<Rightarrow> sql_value \<Rightarrow> sql_value" where
  "contains_value sm v needle =
     (case (to_text sm v, to_text sm needle) of
        (Some s, Some n) \<Rightarrow> BoolV (contains_str s n)
      | _ \<Rightarrow> NullV)"

text \<open>
  \<open>shape f\<close> is a call with its argument expressions taken out; \<open>plain_shape\<close> a plain
  call of a function with a number of arguments.
\<close>

definition hole :: expr where
  "hole = OtherExpr []"

fun shape_arg_expr :: "func_arg_expr \<Rightarrow> func_arg_expr" where
  "shape_arg_expr (ArgExpr _) = ArgExpr hole"
| "shape_arg_expr a = a"

fun shape_arg :: "func_arg \<Rightarrow> func_arg" where
  "shape_arg (Named n a) = Named n (shape_arg_expr a)"
| "shape_arg (ExprNamed n a) = ExprNamed n (shape_arg_expr a)"
| "shape_arg (Unnamed a) = Unnamed (shape_arg_expr a)"

fun shape_args :: "func_args \<Rightarrow> func_args" where
  "shape_args (ArgsList dup args clauses) = ArgsList dup (map shape_arg args) clauses"
| "shape_args a = a"

fun shape :: "func \<Rightarrow> func" where
  "shape (Function name odbc parameters fargs flt null_treatment over within_group) =
     Function name odbc parameters (shape_args fargs) flt null_treatment over within_group"

definition plain_shape :: "func \<Rightarrow> string \<Rightarrow> nat \<Rightarrow> bool" where
  "plain_shape sh name n \<longleftrightarrow> plain_args sh name = Some (replicate n (Unnamed (ArgExpr hole)))"

definition call_value :: "sem \<Rightarrow> func \<Rightarrow> sql_value list \<Rightarrow> sql_value" where
  "call_value sm sh vs =
     (case vs of
        [a, b, c] \<Rightarrow> if plain_shape sh ''if'' 3 then if_value a b c else sm_call sm sh vs
      | [a, b] \<Rightarrow>
          if plain_shape sh ''get'' 2 then get_value a b
          else if plain_shape sh ''element_at'' 2 then element_at_value a b
          else if plain_shape sh ''array_element'' 2 then array_element_value a b
          else if plain_shape sh ''map_extract'' 2 then map_extract_value a b
          else if plain_shape sh ''contains'' 2 then contains_value sm a b
          else sm_call sm sh vs
      | _ \<Rightarrow> sm_call sm sh vs)"

section \<open>Expressions\<close>

primrec eval :: "sem \<Rightarrow> expr \<Rightarrow> sql_value"
  and eval_access :: "sem \<Rightarrow> access_expr \<Rightarrow> access_value"
  and eval_func :: "sem \<Rightarrow> func \<Rightarrow> sql_value"
  and eval_fargs :: "sem \<Rightarrow> func_args \<Rightarrow> sql_value list"
  and eval_arg :: "sem \<Rightarrow> func_arg \<Rightarrow> sql_value list"
  and eval_arg_expr :: "sem \<Rightarrow> func_arg_expr \<Rightarrow> sql_value list" where
  "eval sm (Identifier i) = sm_leaf sm (Identifier i)"
| "eval sm (CompoundIdentifier is) = sm_leaf sm (CompoundIdentifier is)"
| "eval sm (ValueExpr l) = literal_value sm l"
| "eval sm (BinaryOp left op right) = binary_value sm op (eval sm left) (eval sm right)"
| "eval sm (IsDistinctFrom left right) = sm_distinct sm True (eval sm left) (eval sm right)"
| "eval sm (IsNotDistinctFrom left right) = sm_distinct sm False (eval sm left) (eval sm right)"
| "eval sm (UnaryOp op e) = unary_value sm op (eval sm e)"
| "eval sm (Is test e) = sm_is sm test (eval sm e)"
| "eval sm (Nested e) = eval sm e"
| "eval sm (OuterJoin e) = sm_node sm ''outer join'' (eval sm e)"
| "eval sm (Prior e) = sm_node sm ''prior'' (eval sm e)"
| "eval sm (CompoundFieldAccess root chain) = sm_access sm (eval sm root) (map (eval_access sm) chain)"
| "eval sm (Extract field syntax source) = sm_extract sm field (eval sm source)"
| "eval sm (FunctionExpr f) = eval_func sm f"
| "eval sm (Like negated any e pattern escape_char) =
     (if any \<or> escape_char \<noteq> None then sm_like sm negated any (eval sm e) (eval sm pattern) escape_char
      else like_value sm negated (eval sm e) (eval sm pattern))"
| "eval sm (CaseExpr operand conditions else_result) =
     case_value sm (map_option (eval sm) operand) (map (map_prod (eval sm) (eval sm)) conditions)
       (map_option (eval sm) else_result)"
| "eval sm (OtherExpr t) = sm_leaf sm (OtherExpr t)"
| "eval_access sm (Dot e) = (case e of Identifier i \<Rightarrow> FieldA (fst i) | _ \<Rightarrow> DotA (eval sm e))"
| "eval_access sm (SubscriptIndex e) = (case eval sm e of StrV s \<Rightarrow> FieldA s | v \<Rightarrow> IndexA v)"
| "eval_access sm (SubscriptSlice l u s) =
     SliceA (map_option (eval sm) l) (map_option (eval sm) u) (map_option (eval sm) s)"
| "eval_func sm (Function name odbc parameters fargs flt null_treatment over within_group) =
     call_value sm (shape (Function name odbc parameters fargs flt null_treatment over within_group)) (eval_fargs sm fargs)"
| "eval_fargs sm ArgsNone = []"
| "eval_fargs sm (ArgsSubquery t) = []"
| "eval_fargs sm (ArgsList dup args clauses) = concat (map (eval_arg sm) args)"
| "eval_arg sm (Named n a) = eval_arg_expr sm a"
| "eval_arg sm (ExprNamed n a) = eval_arg_expr sm a"
| "eval_arg sm (Unnamed a) = eval_arg_expr sm a"
| "eval_arg_expr sm (ArgExpr e) = [eval sm e]"
| "eval_arg_expr sm (QualifiedWildcard t) = []"
| "eval_arg_expr sm Wildcard = []"

section \<open>Laws of the uninterpreted functions\<close>

text \<open>
  What the rewriting relies on: adding one to a value that is no integer gives none, and such a
  value is not less than zero; the two functions that HarborSQL registers compute the minute of
  a time and a replacement by one capture group (\<open>src/src/udf.rs\<close>).
\<close>

definition call_shape :: "string \<Rightarrow> nat \<Rightarrow> func" where
  "call_shape name n =
     Function [NameIdent (name, None)] False None (ArgsList None (replicate n (Unnamed (ArgExpr hole))) []) None None None []"

definition index_law :: "sem \<Rightarrow> bool" where
  "index_law sm \<longleftrightarrow>
     (\<forall>v. to_int v = None \<longrightarrow> to_int (sm_binary sm OpPlus v (IntV 1)) = None \<and> sm_binary sm OpLt v (IntV 0) \<noteq> BoolV True)"

definition minute_law :: "sem \<Rightarrow> bool" where
  "minute_law sm \<longleftrightarrow>
     (\<forall>v. sm_call sm (call_shape EXTRACT_MINUTE_UDF 1) [v] = sm_extract sm Minute v \<and>
        sm_extract sm Minutes v = sm_extract sm Minute v)"

definition group_reference :: "string \<Rightarrow> nat \<Rightarrow> bool" where
  "group_reference replacement k \<longleftrightarrow>
     capture_replacement_index replacement = Some k \<and> k < 2 ^ 63 \<and> \<not> prefix [CHR 0x5C, CHR ''{''] replacement"

definition capture_law :: "sem \<Rightarrow> bool" where
  "capture_law sm \<longleftrightarrow>
     (\<forall>sh source pattern replacement k.
        plain_shape sh ''regexp_replace'' 3 \<and> group_reference replacement k \<longrightarrow>
        sm_call sm sh [source, StrV pattern, StrV replacement] =
        sm_call sm (call_shape REGEXP_REPLACE_CAPTURE_UDF 3) [source, StrV pattern, IntV (int k)])"

definition rewrite_laws :: "sem \<Rightarrow> bool" where
  "rewrite_laws sm \<longleftrightarrow> index_law sm \<and> minute_law sm \<and> capture_law sm"

text \<open>
  \<open>supported\<close>: where the rewriting applies. No \<open>LIKE\<close> pattern that becomes a call of
  \<open>contains\<close> has an escape character in it, \<open>element_at\<close> is not called on an array, and a
  replacement by a capture group is a group reference of both languages with a number in range.
\<close>

definition map_call :: "sem \<Rightarrow> func \<Rightarrow> bool" where
  "map_call sm f \<longleftrightarrow> (case two_args f ''element_at'' of Some (m, _) \<Rightarrow> \<not> is_ArrayV (eval sm m) | None \<Rightarrow> True)"

definition capture_call :: "func \<Rightarrow> bool" where
  "capture_call f \<longleftrightarrow>
     (case plain_args f ''regexp_replace'' of
        Some [_, _, c] \<Rightarrow>
          (case Option.bind (function_arg_expr c) string_literal_value of
             Some replacement \<Rightarrow>
               (case capture_replacement_index replacement of Some k \<Rightarrow> group_reference replacement k | None \<Rightarrow> True)
           | None \<Rightarrow> True)
      | _ \<Rightarrow> True)"

primrec supported :: "sem \<Rightarrow> expr \<Rightarrow> bool"
  and supported_access :: "sem \<Rightarrow> access_expr \<Rightarrow> bool"
  and supported_func :: "sem \<Rightarrow> func \<Rightarrow> bool"
  and supported_fargs :: "sem \<Rightarrow> func_args \<Rightarrow> bool"
  and supported_arg :: "sem \<Rightarrow> func_arg \<Rightarrow> bool"
  and supported_arg_expr :: "sem \<Rightarrow> func_arg_expr \<Rightarrow> bool" where
  "supported sm (Identifier i) \<longleftrightarrow> True"
| "supported sm (CompoundIdentifier is) \<longleftrightarrow> True"
| "supported sm (ValueExpr l) \<longleftrightarrow> True"
| "supported sm (BinaryOp left op right) \<longleftrightarrow> supported sm left \<and> supported sm right"
| "supported sm (IsDistinctFrom left right) \<longleftrightarrow> supported sm left \<and> supported sm right"
| "supported sm (IsNotDistinctFrom left right) \<longleftrightarrow> supported sm left \<and> supported sm right"
| "supported sm (UnaryOp op e) \<longleftrightarrow> supported sm e"
| "supported sm (Is test e) \<longleftrightarrow> supported sm e"
| "supported sm (Nested e) \<longleftrightarrow> supported sm e"
| "supported sm (OuterJoin e) \<longleftrightarrow> supported sm e"
| "supported sm (Prior e) \<longleftrightarrow> supported sm e"
| "supported sm (CompoundFieldAccess root chain) \<longleftrightarrow> supported sm root \<and> list_all (supported_access sm) chain"
| "supported sm (Extract field syntax source) \<longleftrightarrow> True"
| "supported sm (FunctionExpr f) \<longleftrightarrow> supported_func sm f"
| "supported sm (Like negated any e pattern escape_char) \<longleftrightarrow>
     (case contains_needle_from_like_pattern pattern of Some needle \<Rightarrow> CHR 0x5C \<notin> set needle | None \<Rightarrow> True)"
| "supported sm (CaseExpr operand conditions else_result) \<longleftrightarrow> True"
| "supported sm (OtherExpr t) \<longleftrightarrow> True"
| "supported_access sm (Dot e) \<longleftrightarrow> supported sm e"
| "supported_access sm (SubscriptIndex e) \<longleftrightarrow> supported sm e"
| "supported_access sm (SubscriptSlice l u s) \<longleftrightarrow>
     pred_option (supported sm) l \<and> pred_option (supported sm) u \<and> pred_option (supported sm) s"
| "supported_func sm (Function name odbc parameters fargs flt null_treatment over within_group) \<longleftrightarrow>
     map_call sm (Function name odbc parameters fargs flt null_treatment over within_group) \<and>
     capture_call (Function name odbc parameters fargs flt null_treatment over within_group) \<and> supported_fargs sm fargs"
| "supported_fargs sm ArgsNone \<longleftrightarrow> True"
| "supported_fargs sm (ArgsSubquery t) \<longleftrightarrow> True"
| "supported_fargs sm (ArgsList dup args clauses) \<longleftrightarrow> list_all (supported_arg sm) args"
| "supported_arg sm (Named n a) \<longleftrightarrow> supported_arg_expr sm a"
| "supported_arg sm (ExprNamed n a) \<longleftrightarrow> supported_arg_expr sm a"
| "supported_arg sm (Unnamed a) \<longleftrightarrow> supported_arg_expr sm a"
| "supported_arg_expr sm (ArgExpr e) \<longleftrightarrow> supported sm e"
| "supported_arg_expr sm (QualifiedWildcard t) \<longleftrightarrow> True"
| "supported_arg_expr sm Wildcard \<longleftrightarrow> True"

section \<open>\<open>LIKE\<close> and \<open>contains\<close>\<close>

lemma sql_like_any: "sql_like ''%'' s"
  by (auto intro: exI [of _ "length s"])

text \<open>A text without special characters, followed by a percent sign, matches what starts with it.\<close>

lemma sql_like_prefix:
  assumes "CHR ''%'' \<notin> set needle" "CHR ''_'' \<notin> set needle" "CHR 0x5C \<notin> set needle"
  shows "sql_like (needle @ ''%'') s \<longleftrightarrow> prefix needle s"
  using assms
proof (induction needle arbitrary: s)
  case Nil
  then show ?case using sql_like_any by (simp del: sql_like.simps)
next
  case (Cons c needle)
  then show ?case by (cases s) auto
qed

lemma sql_like_contains:
  assumes "CHR ''%'' \<notin> set needle" "CHR ''_'' \<notin> set needle" "CHR 0x5C \<notin> set needle"
  shows "sql_like (''%'' @ needle @ ''%'') s \<longleftrightarrow> contains_str s needle"
proof -
  have "sql_like (''%'' @ needle @ ''%'') s \<longleftrightarrow> (\<exists>k \<in> set [0..<Suc (length s)]. sql_like (needle @ ''%'') (drop k s))"
    by (simp del: upt_Suc)
  also have "\<dots> \<longleftrightarrow> (\<exists>k \<in> {0..<Suc (length s)}. prefix needle (drop k s))"
    unfolding sql_like_prefix [OF assms] set_upt ..
  also have "\<dots> \<longleftrightarrow> sublist needle s"
  proof
    assume "\<exists>k \<in> {0..<Suc (length s)}. prefix needle (drop k s)"
    then show "sublist needle s"
      by (meson prefix_imp_sublist sublist_drop sublist_order.order_trans)
  next
    assume "sublist needle s"
    then obtain us vs where "s = us @ needle @ vs" by (auto simp: sublist_def)
    then have "prefix needle (drop (length us) s) \<and> length us < Suc (length s)" by simp
    then show "\<exists>k \<in> {0..<Suc (length s)}. prefix needle (drop k s)" by auto
  qed
  finally show ?thesis by (simp add: contains_str_def)
qed

lemma contains_needle_cases:
  assumes "contains_needle_from_like_pattern pattern = Some needle"
  shows "CHR ''%'' \<notin> set needle \<and> CHR ''_'' \<notin> set needle \<and> eval sm pattern = StrV (''%'' @ needle @ ''%'')"
proof -
  obtain p where p: "string_literal_value pattern = Some p" "p = ''%'' @ needle @ ''%''"
      "CHR ''%'' \<notin> set needle" "CHR ''_'' \<notin> set needle"
    using assms
    by (auto simp: contains_needle_from_like_pattern_def strip_prefix_Some strip_suffix_Some split: option.splits if_splits)
  then have "eval sm pattern = StrV p"
    by (auto simp: string_literal_value_def literal_value_def split: expr.splits sql_literal.splits)
  then show ?thesis using p by simp
qed

section \<open>Calls\<close>

lemma plain_args_shape: "plain_args (shape f) name = map_option (map shape_arg) (plain_args f name)"
  by (cases f) (auto simp: plain_args_def function_name_eq_def no_clauses_def split: func_args.splits list.splits option.splits)

lemma plain_args_name:
  assumes "plain_args f a = Some args"
  shows "plain_args f b = (if eq_ignore_ascii_case a b then Some args else None)"
  using assms
  by (auto simp: plain_args_def function_name_eq_def eq_ignore_ascii_case_def split: if_splits list.splits name_part.splits prod.splits)

lemma eval_plain: "plain_args f name = Some args \<Longrightarrow> eval_func sm f = call_value sm (shape f) (concat (map (eval_arg sm) args))"
  by (cases f) (auto simp: plain_args_def split: if_splits func_args.splits list.splits option.splits)

lemma function_arg_expr_Some: "function_arg_expr a = Some e \<longleftrightarrow> a = Unnamed (ArgExpr e)"
  by (auto simp: function_arg_expr_def split: func_arg.splits func_arg_expr.splits)

lemma function_arg_expr_expr [simp]: "function_arg_expr (Unnamed (ArgExpr e)) = Some e"
  by (simp add: function_arg_expr_def)

lemma plain_shape_args:
  assumes "plain_args f name = Some (map (\<lambda>e. Unnamed (ArgExpr e)) es)"
  shows "plain_shape (shape f) other n \<longleftrightarrow> eq_ignore_ascii_case name other \<and> n = length es"
proof -
  have "plain_args (shape f) name = Some (replicate (length es) (Unnamed (ArgExpr hole)))"
    using assms by (simp add: plain_args_shape map_replicate_const [symmetric] comp_def)
  then show ?thesis
    by (auto simp: plain_shape_def plain_args_name [of "shape f" name] replicate_eq_replicate)
qed

lemma call_shape_plain:
  "plain_args (call_shape name n) name = Some (replicate n (Unnamed (ArgExpr hole)))"
  by (simp add: call_shape_def plain_args_def function_name_eq_def no_clauses_def)

lemma plain_call_shape: "plain_shape (call_shape name n) other m \<longleftrightarrow> eq_ignore_ascii_case name other \<and> m = n"
  by (auto simp: plain_shape_def plain_args_name [OF call_shape_plain] replicate_eq_replicate)

lemma eval_simple_call: "eval sm (simple_call name args) = call_value sm (call_shape name (length args)) (map (eval sm) args)"
  by (simp add: simple_call_def call_shape_def comp_def map_replicate_const concat_map_singleton)

text \<open>The names of the functions that have a meaning of their own are in lower case and distinct.\<close>

lemma call_names_lower:
  "to_ascii_lowercase ''if'' = ''if''" "to_ascii_lowercase ''get'' = ''get''"
  "to_ascii_lowercase ''element_at'' = ''element_at''" "to_ascii_lowercase ''array_element'' = ''array_element''"
  "to_ascii_lowercase ''map_extract'' = ''map_extract''" "to_ascii_lowercase ''contains'' = ''contains''"
  "to_ascii_lowercase ''regexp_replace'' = ''regexp_replace''"
  "to_ascii_lowercase EXTRACT_MINUTE_UDF = ''harborsql_extract_minute''"
  "to_ascii_lowercase REGEXP_REPLACE_CAPTURE_UDF = ''harborsql_regexp_replace_capture''"
  by code_simp+

lemmas call_rules = plain_call_shape eq_ignore_ascii_case_def call_names_lower call_value_def

lemma eval_array_element: "eval sm (array_element_expr a i) = array_element_value (eval sm a) (eval sm i)"
  by (simp add: array_element_expr_def eval_simple_call numeral_2_eq_2 [symmetric] call_rules)

lemma eval_map_extract: "eval sm (map_extract_expr m k) = map_extract_value (eval sm m) (eval sm k)"
  by (simp add: map_extract_expr_def eval_simple_call numeral_2_eq_2 [symmetric] call_rules)

lemma eval_contains:
  "eval sm (contains_expr e needle negated) =
     (let v = contains_value sm (eval sm e) (StrV needle) in if negated then unary_value sm OpNot v else v)"
  by (simp add: contains_expr_def eval_simple_call single_quoted_string_expr_def literal_value_def
      numeral_2_eq_2 [symmetric] call_rules Let_def)

lemma eval_number: "n < 2 ^ 64 \<Longrightarrow> eval sm (number_expr (show_nat n)) = IntV (int n)"
  by (simp add: number_expr_def literal_value_def parse_unsigned_show_nat)

lemma eval_digits: "eval sm (number_expr ''0'') = IntV 0" "eval sm (number_expr ''1'') = IntV 1"
proof -
  have "show_nat 0 = ''0''" "show_nat 1 = ''1''" by code_simp+
  then show "eval sm (number_expr ''0'') = IntV 0" "eval sm (number_expr ''1'') = IntV 1"
    using eval_number [of 0 sm] eval_number [of 1 sm] by simp_all
qed

lemma eval_get_array:
  assumes "index_law sm"
  shows "eval sm (databricks_get_array_expr a i) = get_value (eval sm a) (eval sm i)"
proof (cases "to_int (eval sm i)")
  case None
  then have "to_int (sm_binary sm OpPlus (eval sm i) (IntV 1)) = None" "sm_binary sm OpLt (eval sm i) (IntV 0) \<noteq> BoolV True"
    using assms by (auto simp: index_law_def)
  then show ?thesis
    using None
    by (simp add: databricks_get_array_expr_def databricks_get_array_index_expr_def eval_array_element eval_digits
        binary_value_def case_value_def array_element_value_def get_value_def split: sql_value.split)
next
  case (Some n)
  then show ?thesis
    by (auto simp: databricks_get_array_expr_def databricks_get_array_index_expr_def eval_array_element eval_digits
        binary_value_def case_value_def array_element_value_def get_value_def split: sql_value.split)
qed

lemma eval_element_at_map:
  assumes "\<not> is_ArrayV (eval sm m)"
  shows "eval sm (databricks_element_at_map_expr m k) = element_at_value (eval sm m) (eval sm k)"
  using assms
  by (auto simp: databricks_element_at_map_expr_def eval_array_element eval_map_extract eval_digits
      element_at_value_def map_extract_value_def array_element_value_def split: sql_value.split option.split)

text \<open>A plain call of a function of the table, and its replacement, have the same value.\<close>

lemma two_args_Some: "two_args f name = Some (x, y) \<longleftrightarrow> plain_args f name = Some (map (\<lambda>e. Unnamed (ArgExpr e)) [x, y])"
  by (auto simp: two_args_def function_arg_expr_Some split: option.splits list.splits)

lemma eval_plain_call:
  assumes "plain_args f name = Some (map (\<lambda>e. Unnamed (ArgExpr e)) es)"
  shows "eval_func sm f = call_value sm (shape f) (map (eval sm) es)"
  using eval_plain [OF assms] by (simp add: comp_def concat_map_singleton)

lemma databricks_if_Some:
  "databricks_if_expr f = Some r \<longleftrightarrow>
     (\<exists>c a b. plain_args f ''if'' = Some (map (\<lambda>e. Unnamed (ArgExpr e)) [c, a, b]) \<and> r = CaseExpr None [(c, a)] (Some b))"
  by (auto simp: databricks_if_expr_def function_arg_expr_Some split: option.splits list.splits)

lemma eval_if:
  assumes "databricks_if_expr f = Some r"
  shows "eval sm r = eval_func sm f"
proof -
  obtain c a b where args: "plain_args f ''if'' = Some (map (\<lambda>e. Unnamed (ArgExpr e)) [c, a, b])"
      and r: "r = CaseExpr None [(c, a)] (Some b)"
    using assms by (auto simp: databricks_if_Some)
  then show ?thesis
    using eval_plain_call [OF args] plain_shape_args [OF args]
    by (simp add: call_value_def case_value_def if_value_def)
qed

lemma eval_two_args:
  assumes "two_args f name = Some (x, y)"
  shows "eval_func sm f = call_value sm (shape f) [eval sm x, eval sm y]"
    "plain_shape (shape f) other n \<longleftrightarrow> eq_ignore_ascii_case name other \<and> n = 2"
  using eval_plain_call [OF assms [unfolded two_args_Some]] plain_shape_args [OF assms [unfolded two_args_Some]]
  by (simp_all add: numeral_2_eq_2)

lemma eval_get:
  assumes "index_law sm" "databricks_get_array_args f = Some (a, i)"
  shows "eval sm (databricks_get_array_expr a i) = eval_func sm f"
  using eval_two_args [OF assms(2) [unfolded databricks_get_array_args_def]]
  by (simp add: eval_get_array [OF assms(1)] call_value_def)

lemma eval_element_at:
  assumes "map_call sm f" "databricks_element_at_map_args f = Some (m, k)"
  shows "eval sm (databricks_element_at_map_expr m k) = eval_func sm f"
proof -
  have args: "two_args f ''element_at'' = Some (m, k)" using assms(2) by (simp add: databricks_element_at_map_args_def)
  then have "\<not> is_ArrayV (eval sm m)" using assms(1) by (simp add: map_call_def)
  then show ?thesis
    using eval_two_args [OF args] by (simp add: eval_element_at_map call_value_def eq_ignore_ascii_case_def call_names_lower)
qed

lemma eval_string_literal: "string_literal_value e = Some s \<Longrightarrow> eval sm e = StrV s"
  by (auto simp: string_literal_value_def literal_value_def split: expr.splits sql_literal.splits)

lemma eval_capture:
  assumes "capture_law sm" "capture_call f" "regexp_replace_capture_fast_path_args f = Some (source, p, k)"
  shows "eval sm (regexp_replace_capture_expr source p k) = eval_func sm f"
proof -
  obtain pe re r where args: "plain_args f ''regexp_replace'' = Some (map (\<lambda>e. Unnamed (ArgExpr e)) [source, pe, re])"
      and p: "string_literal_value pe = Some p" and r: "string_literal_value re = Some r"
      and k: "capture_replacement_index r = Some k"
    using assms(3)
    by (auto simp: regexp_replace_capture_fast_path_args_def function_arg_expr_Some bind_eq_Some_conv
        split: option.splits list.splits)
  then have ref: "group_reference r k"
    using assms(2) by (simp add: capture_call_def function_arg_expr_def)
  then have bound: "k < 2 ^ 64" by (simp add: group_reference_def)
  have "eval_func sm f = sm_call sm (shape f) [eval sm source, StrV p, StrV r]"
    using eval_plain_call [OF args] plain_shape_args [OF args] eval_string_literal [OF p] eval_string_literal [OF r]
    by (simp add: call_value_def eq_ignore_ascii_case_def call_names_lower)
  also have "\<dots> = sm_call sm (call_shape REGEXP_REPLACE_CAPTURE_UDF 3) [eval sm source, StrV p, IntV (int k)]"
    using assms(1) ref plain_shape_args [OF args, of "''regexp_replace''" 3] by (simp add: capture_law_def)
  also have "\<dots> = eval sm (regexp_replace_capture_expr source p k)"
    using eval_number [OF bound]
    by (simp add: regexp_replace_capture_expr_def eval_simple_call single_quoted_string_expr_def literal_value_def
        numeral_3_eq_3 [symmetric] call_rules)
  finally show ?thesis ..
qed

lemma eval_function_replacement:
  assumes "rewrite_laws sm" "map_call sm f" "capture_call f" "function_replacement f = Some r"
  shows "eval sm r = eval_func sm f"
  using assms eval_if [of f] eval_get [of sm f] eval_element_at [of sm f] eval_capture [of sm f]
  by (auto simp: function_replacement_def rewrite_laws_def split: option.splits)

section \<open>What rewriting keeps\<close>

lemma snd_map_prod_id [simp]: "snd (map_prod id g p) = g (snd p)"
  by (cases p) simp

lemma rewrite_args_map: "snd (rewrite_args as) = map (\<lambda>a. snd (rewrite_arg a)) as"
  by (induction as) (auto simp: Let_def split: prod.split)

lemma shape_rewrite_arg: "shape_arg (snd (rewrite_arg a)) = shape_arg a"
proof -
  have "shape_arg_expr (snd (rewrite_arg_expr x)) = shape_arg_expr x" for x by (cases x) auto
  then show ?thesis by (cases a) auto
qed

lemma shape_rewrite: "shape (snd (rewrite_function_fast_paths f)) = shape f"
  by (cases f) (auto simp: rewrite_args_map shape_rewrite_arg comp_def split: func_args.split prod.split
      dest!: arg_cong [of _ _ snd])

lemma replacement_head: "function_replacement f = Some r \<Longrightarrow> (\<exists>x c e. r = CaseExpr x c e) \<or> (\<exists>g. r = FunctionExpr g)"
  by (auto simp: function_replacement_def databricks_if_Some databricks_get_array_expr_def databricks_element_at_map_expr_def
      array_element_expr_def regexp_replace_capture_expr_def simple_call_def split: option.splits)

lemma rewrite_heads:
  "snd (rewrite_expr_fast_paths e) = Identifier i \<longleftrightarrow> e = Identifier i"
  "string_literal_value (snd (rewrite_expr_fast_paths e)) = string_literal_value e"
  by (cases e; auto simp: string_literal_value_def extract_minute_expr_def simple_call_def contains_expr_def Let_def
      dest!: replacement_head split: prod.splits option.splits)+

lemma function_arg_rewrite:
  "function_arg_expr (snd (rewrite_arg a)) = map_option (\<lambda>e. snd (rewrite_expr_fast_paths e)) (function_arg_expr a)"
proof (cases a)
  case (Unnamed x)
  then show ?thesis by (cases x) (auto simp: function_arg_expr_def)
qed (auto simp: function_arg_expr_def)

lemma plain_args_rewrite:
  "plain_args (snd (rewrite_function_fast_paths f)) name = map_option (map (\<lambda>a. snd (rewrite_arg a))) (plain_args f name)"
  by (cases f) (auto simp: rewrite_args_map [symmetric] plain_args_def function_name_eq_def no_clauses_def
      split: func_args.split prod.split option.split list.split)

lemma capture_call_rewrite: "capture_call (snd (rewrite_function_fast_paths f)) = capture_call f"
  by (auto simp: capture_call_def plain_args_rewrite function_arg_rewrite rewrite_heads(2) bind_map_option comp_def
      split: option.split list.split)

lemma map_call_rewrite:
  assumes "\<And>name args. plain_args f name = Some args \<Longrightarrow>
      map (eval_arg sm) (map (\<lambda>a. snd (rewrite_arg a)) args) = map (eval_arg sm) args"
    and "map_call sm f"
  shows "map_call sm (snd (rewrite_function_fast_paths f))"
proof (cases "two_args (snd (rewrite_function_fast_paths f)) ''element_at''")
  case (Some p)
  obtain m' k' where p: "p = (m', k')" by (cases p)
  obtain a b where ab: "plain_args f ''element_at'' = Some [a, b]"
      "snd (rewrite_arg a) = Unnamed (ArgExpr m')" "snd (rewrite_arg b) = Unnamed (ArgExpr k')"
    using Some unfolding p two_args_Some by (auto simp: plain_args_rewrite)
  then obtain m k where mk: "a = Unnamed (ArgExpr m)" "b = Unnamed (ArgExpr k)"
    using function_arg_rewrite [of a] function_arg_rewrite [of b]
    by (cases "function_arg_expr a"; cases "function_arg_expr b") (auto simp: function_arg_expr_Some)
  then have "eval sm m' = eval sm m" using assms(1) [OF ab(1)] ab(2) by simp
  moreover have "two_args f ''element_at'' = Some (m, k)" using ab(1) mk by (simp add: two_args_Some)
  ultimately show ?thesis using assms(2) Some p by (simp add: map_call_def)
qed (simp add: map_call_def)

lemma eval_func_rewrite:
  assumes "eval_fargs sm (fn_args (snd (rewrite_function_fast_paths f))) = eval_fargs sm (fn_args f)"
  shows "eval_func sm (snd (rewrite_function_fast_paths f)) = eval_func sm f"
proof -
  have "eval_func sm g = call_value sm (shape g) (eval_fargs sm (fn_args g))" for g by (cases g) simp
  then show ?thesis using assms by (simp add: shape_rewrite)
qed

lemma like_contains_value:
  assumes "contains_needle_from_like_pattern pattern = Some needle" "CHR 0x5C \<notin> set needle"
  shows "eval sm (contains_expr e needle negated) = like_value sm negated (eval sm e) (eval sm pattern)"
  using contains_needle_cases [OF assms(1), of sm] sql_like_contains [of needle] assms(2)
  by (auto simp: eval_contains contains_value_def like_value_def unary_value_def Let_def simp del: sql_like.simps split: option.split)

lemma eval_dot_access: "rewrite_dot_access a = (True, a') \<Longrightarrow> eval_access sm a' = eval_access sm a"
  by (cases a rule: rewrite_dot_access.cases) (auto simp: single_quoted_string_expr_def literal_value_def)

lemma eval_minute:
  assumes "minute_law sm" "field = Minute \<or> field = Minutes"
  shows "eval sm (extract_minute_expr source) = sm_extract sm field (eval sm source)"
  using assms by (auto simp: minute_law_def extract_minute_expr_def eval_simple_call call_rules)

lemma eval_dot_other: "\<nexists>i. e = Identifier i \<Longrightarrow> eval_access sm (Dot e) = DotA (eval sm e)"
  by (cases e) auto

lemma eval_dot:
  assumes "eval sm (snd (rewrite_expr_fast_paths e)) = eval sm e"
  shows "eval_access sm (Dot (snd (rewrite_expr_fast_paths e))) = eval_access sm (Dot e)"
proof (cases "\<exists>i. e = Identifier i")
  case False
  then have "\<nexists>i. snd (rewrite_expr_fast_paths e) = Identifier i" by (simp add: rewrite_heads(1))
  then show ?thesis using False assms eval_dot_other by presburger
qed auto

lemma fn_args_rewrite:
  "fn_args (snd (rewrite_function_fast_paths f)) =
     (case fn_args f of ArgsList dup args clauses \<Rightarrow> ArgsList dup (snd (rewrite_args args)) clauses | a \<Rightarrow> a)"
  by (cases f) (auto split: func_args.split prod.split)

lemma function_eval:
  assumes "\<And>dup args clauses. fn_args f = ArgsList dup args clauses \<Longrightarrow>
      map (eval_arg sm) (snd (rewrite_args args)) = map (eval_arg sm) args"
    and "map_call sm f"
  shows "eval_func sm (snd (rewrite_function_fast_paths f)) = eval_func sm f \<and> map_call sm (snd (rewrite_function_fast_paths f))"
proof
  show "eval_func sm (snd (rewrite_function_fast_paths f)) = eval_func sm f"
    using assms(1) by (intro eval_func_rewrite) (auto simp: fn_args_rewrite split: func_args.split)
next
  show "map_call sm (snd (rewrite_function_fast_paths f))"
  proof (rule map_call_rewrite [OF _ assms(2)])
    fix name args assume "plain_args f name = Some args"
    then have "fn_args f = ArgsList None args []"
      by (auto simp: plain_args_def split: if_splits func_args.splits option.splits list.splits)
    from assms(1) [OF this] show "map (eval_arg sm) (map (\<lambda>a. snd (rewrite_arg a)) args) = map (eval_arg sm) args"
      by (simp add: rewrite_args_map)
  qed
qed

lemma rewrite_eval:
  assumes laws: "rewrite_laws sm"
  shows
    "supported sm e \<Longrightarrow> eval sm (snd (rewrite_expr_fast_paths e)) = eval sm e"
    "supported_arg sm a \<Longrightarrow> eval_arg sm (snd (rewrite_arg a)) = eval_arg sm a"
    "supported_arg_expr sm ae \<Longrightarrow> eval_arg_expr sm (snd (rewrite_arg_expr ae)) = eval_arg_expr sm ae"
    "list_all (supported_arg sm) as \<Longrightarrow> map (eval_arg sm) (snd (rewrite_args as)) = map (eval_arg sm) as"
    "supported_func sm f \<Longrightarrow> eval_func sm (snd (rewrite_function_fast_paths f)) = eval_func sm f \<and>
       map_call sm (snd (rewrite_function_fast_paths f))"
    "supported_access sm x \<Longrightarrow> eval_access sm (snd (rewrite_access_expr_fast_paths x)) = eval_access sm x"
    "list_all (supported_access sm) xs \<Longrightarrow> map (eval_access sm) (snd (rewrite_accesses named xs)) = map (eval_access sm) xs"
    "pred_option (supported sm) b \<Longrightarrow> map_option (eval sm) (snd (rewrite_bound b)) = map_option (eval sm) b"
proof (induction e and a and ae and as and f and x and named xs and b rule: rewrite_induct)
  case (1 field sy source)
  then show ?case using laws by (simp add: rewrite_laws_def eval_minute)
next
  case (2 f)
  obtain c g where g: "rewrite_function_fast_paths f = (c, g)" by (cases "rewrite_function_fast_paths f")
  have "supported_func sm f" "capture_call f" using 2(2) by (cases f; simp)+
  then have "eval_func sm g = eval_func sm f" "map_call sm g" "capture_call g"
    using 2(1) capture_call_rewrite [of f] by (simp_all add: g)
  then show ?case
    using eval_function_replacement [OF laws] by (auto simp: g split: option.split)
next
  case (3 negated any like_expr pattern escape_char)
  then show ?case by (auto simp: like_contains_value split: option.splits)
next
  case (21 name odbc parameters fargs flt null_treatment over within_group)
  then show ?case by (intro function_eval) auto
next
  case (22 e)
  then show ?case using eval_dot [of sm e] by (simp del: eval_access.simps)
qed (auto simp: eval_dot_access split: prod.splits)

end
