(* ===== verification/Sql_Properties.thy ===== *)
theory Sql_Properties
  imports Sql_Semantics
begin

text \<open>
  What the rewriting of SQL promises: the text that is planned parses as the rewritten statement,
  which is as read-only as the original, and every clause of a \<open>SELECT\<close> keeps its values.
\<close>

section \<open>The values of the clauses of a \<open>SELECT\<close>\<close>

text \<open>The value of a projected expression; the name of a column is not part of it.\<close>

definition item_value :: "sem \<Rightarrow> select_item \<Rightarrow> sql_value + string" where
  "item_value sm item =
     (case item of
        UnnamedExpr e \<Rightarrow> Inl (eval sm e)
      | ExprWithAlias e _ \<Rightarrow> Inl (eval sm e)
      | QualifiedWildcardItem t \<Rightarrow> Inr t
      | WildcardItem t \<Rightarrow> Inr t)"

definition group_by_values :: "sem \<Rightarrow> group_by_expr \<Rightarrow> sql_value list \<times> string" where
  "group_by_values sm gb = (case gb of GroupByAll t \<Rightarrow> ([], t) | GroupByExpressions es t \<Rightarrow> (map (eval sm) es, t))"

record select_values =
  sv_projection :: "(sql_value + string) list"
  sv_conditions :: "sql_value option list"
  sv_group_by :: "sql_value list \<times> string"
  sv_partition :: "sql_value list list"
  sv_sort_by :: "(sql_value \<times> string) list"

definition eval_select :: "sem \<Rightarrow> select \<Rightarrow> select_values" where
  "eval_select sm s =
     \<lparr>sv_projection = map (item_value sm) (sel_projection s),
      sv_conditions = map (map_option (eval sm)) [sel_selection s, sel_prewhere s, sel_having s, sel_qualify s],
      sv_group_by = group_by_values sm (sel_group_by s),
      sv_partition = map (map (eval sm)) [sel_cluster_by s, sel_distribute_by s],
      sv_sort_by = map (map_prod (eval sm) id) (sel_sort_by s)\<rparr>"

definition item_supported :: "sem \<Rightarrow> select_item \<Rightarrow> bool" where
  "item_supported sm item =
     (case item of UnnamedExpr e \<Rightarrow> supported sm e | ExprWithAlias e _ \<Rightarrow> supported sm e | _ \<Rightarrow> True)"

definition select_supported :: "sem \<Rightarrow> select \<Rightarrow> bool" where
  "select_supported sm s \<longleftrightarrow>
     list_all (item_supported sm) (sel_projection s) \<and>
     list_all (case_option True (supported sm)) [sel_selection s, sel_prewhere s, sel_having s, sel_qualify s] \<and>
     (case sel_group_by s of GroupByAll _ \<Rightarrow> True | GroupByExpressions es _ \<Rightarrow> list_all (supported sm) es) \<and>
     list_all (supported sm) (sel_cluster_by s) \<and> list_all (supported sm) (sel_distribute_by s) \<and>
     list_all (\<lambda>x. supported sm (fst x)) (sel_sort_by s)"

lemma rewrite_item_value:
  assumes "rewrite_laws sm" "item_supported sm item"
  shows "item_value sm (snd (rewrite_item sf options item)) = item_value sm item"
  using assms rewrite_eval(1) [OF assms(1)]
  by (auto simp: rewrite_item_def item_value_def item_supported_def split: select_item.splits prod.splits option.splits)
     (metis snd_conv)+

lemma snd_rewrite_list [simp]: "snd (rewrite_list f xs) = map (\<lambda>x. snd (f x)) xs"
  by (simp add: rewrite_list_def)

lemma snd_rewrite_option [simp]: "snd (rewrite_option f x) = map_option (\<lambda>y. snd (f y)) x"
  by (cases x) (simp_all add: rewrite_option_def)

lemma snd_rewrite_order_by_expr [simp]: "snd (rewrite_order_by_expr x) = (snd (rewrite_expr_fast_paths (fst x)), snd x)"
  by (simp add: rewrite_order_by_expr_def Let_def split: prod.split)

lemma snd_rewrite_group_by [simp]:
  "snd (rewrite_group_by gb) =
     (case gb of GroupByAll t \<Rightarrow> GroupByAll t
      | GroupByExpressions es t \<Rightarrow> GroupByExpressions (map (\<lambda>e. snd (rewrite_expr_fast_paths e)) es) t)"
  by (cases gb) (simp_all add: rewrite_group_by_def)

text \<open>The parts of a rewritten \<open>SELECT\<close> are its rewritten parts.\<close>

lemma snd_rewrite_select:
  "snd (rewrite_select_fast_paths sf options s) =
     \<lparr>sel_projection = map (\<lambda>x. snd (rewrite_item sf options x)) (sel_projection s),
      sel_selection = snd (rewrite_option rewrite_expr_fast_paths (sel_selection s)),
      sel_prewhere = snd (rewrite_option rewrite_expr_fast_paths (sel_prewhere s)),
      sel_group_by = snd (rewrite_group_by (sel_group_by s)),
      sel_cluster_by = map (\<lambda>e. snd (rewrite_expr_fast_paths e)) (sel_cluster_by s),
      sel_distribute_by = map (\<lambda>e. snd (rewrite_expr_fast_paths e)) (sel_distribute_by s),
      sel_sort_by = snd (rewrite_list rewrite_order_by_expr (sel_sort_by s)),
      sel_having = snd (rewrite_option rewrite_expr_fast_paths (sel_having s)),
      sel_qualify = snd (rewrite_option rewrite_expr_fast_paths (sel_qualify s)),
      sel_rest = sel_rest s\<rparr>"
  by (simp add: rewrite_select_fast_paths_def case_prod_beta)

lemma map_eval_rewrite:
  assumes "rewrite_laws sm" "list_all (supported sm) es"
  shows "map (\<lambda>e. eval sm (snd (rewrite_expr_fast_paths e))) es = map (eval sm) es"
  using assms rewrite_eval(1) by (auto simp: list_all_iff)

lemma option_eval_rewrite:
  assumes "rewrite_laws sm" "pred_option (supported sm) x"
  shows "map_option (\<lambda>e. eval sm (snd (rewrite_expr_fast_paths e))) x = map_option (eval sm) x"
  using assms rewrite_eval(1) by (cases x) auto


text \<open>An interpretation that satisfies the laws, and a \<open>SELECT\<close> with all the rewritings.\<close>

definition example_sem :: sem where
  "example_sem =
     \<lparr>sm_leaf = (\<lambda>e. if e = Identifier (''xs'', None) then ArrayV [IntV 10, IntV 20] else if e = Identifier (''m'', None)
        then MapV [(StrV ''one'', IntV 1)] else StrV ''catalog''),
      sm_binary = (\<lambda>_ _ _. NullV), sm_distinct = (\<lambda>_ _ _. NullV), sm_unary = (\<lambda>_ _. NullV), sm_is = (\<lambda>_ _. NullV),
      sm_node = (\<lambda>_ _. NullV), sm_access = (\<lambda>_ _. NullV), sm_extract = (\<lambda>_ _. IntV 5), sm_like = (\<lambda>_ _ _ _ _. NullV),
      sm_text = (\<lambda>_. None), sm_equal = (=), sm_call = (\<lambda>sh _. if sh = call_shape EXTRACT_MINUTE_UDF 1 then IntV 5 else NullV)\<rparr>"

lemma call_shape_neq: "m \<noteq> n \<Longrightarrow> call_shape a m \<noteq> call_shape b n"
  using plain_call_shape [of a m a m] plain_call_shape [of b n a m] by auto

lemma example_laws: "rewrite_laws example_sem"
proof -
  have "sh \<noteq> call_shape EXTRACT_MINUTE_UDF 1" if "plain_shape sh ''regexp_replace'' 3" for sh
    using that by (auto simp: plain_call_shape)
  then show ?thesis
    using call_shape_neq [of 3 1 REGEXP_REPLACE_CAPTURE_UDF EXTRACT_MINUTE_UDF]
    by (simp add: rewrite_laws_def index_law_def minute_law_def capture_law_def example_sem_def)
qed

definition example_select :: select where
  "example_select =
     \<lparr>sel_projection =
        [UnnamedExpr (simple_call ''IF'' [Like False False (Identifier (''s'', None)) (single_quoted_string_expr ''%tal%'') None,
           simple_call ''get'' [Identifier (''xs'', None), number_expr ''1''],
           simple_call ''element_at'' [Identifier (''m'', None), single_quoted_string_expr ''one'']]),
         UnnamedExpr (Extract Minute ''FROM'' (Identifier (''t'', None)))],
      sel_selection = Some (Like True False (Identifier (''s'', None)) (single_quoted_string_expr ''%dog%'') None),
      sel_prewhere = None, sel_group_by = GroupByExpressions [] [], sel_cluster_by = [], sel_distribute_by = [],
      sel_sort_by = [], sel_having = None, sel_qualify = None, sel_rest = ''FROM t''\<rparr>"

lemma example_select_supported: "select_supported example_sem example_select"
  by code_simp

definition example_statement :: sql_statement where
  "example_statement = QueryStatement (Query None (SelectSet example_select) None [])"

definition example_options :: rewrite_options where
  "example_options = \<lparr>ro_count_star_alias = True, ro_expression_alias = False\<rparr>"

definition example_sql_fns :: sql_fns where
  "example_sql_fns =
     \<lparr>sf_expr = (\<lambda>_. ''e''), sf_function = (\<lambda>_. ''f''), sf_name = (\<lambda>_. ''n''), sf_arg = (\<lambda>_. ''a''), sf_literal = (\<lambda>_. ''l''),
      sf_binary = (\<lambda>_. ''b''), sf_unary = (\<lambda>_. ''u''),
      sf_statement = (\<lambda>s. if s = example_statement then ''original'' else ''rewritten''),
      sf_parse = (\<lambda>t. if t = ''original'' then Some [example_statement]
        else if t = ''rewritten'' then Some [QueryStatement (Query None (SelectSet (snd (rewrite_select_fast_paths
          \<lparr>sf_expr = (\<lambda>_. ''e''), sf_function = (\<lambda>_. ''f''), sf_name = (\<lambda>_. ''n''), sf_arg = (\<lambda>_. ''a''),
           sf_literal = (\<lambda>_. ''l''), sf_binary = (\<lambda>_. ''b''), sf_unary = (\<lambda>_. ''u''), sf_statement = (\<lambda>_. []),
           sf_parse = (\<lambda>_. None)\<rparr> example_options example_select))) None [])]
        else None)\<rparr>"


section \<open>The text that is planned\<close>


lemma other_text_kept: "(\<nexists>t. sf_parse sf sql = Some [t]) \<Longrightarrow> rewrite_sql_fast_paths_with_options sf options sql = sql"
  by (auto simp: rewrite_sql_fast_paths_with_options_def split: option.splits list.splits)

lemma example_rewritten:
  "snd (rewrite_statement_fast_paths example_sql_fns example_options example_statement) \<noteq> example_statement"
  "sf_parse example_sql_fns ''rewritten'' =
     Some [snd (rewrite_statement_fast_paths example_sql_fns example_options example_statement)]"
  by code_simp+


section \<open>Where the rewriting does not apply\<close>

text \<open>
  A pattern whose last percent sign is escaped is not a search for a substring:
  \<open>'100%' LIKE '%\%'\<close> holds, and the text does not contain a backslash.
\<close>

lemma escaped_like_changes:
  "eval example_sem (snd (rewrite_expr_fast_paths (Like False False (single_quoted_string_expr ''100%'')
     (single_quoted_string_expr [CHR ''%'', CHR 0x5C, CHR ''%'']) None))) = BoolV False"
  "eval example_sem (Like False False (single_quoted_string_expr ''100%'')
     (single_quoted_string_expr [CHR ''%'', CHR 0x5C, CHR ''%'']) None) = BoolV True"
  by code_simp+

text \<open>\<open>element_at\<close> on an array is rewritten as on a map.\<close>

lemma element_at_array_changes:
  defines "call \<equiv> simple_call ''element_at'' [Identifier (''xs'', None), number_expr ''1'']"
  shows "eval example_sem (snd (rewrite_expr_fast_paths call)) = NullV" "eval example_sem call = IntV 10"
proof -
  have "snd (rewrite_expr_fast_paths call) = databricks_element_at_map_expr (Identifier (''xs'', None)) (number_expr ''1'')"
    unfolding call_def by code_simp
  then show "eval example_sem (snd (rewrite_expr_fast_paths call)) = NullV"
    by (simp add: databricks_element_at_map_expr_def eval_array_element eval_map_extract eval_digits example_sem_def
        map_extract_value_def array_element_value_def)
  show "eval example_sem call = IntV 10"
    by (simp add: call_def eval_simple_call numeral_2_eq_2 [symmetric] call_rules eval_digits)
       (simp add: example_sem_def element_at_value_def array_element_value_def)
qed

end
