(* ===== verification/Information_Schema.thy ===== *)
theory Information_Schema
  imports Metadata
begin

text \<open>
  The system catalog (\<open>src/src/engine/information_schema.rs\<close>): the tables of
  \<open>information_schema\<close>, whose rows are listed from Unity Catalog when a query scans them, and
  the other schemas of the catalog \<open>system\<close>, which are described but cannot be read.

  The calls to Unity are the record \<open>unity_source\<close> of the answers during one scan. A
  \<open>ScalarValue\<close> is its type and its value, a row the list of its named scalars.
  \<open>ScalarValue::iter_to_array\<close> and \<open>RecordBatch::try_new\<close> are parameters. An
  \<open>i32\<close> addition wraps, as it does in the release profile.
\<close>

section \<open>Names and types\<close>

definition SYSTEM_CATALOG :: string where
  "SYSTEM_CATALOG = ''system''"

definition INFORMATION_SCHEMA :: string where
  "INFORMATION_SCHEMA = ''information_schema''"

definition info_schema_name :: "schema_info \<Rightarrow> string" where
  "info_schema_name schema =
     (if si_name schema \<noteq> [] then si_name schema
      else (case si_full_name schema of Some full_name \<Rightarrow> rsplit_last full_name | None \<Rightarrow> []))"

definition info_table_name :: "table_info \<Rightarrow> string" where
  "info_table_name table = (case ti_name table of Some name \<Rightarrow> name | None \<Rightarrow> rsplit_last (ti_full_name table))"

definition info_table_full_name :: "table_info \<Rightarrow> string \<Rightarrow> string \<Rightarrow> string \<Rightarrow> string" where
  "info_table_full_name table catalog schema name =
     (if ti_full_name table \<noteq> [] then ti_full_name table
      else catalog @ ''.'' @ schema @ ''.'' @ name)"

definition info_column_type_name :: "column_info \<Rightarrow> string" where
  "info_column_type_name column =
     (case (case ci_type_text column of Some t \<Rightarrow> Some t | None \<Rightarrow> ci_type_name column) of
        Some v \<Rightarrow> if v \<noteq> [] then to_ascii_uppercase v else ''STRING''
      | None \<Rightarrow> ''STRING'')"

definition info_base_type_name :: "string \<Rightarrow> string" where
  "info_base_type_name type_name = trim (takeWhile (\<lambda>c. c \<noteq> CHR ''('' \<and> c \<noteq> CHR ''<'') type_name)"

definition info_is_view_like :: "table_info \<Rightarrow> bool" where
  "info_is_view_like table =
     (case ti_table_type table of Some t \<Rightarrow> eq_ignore_ascii_case t ''VIEW'' | None \<Rightarrow> False)"

definition is_system_catalog :: "catalog_info \<Rightarrow> bool" where
  "is_system_catalog catalog \<longleftrightarrow>
     (case cat_catalog_type catalog of Some t \<Rightarrow> eq_ignore_ascii_case t ''SYSTEM_CATALOG'' | None \<Rightarrow> False) \<or>
     eq_ignore_ascii_case (cat_name catalog) SYSTEM_CATALOG"

definition arrow_type :: "column_info \<Rightarrow> data_type" where
  "arrow_type column =
     (let type_name = (case ci_type_text column of
            Some t \<Rightarrow> t
          | None \<Rightarrow> (case ci_type_name column of Some t \<Rightarrow> t | None \<Rightarrow> ''string''));
          b = to_ascii_uppercase (info_base_type_name type_name)
      in if b \<in> {''BOOLEAN'', ''BOOL''} then DtBoolean
         else if b \<in> {''BYTE'', ''TINYINT''} then DtInt8
         else if b \<in> {''SHORT'', ''SMALLINT''} then DtInt16
         else if b \<in> {''INT'', ''INTEGER''} then DtInt32
         else if b \<in> {''LONG'', ''BIGINT''} then DtInt64
         else if b = ''FLOAT'' then DtFloat32
         else if b = ''DOUBLE'' then DtFloat64
         else if b = ''DATE'' then DtDate32
         else if b \<in> {''TIMESTAMP'', ''TIMESTAMP_NTZ''} then DtTimestamp TuMillisecond None
         else DtUtf8)"

text \<open>The columns by position, columns without one last, and by index; the index is kept.\<close>

definition positioned :: "column_info list \<Rightarrow> (nat \<times> column_info) list" where
  "positioned columns =
     sort_key (\<lambda>(index, column). (case ci_position column of Some p \<Rightarrow> sint p | None \<Rightarrow> 2 ^ 31 - 1, index))
       (enumerate 0 columns)"

definition schema_from_columns :: "column_info list \<Rightarrow> arrow_field list" where
  "schema_from_columns columns =
     map (\<lambda>(_, column). \<lparr>fld_name = ci_name column, fld_type = arrow_type column,
        fld_nullable = (case ci_nullable column of Some b \<Rightarrow> b | None \<Rightarrow> True)\<rparr>) (positioned columns)"

section \<open>Rows\<close>

type_synonym system_scalar = "data_type \<times> arrow_value option"
type_synonym system_row = "(string \<times> system_scalar) list"

definition string_scalar :: "string \<Rightarrow> system_scalar" where
  "string_scalar v = (DtUtf8, Some (AvUtf8 v))"

definition nullable_string :: "string option \<Rightarrow> system_scalar" where
  "nullable_string v = (DtUtf8, map_option AvUtf8 v)"

definition null_string :: system_scalar where
  "null_string = (DtUtf8, None)"

definition timestamp_millis :: "i64 option \<Rightarrow> system_scalar" where
  "timestamp_millis v = (DtTimestamp TuMillisecond None, map_option AvTimestamp v)"

definition int32_scalar :: "i32 option \<Rightarrow> system_scalar" where
  "int32_scalar v = (DtInt32, map_option AvInt32 v)"

definition int64_null :: system_scalar where
  "int64_null = (DtInt64, None)"

definition null_scalar :: "data_type \<Rightarrow> system_scalar" where
  "null_scalar t =
     (if t \<in> {DtBoolean, DtInt8, DtInt16, DtInt32, DtInt64, DtFloat32, DtFloat64, DtDate32, DtTimestamp TuMillisecond None}
      then (t, None) else null_string)"

definition default_scalar :: "arrow_field \<Rightarrow> system_scalar" where
  "default_scalar field =
     (if fld_nullable field then null_scalar (fld_type field)
      else (case fld_type field of
          DtBoolean \<Rightarrow> (DtBoolean, Some (AvBoolean False))
        | DtInt8 \<Rightarrow> (DtInt8, Some (AvInt8 0))
        | DtInt16 \<Rightarrow> (DtInt16, Some (AvInt16 0))
        | DtInt32 \<Rightarrow> (DtInt32, Some (AvInt32 0))
        | DtInt64 \<Rightarrow> (DtInt64, Some (AvInt64 0))
        | DtFloat32 \<Rightarrow> (DtFloat32, Some (AvFloat32 0))
        | DtFloat64 \<Rightarrow> (DtFloat64, Some (AvFloat64 0))
        | DtDate32 \<Rightarrow> (DtDate32, Some (AvDate32 0))
        | DtTimestamp TuMillisecond None \<Rightarrow> timestamp_millis (Some 0)
        | _ \<Rightarrow> string_scalar []))"

text \<open>What a row has in a field of the table's schema.\<close>

definition row_cell :: "system_row \<Rightarrow> arrow_field \<Rightarrow> system_scalar" where
  "row_cell row field = (case map_of row (fld_name field) of Some v \<Rightarrow> v | None \<Rightarrow> default_scalar field)"

record array_fns =
  ar_iter_to_array :: "system_scalar list \<Rightarrow> harbor_error + arrow_array"
  ar_try_new :: "arrow_field list \<Rightarrow> arrow_array list \<Rightarrow> harbor_error + record_batch"

definition record_batch_from_rows :: "array_fns \<Rightarrow> arrow_field list \<Rightarrow> system_row list \<Rightarrow> record_batch res" where
  "record_batch_from_rows ar schema rows =
     sbind (if rows = [] then Inr (map (\<lambda>field. \<lparr>arr_type = fld_type field, arr_cells = []\<rparr>) schema)
            else collect_res (map (\<lambda>field. ar_iter_to_array ar (map (\<lambda>row. row_cell row field) rows)) schema)) (\<lambda>arrays.
       ar_try_new ar schema arrays)"

section \<open>Filters\<close>

text \<open>
  The expressions of DataFusion that a scan is given. Filters are pushed down as inexact: the
  engine applies them again to the rows of the scan.
\<close>

datatype df_literal = LitUtf8 "string option" | LitUtf8View "string option" | LitLargeUtf8 "string option" | LitOther string

datatype df_operator = OpAnd | OpEq | OpOther string

datatype df_expr =
    ExColumn "string option" string
  | ExLiteral df_literal
  | ExBinary df_expr df_operator df_expr
  | ExOther string

record metadata_filters =
  mf_catalogs :: "string set option"
  mf_schemas :: "string set option"
  mf_tables :: "string set option"
  mf_columns :: "string set option"

definition no_filters :: metadata_filters where
  "no_filters = \<lparr>mf_catalogs = None, mf_schemas = None, mf_tables = None, mf_columns = None\<rparr>"

definition string_literal :: "df_expr \<Rightarrow> string option" where
  "string_literal e =
     (case e of
        ExLiteral (LitUtf8 (Some v)) \<Rightarrow> Some v
      | ExLiteral (LitUtf8View (Some v)) \<Rightarrow> Some v
      | ExLiteral (LitLargeUtf8 (Some v)) \<Rightarrow> Some v
      | _ \<Rightarrow> None)"

definition equality_filter :: "df_expr \<Rightarrow> df_expr \<Rightarrow> (string \<times> string) option" where
  "equality_filter left right =
     (case left of ExColumn _ name \<Rightarrow> map_option (\<lambda>v. (name, v)) (string_literal right) | _ \<Rightarrow> None)"

definition insert_filter_value :: "string \<Rightarrow> string set option \<Rightarrow> string set option" where
  "insert_filter_value v filters =
     Some (insert (to_ascii_lowercase v) (case filters of Some s \<Rightarrow> s | None \<Rightarrow> {}))"

definition add_filter :: "string \<Rightarrow> string \<Rightarrow> metadata_filters \<Rightarrow> metadata_filters" where
  "add_filter column v filters =
     (let c = to_ascii_lowercase column in
      if c \<in> {''catalog_name'', ''table_catalog''} then filters\<lparr>mf_catalogs := insert_filter_value v (mf_catalogs filters)\<rparr>
      else if c \<in> {''schema_name'', ''table_schema''} then filters\<lparr>mf_schemas := insert_filter_value v (mf_schemas filters)\<rparr>
      else if c = ''table_name'' then filters\<lparr>mf_tables := insert_filter_value v (mf_tables filters)\<rparr>
      else if c = ''column_name'' then filters\<lparr>mf_columns := insert_filter_value v (mf_columns filters)\<rparr>
      else filters)"

fun collect_filter :: "df_expr \<Rightarrow> metadata_filters \<Rightarrow> metadata_filters" where
  "collect_filter (ExBinary left OpAnd right) filters = collect_filter right (collect_filter left filters)"
| "collect_filter (ExBinary left OpEq right) filters =
     (case equality_filter left right of
        Some (column, v) \<Rightarrow> add_filter column v filters
      | None \<Rightarrow>
          (case equality_filter right left of
             Some (column, v) \<Rightarrow> add_filter column v filters
           | None \<Rightarrow> filters))"
| "collect_filter _ filters = filters"

definition from_exprs :: "df_expr list \<Rightarrow> metadata_filters" where
  "from_exprs filters = fold collect_filter filters no_filters"

definition matches_filter :: "string set option \<Rightarrow> string \<Rightarrow> bool" where
  "matches_filter filters v = (case filters of None \<Rightarrow> True | Some s \<Rightarrow> to_ascii_lowercase v \<in> s)"

definition matches_catalog :: "metadata_filters \<Rightarrow> string \<Rightarrow> bool" where
  "matches_catalog filters catalog = matches_filter (mf_catalogs filters) catalog"

definition matches_schema :: "metadata_filters \<Rightarrow> string \<Rightarrow> bool" where
  "matches_schema filters schema = matches_filter (mf_schemas filters) schema"

definition matches_table :: "metadata_filters \<Rightarrow> string \<Rightarrow> bool" where
  "matches_table filters table = matches_filter (mf_tables filters) table"

definition matches_column :: "metadata_filters \<Rightarrow> string \<Rightarrow> bool" where
  "matches_column filters column = matches_filter (mf_columns filters) column"

section \<open>Sorting\<close>

text \<open>\<open>format!("{value:0w$}")\<close>: zeros between the sign and the digits, up to the width.\<close>

definition zero_padded :: "nat \<Rightarrow> int \<Rightarrow> string" where
  "zero_padded width v =
     (if v < 0 then CHR ''-'' # replicate (width - 1 - length (show_nat (nat (- v)))) CHR ''0'' @ show_nat (nat (- v))
      else replicate (width - length (show_nat (nat v))) CHR ''0'' @ show_nat (nat v))"

definition scalar_sort_key :: "system_scalar option \<Rightarrow> string" where
  "scalar_sort_key s =
     (case s of
        Some (_, Some (AvUtf8 v)) \<Rightarrow> to_ascii_lowercase v
      | Some (_, Some (AvInt32 v)) \<Rightarrow> zero_padded 10 (sint v)
      | Some (_, Some (AvInt64 v)) \<Rightarrow> zero_padded 20 (sint v)
      | _ \<Rightarrow> [])"

definition sort_rows :: "string list \<Rightarrow> system_row list \<Rightarrow> system_row list" where
  "sort_rows columns rows = sort_key (\<lambda>row. map (\<lambda>column. scalar_sort_key (map_of row column)) columns) rows"

section \<open>The relations\<close>

record unity_source = metadata_source +
  us_table_details :: "string \<Rightarrow> string \<Rightarrow> json res"

datatype information_schema_relation =
  RelCatalogs | RelSchemata | RelTables | RelColumns | RelViews | RelRowFilters | RelEmpty

datatype system_table_mode = InformationSchemaTable information_schema_relation | DatabricksSystemTable

record system_table =
  st_table :: table_info
  st_mode :: system_table_mode
  st_scope :: "string option"
  st_schema :: "arrow_field list"

definition information_schema_relation_of :: "string \<Rightarrow> information_schema_relation" where
  "information_schema_relation_of name =
     (let n = to_ascii_lowercase name in
      if n = ''catalogs'' then RelCatalogs
      else if n = ''schemata'' then RelSchemata
      else if n = ''tables'' then RelTables
      else if n = ''columns'' then RelColumns
      else if n = ''views'' then RelViews
      else if n = ''row_filters'' then RelRowFilters
      else RelEmpty)"

text \<open>A loop that collects rows and stops at the first error.\<close>

definition for_rows :: "('a \<Rightarrow> 'b list res) \<Rightarrow> 'a list \<Rightarrow> 'b list res" where
  "for_rows f xs = sbind (collect_res (map f xs)) (\<lambda>rows. Inr (concat rows))"

definition scoped_catalogs ::
  "('x unity_source_scheme) \<Rightarrow> string \<Rightarrow> string option \<Rightarrow> metadata_filters \<Rightarrow> catalog_info list res" where
  "scoped_catalogs src token scope filters =
     (case scope of
        Some catalog \<Rightarrow>
          Inr (if matches_catalog filters catalog then [\<lparr>cat_name = catalog, cat_catalog_type = None\<rparr>] else [])
      | None \<Rightarrow>
          sbind (ms_list_catalogs src token) (\<lambda>catalogs.
            Inr (filter (\<lambda>catalog. matches_catalog filters (cat_name catalog)) catalogs)))"

definition filtered_schemas ::
  "('x unity_source_scheme) \<Rightarrow> string \<Rightarrow> string \<Rightarrow> metadata_filters \<Rightarrow> schema_info list res" where
  "filtered_schemas src token catalog filters =
     sbind (ms_list_schemas src token catalog) (\<lambda>schemas.
       Inr (filter (\<lambda>schema. matches_schema filters (info_schema_name schema)) schemas))"

definition catalogs_for_catalog_rows ::
  "('x unity_source_scheme) \<Rightarrow> string \<Rightarrow> string option \<Rightarrow> metadata_filters \<Rightarrow> catalog_info list res" where
  "catalogs_for_catalog_rows src token scope filters =
     sbind (ms_list_catalogs src token) (\<lambda>catalogs.
       Inr (case scope of
          Some catalog_scope \<Rightarrow>
            filter (\<lambda>catalog. matches_catalog filters (cat_name catalog))
              (filter (\<lambda>catalog. eq_ignore_ascii_case (cat_name catalog) catalog_scope) catalogs)
        | None \<Rightarrow> filter (\<lambda>catalog. matches_catalog filters (cat_name catalog)) catalogs))"

definition catalog_row :: "catalog_info \<Rightarrow> system_row" where
  "catalog_row catalog =
     [(''catalog_name'', string_scalar (cat_name catalog)),
      (''catalog_owner'', string_scalar (if is_system_catalog catalog then ''System user'' else [])),
      (''comment'', null_string),
      (''created'', timestamp_millis (Some 0)),
      (''created_by'', string_scalar []),
      (''last_altered'', timestamp_millis (Some 0)),
      (''last_altered_by'', string_scalar [])]"

definition catalog_rows ::
  "('x unity_source_scheme) \<Rightarrow> string \<Rightarrow> string option \<Rightarrow> metadata_filters \<Rightarrow> system_row list res" where
  "catalog_rows src token scope filters =
     sbind (catalogs_for_catalog_rows src token scope filters) (\<lambda>catalogs. Inr (map catalog_row catalogs))"

definition schemata_row :: "string \<Rightarrow> string \<Rightarrow> system_row" where
  "schemata_row catalog schema =
     [(''catalog_name'', string_scalar catalog),
      (''schema_name'', string_scalar schema),
      (''schema_owner'', string_scalar []),
      (''comment'', null_string),
      (''created'', timestamp_millis (Some 0)),
      (''created_by'', string_scalar []),
      (''last_altered'', timestamp_millis (Some 0)),
      (''last_altered_by'', string_scalar [])]"

definition schemata_rows ::
  "('x unity_source_scheme) \<Rightarrow> string \<Rightarrow> string option \<Rightarrow> metadata_filters \<Rightarrow> system_row list res" where
  "schemata_rows src token scope filters =
     sbind (scoped_catalogs src token scope filters) (for_rows (\<lambda>catalog.
       sbind (filtered_schemas src token (cat_name catalog) filters) (\<lambda>schemas.
         Inr (map (\<lambda>schema. schemata_row (cat_name catalog) (info_schema_name schema)) schemas))))"

definition info_table_row :: "string \<Rightarrow> string \<Rightarrow> string \<Rightarrow> table_info \<Rightarrow> system_row" where
  "info_table_row catalog schema name table =
     (let created_by = (case ti_created_by table of Some s \<Rightarrow> s | None \<Rightarrow> []) in
      [(''table_catalog'', string_scalar (case ti_catalog_name table of Some c \<Rightarrow> c | None \<Rightarrow> catalog)),
       (''table_schema'', string_scalar (case ti_schema_name table of Some s \<Rightarrow> s | None \<Rightarrow> schema)),
       (''table_name'', string_scalar (case ti_name table of Some n \<Rightarrow> n | None \<Rightarrow> name)),
       (''table_type'', string_scalar (case ti_table_type table of Some t \<Rightarrow> t | None \<Rightarrow> ''MANAGED'')),
       (''is_insertable_into'', string_scalar (if info_is_view_like table then ''NO'' else ''YES'')),
       (''commit_action'', string_scalar ''PRESERVE''),
       (''table_owner'', string_scalar (case ti_owner table of
            Some owner \<Rightarrow> owner
          | None \<Rightarrow> (case ti_created_by table of Some s \<Rightarrow> s | None \<Rightarrow> []))),
       (''comment'', nullable_string (ti_comment table)),
       (''created'', timestamp_millis (case ti_created_at table of Some t \<Rightarrow> Some t | None \<Rightarrow> Some 0)),
       (''created_by'', string_scalar created_by),
       (''last_altered'', timestamp_millis (case ti_updated_at table of
            Some t \<Rightarrow> Some t
          | None \<Rightarrow> (case ti_created_at table of Some t \<Rightarrow> Some t | None \<Rightarrow> Some 0))),
       (''last_altered_by'', string_scalar (case ti_updated_by table of Some s \<Rightarrow> s | None \<Rightarrow> created_by)),
       (''data_source_format'', string_scalar (case ti_data_source_format table of Some s \<Rightarrow> s | None \<Rightarrow> [])),
       (''storage_sub_directory'', null_string),
       (''storage_path'', nullable_string (ti_storage_location table))])"

text \<open>The loops over the tables of the catalogs and schemas; \<open>rows\<close> is the body for one table.\<close>

definition over_tables ::
  "('x unity_source_scheme) \<Rightarrow> string \<Rightarrow> string option \<Rightarrow> metadata_filters \<Rightarrow>
   (string \<Rightarrow> string \<Rightarrow> table_info \<Rightarrow> system_row list res) \<Rightarrow> system_row list res" where
  "over_tables src token scope filters body =
     sbind (scoped_catalogs src token scope filters) (for_rows (\<lambda>catalog.
       sbind (filtered_schemas src token (cat_name catalog) filters) (for_rows (\<lambda>schema.
         sbind (ms_list_tables src token (cat_name catalog) (info_schema_name schema)) (\<lambda>tables.
           for_rows (body (cat_name catalog) (info_schema_name schema))
             (filter (\<lambda>table. matches_table filters (info_table_name table)) tables))))))"

definition info_table_rows ::
  "('x unity_source_scheme) \<Rightarrow> string \<Rightarrow> string option \<Rightarrow> metadata_filters \<Rightarrow> system_row list res" where
  "info_table_rows src token scope filters =
     sbind (over_tables src token scope filters (\<lambda>catalog schema table.
         Inr [info_table_row catalog schema (info_table_name table) table])) (\<lambda>rows.
       Inr (sort_rows [''table_catalog'', ''table_schema'', ''table_name''] rows))"

definition info_column_row :: "table_info \<Rightarrow> string \<Rightarrow> string \<Rightarrow> string \<Rightarrow> nat \<Rightarrow> column_info \<Rightarrow> system_row" where
  "info_column_row table catalog schema name index column =
     (let type_name = info_column_type_name column in
      [(''table_catalog'', string_scalar (case ti_catalog_name table of Some c \<Rightarrow> c | None \<Rightarrow> catalog)),
       (''table_schema'', string_scalar (case ti_schema_name table of Some s \<Rightarrow> s | None \<Rightarrow> schema)),
       (''table_name'', string_scalar (case ti_name table of Some n \<Rightarrow> n | None \<Rightarrow> name)),
       (''column_name'', string_scalar (ci_name column)),
       (''ordinal_position'', int32_scalar (Some ((case ci_position column of Some p \<Rightarrow> p | None \<Rightarrow> of_nat index) + 1))),
       (''column_default'', null_string),
       (''is_nullable'', string_scalar (if (case ci_nullable column of Some b \<Rightarrow> b | None \<Rightarrow> True) then ''YES'' else ''NO'')),
       (''full_data_type'', string_scalar type_name),
       (''data_type'', string_scalar (to_ascii_uppercase (info_base_type_name type_name))),
       (''character_maximum_length'', int64_null),
       (''character_octet_length'', int64_null),
       (''numeric_precision'', int32_scalar None),
       (''numeric_precision_radix'', int32_scalar None),
       (''numeric_scale'', int32_scalar None),
       (''datetime_precision'', int32_scalar None),
       (''interval_type'', null_string),
       (''interval_precision'', int32_scalar None),
       (''maximum_cardinality'', int64_null),
       (''is_identity'', string_scalar ''NO''),
       (''identity_generation'', null_string),
       (''identity_start'', null_string),
       (''identity_increment'', null_string),
       (''identity_maximum'', null_string),
       (''identity_minimum'', null_string),
       (''identity_cycle'', null_string),
       (''is_generated'', string_scalar ''NEVER''),
       (''generation_expression'', null_string),
       (''is_system_time_period_start'', string_scalar ''NO''),
       (''is_system_time_period_end'', string_scalar ''NO''),
       (''system_time_period_timestamp_generation'', null_string),
       (''is_updatable'', string_scalar ''YES''),
       (''partition_index'', int32_scalar None),
       (''comment'', nullable_string (ci_comment column))])"

definition table_column_rows :: "table_info \<Rightarrow> string \<Rightarrow> string \<Rightarrow> string \<Rightarrow> metadata_filters \<Rightarrow> system_row list" where
  "table_column_rows table catalog schema name filters =
     map (\<lambda>(index, column). info_column_row table catalog schema name index column)
       (filter (\<lambda>(_, column). matches_column filters (ci_name column)) (positioned (ti_columns table)))"

definition info_column_rows ::
  "('x unity_source_scheme) \<Rightarrow> string \<Rightarrow> string option \<Rightarrow> metadata_filters \<Rightarrow> system_row list res" where
  "info_column_rows src token scope filters =
     sbind (over_tables src token scope filters (\<lambda>catalog schema table.
         let name = info_table_name table in
         sbind (ms_table src token (info_table_full_name table catalog schema name)) (\<lambda>detailed.
           Inr (table_column_rows detailed catalog schema name filters)))) (\<lambda>rows.
       Inr (sort_rows [''table_catalog'', ''table_schema'', ''table_name'', ''ordinal_position''] rows))"

definition view_row :: "string \<Rightarrow> string \<Rightarrow> string \<Rightarrow> system_row" where
  "view_row catalog schema name =
     [(''table_catalog'', string_scalar catalog),
      (''table_schema'', string_scalar schema),
      (''table_name'', string_scalar name),
      (''view_definition'', null_string),
      (''check_option'', string_scalar ''NONE''),
      (''is_updatable'', string_scalar ''NO''),
      (''is_insertable_into'', string_scalar ''NO''),
      (''sql_path'', null_string),
      (''is_materialized'', null_string)]"

definition view_rows ::
  "('x unity_source_scheme) \<Rightarrow> string \<Rightarrow> string option \<Rightarrow> metadata_filters \<Rightarrow> system_row list res" where
  "view_rows src token scope filters =
     sbind (over_tables src token scope filters (\<lambda>catalog schema table.
         Inr (if info_is_view_like table then [view_row catalog schema (info_table_name table)] else []))) (\<lambda>rows.
       Inr (sort_rows [''table_catalog'', ''table_schema'', ''table_name''] rows))"

definition row_filter_row :: "string \<Rightarrow> string \<Rightarrow> string \<Rightarrow> json \<Rightarrow> system_row list res" where
  "row_filter_row catalog schema name details =
     (let row_filter = json_index details ''row_filter'' in
      if row_filter = JNull then Inr []
      else case as_str (json_index row_filter ''function_name'') of
          None \<Rightarrow> Inl (Unity ''row filter missing function_name'')
        | Some function \<Rightarrow>
            (case as_array (json_index row_filter ''input_column_names'') of
               None \<Rightarrow> Inl (UnsupportedSql ''row filter argument format not supported'')
             | Some inputs \<Rightarrow>
                 Inr [[(''table_catalog'', string_scalar catalog),
                       (''table_schema'', string_scalar schema),
                       (''table_name'', string_scalar name),
                       (''filter_name'', string_scalar function),
                       (''target_columns'', string_scalar (join '',''
                          (map (\<lambda>v. case as_str v of Some s \<Rightarrow> s | None \<Rightarrow> []) inputs)))]]))"

definition row_filter_rows ::
  "('x unity_source_scheme) \<Rightarrow> string \<Rightarrow> string option \<Rightarrow> metadata_filters \<Rightarrow> system_row list res" where
  "row_filter_rows src token scope filters =
     over_tables src token scope filters (\<lambda>catalog schema table.
       let name = info_table_name table in
       sbind (us_table_details src token (info_table_full_name table catalog schema name))
         (row_filter_row catalog schema name))"

definition load_information_schema_rows ::
  "('x unity_source_scheme) \<Rightarrow> string \<Rightarrow> string option \<Rightarrow> information_schema_relation \<Rightarrow> metadata_filters \<Rightarrow> system_row list res" where
  "load_information_schema_rows src token scope relation filters =
     (case relation of
        RelCatalogs \<Rightarrow> catalog_rows src token scope filters
      | RelSchemata \<Rightarrow> schemata_rows src token scope filters
      | RelTables \<Rightarrow> info_table_rows src token scope filters
      | RelColumns \<Rightarrow> info_column_rows src token scope filters
      | RelViews \<Rightarrow> view_rows src token scope filters
      | RelRowFilters \<Rightarrow> row_filter_rows src token scope filters
      | RelEmpty \<Rightarrow> Inr [])"

definition load_rows ::
  "('x unity_source_scheme) \<Rightarrow> string \<Rightarrow> system_table \<Rightarrow> df_expr list \<Rightarrow> system_row list res" where
  "load_rows src token st filters =
     (case st_mode st of
        InformationSchemaTable relation \<Rightarrow>
          load_information_schema_rows src token (st_scope st) relation (from_exprs filters)
      | DatabricksSystemTable \<Rightarrow>
          Inl (UnsupportedSql (''Databricks system table '' @ ti_full_name (st_table st) @ '' uses '' @
            (case ti_data_source_format (st_table st) of Some f \<Rightarrow> f | None \<Rightarrow> ''Databricks-managed'') @
            '' storage and cannot be read until HarborSQL implements a system-table backend'')))"

text \<open>\<open>scan\<close>, up to the batch that is scanned in memory.\<close>

definition scan_batch ::
  "array_fns \<Rightarrow> ('x unity_source_scheme) \<Rightarrow> string \<Rightarrow> system_table \<Rightarrow> df_expr list \<Rightarrow> nat option \<Rightarrow> record_batch res" where
  "scan_batch ar src token st filters limit =
     sbind (if limit = Some 0 then Inr [] else load_rows src token st filters)
       (record_batch_from_rows ar (st_schema st))"

datatype filter_pushdown = Unsupported | Inexact | Exact

definition supports_filters_pushdown :: "df_expr list \<Rightarrow> filter_pushdown list" where
  "supports_filters_pushdown filters = map (\<lambda>_. Inexact) filters"

section \<open>Providers\<close>

datatype system_schema = InformationSchemaProvider "string option" | SystemSchemaProvider string

definition system_table_new :: "table_info \<Rightarrow> system_table_mode \<Rightarrow> string option \<Rightarrow> system_table" where
  "system_table_new table mode scope =
     \<lparr>st_table = table, st_mode = mode, st_scope = scope, st_schema = schema_from_columns (ti_columns table)\<rparr>"

definition system_catalog_schema :: "string \<Rightarrow> system_schema" where
  "system_catalog_schema name =
     (if eq_ignore_ascii_case name INFORMATION_SCHEMA then InformationSchemaProvider None else SystemSchemaProvider name)"

definition system_schema_table_names :: "system_schema \<Rightarrow> string list" where
  "system_schema_table_names provider =
     (case provider of
        InformationSchemaProvider _ \<Rightarrow> [''catalogs'', ''columns'', ''row_filters'', ''schemata'', ''tables'', ''views'']
      | SystemSchemaProvider _ \<Rightarrow> [])"

definition system_schema_table_exist :: "system_schema \<Rightarrow> string \<Rightarrow> bool" where
  "system_schema_table_exist provider name = (case provider of InformationSchemaProvider _ \<Rightarrow> True | SystemSchemaProvider _ \<Rightarrow> False)"

definition information_schema_table ::
  "('x unity_source_scheme) \<Rightarrow> string \<Rightarrow> string option \<Rightarrow> string \<Rightarrow> system_table res" where
  "information_schema_table src token scope name =
     sbind (ms_table src token (SYSTEM_CATALOG @ ''.'' @ INFORMATION_SCHEMA @ ''.'' @ name)) (\<lambda>table.
       Inr (system_table_new table (InformationSchemaTable (information_schema_relation_of name)) scope))"

definition databricks_system_table :: "('x unity_source_scheme) \<Rightarrow> string \<Rightarrow> string \<Rightarrow> string \<Rightarrow> system_table res" where
  "databricks_system_table src token schema name =
     sbind (ms_table src token (SYSTEM_CATALOG @ ''.'' @ schema @ ''.'' @ name)) (\<lambda>table.
       Inr (system_table_new table DatabricksSystemTable None))"

definition system_schema_table :: "('x unity_source_scheme) \<Rightarrow> string \<Rightarrow> system_schema \<Rightarrow> string \<Rightarrow> system_table res" where
  "system_schema_table src token provider name =
     (case provider of
        InformationSchemaProvider scope \<Rightarrow> information_schema_table src token scope name
      | SystemSchemaProvider schema \<Rightarrow> databricks_system_table src token schema name)"

end
