(* ===== verification/Observability.thy ===== *)
theory Observability
  imports Harbor_Error "HOL-Library.Product_Lexorder" "HOL-Library.List_Lexorder" "HOL-Library.Char_ord"
begin

text \<open>
  Metrics and what is logged of a statement (\<open>src/src/observability.rs\<close>): counters, gauges,
  timings and request statistics, their rendering in the text format of Prometheus, and the
  fingerprint of a statement.

  Counters and counts are \<open>u64\<close> and wrap, as they do in the release profile. Floating-point
  sums are a type \<open>'f\<close> with the operations of \<open>float_fns\<close>; SHA-256 and the redaction
  patterns are parameters. A \<open>BTreeMap\<close> is an association list that is read in key order.
\<close>

section \<open>Metrics\<close>

record 'f float_fns =
  ff_zero :: 'f
  ff_add :: "'f \<Rightarrow> 'f \<Rightarrow> 'f"
  ff_millis :: "nat \<Rightarrow> 'f"
  ff_display3 :: "'f \<Rightarrow> string"

record 'f request_stats =
  rq_count :: "64 word"
  rq_sum_ms :: 'f

type_synonym http_key = "string \<times> string \<times> nat"
type_synonym thrift_key = "string \<times> string"

record 'f metrics =
  mt_counters :: "(string \<times> 64 word) list"
  mt_gauges :: "(string \<times> 64 word) list"
  mt_timings :: "(string \<times> 'f request_stats) list"
  mt_http :: "(http_key \<times> 'f request_stats) list"
  mt_thrift :: "(thrift_key \<times> 'f request_stats) list"

definition metrics_default :: "'f metrics" where
  "metrics_default = \<lparr>mt_counters = [], mt_gauges = [], mt_timings = [], mt_http = [], mt_thrift = []\<rparr>"

definition stats_observe :: "'f float_fns \<Rightarrow> 'f \<Rightarrow> 'f request_stats \<Rightarrow> 'f request_stats" where
  "stats_observe ff duration_ms s = \<lparr>rq_count = rq_count s + 1, rq_sum_ms = ff_add ff (rq_sum_ms s) duration_ms\<rparr>"

text \<open>\<open>entry(key).or_default().observe(...)\<close>\<close>

definition observe_entry :: "'f float_fns \<Rightarrow> 'k \<Rightarrow> nat \<Rightarrow> ('k \<times> 'f request_stats) list \<Rightarrow> ('k \<times> 'f request_stats) list" where
  "observe_entry ff key duration m =
     AList.update key (stats_observe ff (ff_millis ff duration)
       (case map_of m key of Some s \<Rightarrow> s | None \<Rightarrow> \<lparr>rq_count = 0, rq_sum_ms = ff_zero ff\<rparr>)) m"

definition add_counter :: "string \<Rightarrow> 64 word \<Rightarrow> 'f metrics \<Rightarrow> 'f metrics" where
  "add_counter name v m =
     m\<lparr>mt_counters := AList.update name ((case map_of (mt_counters m) name of Some n \<Rightarrow> n | None \<Rightarrow> 0) + v) (mt_counters m)\<rparr>"

definition increment :: "string \<Rightarrow> 'f metrics \<Rightarrow> 'f metrics" where
  "increment name m = add_counter name 1 m"

definition set_gauge :: "string \<Rightarrow> 64 word \<Rightarrow> 'f metrics \<Rightarrow> 'f metrics" where
  "set_gauge name v m = m\<lparr>mt_gauges := AList.update name v (mt_gauges m)\<rparr>"

definition observe_duration :: "'f float_fns \<Rightarrow> string \<Rightarrow> nat \<Rightarrow> 'f metrics \<Rightarrow> 'f metrics" where
  "observe_duration ff stage duration m = m\<lparr>mt_timings := observe_entry ff stage duration (mt_timings m)\<rparr>"

definition observe_http :: "'f float_fns \<Rightarrow> string \<Rightarrow> string \<Rightarrow> nat \<Rightarrow> nat \<Rightarrow> 'f metrics \<Rightarrow> 'f metrics" where
  "observe_http ff meth route status duration m =
     m\<lparr>mt_http := observe_entry ff (meth, route, status) duration (mt_http m)\<rparr>"

definition observe_thrift :: "'f float_fns \<Rightarrow> string \<Rightarrow> string \<Rightarrow> nat \<Rightarrow> 'f metrics \<Rightarrow> 'f metrics" where
  "observe_thrift ff meth status duration m =
     m\<lparr>mt_thrift := observe_entry ff (meth, status) duration (mt_thrift m)\<rparr>"

section \<open>Rendering\<close>

definition escape_char :: "char \<Rightarrow> string" where
  "escape_char c =
     (if c = CHR 0x5C then [CHR 0x5C, CHR 0x5C]
      else if c = CHR 0x22 then [CHR 0x5C, CHR 0x22]
      else if c = CHR 0x0A then [CHR 0x5C, CHR ''n'']
      else [c])"

text \<open>
  The three replacements in turn: the first doubles the backslashes, and the others replace
  characters that it does not produce.
\<close>

definition replace_char :: "char \<Rightarrow> string \<Rightarrow> string \<Rightarrow> string" where
  "replace_char c by_text s = concat (map (\<lambda>x. if x = c then by_text else [x]) s)"

definition escape_label :: "string \<Rightarrow> string" where
  "escape_label v =
     replace_char (CHR 0x0A) [CHR 0x5C, CHR ''n'']
       (replace_char (CHR 0x22) [CHR 0x5C, CHR 0x22] (replace_char (CHR 0x5C) [CHR 0x5C, CHR 0x5C] v))"

definition line :: "string \<Rightarrow> string" where
  "line s = s @ [CHR 0x0A]"

definition write_help_type :: "string \<Rightarrow> string \<Rightarrow> string" where
  "write_help_type name metric_type =
     line (''# HELP '' @ name @ '' HarborSQL metric '' @ name) @ line (''# TYPE '' @ name @ '' '' @ metric_type)"

definition label :: "string \<Rightarrow> string \<Rightarrow> string" where
  "label name v = name @ ''='' @ [CHR 0x22] @ v @ [CHR 0x22]"

definition labelled :: "string \<Rightarrow> string list \<Rightarrow> string \<Rightarrow> string" where
  "labelled name labels v = line (name @ ''{'' @ join '','' labels @ ''} '' @ v)"

definition in_key_order :: "('k :: linorder \<times> 'v) list \<Rightarrow> ('k \<times> 'v) list" where
  "in_key_order m = sort_key fst m"

definition render_counters :: "(string \<times> 64 word) list \<Rightarrow> string" where
  "render_counters m =
     concat (map (\<lambda>(name, v). write_help_type name ''counter'' @ line (name @ '' '' @ show_nat (unat v))) (in_key_order m))"

definition render_gauges :: "(string \<times> 64 word) list \<Rightarrow> string" where
  "render_gauges m =
     concat (map (\<lambda>(name, v). write_help_type name ''gauge'' @ line (name @ '' '' @ show_int (sint v))) (in_key_order m))"

definition render_timings :: "'f float_fns \<Rightarrow> (string \<times> 'f request_stats) list \<Rightarrow> string" where
  "render_timings ff m =
     (if m = [] then []
      else line ''# HELP harborsql_stage_duration_ms Query-stage duration in milliseconds'' @
           line ''# TYPE harborsql_stage_duration_ms summary'') @
     concat (map (\<lambda>(stage, stats).
       let labels = [label ''stage'' (escape_label stage)] in
       labelled ''harborsql_stage_duration_ms_count'' labels (show_nat (unat (rq_count stats))) @
       labelled ''harborsql_stage_duration_ms_sum'' labels (ff_display3 ff (rq_sum_ms stats))) (in_key_order m))"

definition render_http :: "'f float_fns \<Rightarrow> (http_key \<times> 'f request_stats) list \<Rightarrow> string" where
  "render_http ff m =
     (if m = [] then []
      else line ''# HELP harborsql_http_requests_total HTTP requests by method, route, and status'' @
           line ''# TYPE harborsql_http_requests_total counter'' @
           line ''# HELP harborsql_http_request_duration_ms HTTP request duration in milliseconds'' @
           line ''# TYPE harborsql_http_request_duration_ms summary'') @
     concat (map (\<lambda>((meth, route, status), stats).
       let labels = [label ''method'' (escape_label meth), label ''route'' (escape_label route), label ''status'' (show_nat status)] in
       labelled ''harborsql_http_requests_total'' labels (show_nat (unat (rq_count stats))) @
       labelled ''harborsql_http_request_duration_ms_count'' labels (show_nat (unat (rq_count stats))) @
       labelled ''harborsql_http_request_duration_ms_sum'' labels (ff_display3 ff (rq_sum_ms stats))) (in_key_order m))"

definition render_thrift :: "'f float_fns \<Rightarrow> (thrift_key \<times> 'f request_stats) list \<Rightarrow> string" where
  "render_thrift ff m =
     (if m = [] then []
      else line ''# HELP harborsql_thrift_rpcs_total Thrift RPCs by method and status'' @
           line ''# TYPE harborsql_thrift_rpcs_total counter'' @
           line ''# HELP harborsql_thrift_rpc_duration_ms Thrift RPC duration in milliseconds'' @
           line ''# TYPE harborsql_thrift_rpc_duration_ms summary'') @
     concat (map (\<lambda>((meth, status), stats).
       let labels = [label ''method'' (escape_label meth), label ''status'' (escape_label status)] in
       labelled ''harborsql_thrift_rpcs_total'' labels (show_nat (unat (rq_count stats))) @
       labelled ''harborsql_thrift_rpc_duration_ms_count'' labels (show_nat (unat (rq_count stats))) @
       labelled ''harborsql_thrift_rpc_duration_ms_sum'' labels (ff_display3 ff (rq_sum_ms stats))) (in_key_order m))"

definition render_prometheus :: "'f float_fns \<Rightarrow> 'f metrics \<Rightarrow> string" where
  "render_prometheus ff m =
     render_counters (mt_counters m) @ render_gauges (mt_gauges m) @ render_timings ff (mt_timings m) @
     render_http ff (mt_http m) @ render_thrift ff (mt_thrift m)"

section \<open>What is logged of a statement\<close>

record sql_observation =
  so_hash :: string
  so_len :: nat
  so_text :: "string option"

definition hex_digit :: "nat \<Rightarrow> char" where
  "hex_digit n = (if n < 10 then char_of (48 + n) else char_of (87 + n))"

definition hex2 :: "u8 \<Rightarrow> string" where
  "hex2 b = [hex_digit (unat b div 16), hex_digit (unat b mod 16)]"

definition stable_hash :: "(bytes \<Rightarrow> bytes) \<Rightarrow> string \<Rightarrow> string" where
  "stable_hash sha256 v = concat (map hex2 (take 8 (sha256 (str_bytes v))))"

definition sql_observation_of :: "(bytes \<Rightarrow> bytes) \<Rightarrow> (string \<Rightarrow> string) \<Rightarrow> bool \<Rightarrow> string \<Rightarrow> sql_observation" where
  "sql_observation_of sha256 redact unsafe_log_sql sql =
     \<lparr>so_hash = stable_hash sha256 sql, so_len = length sql,
      so_text = (if unsafe_log_sql then Some (redact sql) else None)\<rparr>"

section \<open>Properties\<close>

lemma escape_label_chars: "escape_label v = concat (map escape_char v)"
  by (induction v) (simp_all add: escape_label_def replace_char_def escape_char_def)

text \<open>A label value is read back, so labels cannot be forged by what they are made of.\<close>

fun unescape_label :: "string \<Rightarrow> (string \<times> string) option" where
  "unescape_label [] = None"
| "unescape_label (c # cs) =
     (if c = CHR 0x22 then Some ([], cs)
      else if c = CHR 0x0A then None
      else if c = CHR 0x5C then
        (case cs of
           [] \<Rightarrow> None
         | d # ds \<Rightarrow>
             map_option (map_prod (\<lambda>s. (if d = CHR ''n'' then CHR 0x0A else d) # s) id) (unescape_label ds))
      else map_option (map_prod (\<lambda>s. c # s) id) (unescape_label cs))"

lemma unescape_escape: "unescape_label (escape_label v @ CHR 0x22 # rest) = Some (v, rest)"
  unfolding escape_label_chars by (induction v) (auto simp: escape_char_def)

text \<open>The operations of the service, in the order in which they take the locks.\<close>

datatype metric_op =
    AddCounter string "64 word"
  | SetGauge string "64 word"
  | ObserveDuration string nat
  | ObserveHttp string string nat nat
  | ObserveThrift string string nat

fun apply_op :: "'f float_fns \<Rightarrow> metric_op \<Rightarrow> 'f metrics \<Rightarrow> 'f metrics" where
  "apply_op ff (AddCounter name v) m = add_counter name v m"
| "apply_op ff (SetGauge name v) m = set_gauge name v m"
| "apply_op ff (ObserveDuration stage d) m = observe_duration ff stage d m"
| "apply_op ff (ObserveHttp meth route status d) m = observe_http ff meth route status d m"
| "apply_op ff (ObserveThrift meth status d) m = observe_thrift ff meth status d m"

definition added :: "string \<Rightarrow> metric_op \<Rightarrow> 64 word option" where
  "added name q = (case q of AddCounter n v \<Rightarrow> if n = name then Some v else None | _ \<Rightarrow> None)"

definition is_http :: "http_key \<Rightarrow> metric_op \<Rightarrow> bool" where
  "is_http key q = (case q of ObserveHttp meth route status _ \<Rightarrow> key = (meth, route, status) | _ \<Rightarrow> False)"

lemma map_of_observe_entry:
  "map_option rq_count (map_of (observe_entry ff k d m) key) =
     (if k = key then Some ((case map_of m key of Some s \<Rightarrow> rq_count s | None \<Rightarrow> 0) + 1) else map_option rq_count (map_of m key))"
  by (auto simp: observe_entry_def update_conv stats_observe_def split: option.splits)

lemmas metric_ops = add_counter_def set_gauge_def observe_duration_def observe_http_def observe_thrift_def

lemma counters_after:
  "map_of (mt_counters (fold (apply_op ff) ops metrics_default)) name =
     (case List.map_filter (added name) ops of [] \<Rightarrow> None | v # vs \<Rightarrow> Some (sum_list (v # vs)))"
proof (induction ops rule: rev_induct)
  case Nil
  then show ?case by (simp add: metrics_default_def List.map_filter_def)
next
  case (snoc q ops)
  then show ?case
    by (cases q) (auto simp: metric_ops update_conv List.map_filter_def added_def split: list.splits)
qed

lemma http_after:
  "map_option rq_count (map_of (mt_http (fold (apply_op ff) ops metrics_default)) key) =
     (case filter (is_http key) ops of [] \<Rightarrow> None | q # qs \<Rightarrow> Some (of_nat (length (q # qs))))"
proof (induction ops rule: rev_induct)
  case Nil
  then show ?case by (simp add: metrics_default_def)
next
  case (snoc q ops)
  then show ?case
    by (cases q) (auto simp: metric_ops map_of_observe_entry is_http_def split: list.splits option.splits)
qed

lemma sublist_concat_map: "x \<in> set xs \<Longrightarrow> sublist (f x) (concat (map f xs))"
  by (auto dest!: split_list simp: sublist_def) blast

lemma sublist_appendI: "sublist s a \<Longrightarrow> sublist s (a @ b)" "sublist s b \<Longrightarrow> sublist s (a @ b)"
  unfolding sublist_def by (metis append.assoc)+

lemma counter_rendered:
  assumes "map_of (mt_counters m) name = Some v"
  shows "sublist (line (name @ '' '' @ show_nat (unat v))) (render_prometheus ff m)"
proof -
  have "(name, v) \<in> set (in_key_order (mt_counters m))" using assms by (simp add: in_key_order_def map_of_SomeD)
  from sublist_concat_map [OF this, of "\<lambda>(name, v). write_help_type name ''counter'' @ line (name @ '' '' @ show_nat (unat v))"]
  have "sublist (write_help_type name ''counter'' @ line (name @ '' '' @ show_nat (unat v))) (render_counters (mt_counters m))"
    by (simp add: render_counters_def)
  moreover have "sublist (line (name @ '' '' @ show_nat (unat v))) (write_help_type name ''counter'' @ line (name @ '' '' @ show_nat (unat v)))"
    by (intro sublist_appendI(2)) simp
  ultimately show ?thesis
    unfolding render_prometheus_def by (intro sublist_appendI(1)) (rule sublist_order.order.trans)
qed

definition http_total_line :: "http_key \<Rightarrow> 64 word \<Rightarrow> string" where
  "http_total_line key n =
     (case key of (meth, route, status) \<Rightarrow>
        labelled ''harborsql_http_requests_total''
          [label ''method'' (escape_label meth), label ''route'' (escape_label route), label ''status'' (show_nat status)]
          (show_nat (unat n)))"

lemma http_rendered:
  assumes "map_of (mt_http m) key = Some stats"
  shows "sublist (http_total_line key (rq_count stats)) (render_prometheus ff m)"
proof -
  obtain meth route status where key: "key = (meth, route, status)" by (cases key)
  let ?f = "\<lambda>((meth, route, status), stats).
       let labels = [label ''method'' (escape_label meth), label ''route'' (escape_label route), label ''status'' (show_nat status)] in
       labelled ''harborsql_http_requests_total'' labels (show_nat (unat (rq_count stats))) @
       labelled ''harborsql_http_request_duration_ms_count'' labels (show_nat (unat (rq_count stats))) @
       labelled ''harborsql_http_request_duration_ms_sum'' labels (ff_display3 ff (rq_sum_ms stats))"
  have "(key, stats) \<in> set (in_key_order (mt_http m))" using assms by (simp add: in_key_order_def map_of_SomeD)
  from sublist_concat_map [OF this, of ?f]
  have "sublist (?f (key, stats)) (render_http ff (mt_http m))"
    unfolding render_http_def by (rule sublist_appendI(2))
  moreover have "sublist (http_total_line key (rq_count stats)) (?f (key, stats))"
    by (simp add: key http_total_line_def Let_def sublist_appendI)
  ultimately have "sublist (http_total_line key (rq_count stats)) (render_http ff (mt_http m))"
    by (meson sublist_order.order.trans)
  then show ?thesis
    unfolding render_prometheus_def by (intro sublist_appendI(2) sublist_appendI(1))
qed


definition example_floats :: "nat float_fns" where
  "example_floats = \<lparr>ff_zero = 0, ff_add = (+), ff_millis = (\<lambda>d. d div 1000000), ff_display3 = (\<lambda>n. show_nat n @ ''.000'')\<rparr>"

definition example_ops :: "metric_op list" where
  "example_ops = [AddCounter ''q'' 1, ObserveHttp ''GET'' ''/healthz'' 204 5, AddCounter ''q'' 2]"


end
