(* ===== verification/Catalog_Provider.thy ===== *)
theory Catalog_Provider
  imports Engine Information_Schema Table_Cache Observability
begin

text \<open>
  The catalog that DataFusion plans against (\<open>src/src/engine/catalog.rs\<close>): for one statement a
  list of catalogs, their schemas and the tables that were found, all created on first use, and
  the loading of a table: its description and read credentials from Unity, then the Delta table.
  Loading is a program of requests; it runs inside \<open>TableCache::get_or_load\<close>, whose model is
  \<open>Table_Cache\<close>.

  A provider is shared by reference and reached by its names only, so the state of one statement
  holds each provider at its place. Opening a Delta table, its store and its provider are the
  answers of the environment; stores and providers are the identities of their \<open>Arc\<close>s.
\<close>

section \<open>Loading a table\<close>

datatype catalog_request =
    LookupTable string string
  | ReadCredentials string string
  | ReadClock
  | OpenDelta string storage_opts
  | TableProvider nat

datatype catalog_answer =
    InfoAnswer "table_info res"
  | ReadCredentialsAnswer "temporary_table_credentials res"
  | ClockAnswer int instant
  | OpenedAnswer "string + nat"
  | ProviderAnswer "string + nat"

type_synonym 'a catalog_prog = "(catalog_request, catalog_answer, 'a res) effect_prog"

record opener_fns =
  of_url :: url_fns
  of_root_object_store :: "nat \<Rightarrow> nat"

definition ensure_delta_table :: "table_info \<Rightarrow> unit res" where
  "ensure_delta_table table =
     (if (case ti_data_source_format table of Some format \<Rightarrow> eq_ignore_ascii_case format ''DELTA'' | None \<Rightarrow> False) \<and>
         ti_storage_location table \<noteq> None
      then Inr ()
      else Inl (UnsupportedSql (''table '' @ ti_full_name table @ '' is not an externally readable Delta table'')))"

text \<open>\<open>DeltaTableOpener::open\<close>; the table is numbered by the environment.\<close>

definition open_delta_table ::
  "opener_fns \<Rightarrow> temporary_table_credentials \<Rightarrow> string \<Rightarrow> instant \<Rightarrow> cached_table catalog_prog" where
  "open_delta_table op credentials aws_region credential_expires_at =
     or_return (map_sum Url (\<lambda>u. u) (uf_parse (of_url op) (tc_url credentials))) (\<lambda>url.
     Ask (OpenDelta url (storage_options credentials aws_region)) (\<lambda>r. case r of
         OpenedAnswer (Inl e) \<Rightarrow> Return (Inl (Delta e))
       | OpenedAnswer (Inr delta) \<Rightarrow>
           or_return (table_object_store_route (of_url op) (tc_url credentials)) (\<lambda>(object_store_url, object_prefix).
           Ask (TableProvider delta) (\<lambda>a. case a of
               ProviderAnswer (Inl e) \<Rightarrow> Return (Inl (Delta e))
             | ProviderAnswer (Inr provider) \<Rightarrow>
                 Return (Inr \<lparr>ct_provider = provider, ct_object_store_url = object_store_url, ct_object_prefix = object_prefix,
                   ct_object_store = of_root_object_store op delta, ct_expires_at = credential_expires_at\<rparr>)
             | _ \<Rightarrow> Stuck))
       | _ \<Rightarrow> Stuck))"

definition load_cached_table :: "opener_fns \<Rightarrow> config \<Rightarrow> string \<Rightarrow> string \<Rightarrow> cached_table catalog_prog" where
  "load_cached_table op cfg bearer_token full_name =
     Ask (LookupTable bearer_token full_name) (\<lambda>r. case r of
       InfoAnswer info \<Rightarrow>
         or_return info (\<lambda>table.
         or_return (ensure_delta_table table) (\<lambda>_.
         or_return (case ti_table_id table of
             Some table_id \<Rightarrow> Inr table_id
           | None \<Rightarrow> Inl (Unity ''Unity Catalog table response omitted table_id'')) (\<lambda>table_id.
         Ask (ReadCredentials bearer_token table_id) (\<lambda>r. case r of
           ReadCredentialsAnswer answer \<Rightarrow>
             or_return answer (\<lambda>credentials.
             Ask ReadClock (\<lambda>r. case r of
               ClockAnswer now_system now_instant \<Rightarrow>
                 open_delta_table op credentials (cf_aws_region cfg)
                   (expires_at_from_unity_expiration_ms_at (tc_expiration_time credentials)
                      (cf_table_cache_credential_expiry_skew cfg) now_system now_instant)
             | _ \<Rightarrow> Stuck))
         | _ \<Rightarrow> Stuck))))
     | _ \<Rightarrow> Stuck)"

section \<open>The Unity client behind the catalog\<close>

definition write_credentials ::
  "http_fns \<Rightarrow> unity_client \<Rightarrow> string \<Rightarrow> string \<Rightarrow> temporary_table_credentials res" where
  "write_credentials hf client token table_id = table_credentials hf client token table_id ''READ_WRITE''"

text \<open>Every call is timed and counted by its outcome; the result passes through.\<close>

definition observe_unity_call :: "'f float_fns \<Rightarrow> string \<Rightarrow> nat \<Rightarrow> 'a res \<Rightarrow> 'f metrics \<Rightarrow> 'f metrics" where
  "observe_unity_call ff stage duration result m =
     (let m = observe_duration ff stage duration m in
      case result of
        Inr _ \<Rightarrow> increment ''harborsql_unity_requests_succeeded_total'' m
      | Inl _ \<Rightarrow> increment ''harborsql_unity_requests_failed_total'' m)"

text \<open>
  The trait \<open>UnityCatalog\<close> as the client implements it, with the time a call took; a listing that
  does not end is \<open>None\<close>, as in the client itself.
\<close>

definition observed :: "'f float_fns \<Rightarrow> string \<Rightarrow> nat \<Rightarrow> 'f metrics \<Rightarrow> 'a res \<Rightarrow> 'a res \<times> 'f metrics" where
  "observed ff stage duration m result = (result, observe_unity_call ff stage duration result m)"

definition client_catalogs ::
  "http_fns \<Rightarrow> unity_client \<Rightarrow> 'f float_fns \<Rightarrow> nat \<Rightarrow> 'f metrics \<Rightarrow> string \<Rightarrow> (catalog_info list res \<times> 'f metrics) option" where
  "client_catalogs hf client ff duration m bearer_token =
     map_option (observed ff ''unity_catalogs'' duration m) (unity_catalogs hf client bearer_token)"

definition client_schemas ::
  "http_fns \<Rightarrow> unity_client \<Rightarrow> 'f float_fns \<Rightarrow> nat \<Rightarrow> 'f metrics \<Rightarrow> string \<Rightarrow> string \<Rightarrow> (schema_info list res \<times> 'f metrics) option" where
  "client_schemas hf client ff duration m bearer_token catalog_name =
     map_option (observed ff ''unity_schemas'' duration m) (unity_schemas hf client bearer_token catalog_name)"

definition client_tables ::
  "http_fns \<Rightarrow> unity_client \<Rightarrow> 'f float_fns \<Rightarrow> nat \<Rightarrow> 'f metrics \<Rightarrow> string \<Rightarrow> string \<Rightarrow> string \<Rightarrow>
   (table_info list res \<times> 'f metrics) option" where
  "client_tables hf client ff duration m bearer_token catalog schema =
     map_option (observed ff ''unity_tables'' duration m) (unity_tables hf client bearer_token catalog schema)"

definition client_table ::
  "http_fns \<Rightarrow> unity_client \<Rightarrow> 'f float_fns \<Rightarrow> nat \<Rightarrow> 'f metrics \<Rightarrow> string \<Rightarrow> string \<Rightarrow> table_info res \<times> 'f metrics" where
  "client_table hf client ff duration m bearer_token full_name =
     observed ff ''unity_table'' duration m (unity_table hf client bearer_token full_name)"

definition client_credentials ::
  "http_fns \<Rightarrow> unity_client \<Rightarrow> 'f float_fns \<Rightarrow> nat \<Rightarrow> 'f metrics \<Rightarrow> string \<Rightarrow> string \<Rightarrow>
   temporary_table_credentials res \<times> 'f metrics" where
  "client_credentials hf client ff duration m bearer_token table_id =
     observed ff ''unity_credentials'' duration m (temporary_table_creds hf client bearer_token table_id)"

definition observe_delta_open :: "'f float_fns \<Rightarrow> nat \<Rightarrow> cached_table res \<Rightarrow> 'f metrics \<Rightarrow> cached_table res \<times> 'f metrics" where
  "observe_delta_open ff duration result m =
     (result,
      let m = observe_duration ff ''delta_open'' duration m in
      case result of
        Inr _ \<Rightarrow> increment ''harborsql_delta_open_succeeded_total'' m
      | Inl _ \<Rightarrow> increment ''harborsql_delta_open_failed_total'' m)"

section \<open>Providers\<close>

record unity_schema_provider =
  us_catalog_name :: string
  us_schema_name :: string
  us_known_tables :: "string set"

datatype schema_provider = SystemSchema system_schema | UnitySchema unity_schema_provider

datatype catalog_provider =
    SystemCatalogProvider
  | UnityCatalogProvider string "(string \<times> unity_schema_provider) list"

record catalog_state =
  cs_catalogs :: "(string \<times> catalog_provider) list"
  cs_routes :: route_registry

definition provider_list_new :: catalog_state where
  "provider_list_new = \<lparr>cs_catalogs = [], cs_routes = registry_new\<rparr>"

definition register_catalog :: "string \<Rightarrow> catalog_provider \<Rightarrow> catalog_state \<Rightarrow> catalog_provider option \<times> catalog_state" where
  "register_catalog name catalog st =
     (map_of (cs_catalogs st) name, st\<lparr>cs_catalogs := AList.update name catalog (cs_catalogs st)\<rparr>)"

definition catalog_names :: "catalog_state \<Rightarrow> string list" where
  "catalog_names st = map fst (cs_catalogs st)"

definition provider_for :: "string \<Rightarrow> catalog_provider" where
  "provider_for name =
     (if eq_ignore_ascii_case name ''system'' then SystemCatalogProvider else UnityCatalogProvider name [])"

definition catalog_of :: "string \<Rightarrow> catalog_state \<Rightarrow> catalog_provider \<times> catalog_state" where
  "catalog_of name st =
     (case map_of (cs_catalogs st) name of
        Some catalog \<Rightarrow> (catalog, st)
      | None \<Rightarrow> (provider_for name, st\<lparr>cs_catalogs := AList.update name (provider_for name) (cs_catalogs st)\<rparr>))"

definition schema_names :: "catalog_provider \<Rightarrow> string list" where
  "schema_names catalog =
     (case catalog of
        SystemCatalogProvider \<Rightarrow> [INFORMATION_SCHEMA]
      | UnityCatalogProvider _ schemas \<Rightarrow> map fst schemas)"

text \<open>The schema, and the catalog with the schema it may have created.\<close>

definition schema_of :: "string \<Rightarrow> catalog_provider \<Rightarrow> schema_provider \<times> catalog_provider" where
  "schema_of name catalog =
     (case catalog of
        SystemCatalogProvider \<Rightarrow> (SystemSchema (system_catalog_schema name), catalog)
      | UnityCatalogProvider catalog_name schemas \<Rightarrow>
          if eq_ignore_ascii_case name ''information_schema''
          then (SystemSchema (InformationSchemaProvider (Some catalog_name)), catalog)
          else (case map_of schemas name of
              Some schema \<Rightarrow> (UnitySchema schema, catalog)
            | None \<Rightarrow>
                (let schema = \<lparr>us_catalog_name = catalog_name, us_schema_name = name, us_known_tables = {}\<rparr>
                 in (UnitySchema schema, UnityCatalogProvider catalog_name (AList.update name schema schemas)))))"

definition full_table_name :: "unity_schema_provider \<Rightarrow> string \<Rightarrow> string" where
  "full_table_name schema name = us_catalog_name schema @ ''.'' @ us_schema_name schema @ ''.'' @ name"

definition table_exist :: "unity_schema_provider \<Rightarrow> string \<Rightarrow> bool" where
  "table_exist schema name \<longleftrightarrow> name \<in> us_known_tables schema"

text \<open>
  A lookup of DataFusion: the catalog, then the schema, then the table. For a schema of Unity
  this is the key of the request to the cache; the second part, with the cached table, records
  the table's store and the name.
\<close>

definition resolve_schema_provider :: "string \<Rightarrow> string \<Rightarrow> catalog_state \<Rightarrow> schema_provider \<times> catalog_state" where
  "resolve_schema_provider catalog schema st =
     (let (provider, st) = catalog_of catalog st;
          (found, provider) = schema_of schema provider
      in (found, st\<lparr>cs_catalogs := AList.update catalog provider (cs_catalogs st)\<rparr>))"

definition schema_table_key ::
  "(bytes \<Rightarrow> string \<Rightarrow> bytes) \<Rightarrow> cache_config \<Rightarrow> config \<Rightarrow> string \<Rightarrow> unity_schema_provider \<Rightarrow> string \<Rightarrow> cache_key" where
  "schema_table_key hmac ccfg cfg bearer_token schema name =
     make_cache_key hmac ccfg bearer_token (full_table_name schema name) (cf_aws_region cfg)"

definition known_table :: "string \<Rightarrow> string \<Rightarrow> catalog_provider \<Rightarrow> catalog_provider" where
  "known_table schema name catalog =
     (case catalog of
        SystemCatalogProvider \<Rightarrow> catalog
      | UnityCatalogProvider catalog_name schemas \<Rightarrow>
          (case map_of schemas schema of
             Some provider \<Rightarrow>
               UnityCatalogProvider catalog_name (AList.update schema
                 (provider\<lparr>us_known_tables := insert name (us_known_tables provider)\<rparr>) schemas)
           | None \<Rightarrow> catalog))"

definition schema_table_found ::
  "unity_schema_provider \<Rightarrow> string \<Rightarrow> cached_table res \<Rightarrow> catalog_state \<Rightarrow> nat option res \<times> catalog_state" where
  "schema_table_found schema name result st =
     (case result of
        Inl e \<Rightarrow> (Inl e, st)
      | Inr cached_table \<Rightarrow>
          (Inr (Some (ct_provider cached_table)),
           st\<lparr>cs_routes := record_table cached_table (cs_routes st),
              cs_catalogs := (case map_of (cs_catalogs st) (us_catalog_name schema) of
                 Some catalog \<Rightarrow>
                   AList.update (us_catalog_name schema) (known_table (us_schema_name schema) name catalog) (cs_catalogs st)
               | None \<Rightarrow> cs_catalogs st)\<rparr>))"

section \<open>Lookups go by name\<close>

text \<open>The states of one statement's catalog, whatever its lookups are and in whatever order they end.\<close>

inductive lookups :: "catalog_state \<Rightarrow> bool" where
  lookups_new: "lookups provider_list_new"
| lookups_resolve: "lookups st \<Longrightarrow> resolve_schema_provider catalog schema st = (found, st') \<Longrightarrow> lookups st'"
| lookups_found: "lookups st \<Longrightarrow> schema_table_found u name result st = (r, st') \<Longrightarrow> lookups st'"

definition schema_entry_ok :: "string \<Rightarrow> string \<times> unity_schema_provider \<Rightarrow> bool" where
  "schema_entry_ok catalog e \<longleftrightarrow>
     us_catalog_name (snd e) = catalog \<and> us_schema_name (snd e) = fst e \<and> \<not> eq_ignore_ascii_case (fst e) ''information_schema''"

definition catalog_entry_ok :: "string \<times> catalog_provider \<Rightarrow> bool" where
  "catalog_entry_ok e =
     (case snd e of
        SystemCatalogProvider \<Rightarrow> eq_ignore_ascii_case (fst e) ''system''
      | UnityCatalogProvider name schemas \<Rightarrow>
          name = fst e \<and> \<not> eq_ignore_ascii_case name ''system'' \<and> list_all (schema_entry_ok name) schemas)"

definition catalogs_ok :: "catalog_state \<Rightarrow> bool" where
  "catalogs_ok st \<longleftrightarrow> list_all catalog_entry_ok (cs_catalogs st)"

lemma list_all_update: "list_all P m \<Longrightarrow> P (k, v) \<Longrightarrow> list_all P (AList.update k v m)"
  by (induction m) auto

lemma list_all_map_of: "list_all P m \<Longrightarrow> map_of m k = Some v \<Longrightarrow> P (k, v)"
  by (auto simp: list_all_iff dest: map_of_SomeD)

lemma provider_for_ok: "catalog_entry_ok (name, provider_for name)"
  by (simp add: catalog_entry_ok_def provider_for_def)

lemma catalog_of_ok:
  assumes "catalogs_ok st" "catalog_of name st = (provider, st')"
  shows "catalogs_ok st' \<and> catalog_entry_ok (name, provider)"
  using assms list_all_map_of [of catalog_entry_ok "cs_catalogs st" name] provider_for_ok
  by (auto simp: catalog_of_def catalogs_ok_def list_all_update split: option.splits)

lemma schema_of_ok:
  assumes "catalog_entry_ok (catalog, provider)" "schema_of name provider = (found, provider')"
  shows "catalog_entry_ok (catalog, provider') \<and>
    (case found of
       SystemSchema s \<Rightarrow>
         if eq_ignore_ascii_case catalog ''system'' then s = system_catalog_schema name
         else eq_ignore_ascii_case name ''information_schema'' \<and> s = InformationSchemaProvider (Some catalog)
     | UnitySchema u \<Rightarrow> \<not> eq_ignore_ascii_case catalog ''system'' \<and> schema_entry_ok catalog (name, u))"
proof (cases provider)
  case SystemCatalogProvider
  then show ?thesis using assms by (auto simp: schema_of_def catalog_entry_ok_def)
next
  case (UnityCatalogProvider n schemas)
  then have ok: "n = catalog" "\<not> eq_ignore_ascii_case catalog ''system''" "list_all (schema_entry_ok catalog) schemas"
    using assms(1) by (auto simp: catalog_entry_ok_def)
  show ?thesis
  proof (cases "eq_ignore_ascii_case name ''information_schema''")
    case True
    then show ?thesis using assms UnityCatalogProvider ok by (auto simp: schema_of_def)
  next
    case False
    have entry: "schema_entry_ok catalog (name, \<lparr>us_catalog_name = catalog, us_schema_name = name, us_known_tables = {}\<rparr>)"
      using False by (simp add: schema_entry_ok_def)
    show ?thesis
    proof (cases "map_of schemas name")
      case None
      then show ?thesis
        using assms UnityCatalogProvider ok False entry list_all_update [OF ok(3) entry]
        by (auto simp: schema_of_def catalog_entry_ok_def Let_def)
    next
      case (Some u)
      then show ?thesis
        using assms UnityCatalogProvider ok False list_all_map_of [OF ok(3) Some] by (auto simp: schema_of_def)
    qed
  qed
qed

lemma known_table_ok: "catalog_entry_ok (catalog, provider) \<Longrightarrow> catalog_entry_ok (catalog, known_table schema name provider)"
  by (auto simp: known_table_def catalog_entry_ok_def split: catalog_provider.splits option.splits
      intro!: list_all_update dest: list_all_map_of) (auto simp: schema_entry_ok_def dest!: list_all_map_of)

lemma resolve_ok:
  assumes "catalogs_ok st" "resolve_schema_provider catalog schema st = (found, st')"
  shows "catalogs_ok st'"
proof -
  obtain provider st1 where c: "catalog_of catalog st = (provider, st1)" by fastforce
  obtain provider' where s: "schema_of schema provider = (found, provider')"
    and st': "st' = st1\<lparr>cs_catalogs := AList.update catalog provider' (cs_catalogs st1)\<rparr>"
    using assms(2) c by (auto simp: resolve_schema_provider_def split: prod.splits)
  then show ?thesis
    using catalog_of_ok [OF assms(1) c] schema_of_ok [OF _ s] by (auto simp: catalogs_ok_def intro!: list_all_update)
qed

lemma lookups_ok: "lookups st \<Longrightarrow> catalogs_ok st"
proof (induction rule: lookups.induct)
  case lookups_new
  then show ?case by (simp add: provider_list_new_def catalogs_ok_def)
next
  case (lookups_resolve st catalog schema found st')
  then show ?case using resolve_ok by blast
next
  case (lookups_found st u name result r st')
  then show ?case
    using known_table_ok list_all_map_of [of catalog_entry_ok "cs_catalogs st"]
    by (auto simp: schema_table_found_def catalogs_ok_def split: sum.splits option.splits intro!: list_all_update)
qed

lemma resolved_by_name:
  assumes "lookups st" "resolve_schema_provider catalog schema st = (found, st')"
  shows "case found of
      SystemSchema s \<Rightarrow>
        if eq_ignore_ascii_case catalog ''system'' then s = system_catalog_schema schema
        else eq_ignore_ascii_case schema ''information_schema'' \<and> s = InformationSchemaProvider (Some catalog)
    | UnitySchema u \<Rightarrow>
        \<not> eq_ignore_ascii_case catalog ''system'' \<and> \<not> eq_ignore_ascii_case schema ''information_schema'' \<and>
        (\<forall>name. full_table_name u name = catalog @ ''.'' @ schema @ ''.'' @ name)"
proof -
  obtain provider st1 where c: "catalog_of catalog st = (provider, st1)" by fastforce
  obtain provider' where s: "schema_of schema provider = (found, provider')"
    using assms(2) c by (auto simp: resolve_schema_provider_def split: prod.splits)
  have "catalog_entry_ok (catalog, provider)" using catalog_of_ok [OF lookups_ok [OF assms(1)] c] by simp
  from schema_of_ok [OF this s] show ?thesis
    by (auto simp: schema_entry_ok_def full_table_name_def split: schema_provider.splits if_splits)
qed

section \<open>What loading a table has done\<close>

definition granted ::
  "opener_fns \<Rightarrow> config \<Rightarrow> string \<Rightarrow> string \<Rightarrow> (catalog_request \<times> catalog_answer option) set \<Rightarrow> cached_table \<Rightarrow> bool" where
  "granted op cfg token full_name H ct \<longleftrightarrow>
     (\<exists>table table_id credentials now_system now_instant url delta.
        (LookupTable token full_name, Some (InfoAnswer (Inr table))) \<in> H \<and>
        ensure_delta_table table = Inr () \<and> ti_table_id table = Some table_id \<and>
        (ReadCredentials token table_id, Some (ReadCredentialsAnswer (Inr credentials))) \<in> H \<and>
        (ReadClock, Some (ClockAnswer now_system now_instant)) \<in> H \<and>
        ct_expires_at ct = expires_at_from_unity_expiration_ms_at (tc_expiration_time credentials)
          (cf_table_cache_credential_expiry_skew cfg) now_system now_instant \<and>
        uf_parse (of_url op) (tc_url credentials) = Inr url \<and>
        (OpenDelta url (storage_options credentials (cf_aws_region cfg)), Some (OpenedAnswer (Inr delta))) \<in> H \<and>
        (TableProvider delta, Some (ProviderAnswer (Inr (ct_provider ct)))) \<in> H \<and>
        ct_object_store ct = of_root_object_store op delta \<and>
        table_object_store_route (of_url op) (tc_url credentials) = Inr (ct_object_store_url ct, ct_object_prefix ct))"

lemma granted_mono: "granted op cfg token full_name H ct \<Longrightarrow> H \<subseteq> H' \<Longrightarrow> granted op cfg token full_name H' ct"
  unfolding granted_def by (meson subsetD)

lemma ensures_open:
  assumes "(LookupTable token full_name, Some (InfoAnswer (Inr table))) \<in> H" "ensure_delta_table table = Inr ()"
    "ti_table_id table = Some table_id" "(ReadCredentials token table_id, Some (ReadCredentialsAnswer (Inr credentials))) \<in> H"
    "(ReadClock, Some (ClockAnswer now_system now_instant)) \<in> H"
  shows "ensures (on_success (granted op cfg token full_name))
    (open_delta_table op credentials (cf_aws_region cfg) (expires_at_from_unity_expiration_ms_at (tc_expiration_time credentials)
       (cf_table_cache_credential_expiry_skew cfg) now_system now_instant)) H"
proof -
  have "granted op cfg token full_name (insert (TableProvider delta, Some (ProviderAnswer (Inr provider)))
      (insert (OpenDelta url (storage_options credentials (cf_aws_region cfg)), Some (OpenedAnswer (Inr delta))) H))
      \<lparr>ct_provider = provider, ct_object_store_url = object_store_url, ct_object_prefix = object_prefix,
       ct_object_store = of_root_object_store op delta,
       ct_expires_at = expires_at_from_unity_expiration_ms_at (tc_expiration_time credentials)
         (cf_table_cache_credential_expiry_skew cfg) now_system now_instant\<rparr>"
    if "uf_parse (of_url op) (tc_url credentials) = Inr url"
      "table_object_store_route (of_url op) (tc_url credentials) = Inr (object_store_url, object_prefix)"
    for delta provider url object_store_url object_prefix
    unfolding granted_def
    by (intro exI [of _ table] exI [of _ table_id] exI [of _ credentials] exI [of _ now_system] exI [of _ now_instant]
        exI [of _ url] exI [of _ delta]) (use assms that in simp)
  then show ?thesis
    by (cases "uf_parse (of_url op) (tc_url credentials)") (auto simp: open_delta_table_def split: catalog_answer.split sum.split)
qed

lemma ensures_load: "ensures (on_success (granted op cfg token full_name)) (load_cached_table op cfg token full_name) H"
  by (auto simp: load_cached_table_def split: sum.split catalog_answer.split option.split intro!: ensures_open)

lemma load_runs_granted:
  assumes "runs (load_cached_table op cfg token full_name) t (Returned (Inr ct))"
  shows "granted op cfg token full_name (set t) ct"
proof -
  have mono: "on_success (granted op cfg token full_name) H' x"
    if "on_success (granted op cfg token full_name) H x" "H \<subseteq> H'" for H H' x
    using that granted_mono by (auto simp: on_success_def split: sum.splits)
  from ensures_runs [OF assms ensures_load [where H = "{}"] refl mono] show ?thesis by simp
qed

end
