(* ===== verification/Provider_Properties.thy ===== *)
theory Provider_Properties
  imports Catalog_Provider Engine_Properties
begin

text \<open>
  The catalog, the table cache and the loading of tables together: which table a name of a query
  reaches, and with whose credentials.
\<close>

text \<open>
  What \<open>get_or_load\<close> may be given by the loads of its clients: the client with a token and a
  table name runs \<open>load_cached_table\<close> for them.
\<close>

definition table_loads ::
  "opener_fns \<Rightarrow> config \<Rightarrow> (bytes \<Rightarrow> string \<Rightarrow> bytes) \<Rightarrow> cache_config \<Rightarrow> cache_key \<Rightarrow> cached_table res \<Rightarrow> bool" where
  "table_loads op cfg hmac ccfg key r \<longleftrightarrow>
     (\<exists>token full_name t. key = make_cache_key hmac ccfg token full_name (cf_aws_region cfg) \<and>
        runs (load_cached_table op cfg token full_name) t (Returned r))"


text \<open>A table that is loaded with the cache disabled.\<close>

definition example_opener :: opener_fns where
  "example_opener = \<lparr>of_url = url_fns.truncate example_location, of_root_object_store = (\<lambda>n. n)\<rparr>"

definition example_delta_table :: table_info where
  "example_delta_table =
     example_table_info\<lparr>ti_data_source_format := Some ''delta'', ti_storage_location := Some ''s3://bucket/table''\<rparr>"

fun example_catalog_answer :: "catalog_request \<Rightarrow> catalog_answer" where
  "example_catalog_answer (LookupTable _ _) = InfoAnswer (Inr example_delta_table)"
| "example_catalog_answer (ReadCredentials _ _) = ReadCredentialsAnswer (Inr example_credentials)"
| "example_catalog_answer ReadClock = ClockAnswer 0 5"
| "example_catalog_answer (OpenDelta _ _) = OpenedAnswer (Inr 7)"
| "example_catalog_answer (TableProvider _) = ProviderAnswer (Inr 8)"

definition example_cached_table :: cached_table where
  "example_cached_table =
     \<lparr>ct_provider = 8, ct_object_store_url = ''s3://bucket/table/'', ct_object_prefix = ''table'', ct_object_store = 7, ct_expires_at = 5\<rparr>"

definition example_hmac :: "bytes \<Rightarrow> string \<Rightarrow> bytes" where
  "example_hmac key token = str_bytes token"

definition example_cache_config :: cache_config where
  "example_cache_config = \<lparr>cc_max_entries = 0, cc_ttl = 0, cc_fingerprint_key = []\<rparr>"

definition example_schema :: unity_schema_provider where
  "example_schema = \<lparr>us_catalog_name = ''main'', us_schema_name = ''sales'', us_known_tables = {}\<rparr>"

lemma example_load:
  "\<exists>t. runs (load_cached_table example_opener example_config ''token'' ''main.sales.hits'') t (Returned (Inr example_cached_table))"
proof -
  have expires: "expires_at_from_unity_expiration_ms_at (tc_expiration_time example_credentials) skew 0 5 = 5" for skew
    by (simp add: expires_at_from_unity_expiration_ms_at_def example_credentials_def checked_deadline_def instant_max_def)
  have delta: "ensure_delta_table example_delta_table = Inr ()" "ti_table_id example_delta_table = Some ''id''" by code_simp+
  have url: "uf_parse (of_url example_opener) (tc_url example_credentials) = Inr ''s3://bucket/table/''"
    "table_object_store_route (of_url example_opener) (tc_url example_credentials) = Inr (''s3://bucket/table/'', ''table'')"
    by code_simp+
  have "snd (answered example_catalog_answer (load_cached_table example_opener example_config ''token'' ''main.sales.hits'')) =
      Some (Inr example_cached_table)"
    by (simp add: load_cached_table_def open_delta_table_def or_return_def delta url expires example_cached_table_def)
       (simp add: example_opener_def)
  then show ?thesis using answered_runs by (metis prod.collapse)
qed


end
