(* ===== verification/Information_Properties.thy ===== *)
theory Information_Properties
  imports Information_Schema
begin

text \<open>
  Properties of \<open>information_schema\<close>: a scan that is given filters reads less of Unity Catalog
  and loses no row that satisfies them; the rows of \<open>columns\<close> come in the order of their
  ordinal positions.
\<close>

section \<open>Filters and rows\<close>

text \<open>
  What the filters of a scan mean: \<open>holds e r\<close> says that the row \<open>r\<close> of the scanned
  table satisfies \<open>e\<close>. A conjunction holds if both parts do; a column is equal to a string
  only if that string is the row's value in a field of this name.
\<close>

definition filter_laws :: "arrow_field list \<Rightarrow> (df_expr \<Rightarrow> system_row \<Rightarrow> bool) \<Rightarrow> bool" where
  "filter_laws schema holds \<longleftrightarrow>
     (\<forall>a b r. holds (ExBinary a OpAnd b) r \<longrightarrow> holds a r \<and> holds b r) \<and>
     (\<forall>rel c e v r. string_literal e = Some v \<longrightarrow>
        holds (ExBinary (ExColumn rel c) OpEq e) r \<or> holds (ExBinary e OpEq (ExColumn rel c)) r \<longrightarrow>
        (\<exists>f \<in> set schema. fld_name f = c \<and> row_cell r f = string_scalar v))"

definition catalog_columns_of :: "string set" where
  "catalog_columns_of = {''catalog_name'', ''table_catalog''}"

definition schema_columns_of :: "string set" where
  "schema_columns_of = {''schema_name'', ''table_schema''}"

definition filter_columns :: "string set" where
  "filter_columns = catalog_columns_of \<union> schema_columns_of \<union> {''table_name'', ''column_name''}"

lemmas column_sets = filter_columns_def catalog_columns_of_def schema_columns_of_def

definition relation_columns :: "information_schema_relation \<Rightarrow> string set" where
  "relation_columns relation =
     (case relation of
        RelCatalogs \<Rightarrow> {''catalog_name''}
      | RelSchemata \<Rightarrow> {''catalog_name'', ''schema_name''}
      | RelColumns \<Rightarrow> {''table_catalog'', ''table_schema'', ''table_name'', ''column_name''}
      | _ \<Rightarrow> {''table_catalog'', ''table_schema'', ''table_name''})"

text \<open>
  The schema that Unity reports for a relation: a field that filters are read from, and that the
  rows of the relation do not have, is nullable.
\<close>

definition schema_ok :: "information_schema_relation \<Rightarrow> arrow_field list \<Rightarrow> bool" where
  "schema_ok relation schema \<longleftrightarrow>
     list_all (\<lambda>f. to_ascii_lowercase (fld_name f) \<in> filter_columns \<longrightarrow>
       fld_nullable f \<or> fld_name f \<in> relation_columns relation) schema"

text \<open>The row has, in one of the columns, one of the values.\<close>

definition allows :: "system_row \<Rightarrow> string set \<Rightarrow> string set option \<Rightarrow> bool" where
  "allows r columns wanted \<longleftrightarrow>
     (\<forall>s. wanted = Some s \<longrightarrow> (\<exists>k \<in> columns. \<exists>v. map_of r k = Some (string_scalar v) \<and> to_ascii_lowercase v \<in> s))"

definition row_allows :: "system_row \<Rightarrow> metadata_filters \<Rightarrow> bool" where
  "row_allows r mf \<longleftrightarrow>
     allows r catalog_columns_of (mf_catalogs mf) \<and> allows r schema_columns_of (mf_schemas mf) \<and>
     allows r {''table_name''} (mf_tables mf) \<and> allows r {''column_name''} (mf_columns mf)"

lemma row_allows_none: "row_allows r no_filters"
  by (simp add: row_allows_def allows_def no_filters_def)

lemma allows_insert:
  assumes "k \<in> columns" "map_of r k = Some (string_scalar v)"
  shows "allows r columns (insert_filter_value v s)"
  using assms by (auto simp: allows_def insert_filter_value_def)

text \<open>A row of the relation: its columns among those that filters are read from.\<close>

definition row_of :: "information_schema_relation \<Rightarrow> system_row \<Rightarrow> bool" where
  "row_of relation r \<longleftrightarrow>
     (\<forall>k. to_ascii_lowercase k \<in> filter_columns \<longrightarrow> map_of r k \<noteq> None \<longrightarrow> to_ascii_lowercase k = k) \<and>
     (\<forall>k \<in> relation_columns relation. map_of r k \<noteq> None)"

lemma add_filter_allows:
  assumes "row_allows r mf" "to_ascii_lowercase c \<in> filter_columns \<Longrightarrow> to_ascii_lowercase c = c \<and> map_of r c = Some (string_scalar v)"
  shows "row_allows r (add_filter c v mf)"
proof (cases "to_ascii_lowercase c \<in> filter_columns")
  case True
  then have lower: "to_ascii_lowercase c = c" and v: "map_of r c = Some (string_scalar v)" using assms(2) by auto
  consider "c \<in> catalog_columns_of" | "c \<in> schema_columns_of" | "c = ''table_name''" | "c = ''column_name''"
    using True unfolding lower filter_columns_def by blast
  then show ?thesis
    using assms(1) allows_insert [OF _ v] unfolding add_filter_def lower Let_def row_allows_def
    by cases (auto simp: catalog_columns_of_def schema_columns_of_def)
next
  case False
  then show ?thesis using assms(1) by (auto simp: add_filter_def column_sets Let_def)
qed

lemma equality_filterD: "equality_filter l r = Some (c, v) \<Longrightarrow> \<exists>rel. l = ExColumn rel c \<and> string_literal r = Some v"
  by (auto simp: equality_filter_def split: df_expr.splits)

lemma null_scalar_not_string: "null_scalar t \<noteq> string_scalar v"
  by (simp add: null_scalar_def string_scalar_def null_string_def)

lemma equality_value:
  assumes "filter_laws schema holds" "holds (ExBinary left OpEq right) r"
    and "equality_filter left right = Some (c, v) \<or> equality_filter right left = Some (c, v)"
  shows "\<exists>f \<in> set schema. fld_name f = c \<and> row_cell r f = string_scalar v"
proof -
  have law: "\<exists>f \<in> set schema. fld_name f = c \<and> row_cell r f = string_scalar v"
    if "string_literal e = Some v" "holds (ExBinary (ExColumn rel c) OpEq e) r \<or> holds (ExBinary e OpEq (ExColumn rel c)) r" for rel e
    using assms(1) that unfolding filter_laws_def by blast
  show ?thesis
    using assms(3)
  proof
    assume "equality_filter left right = Some (c, v)"
    then obtain rel where "left = ExColumn rel c" "string_literal right = Some v" using equality_filterD by blast
    then show ?thesis using law [of right rel] assms(2) by simp
  next
    assume "equality_filter right left = Some (c, v)"
    then obtain rel where "right = ExColumn rel c" "string_literal left = Some v" using equality_filterD by blast
    then show ?thesis using law [of left rel] assms(2) by simp
  qed
qed

lemma collect_filter_allows:
  assumes "filter_laws schema holds" "schema_ok relation schema" "row_of relation r"
  shows "row_allows r mf \<Longrightarrow> holds e r \<Longrightarrow> row_allows r (collect_filter e mf)"
proof (induction e mf rule: collect_filter.induct)
  case (1 left right mf)
  have "holds left r" "holds right r"
    using 1(4) assms(1) unfolding filter_laws_def by blast+
  then show ?case using 1(1) [OF 1(3)] 1(2) by simp
next
  case (2 left right mf)
  have column: "to_ascii_lowercase c = c \<and> map_of r c = Some (string_scalar v)"
    if lower: "to_ascii_lowercase c \<in> filter_columns"
      and eq: "equality_filter left right = Some (c, v) \<or> equality_filter right left = Some (c, v)" for c v
  proof -
    obtain f where f: "f \<in> set schema" "fld_name f = c" "row_cell r f = string_scalar v"
      using equality_value [OF assms(1) 2(2) eq] by blast
    have "map_of r c \<noteq> None"
    proof (rule ccontr)
      assume missing: "\<not> map_of r c \<noteq> None"
      then have "c \<notin> relation_columns relation" using assms(3) by (auto simp: row_of_def)
      then have "fld_nullable f"
        using assms(2) f(1,2) lower by (auto simp: schema_ok_def list_all_iff)
      moreover have "map_of r c = None" using missing by blast
      ultimately show False
        using f(2,3) null_scalar_not_string by (simp add: row_cell_def default_scalar_def)
    qed
    then show ?thesis
      using assms(3) lower f(2,3) by (auto simp: row_of_def row_cell_def)
  qed
  show ?case
    using 2(1) column by (auto split: option.split intro!: add_filter_allows)
qed simp_all

lemma from_exprs_allows:
  assumes "filter_laws schema holds" "schema_ok relation schema" "row_of relation r" "\<forall>e \<in> set fs. holds e r"
  shows "row_allows r (from_exprs fs)"
proof -
  have "row_allows r (fold collect_filter fs mf)" if "row_allows r mf" for mf
    using that assms(4)
    by (induction fs arbitrary: mf) (auto intro: collect_filter_allows [OF assms(1,2,3)])
  then show ?thesis using row_allows_none by (simp add: from_exprs_def)
qed

section \<open>The loops\<close>

lemma for_rows_Nil [simp]: "for_rows f [] = Inr []"
  by (simp add: for_rows_def)

lemma for_rows_Cons [simp]: "for_rows f (x # xs) = sbind (f x) (\<lambda>a. sbind (for_rows f xs) (\<lambda>b. Inr (a @ b)))"
  by (cases "f x"; cases "collect_res (map f xs)") (simp_all add: for_rows_def)

lemma for_rows_member:
  assumes "for_rows f xs = Inr rows" "r \<in> set rows"
  shows "\<exists>x \<in> set xs. \<exists>a. f x = Inr a \<and> r \<in> set a"
  using assms by (induction xs arbitrary: rows) (auto simp: sbind_Inr_iff)

text \<open>A loop that skips elements without selected rows finds the same selected rows.\<close>

lemma for_rows_skips:
  assumes "for_rows f xs = Inr rows"
    and "\<And>x a. x \<in> set xs \<Longrightarrow> f x = Inr a \<Longrightarrow> \<exists>b. g x = Inr b \<and> filter P b = filter P a"
    and "\<And>x a r. x \<in> set xs \<Longrightarrow> f x = Inr a \<Longrightarrow> r \<in> set a \<Longrightarrow> P r \<Longrightarrow> K x"
  shows "\<exists>rows'. for_rows g (filter K xs) = Inr rows' \<and> filter P rows' = filter P rows"
  using assms
proof (induction xs arbitrary: rows)
  case (Cons x xs)
  obtain a b where a: "f x = Inr a" and b: "for_rows f xs = Inr b" "rows = a @ b"
    using Cons.prems(1) by (auto simp: sbind_Inr_iff)
  have "\<exists>rows'. for_rows g (filter K xs) = Inr rows' \<and> filter P rows' = filter P b"
    by (rule Cons.IH [OF b(1)]) (use Cons.prems(2,3) in auto)
  then obtain b' where b': "for_rows g (filter K xs) = Inr b'" "filter P b' = filter P b" by blast
  obtain a' where a': "g x = Inr a'" "filter P a' = filter P a" using Cons.prems(2) a by auto
  have "filter P a = []" if "\<not> K x" using Cons.prems(3) [of x a] a that by (auto simp: filter_empty_conv)
  then show ?case using a' b' b(2) by (cases "K x") auto
qed simp

lemma over_tables_skips:
  assumes loaded: "over_tables src token scope no_filters body = Inr rows"
    and body: "\<And>c s ts t a. ms_list_tables src token c s = Inr ts \<Longrightarrow> t \<in> set ts \<Longrightarrow> body c s t = Inr a \<Longrightarrow>
      \<exists>b. body' c s t = Inr b \<and> filter P b = filter P a"
    and kept: "\<And>c s ts t a r. ms_list_tables src token c s = Inr ts \<Longrightarrow> t \<in> set ts \<Longrightarrow> body c s t = Inr a \<Longrightarrow>
      r \<in> set a \<Longrightarrow> P r \<Longrightarrow> matches_catalog mf c \<and> matches_schema mf s \<and> matches_table mf (info_table_name t)"
  shows "\<exists>rows'. over_tables src token scope mf body' = Inr rows' \<and> filter P rows' = filter P rows"
proof -
  have all: "matches_catalog no_filters = (\<lambda>_. True)" "matches_schema no_filters = (\<lambda>_. True)" "matches_table no_filters = (\<lambda>_. True)"
    by (simp_all add: matches_catalog_def matches_schema_def matches_table_def matches_filter_def no_filters_def fun_eq_iff)
  let ?tables = "\<lambda>body mf c s. sbind (ms_list_tables src token c (info_schema_name s)) (\<lambda>tables.
      for_rows (body c (info_schema_name s)) (filter (\<lambda>t. matches_table mf (info_table_name t)) tables))"
  let ?schemas = "\<lambda>body mf c. sbind (filtered_schemas src token (cat_name c) mf) (for_rows (?tables body mf (cat_name c)))"
  have tables: "\<exists>b. ?tables body' mf c s = Inr b \<and> filter P b = filter P a" if a: "?tables body no_filters c s = Inr a" for c s a
  proof -
    obtain ts where ts: "ms_list_tables src token c (info_schema_name s) = Inr ts" "for_rows (body c (info_schema_name s)) ts = Inr a"
      using a by (auto simp: sbind_Inr_iff all)
    then show ?thesis
      using for_rows_skips [OF ts(2), of "body' c (info_schema_name s)" P "\<lambda>t. matches_table mf (info_table_name t)"] body kept by simp
  qed
  have tables_kept: "matches_catalog mf c \<and> matches_schema mf (info_schema_name s)"
    if "?tables body no_filters c s = Inr a" "r \<in> set a" "P r" for c s a r
    using that kept by (auto simp: sbind_Inr_iff all dest!: for_rows_member)
  have schemas: "\<exists>b. ?schemas body' mf c = Inr b \<and> filter P b = filter P a" if a: "?schemas body no_filters c = Inr a" for c a
  proof -
    obtain ss where ss: "ms_list_schemas src token (cat_name c) = Inr ss" "for_rows (?tables body no_filters (cat_name c)) ss = Inr a"
      using a by (auto simp: sbind_Inr_iff filtered_schemas_def all)
    then show ?thesis
      using for_rows_skips [OF ss(2), of "?tables body' mf (cat_name c)" P "\<lambda>s. matches_schema mf (info_schema_name s)"] tables tables_kept
      by (simp add: filtered_schemas_def)
  qed
  have schemas_kept: "matches_catalog mf (cat_name c)" if "?schemas body no_filters c = Inr a" "r \<in> set a" "P r" for c a r
    using that tables_kept by (auto simp: sbind_Inr_iff dest!: for_rows_member)
  obtain cs where cs: "scoped_catalogs src token scope no_filters = Inr cs" "for_rows (?schemas body no_filters) cs = Inr rows"
    using loaded by (auto simp: over_tables_def sbind_Inr_iff)
  have "scoped_catalogs src token scope mf = Inr (filter (\<lambda>c. matches_catalog mf (cat_name c)) cs)"
    using cs(1) by (auto simp: scoped_catalogs_def sbind_Inr_iff all split: option.splits)
  moreover have "\<exists>rows'. for_rows (?schemas body' mf) (filter (\<lambda>c. matches_catalog mf (cat_name c)) cs) = Inr rows' \<and>
      filter P rows' = filter P rows"
    by (rule for_rows_skips [OF cs(2)]) (use schemas schemas_kept in blast)+
  ultimately show ?thesis by (simp add: over_tables_def)
qed

section \<open>Rows and the names they are listed under\<close>

text \<open>
  Unity reports the tables of a schema, and the details of a table, under the names of the
  catalog, the schema and the table, up to letter case.
\<close>

definition names_agree :: "string \<Rightarrow> string \<Rightarrow> string \<Rightarrow> table_info \<Rightarrow> bool" where
  "names_agree catalog schema name t \<longleftrightarrow>
     (\<forall>c. ti_catalog_name t = Some c \<longrightarrow> eq_ignore_ascii_case c catalog) \<and>
     (\<forall>s. ti_schema_name t = Some s \<longrightarrow> eq_ignore_ascii_case s schema) \<and>
     (\<forall>n. ti_name t = Some n \<longrightarrow> eq_ignore_ascii_case n name)"

definition source_agrees :: "'x unity_source_scheme \<Rightarrow> string \<Rightarrow> bool" where
  "source_agrees src token \<longleftrightarrow>
     (\<forall>c s ts t. ms_list_tables src token c s = Inr ts \<longrightarrow> t \<in> set ts \<longrightarrow>
        names_agree c s (info_table_name t) t \<and>
        (\<forall>d. ms_table src token (info_table_full_name t c s (info_table_name t)) = Inr d \<longrightarrow>
           names_agree c s (info_table_name t) d))"

text \<open>The row is about this catalog, schema and table, as far as it has columns for them.\<close>

definition row_about :: "string \<Rightarrow> string \<Rightarrow> string \<Rightarrow> system_row \<Rightarrow> bool" where
  "row_about c s t r \<longleftrightarrow>
     (\<forall>k \<in> catalog_columns_of. \<forall>v. map_of r k = Some (string_scalar v) \<longrightarrow> eq_ignore_ascii_case v c) \<and>
     (\<forall>k \<in> schema_columns_of. \<forall>v. map_of r k = Some (string_scalar v) \<longrightarrow> eq_ignore_ascii_case v s) \<and>
     (\<forall>v. map_of r ''table_name'' = Some (string_scalar v) \<longrightarrow> eq_ignore_ascii_case v t)"

lemma allows_matches:
  assumes "allows r columns wanted" "\<And>k v. k \<in> columns \<Longrightarrow> map_of r k = Some (string_scalar v) \<Longrightarrow> eq_ignore_ascii_case v x"
  shows "matches_filter wanted x"
  using assms by (fastforce simp: allows_def matches_filter_def eq_ignore_ascii_case_def split: option.split)

lemma row_about_matches:
  assumes "row_allows r mf" "row_about c s t r"
  shows "matches_catalog mf c \<and> matches_schema mf s \<and> matches_table mf t"
  using assms unfolding row_allows_def row_about_def matches_catalog_def matches_schema_def matches_table_def
  by (intro conjI; elim conjE; intro allows_matches) auto

lemma string_scalar_inject [simp]: "string_scalar a = string_scalar b \<longleftrightarrow> a = b"
  by (simp add: string_scalar_def)

lemma map_of_in: "map_of r k \<noteq> None \<Longrightarrow> k \<in> fst ` set r"
  by (simp add: map_of_eq_None_iff)

text \<open>Rows whose column names are in lower case.\<close>

definition lower_names :: "string list \<Rightarrow> bool" where
  "lower_names ks = list_all (\<lambda>k. to_ascii_lowercase k = k) ks"

lemma row_ofI:
  assumes "lower_names (map fst r)" "relation_columns relation \<subseteq> set (map fst r)"
  shows "row_of relation r"
  using assms by (force simp: lower_names_def row_of_def list_all_iff map_of_eq_None_iff dest!: map_of_in)

lemma rows_lower:
  "lower_names (map fst (catalog_row c))"
  "lower_names (map fst (schemata_row a b))"
  "lower_names (map fst (info_table_row a b n t))"
  "lower_names (map fst (info_column_row t a b n i col))"
  "lower_names (map fst (view_row a b n))"
  "row_filter_row a b n d = Inr rows \<Longrightarrow> r \<in> set rows \<Longrightarrow> lower_names (map fst r)"
proof -
  show "lower_names (map fst (catalog_row c))" by (simp add: catalog_row_def; code_simp)
  show "lower_names (map fst (schemata_row a b))" by (simp add: schemata_row_def; code_simp)
  show "lower_names (map fst (info_table_row a b n t))" by (simp add: info_table_row_def Let_def; code_simp)
  show "lower_names (map fst (info_column_row t a b n i col))" by (simp add: info_column_row_def Let_def; code_simp)
  show "lower_names (map fst (view_row a b n))" by (simp add: view_row_def; code_simp)
  have "lower_names [''table_catalog'', ''table_schema'', ''table_name'', ''filter_name'', ''target_columns'']" by code_simp
  then show "row_filter_row a b n d = Inr rows \<Longrightarrow> r \<in> set rows \<Longrightarrow> lower_names (map fst r)"
    by (auto simp: row_filter_row_def Let_def split: if_splits option.splits)
qed

lemma rows_of_relations:
  "row_of RelCatalogs (catalog_row c)"
  "row_of RelSchemata (schemata_row a b)"
  "row_of RelTables (info_table_row a b n t)"
  "row_of RelColumns (info_column_row t a b n i col)"
  "row_of RelViews (view_row a b n)"
  "row_filter_row a b n d = Inr rows \<Longrightarrow> r \<in> set rows \<Longrightarrow> row_of RelRowFilters r"
proof -
  show "row_of RelCatalogs (catalog_row c)"
    by (rule row_ofI [OF rows_lower(1)]) (simp add: relation_columns_def catalog_row_def)
  show "row_of RelSchemata (schemata_row a b)"
    by (rule row_ofI [OF rows_lower(2)]) (simp add: relation_columns_def schemata_row_def)
  show "row_of RelTables (info_table_row a b n t)"
    by (rule row_ofI [OF rows_lower(3)]) (simp add: relation_columns_def info_table_row_def Let_def)
  show "row_of RelColumns (info_column_row t a b n i col)"
    by (rule row_ofI [OF rows_lower(4)]) (simp add: relation_columns_def info_column_row_def Let_def)
  show "row_of RelViews (view_row a b n)"
    by (rule row_ofI [OF rows_lower(5)]) (simp add: relation_columns_def view_row_def)
  assume r: "row_filter_row a b n d = Inr rows" "r \<in> set rows"
  then show "row_of RelRowFilters r"
    by (intro row_ofI [OF rows_lower(6) [OF r]])
       (auto simp: relation_columns_def row_filter_row_def Let_def split: if_splits option.splits)
qed

lemma rows_about:
  "row_about (cat_name c) x y (catalog_row c)"
  "row_about a b y (schemata_row a b)"
  "names_agree a b n t \<Longrightarrow> row_about a b n (info_table_row a b n t)"
  "names_agree a b n t \<Longrightarrow> row_about a b n (info_column_row t a b n i col)"
  "row_about a b n (view_row a b n)"
  "row_filter_row a b n d = Inr rows \<Longrightarrow> r \<in> set rows \<Longrightarrow> row_about a b n r"
proof -
  show "row_about (cat_name c) x y (catalog_row c)" by (simp add: row_about_def catalog_row_def column_sets)
  show "row_about a b y (schemata_row a b)" by (simp add: row_about_def schemata_row_def column_sets)
  show "row_about a b n (info_table_row a b n t)" if "names_agree a b n t"
    using that by (auto simp: row_about_def info_table_row_def column_sets Let_def names_agree_def split: option.splits)
  show "row_about a b n (info_column_row t a b n i col)" if "names_agree a b n t"
    using that by (auto simp: row_about_def info_column_row_def column_sets Let_def names_agree_def split: option.splits)
  show "row_about a b n (view_row a b n)" by (simp add: row_about_def view_row_def column_sets)
  show "row_filter_row a b n d = Inr rows \<Longrightarrow> r \<in> set rows \<Longrightarrow> row_about a b n r"
    by (auto simp: row_about_def row_filter_row_def column_sets Let_def split: if_splits option.splits)
qed

section \<open>Filtered scans\<close>

definition selected :: "(df_expr \<Rightarrow> system_row \<Rightarrow> bool) \<Rightarrow> df_expr list \<Rightarrow> system_row \<Rightarrow> bool" where
  "selected holds fs r \<longleftrightarrow> (\<forall>e \<in> set fs. holds e r)"

text \<open>Both scans succeed, and the same selected rows are found in the same order.\<close>

definition same_selection :: "('r \<Rightarrow> bool) \<Rightarrow> 'r list res \<Rightarrow> 'r list res \<Rightarrow> bool" where
  "same_selection P full filtered \<longleftrightarrow>
     (\<forall>rows. full = Inr rows \<longrightarrow> (\<exists>rows'. filtered = Inr rows' \<and> filter P rows' = filter P rows))"

lemma filter_map_filter:
  assumes "\<And>x. x \<in> set xs \<Longrightarrow> P (f x) \<Longrightarrow> M x"
  shows "filter P (map f (filter M xs)) = filter P (map f xs)"
  using assms by (induction xs) auto

lemma same_selection_sort:
  assumes "same_selection P full filtered"
  shows "same_selection P (sbind full (\<lambda>rows. Inr (sort_rows ks rows))) (sbind filtered (\<lambda>rows. Inr (sort_rows ks rows)))"
  using assms by (auto simp: same_selection_def sbind_Inr_iff sort_rows_def filter_sort)

lemma selected_matches:
  assumes "filter_laws schema holds" "schema_ok relation schema" "row_of relation r" "row_about c s t r" "selected holds fs r"
  shows "matches_catalog (from_exprs fs) c \<and> matches_schema (from_exprs fs) s \<and> matches_table (from_exprs fs) t"
  by (rule row_about_matches [OF from_exprs_allows [OF assms(1,2,3)] assms(4)])
     (use assms(5) in \<open>simp add: selected_def\<close>)

lemma no_filters_match:
  "matches_catalog no_filters x" "matches_schema no_filters x" "matches_table no_filters x" "matches_column no_filters x"
  by (simp_all add: matches_catalog_def matches_schema_def matches_table_def matches_column_def matches_filter_def no_filters_def)

lemma over_tables_selection:
  assumes "\<And>c s ts t a. ms_list_tables src token c s = Inr ts \<Longrightarrow> t \<in> set ts \<Longrightarrow> body c s t = Inr a \<Longrightarrow>
      \<exists>b. body' c s t = Inr b \<and> filter (selected holds fs) b = filter (selected holds fs) a"
    and "\<And>c s ts t a r. ms_list_tables src token c s = Inr ts \<Longrightarrow> t \<in> set ts \<Longrightarrow> body c s t = Inr a \<Longrightarrow> r \<in> set a \<Longrightarrow>
      row_of relation r \<and> row_about c s (info_table_name t) r"
    and "filter_laws schema holds" "schema_ok relation schema"
  shows "same_selection (selected holds fs)
    (over_tables src token scope no_filters body) (over_tables src token scope (from_exprs fs) body')"
  unfolding same_selection_def
proof (intro allI impI)
  fix rows assume "over_tables src token scope no_filters body = Inr rows"
  then show "\<exists>rows'. over_tables src token scope (from_exprs fs) body' = Inr rows' \<and>
      filter (selected holds fs) rows' = filter (selected holds fs) rows"
    by (rule over_tables_skips) (use assms(1,2) selected_matches [OF assms(3,4)] in blast)+
qed

lemma catalog_rows_selection:
  assumes "filter_laws schema holds" "schema_ok RelCatalogs schema"
  shows "same_selection (selected holds fs) (catalog_rows src token scope no_filters) (catalog_rows src token scope (from_exprs fs))"
proof -
  have "matches_catalog (from_exprs fs) (cat_name c)" if "selected holds fs (catalog_row c)" for c
    using selected_matches [OF assms rows_of_relations(1) rows_about(1) that, of "[]" "[]"] by blast
  then show ?thesis
    by (cases "ms_list_catalogs src token"; cases scope)
       (simp_all add: same_selection_def catalog_rows_def catalogs_for_catalog_rows_def no_filters_match filter_map_filter
          del: filter_filter)
qed

lemma schemata_rows_selection:
  assumes "filter_laws schema holds" "schema_ok RelSchemata schema"
  shows "same_selection (selected holds fs) (schemata_rows src token scope no_filters) (schemata_rows src token scope (from_exprs fs))"
  unfolding same_selection_def
proof (intro allI impI)
  fix rows assume loaded: "schemata_rows src token scope no_filters = Inr rows"
  let ?P = "selected holds fs" and ?mf = "from_exprs fs"
  let ?body = "\<lambda>mf c. sbind (filtered_schemas src token (cat_name c) mf) (\<lambda>schemas.
      Inr (map (\<lambda>s. schemata_row (cat_name c) (info_schema_name s)) schemas))"
  have kept: "matches_catalog ?mf c \<and> matches_schema ?mf s" if "?P (schemata_row c s)" for c s
    using selected_matches [OF assms rows_of_relations(2) rows_about(2) that, of "[]"] by blast
  obtain cs where cs: "scoped_catalogs src token scope no_filters = Inr cs" "for_rows (?body no_filters) cs = Inr rows"
    using loaded by (auto simp: schemata_rows_def sbind_Inr_iff)
  have "scoped_catalogs src token scope ?mf = Inr (filter (\<lambda>c. matches_catalog ?mf (cat_name c)) cs)"
    using cs(1) by (auto simp: scoped_catalogs_def sbind_Inr_iff no_filters_match split: option.splits)
  moreover have "\<exists>rows'. for_rows (?body ?mf) (filter (\<lambda>c. matches_catalog ?mf (cat_name c)) cs) = Inr rows' \<and>
      filter ?P rows' = filter ?P rows"
  proof (rule for_rows_skips [OF cs(2)])
    show "\<exists>b. ?body ?mf c = Inr b \<and> filter ?P b = filter ?P a" if "?body no_filters c = Inr a" for c a
      using that kept by (auto simp: sbind_Inr_iff filtered_schemas_def no_filters_match filter_map_filter)
    show "matches_catalog ?mf (cat_name c)" if "?body no_filters c = Inr a" "r \<in> set a" "?P r" for c a r
      using that kept by (auto simp: sbind_Inr_iff filtered_schemas_def)
  qed
  ultimately show "\<exists>rows'. schemata_rows src token scope ?mf = Inr rows' \<and> filter ?P rows' = filter ?P rows"
    by (simp add: schemata_rows_def)
qed

lemma table_column_rows_selection:
  assumes "filter_laws schema holds" "schema_ok RelColumns schema"
  shows "filter (selected holds fs) (table_column_rows d c s n (from_exprs fs)) =
    filter (selected holds fs) (table_column_rows d c s n no_filters)"
proof -
  have "matches_column (from_exprs fs) (ci_name col)" if "selected holds fs (info_column_row d c s n i col)" for i col
  proof -
    have "row_allows (info_column_row d c s n i col) (from_exprs fs)"
      using that by (intro from_exprs_allows [OF assms rows_of_relations(4)]) (simp add: selected_def)
    then have "allows (info_column_row d c s n i col) {''column_name''} (mf_columns (from_exprs fs))"
      by (simp add: row_allows_def)
    then show ?thesis
      unfolding matches_column_def by (rule allows_matches) (auto simp: info_column_row_def Let_def)
  qed
  then show ?thesis
    unfolding table_column_rows_def by (auto simp: no_filters_match intro!: filter_map_filter)
qed

lemma load_rows_selection:
  assumes "filter_laws schema holds" "schema_ok relation schema" "source_agrees src token"
  shows "same_selection (selected holds fs) (load_information_schema_rows src token scope relation no_filters)
    (load_information_schema_rows src token scope relation (from_exprs fs))"
proof (cases relation)
  case RelTables
  have "row_of RelTables r \<and> row_about c s (info_table_name t) r"
    if "ms_list_tables src token c s = Inr ts" "t \<in> set ts" "r = info_table_row c s (info_table_name t) t" for c s ts t r
    using that assms(3) rows_of_relations(3) rows_about(3) by (auto simp: source_agrees_def)
  then show ?thesis
    using RelTables assms(1,2) unfolding load_information_schema_rows_def
    by (simp add: info_table_rows_def) (intro same_selection_sort over_tables_selection; auto)
next
  case RelColumns
  let ?body = "\<lambda>mf c s t. let name = info_table_name t in
      sbind (ms_table src token (info_table_full_name t c s name)) (\<lambda>detailed. Inr (table_column_rows detailed c s name mf))"
  have "row_of RelColumns r \<and> row_about c s (info_table_name t) r"
    if "ms_list_tables src token c s = Inr ts" "t \<in> set ts" "?body no_filters c s t = Inr a" "r \<in> set a" for c s ts t a r
    using that assms(3) rows_of_relations(4) rows_about(4)
    by (fastforce simp: source_agrees_def Let_def sbind_Inr_iff table_column_rows_def)
  moreover have "\<exists>b. ?body (from_exprs fs) c s t = Inr b \<and> filter (selected holds fs) b = filter (selected holds fs) a"
    if "?body no_filters c s t = Inr a" for c s t a
    using that table_column_rows_selection [OF assms(1), of fs] assms(2) RelColumns by (auto simp: Let_def sbind_Inr_iff)
  ultimately show ?thesis
    using RelColumns assms(1,2) unfolding load_information_schema_rows_def
    by (simp add: info_column_rows_def) (intro same_selection_sort over_tables_selection; blast)
next
  case RelViews
  have "row_of RelViews (view_row c s n) \<and> row_about c s n (view_row c s n)" for c s n
    using rows_of_relations(5) rows_about(5) by simp
  then show ?thesis
    using RelViews assms(1,2) unfolding load_information_schema_rows_def
    by (simp add: view_rows_def) (intro same_selection_sort over_tables_selection; auto split: if_splits)
next
  case RelRowFilters
  have "row_of RelRowFilters r \<and> row_about c s n r" if "row_filter_row c s n d = Inr a" "r \<in> set a" for c s n d a r
    using that rows_of_relations(6) rows_about(6) by simp
  then show ?thesis
    using RelRowFilters assms(1,2) unfolding load_information_schema_rows_def
    by (simp add: row_filter_rows_def) (intro over_tables_selection; auto simp: Let_def sbind_Inr_iff)
qed (use assms catalog_rows_selection schemata_rows_selection in
    \<open>simp_all add: load_information_schema_rows_def same_selection_def\<close>)

text \<open>
  C26. Filters lose no rows: when the full scan of a relation of \<open>information_schema\<close> succeeds,
  so does the scan with filters, and after the engine has applied the filters the same rows are
  left in the same order, although the filtered scan asks Unity only for the catalogs, schemas
  and tables that the filters name.
\<close>

theorem filters_lose_no_rows:
  assumes "st_mode st = InformationSchemaTable relation" "filter_laws (st_schema st) holds" "schema_ok relation (st_schema st)"
    and "source_agrees src token" "load_rows src token st [] = Inr rows"
  shows "\<exists>rows'. load_rows src token st fs = Inr rows' \<and> filter (selected holds fs) rows' = filter (selected holds fs) rows"
proof -
  have "from_exprs [] = no_filters" by (simp add: from_exprs_def)
  then show ?thesis
    using load_rows_selection [OF assms(2,3,4), of fs "st_scope st"] assms(1,5)
    by (simp add: load_rows_def same_selection_def)
qed

text \<open>Two tables in one schema, and the query for one of them.\<close>

definition example_info_table :: "string \<Rightarrow> column_info list \<Rightarrow> table_info" where
  "example_info_table name columns =
     \<lparr>ti_table_id = None, ti_full_name = ''main.sales.'' @ name, ti_name = Some name, ti_catalog_name = Some ''main'',
      ti_schema_name = None, ti_table_type = None, ti_data_source_format = None, ti_storage_location = None, ti_comment = None,
      ti_owner = None, ti_created_at = None, ti_created_by = None, ti_updated_at = None, ti_updated_by = None, ti_columns = columns\<rparr>"

definition example_info_column :: "string \<Rightarrow> i32 option \<Rightarrow> column_info" where
  "example_info_column name pos =
     \<lparr>ci_name = name, ci_position = pos, ci_type_name = None, ci_type_text = Some ''string'', ci_type_precision = None,
      ci_type_scale = None, ci_nullable = Some False, ci_comment = None\<rparr>"

definition example_info_source :: unity_source where
  "example_info_source =
     \<lparr>ms_list_catalogs = (\<lambda>_. Inr [\<lparr>cat_name = ''main'', cat_catalog_type = None\<rparr>]),
      ms_list_schemas = (\<lambda>_ _. Inr [\<lparr>si_name = ''sales'', si_full_name = None\<rparr>]),
      ms_list_tables = (\<lambda>_ c _. Inr (if c = ''main'' then [example_info_table ''hits'' [], example_info_table ''Users'' []] else [])),
      ms_table = (\<lambda>_ n. Inl (Unity n)), us_table_details = (\<lambda>_ n. Inl (Unity n))\<rparr>"

definition example_system_table :: system_table where
  "example_system_table =
     system_table_new (example_info_table ''tables'' [example_info_column ''table_name'' (Some 0), example_info_column ''table_schema'' None])
       (InformationSchemaTable RelTables) None"

fun example_holds :: "df_expr \<Rightarrow> system_row \<Rightarrow> bool" where
  "example_holds (ExBinary a OpAnd b) r \<longleftrightarrow> example_holds a r \<and> example_holds b r"
| "example_holds (ExBinary a OpEq b) r \<longleftrightarrow>
     list_ex (\<lambda>f. equality_filter a b \<noteq> None \<and> fld_name f = fst (the (equality_filter a b)) \<and>
         row_cell r f = string_scalar (snd (the (equality_filter a b))) \<or>
       equality_filter b a \<noteq> None \<and> fld_name f = fst (the (equality_filter b a)) \<and>
         row_cell r f = string_scalar (snd (the (equality_filter b a)))) (st_schema example_system_table)"
| "example_holds _ r \<longleftrightarrow> False"

lemma example_filter_laws: "filter_laws (st_schema example_system_table) example_holds"
  unfolding filter_laws_def
  by (auto simp: list_ex_iff equality_filter_def string_literal_def split: df_expr.splits df_literal.splits option.splits)

definition example_filter :: df_expr where
  "example_filter = ExBinary (ExLiteral (LitUtf8 (Some ''Users''))) OpEq (ExColumn None ''table_name'')"

lemma example_info_rows:
  "load_rows example_info_source ''token'' example_system_table [] =
     Inr (map (\<lambda>n. info_table_row ''main'' ''sales'' n (example_info_table n [])) [''hits'', ''Users''])"
  by code_simp

theorem filters_lose_no_rows_witness:
  "\<exists>rows'. load_rows example_info_source ''token'' example_system_table [example_filter] = Inr rows' \<and>
     filter (selected example_holds [example_filter]) rows' =
       [info_table_row ''main'' ''sales'' ''Users'' (example_info_table ''Users'' [])]"
proof -
  have mode: "st_mode example_system_table = InformationSchemaTable RelTables" by code_simp
  have fields_ok: "schema_ok RelTables (st_schema example_system_table)" by code_simp
  have agrees: "source_agrees example_info_source ''token''"
    by (auto simp: source_agrees_def example_info_source_def names_agree_def example_info_table_def info_table_name_def)
  have "filter (selected example_holds [example_filter])
      (map (\<lambda>n. info_table_row ''main'' ''sales'' n (example_info_table n [])) [''hits'', ''Users'']) =
      [info_table_row ''main'' ''sales'' ''Users'' (example_info_table ''Users'' [])]"
    by code_simp
  then show ?thesis
    using filters_lose_no_rows [OF mode example_filter_laws fields_ok agrees example_info_rows, of "[example_filter]"] by simp
qed

section \<open>The order of columns\<close>

lemma digits_value_acc: "digits_value acc ds = acc * 10 ^ length ds + digits_value 0 ds"
proof (induction ds arbitrary: acc)
  case (Cons d ds)
  show ?case using Cons [of "acc * 10 + (of_char d - 48)"] Cons [of "of_char d - 48"] by (simp add: algebra_simps)
qed simp

lemma digits_value_bound: "list_all is_ascii_digit ds \<Longrightarrow> digits_value 0 ds < 10 ^ length ds"
proof (induction ds)
  case (Cons d ds)
  then have "of_char d - 48 \<le> (9::nat)" "digits_value 0 ds < 10 ^ length ds" by (auto simp: is_ascii_digit_def)
  then have "(of_char d - 48) * 10 ^ length ds + digits_value 0 ds < 9 * 10 ^ length ds + 10 ^ length ds"
    by (intro add_le_less_mono mult_right_mono) simp_all
  then show ?case using digits_value_acc [of "of_char d - 48" ds] by simp
qed simp

text \<open>Among digit strings of one length, the order of the bytes is that of the numbers.\<close>

lemma digits_order:
  "length xs = length ys \<Longrightarrow> list_all is_ascii_digit xs \<Longrightarrow> list_all is_ascii_digit ys \<Longrightarrow> xs < ys \<Longrightarrow>
   digits_value 0 xs < digits_value 0 ys"
proof (induction xs ys rule: list_induct2)
  case (Cons x xs y ys)
  have bound: "digits_value 0 xs < 10 ^ length ys" using digits_value_bound [of xs] Cons by simp
  have vals: "digits_value 0 (x # xs) = (of_char x - 48) * 10 ^ length ys + digits_value 0 xs"
    "digits_value 0 (y # ys) = (of_char y - 48) * 10 ^ length ys + digits_value 0 ys"
    using digits_value_acc [of "of_char x - 48" xs] digits_value_acc [of "of_char y - 48" ys] Cons.hyps by simp_all
  consider "x < y" | "x = y" "xs < ys" using Cons.prems(3) by auto
  then show ?case
  proof cases
    case 1
    then have "Suc (of_char x - 48) \<le> of_char y - 48"
      using Cons.prems(1,2) by (auto simp: less_char_def is_ascii_digit_def)
    then have "Suc (of_char x - 48) * 10 ^ length ys \<le> (of_char y - 48) * 10 ^ length ys" by (rule mult_right_mono) simp
    then show ?thesis using bound unfolding vals by simp
  next
    case 2
    then show ?thesis using Cons.IH Cons.prems unfolding vals by simp
  qed
qed simp

lemma length_show_nat: "n < 10 ^ Suc k \<Longrightarrow> length (show_nat n) \<le> Suc k"
proof (induction k arbitrary: n)
  case 0
  then show ?case by (simp add: show_nat.simps)
next
  case (Suc k)
  then have "n div 10 < 10 ^ Suc k" by (simp add: less_mult_imp_div_less)
  from Suc.IH [OF this] show ?case by (subst show_nat.simps) simp
qed

lemma digits_value_zeros: "digits_value 0 (replicate k CHR ''0'' @ ds) = digits_value 0 ds"
  by (induction k) simp_all

lemma zero_padded_order:
  assumes "0 \<le> a" "0 \<le> b" "a < 10 ^ 10" "b < 10 ^ 10" "zero_padded 10 a \<le> zero_padded 10 b"
  shows "a \<le> b"
proof (rule ccontr)
  assume "\<not> a \<le> b"
  have size: "length (show_nat (nat x)) \<le> 10" if "x < 10 ^ 10" for x :: int
    using length_show_nat [of "nat x" 9] that by simp
  have "digits_value 0 (zero_padded 10 a) \<le> digits_value 0 (zero_padded 10 b)"
  proof (cases "zero_padded 10 a = zero_padded 10 b")
    case False
    then have "zero_padded 10 a < zero_padded 10 b" using assms(5) by simp
    then show ?thesis
      using size [OF assms(3)] size [OF assms(4)] assms(1,2) show_nat_digits
      by (intro less_imp_le digits_order) (auto simp: zero_padded_def list_all_iff is_ascii_digit_def)
  qed simp
  then show False
    using \<open>\<not> a \<le> b\<close> assms(1,2) by (simp add: zero_padded_def digits_value_zeros digits_value_show_nat)
qed

lemma sorted_rows_le:
  assumes "i < j" "j < length rows" "rows = sort_rows ks rows'"
  shows "map (\<lambda>k. scalar_sort_key (map_of (rows ! i) k)) ks \<le> map (\<lambda>k. scalar_sort_key (map_of (rows ! j) k)) ks"
  using sorted_nth_mono [OF sorted_sort_key [of "\<lambda>row. map (\<lambda>k. scalar_sort_key (map_of row k)) ks" rows'], of i j] assms
  by (simp add: sort_rows_def)

lemma sort_key_int32: "scalar_sort_key (Some (int32_scalar (Some p))) = zero_padded 10 (sint p)"
  by (simp add: scalar_sort_key_def int32_scalar_def)

text \<open>
  C37. The rows of \<open>information_schema.columns\<close> come in the order of the ordinal positions
  within a table: although positions are compared as zero-padded text, a later row of the same
  catalog, schema and table never has a smaller position, positions being non-negative.
\<close>

theorem columns_in_order:
  assumes "info_column_rows src token scope filters = Inr rows" "i < j" "j < length rows"
    and same: "\<forall>k \<in> {''table_catalog'', ''table_schema'', ''table_name''}.
      scalar_sort_key (map_of (rows ! i) k) = scalar_sort_key (map_of (rows ! j) k)"
    and p: "map_of (rows ! i) ''ordinal_position'' = Some (int32_scalar (Some p))" "0 \<le> sint p"
    and q: "map_of (rows ! j) ''ordinal_position'' = Some (int32_scalar (Some q))" "0 \<le> sint q"
  shows "sint p \<le> sint q"
proof -
  obtain rows' where "rows = sort_rows [''table_catalog'', ''table_schema'', ''table_name'', ''ordinal_position''] rows'"
    using assms(1) by (auto simp: info_column_rows_def sbind_Inr_iff)
  from sorted_rows_le [OF assms(2,3) this] have "zero_padded 10 (sint p) \<le> zero_padded 10 (sint q)"
    using same p(1) q(1) by (auto simp: sort_key_int32 le_less)
  moreover have "sint x < 10 ^ 10" for x :: i32 using sint_lt [of x] by simp
  ultimately show ?thesis using zero_padded_order p(2) q(2) by blast
qed

definition example_columns_source :: unity_source where
  "example_columns_source =
     example_info_source\<lparr>ms_table := (\<lambda>_ n. Inr (example_info_table ''hits''
       (map (\<lambda>(n, p). example_info_column n (Some p)) [(''k'', 10), (''a'', 1)])))\<rparr>"

definition example_column_row :: "nat \<Rightarrow> string \<Rightarrow> i32 \<Rightarrow> system_row" where
  "example_column_row index name pos =
     info_column_row (example_info_table ''hits'' (map (\<lambda>(n, p). example_info_column n (Some p)) [(''k'', 10), (''a'', 1)]))
       ''main'' ''sales'' ''hits'' index (example_info_column name (Some pos))"

lemma example_column_rows:
  "info_column_rows example_columns_source ''token'' None
     (from_exprs [ExBinary (ExColumn None ''table_name'') OpEq (ExLiteral (LitUtf8 (Some ''hits'')))]) =
   Inr [example_column_row 1 ''a'' 1, example_column_row 0 ''k'' 10]"
  by code_simp

theorem columns_in_order_witness:
  "map_of (example_column_row 1 ''a'' 1) ''ordinal_position'' = Some (int32_scalar (Some 2)) \<and>
   map_of (example_column_row 0 ''k'' 10) ''ordinal_position'' = Some (int32_scalar (Some 11)) \<and> sint (2 :: i32) \<le> sint (11 :: i32)"
proof -
  have pos: "map_of (example_column_row 1 ''a'' 1) ''ordinal_position'' = Some (int32_scalar (Some 2))"
    "map_of (example_column_row 0 ''k'' 10) ''ordinal_position'' = Some (int32_scalar (Some 11))"
    by (simp_all add: example_column_row_def info_column_row_def example_info_column_def Let_def)
  have "sint (2 :: i32) \<le> sint (11 :: i32)"
    by (rule columns_in_order [OF example_column_rows, of 0 1])
       (simp_all add: example_column_row_def info_column_row_def example_info_column_def Let_def)
  with pos show ?thesis by simp
qed

end
