(* ===== verification/Server.thy ===== *)
theory Server
  imports Engine Thrift_Service Observability
begin

text \<open>
  The HTTP front end (\<open>src/src/server.rs\<close>) and the command line (\<open>src/src/main.rs\<close>):
  the token of a request, the handlers of the routes, and the two modes of the program.

  Axum's routing, the extraction of paths and JSON bodies, header values as text and Base64 are
  parameters. A handler that calls the Thrift service is a program on the service's world; the
  one that calls the engine is a relation, as the engine's \<open>executes\<close> is.
\<close>

section \<open>The token of a request\<close>

text \<open>A header map: names in lower case, the values of a name in order.\<close>

type_synonym header_map = "(string \<times> string) list"

record header_fns =
  hd_to_str :: "string \<Rightarrow> string option"
  hd_base64_decode :: "string \<Rightarrow> bytes option"

definition header_value :: "header_fns \<Rightarrow> header_map \<Rightarrow> string \<Rightarrow> string" where
  "header_value hf headers name =
     (case map_of headers name of
        Some v \<Rightarrow> (case hd_to_str hf v of Some s \<Rightarrow> s | None \<Rightarrow> [])
      | None \<Rightarrow> [])"

definition bearer_auth_token :: "string \<Rightarrow> string option" where
  "bearer_auth_token v =
     (case split_once CHR '' '' (trim v) of
        None \<Rightarrow> None
      | Some (scheme, token) \<Rightarrow>
          if eq_ignore_ascii_case scheme ''bearer'' \<and> trim token \<noteq> [] then Some (trim token) else None)"

text \<open>\<open>str::get(..n)\<close>: nothing beyond the end or inside a character.\<close>

definition str_get_to :: "nat \<Rightarrow> string \<Rightarrow> string option" where
  "str_get_to n s =
     (if n = length s \<or> n < length s \<and> \<not> is_continuation (s ! n) then Some (take n s) else None)"

definition databricks_basic_auth_token :: "header_fns \<Rightarrow> string \<Rightarrow> string option" where
  "databricks_basic_auth_token hf v =
     (let v = trim v in
      case str_get_to 5 v of
        None \<Rightarrow> None
      | Some scheme \<Rightarrow>
          if \<not> eq_ignore_ascii_case scheme ''basic'' then None
          else let encoded = trim_start (drop 5 v) in
            if encoded = [] then None
            else (case hd_base64_decode hf encoded of
                None \<Rightarrow> None
              | Some decoded \<Rightarrow>
                  if \<not> utf8_valid decoded then None
                  else (case split_once CHR '':'' (bytes_str decoded) of
                      None \<Rightarrow> None
                    | Some (username, password) \<Rightarrow>
                        if username = ''token'' \<and> trim password \<noteq> [] then Some password else None)))"

definition auth_token :: "header_fns \<Rightarrow> header_map \<Rightarrow> string res" where
  "auth_token hf headers =
     (case Option.bind (map_of headers ''authorization'') (hd_to_str hf) of
        None \<Rightarrow> Inl MissingBearerToken
      | Some v \<Rightarrow>
          (case bearer_auth_token v of
             Some token \<Rightarrow> Inr token
           | None \<Rightarrow>
               (case databricks_basic_auth_token hf v of
                  Some token \<Rightarrow> Inr token
                | None \<Rightarrow> Inl MissingBearerToken)))"

section \<open>Handlers\<close>

datatype response_body =
    NoBody
  | ErrorBody string string
  | MetricsText string
  | ThriftBytes bytes
  | QueryResponse query_result
  | QueryHistoryResponse query_history
  | FeatureFlagsResponse "(string \<times> string) list" nat

record server_response =
  sr_status :: nat
  sr_content_type :: "string option"
  sr_body :: response_body

definition json_response :: "response_body \<Rightarrow> server_response" where
  "json_response body = \<lparr>sr_status = 200, sr_content_type = Some ''application/json'', sr_body = body\<rparr>"

text \<open>The response of a handler's result: \<open>IntoResponse\<close> of the error or of the value.\<close>

definition respond :: "('a \<Rightarrow> server_response) \<Rightarrow> 'a res \<Rightarrow> server_response" where
  "respond f r =
     (case r of
        Inr x \<Rightarrow> f x
      | Inl e \<Rightarrow>
          (let er = into_response e in
           \<lparr>sr_status = er_status er, sr_content_type = Some ''application/json'', sr_body = ErrorBody (er_error er) (er_message er)\<rparr>))"

definition healthz :: server_response where
  "healthz = \<lparr>sr_status = 204, sr_content_type = None, sr_body = NoBody\<rparr>"

definition metrics_response :: "string \<Rightarrow> server_response" where
  "metrics_response rendered =
     \<lparr>sr_status = 200, sr_content_type = Some ''text/plain; version=0.0.4'', sr_body = MetricsText rendered\<rparr>"

definition feature_flags :: "string \<Rightarrow> server_response" where
  "feature_flags version = json_response (FeatureFlagsResponse [] 900)"

definition thrift_rpc :: "header_fns \<Rightarrow> svc \<Rightarrow> header_map \<Rightarrow> bytes \<Rightarrow> (world, server_response) prog" where
  "thrift_rpc hf sv headers body =
     (let render = respond (\<lambda>bs. \<lparr>sr_status = 200, sr_content_type = Some ''application/x-thrift'', sr_body = ThriftBytes bs\<rparr>) in
      case auth_token hf headers of
        Inl e \<Rightarrow> Ret (render (Inl e))
      | Inr token \<Rightarrow> pbind (handle_request sv token body) (\<lambda>r. Ret (render r)))"

definition query_history_handler :: "header_fns \<Rightarrow> svc \<Rightarrow> header_map \<Rightarrow> string \<Rightarrow> (world, server_response) prog" where
  "query_history_handler hf sv headers query_id =
     (let render = respond (\<lambda>h. json_response (QueryHistoryResponse h)) in
      case auth_token hf headers of
        Inl e \<Rightarrow> Ret (render (Inl e))
      | Inr token \<Rightarrow>
          pbind (Thrift_Service.query_history sv token query_id) (\<lambda>found. Ret (render (case found of
              Some h \<Rightarrow> Inr h
            | None \<Rightarrow> Inl (Harbor_Error.Query (''unknown query id `'' @ query_id @ ''`''))))))"

record query_request =
  qr_sql :: string
  qr_catalog :: "string option"
  qr_schema :: "string option"

text \<open>The requests of the engine during a call of \<open>/api/v1/query\<close>, and the response.\<close>

definition query_handler ::
  "header_fns \<Rightarrow> 'p engine_fns \<Rightarrow> config \<Rightarrow> header_map \<Rightarrow> query_request \<Rightarrow> (engine_request, engine_answer) trace \<Rightarrow>
   server_response \<Rightarrow> bool" where
  "query_handler hf ef cfg headers request t response \<longleftrightarrow>
     (let render = respond (\<lambda>result. json_response (QueryResponse result)) in
      case auth_token hf headers of
        Inl e \<Rightarrow> t = [] \<and> response = render (Inl e)
      | Inr token \<Rightarrow>
          (\<exists>result. executes ef cfg token (qr_sql request)
             (case qr_catalog request of Some c \<Rightarrow> c | None \<Rightarrow> cf_default_catalog cfg)
             (case qr_schema request of Some s \<Rightarrow> s | None \<Rightarrow> cf_default_schema cfg) t result \<and>
           response = render result))"

definition route_label :: "string \<Rightarrow> string" where
  "route_label path =
     (if path = ''/healthz'' then ''/healthz''
      else if path = ''/metrics'' then ''/metrics''
      else if path = ''/api/v1/query'' then ''/api/v1/query''
      else if starts_with path ''/api/2.0/connector-service/feature-flags/PYTHON/''
      then ''/api/2.0/connector-service/feature-flags/PYTHON/{version}''
      else if starts_with path ''/api/2.0/sql/history/queries/'' then ''/api/2.0/sql/history/queries/{query_id}''
      else ''/{*path}'')"

text \<open>
  The routes of \<open>serve\<close>. A path is matched against the fixed routes, then against those with a
  parameter, which is one segment that is not empty, then against the rest; the method is looked
  at afterwards, and a route for \<open>GET\<close> also answers \<open>HEAD\<close>.
\<close>

datatype handler =
    Healthz
  | Metrics
  | PostQuery
  | FeatureFlags string
  | QueryHistory string
  | ThriftRpc string

datatype routed = Routed handler | MethodNotAllowed | NotFound

definition one_segment :: "string \<Rightarrow> string \<Rightarrow> string option" where
  "one_segment pre path =
     (if starts_with path pre \<and> drop (length pre) path \<noteq> [] \<and> CHR ''/'' \<notin> set (drop (length pre) path)
      then Some (drop (length pre) path) else None)"

definition route_of_path :: "string \<Rightarrow> handler option" where
  "route_of_path path =
     (if path = ''/healthz'' then Some Healthz
      else if path = ''/metrics'' then Some Metrics
      else if path = ''/api/v1/query'' then Some PostQuery
      else case one_segment ''/api/2.0/connector-service/feature-flags/PYTHON/'' path of
        Some version \<Rightarrow> Some (FeatureFlags version)
      | None \<Rightarrow>
          (case one_segment ''/api/2.0/sql/history/queries/'' path of
             Some query_id \<Rightarrow> Some (QueryHistory query_id)
           | None \<Rightarrow> if starts_with path ''/'' \<and> path \<noteq> ''/'' then Some (ThriftRpc (drop 1 path)) else None))"

definition allows :: "handler \<Rightarrow> string \<Rightarrow> bool" where
  "allows h meth =
     (case h of
        PostQuery \<Rightarrow> meth = ''POST''
      | ThriftRpc _ \<Rightarrow> meth = ''POST''
      | _ \<Rightarrow> meth \<in> {''GET'', ''HEAD''})"

definition route_request :: "string \<Rightarrow> string \<Rightarrow> routed" where
  "route_request meth path =
     (case route_of_path path of
        None \<Rightarrow> NotFound
      | Some h \<Rightarrow> if allows h meth then Routed h else MethodNotAllowed)"

text \<open>The middleware: the response passes through, and its status is counted.\<close>

definition record_http_metrics ::
  "'f float_fns \<Rightarrow> string \<Rightarrow> string \<Rightarrow> server_response \<Rightarrow> nat \<Rightarrow> 'f metrics \<Rightarrow> server_response \<times> 'f metrics" where
  "record_http_metrics ff meth path response elapsed m =
     (response, observe_http ff meth (route_label path) (sr_status response) elapsed m)"

section \<open>The command line\<close>

datatype command = QueryCommand string string | ServerCommand

fun read_arg_value :: "string list \<Rightarrow> string \<Rightarrow> string res" where
  "read_arg_value [] name = Inl (Config (name @ '' is required''))"
| "read_arg_value (arg # args) name =
     (if arg = name
      then (case args of v # _ \<Rightarrow> Inr v | [] \<Rightarrow> Inl (Config (name @ '' needs a value'')))
      else read_arg_value args name)"

text \<open>The arguments after the program's name.\<close>

definition main_command :: "env \<Rightarrow> string list \<Rightarrow> command res" where
  "main_command env args =
     (case args of
        [] \<Rightarrow> Inr ServerCommand
      | command # args \<Rightarrow>
          if command = ''query''
          then sbind (read_arg_value args ''--sql'') (\<lambda>sql.
            case env ''DATABRICKS_TOKEN'' of
              Some token \<Rightarrow> Inr (QueryCommand sql token)
            | None \<Rightarrow> Inl (Config ''DATABRICKS_TOKEN is required for query mode''))
          else if command = ''server'' then Inr ServerCommand
          else Inl (Config (''unknown command `'' @ command @ ''`; use `server` or `query --sql ...`'')))"

end
