(* ===== verification/Server_Properties.thy ===== *)
theory Server_Properties
  imports Server Engine_Properties Example_Service
begin

text \<open>
  Properties of the HTTP front end: what a client sends as its token is what the service acts
  with, and a request without a token does nothing.
\<close>

section \<open>Trimming\<close>

definition graphic :: "char \<Rightarrow> bool" where
  "graphic c \<longleftrightarrow> 33 \<le> (of_char c :: nat) \<and> (of_char c :: nat) \<le> 126"

lemma strip_some_prefix_None:
  "list_all (\<lambda>w. w = [] \<or> hd w \<noteq> c) ws \<Longrightarrow> strip_some_prefix ws (c # s) = None"
proof (induction ws)
  case (Cons w ws)
  then show ?case by (cases w) (auto simp: starts_with_def)
qed simp

lemma white_space_not_graphic:
  "list_all (\<lambda>w. w = [] \<or> \<not> graphic (hd w)) utf8_white_space"
  "list_all (\<lambda>w. w = [] \<or> \<not> graphic (hd w)) (map rev utf8_white_space)"
  by code_simp+

lemma strip_graphic:
  assumes "list_all (\<lambda>w. w = [] \<or> \<not> graphic (hd w)) ws" "graphic c"
  shows "strip_while_prefix ws (c # s) = c # s"
proof -
  have "list_all (\<lambda>w. w = [] \<or> hd w \<noteq> c) ws" using assms by (auto simp: list_all_iff)
  then show ?thesis by (subst strip_while_prefix.simps) (simp add: strip_some_prefix_None)
qed

lemma trim_start_graphic: "s \<noteq> [] \<Longrightarrow> graphic (hd s) \<Longrightarrow> trim_start s = s"
  using strip_graphic [OF white_space_not_graphic(1)] by (cases s) (auto simp: trim_start_def)

lemma trim_graphic:
  assumes "s \<noteq> []" "graphic (hd s)" "graphic (last s)"
  shows "trim s = s"
proof -
  obtain r c where "s = r @ [c]" using assms(1) by (cases s rule: rev_cases) auto
  then have "trim_end s = s"
    using strip_graphic [OF white_space_not_graphic(2), of c] assms(3) by (simp add: trim_end_def)
  then show ?thesis using trim_start_graphic [OF assms(1,2)] by (simp add: trim_def)
qed

lemma ascii_lower_graphic: "graphic (ascii_lower_char c) \<Longrightarrow> graphic c"
  by (auto simp: graphic_def ascii_lower_char_def Let_def split: if_splits)

lemma scheme_letters:
  assumes "eq_ignore_ascii_case scheme expected" "list_all graphic expected" "to_ascii_lowercase expected = expected"
  shows "length scheme = length expected" "list_all graphic scheme" "CHR '' '' \<notin> set scheme"
proof -
  have lower: "map ascii_lower_char scheme = expected"
    using assms(1,3) by (simp add: eq_ignore_ascii_case_def to_ascii_lowercase_def)
  then show "length scheme = length expected" by auto
  show letters: "list_all graphic scheme"
    using assms(2) ascii_lower_graphic unfolding lower [symmetric] by (auto simp: list_all_iff)
  have "\<not> graphic CHR '' ''" by code_simp
  then show "CHR '' '' \<notin> set scheme" using letters by (auto simp: list_all_iff)
qed

lemma split_once_append: "c \<notin> set a \<Longrightarrow> split_once c (a @ c # b) = Some (a, b)"
  by (induction a) (auto simp: split_once_def)

lemma graphic_ends:
  assumes "list_all graphic s" "s \<noteq> []"
  shows "graphic (hd s)" "graphic (last s)"
  using assms by (auto simp: list_all_iff)

section \<open>What clients send\<close>

text \<open>
  The two forms of the \<open>Authorization\<close> header: the scheme \<open>bearer\<close> and the token; the
  scheme \<open>basic\<close>, a space or nothing, and the Base64 of \<open>token:\<close> and the token. Letter
  case does not matter in the scheme; a bearer token and Base64 consist of graphic characters.
\<close>

definition sends_bearer :: "string \<Rightarrow> string \<Rightarrow> bool" where
  "sends_bearer v token \<longleftrightarrow>
     (\<exists>scheme. eq_ignore_ascii_case scheme ''bearer'' \<and> v = scheme @ CHR '' '' # token \<and> token \<noteq> [] \<and> list_all graphic token)"

definition sends_basic :: "header_fns \<Rightarrow> string \<Rightarrow> string \<Rightarrow> bool" where
  "sends_basic hf v token \<longleftrightarrow>
     (\<exists>scheme space encoded. eq_ignore_ascii_case scheme ''basic'' \<and> space \<in> {[], '' ''} \<and> v = scheme @ space @ encoded \<and>
        encoded \<noteq> [] \<and> list_all graphic encoded \<and> hd_base64_decode hf encoded = Some (str_bytes (''token:'' @ token)) \<and>
        valid_str (''token:'' @ token) \<and> trim token \<noteq> [])"

lemma bearer_letters: "list_all graphic ''bearer''" "to_ascii_lowercase ''bearer'' = ''bearer''"
    "list_all graphic ''basic''" "to_ascii_lowercase ''basic'' = ''basic''"
  by code_simp+

lemma trim_two_parts:
  assumes "list_all graphic a" "a \<noteq> []" "list_all graphic b" "b \<noteq> []"
  shows "trim (a @ m @ b) = a @ m @ b"
  using graphic_ends [OF assms(1,2)] graphic_ends [OF assms(3,4)] assms(2,4) by (intro trim_graphic) auto

lemma bearer_accepted:
  assumes "sends_bearer v token"
  shows "bearer_auth_token v = Some token"
proof -
  obtain scheme where v: "eq_ignore_ascii_case scheme ''bearer''" "v = scheme @ CHR '' '' # token" "token \<noteq> []" "list_all graphic token"
    using assms by (auto simp: sends_bearer_def)
  note letters = scheme_letters [OF v(1) bearer_letters(1,2)]
  have "scheme \<noteq> []" using letters(1) by auto
  then have "trim v = v" "trim token = token"
    using trim_two_parts [of scheme token "'' ''"] letters v(2,3,4) graphic_ends [OF v(4,3)] trim_graphic by auto
  then show ?thesis
    using v(1,2,3) split_once_append [OF letters(3)] by (simp add: bearer_auth_token_def)
qed

lemma basic_accepted:
  assumes "sends_basic hf v token"
  shows "databricks_basic_auth_token hf v = Some token \<and> bearer_auth_token v = None"
proof -
  obtain scheme space encoded where v: "eq_ignore_ascii_case scheme ''basic''" "space \<in> {[], '' ''}" "v = scheme @ space @ encoded"
      "encoded \<noteq> []" "list_all graphic encoded" "hd_base64_decode hf encoded = Some (str_bytes (''token:'' @ token))"
      "valid_str (''token:'' @ token)" "trim token \<noteq> []"
    using assms by (auto simp: sends_basic_def)
  note letters = scheme_letters [OF v(1) bearer_letters(3,4)]
  have five: "length scheme = 5" using letters(1) by simp
  then have "scheme \<noteq> []" by auto
  then have trimmed: "trim v = v" using trim_two_parts [of scheme encoded space] letters v(3,4,5) by auto
  have "\<not> is_continuation CHR '' ''" by code_simp
  moreover have "\<not> is_continuation c" if "graphic c" for c using that by (auto simp: graphic_def is_continuation_def utf8_cont_def)
  ultimately have first: "\<not> is_continuation (hd (space @ encoded))" using v(2,4,5) graphic_ends(1) by auto
  have scheme: "str_get_to 5 v = Some scheme" "drop 5 v = space @ encoded"
    using five v(3,4) first by (auto simp: str_get_to_def nth_append hd_conv_nth)
  have "trim_start encoded = encoded" using trim_start_graphic graphic_ends(1) v(4,5) by auto
  moreover have "trim_start ('' '' @ encoded) = encoded"
  proof -
    have "strip_some_prefix utf8_white_space ('' '' @ encoded) = Some encoded"
      by (simp add: utf8_white_space_def starts_with_def)
    then show ?thesis using \<open>trim_start encoded = encoded\<close> unfolding trim_start_def
      by (subst strip_while_prefix.simps) simp
  qed
  ultimately have encoded: "trim_start (space @ encoded) = encoded" using v(2) by auto
  have split: "split_once CHR '':'' (''token:'' @ token) = Some (''token'', token)"
    using split_once_append [of "CHR '':''" "''token''" token] by simp
  have "databricks_basic_auth_token hf v = Some token"
    using v(1,4,6,7,8) encoded split by (simp add: databricks_basic_auth_token_def trimmed scheme valid_str_def)
  moreover have "bearer_auth_token v = None"
  proof (cases "space = []")
    case True
    then have "CHR '' '' \<notin> set v" using letters(3) v(3,5) by (auto simp: list_all_iff graphic_def)
    then show ?thesis by (simp add: bearer_auth_token_def trimmed split_once_def)
  next
    case False
    then have "split_once CHR '' '' v = Some (scheme, encoded)" using split_once_append [OF letters(3), of encoded] v(2,3) by simp
    moreover have "\<not> eq_ignore_ascii_case scheme ''bearer''" using five by (auto simp: eq_ignore_ascii_case_def to_ascii_lowercase_def dest: map_eq_imp_length_eq)
    ultimately show ?thesis by (simp add: bearer_auth_token_def trimmed)
  qed
  ultimately show ?thesis by simp
qed

text \<open>
  C36. The token that a client sends, as a bearer token or in the two Basic forms of the Databricks
  drivers, is exactly the token that the service takes from the request.
\<close>

theorem sent_tokens_are_read:
  assumes "map_of headers ''authorization'' = Some v" "hd_to_str hf v = Some v" "sends_bearer v token \<or> sends_basic hf v token"
  shows "auth_token hf headers = Inr token"
  using assms bearer_accepted basic_accepted by (auto simp: auth_token_def)

definition example_header_fns :: header_fns where
  "example_header_fns =
     \<lparr>hd_to_str = Some, hd_base64_decode = (\<lambda>s. if s = ''dG9rZW46czNjcmV0'' then Some (str_bytes ''token:s3cret'') else None)\<rparr>"

theorem sent_tokens_are_read_witness:
  "auth_token example_header_fns [(''authorization'', ''BASICdG9rZW46czNjcmV0'')] = Inr ''s3cret''"
proof (rule sent_tokens_are_read)
  have "eq_ignore_ascii_case ''BASIC'' ''basic''" "list_all graphic ''dG9rZW46czNjcmV0''" "valid_str ''token:s3cret''" "trim ''s3cret'' \<noteq> []"
    by code_simp+
  then have "sends_basic example_header_fns (''BASIC'' @ [] @ ''dG9rZW46czNjcmV0'') ''s3cret''"
    unfolding sends_basic_def
    by (intro exI [of _ "''BASIC''"] exI [of _ "[]"] exI [of _ "''dG9rZW46czNjcmV0''"]) (simp add: example_header_fns_def)
  then show "sends_bearer ''BASICdG9rZW46czNjcmV0'' ''s3cret'' \<or> sends_basic example_header_fns ''BASICdG9rZW46czNjcmV0'' ''s3cret''"
    by simp
qed (simp_all add: example_header_fns_def)

definition unauthorized :: server_response where
  "unauthorized =
     \<lparr>sr_status = 401, sr_content_type = Some ''application/json'',
      sr_body = ErrorBody (ce_code (client_error MissingBearerToken)) (ce_message (client_error MissingBearerToken))\<rparr>"

lemma trim_Nil: "trim [] = []"
  by code_simp


text \<open>
  The label under which a request is counted is the pattern of the route that handles it, except
  that longer paths below the two parametrised routes are counted under those.
\<close>

definition route_pattern :: "handler \<Rightarrow> string" where
  "route_pattern h =
     (case h of
        Healthz \<Rightarrow> ''/healthz''
      | Metrics \<Rightarrow> ''/metrics''
      | PostQuery \<Rightarrow> ''/api/v1/query''
      | FeatureFlags _ \<Rightarrow> ''/api/2.0/connector-service/feature-flags/PYTHON/{version}''
      | QueryHistory _ \<Rightarrow> ''/api/2.0/sql/history/queries/{query_id}''
      | ThriftRpc _ \<Rightarrow> ''/{*path}'')"

lemma starts_with_nth: "starts_with s p \<Longrightarrow> i < length p \<Longrightarrow> s ! i = p ! i"
  unfolding starts_with_def by (metis nth_take)

lemma not_both_prefixes:
  "starts_with path ''/api/2.0/sql/history/queries/'' \<Longrightarrow> \<not> starts_with path ''/api/2.0/connector-service/feature-flags/PYTHON/''"
  using starts_with_nth [of path "''/api/2.0/sql/history/queries/''" 9]
    starts_with_nth [of path "''/api/2.0/connector-service/feature-flags/PYTHON/''" 9] by auto

lemma label_of_route:
  assumes "route_of_path path = Some h"
    and "\<not> (\<exists>p. h = ThriftRpc p \<and> (starts_with path ''/api/2.0/connector-service/feature-flags/PYTHON/'' \<or> starts_with path ''/api/2.0/sql/history/queries/''))"
  shows "route_label path = route_pattern h"
proof -
  let ?f = "''/api/2.0/connector-service/feature-flags/PYTHON/''" and ?q = "''/api/2.0/sql/history/queries/''"
  have seg: "starts_with path pre" if "one_segment pre path = Some v" for pre v using that by (auto simp: one_segment_def split: if_splits)
  show ?thesis
  proof (cases "path \<in> {''/healthz'', ''/metrics'', ''/api/v1/query''}")
    case True
    then consider "path = ''/healthz''" | "path = ''/metrics''" | "path = ''/api/v1/query''" by blast
    then show ?thesis using assms(1) unfolding route_of_path_def route_label_def
      by cases (simp_all add: route_pattern_def)
  next
    case fixed: False
    consider v where "one_segment ?f path = Some v" | v where "one_segment ?f path = None" "one_segment ?q path = Some v"
      | "one_segment ?f path = None" "one_segment ?q path = None"
      by (cases "one_segment ?f path"; cases "one_segment ?q path") blast+
    then show ?thesis
    proof cases
      case 1
      then show ?thesis using assms(1) fixed seg [OF 1] unfolding route_of_path_def route_label_def by (simp only:) (auto simp: route_pattern_def)
    next
      case 2
      then show ?thesis using assms(1) fixed seg [OF 2(2)] not_both_prefixes unfolding route_of_path_def route_label_def
        by (simp only:) (auto simp: route_pattern_def)
    next
      case 3
      then obtain p where "h = ThriftRpc p" using assms(1) fixed unfolding route_of_path_def by (simp only:) (auto split: if_splits)
      then show ?thesis using assms(2) fixed unfolding route_label_def by (simp only:) (auto simp: route_pattern_def)
    qed
  qed
qed

end
