(* ===== verification/Redaction.thy ===== *)
theory Redaction
  imports Harbor_Error
begin

text \<open>
  What is removed from a text before it is logged (\<open>redaction_patterns\<close> in
  \<open>src/src/error.rs\<close>). The patterns are the source's; the \<open>regex\<close> crate that runs them is a
  parameter of \<open>redact_sensitive\<close>, and the first section states its documented meaning: of all
  matches the leftmost is taken, among those at one position the one that a backtracking search
  finds first, repetitions are greedy, and word boundaries look at the whole text. The tables of
  Unicode (word characters, white space, case folding) are parameters too.

  A text is the list of its characters, each of them the UTF-8 bytes of one character.
\<close>

section \<open>Regular expressions\<close>

record unicode_tables =
  uc_word :: "string \<Rightarrow> bool"
  uc_space :: "string \<Rightarrow> bool"
  uc_fold :: "string \<Rightarrow> string \<Rightarrow> bool"

datatype rx =
    Eps
  | Chars "string \<Rightarrow> bool"
  | WordBoundary
  | Then rx rx
  | Or rx rx
  | Repeat nat "nat option" rx
  | Group nat rx

text \<open>A state of the search: the position and the groups captured so far, the latest first.\<close>

type_synonym rx_state = "nat \<times> (nat \<times> nat \<times> nat) list"

definition word_at :: "unicode_tables \<Rightarrow> string list \<Rightarrow> nat \<Rightarrow> bool" where
  "word_at u t i \<longleftrightarrow> i < length t \<and> uc_word u (t ! i)"

definition word_boundary :: "unicode_tables \<Rightarrow> string list \<Rightarrow> nat \<Rightarrow> bool" where
  "word_boundary u t i \<longleftrightarrow> (0 < i \<and> word_at u t (i - 1)) \<noteq> word_at u t i"

text \<open>
  Up to \<open>hi\<close> and at least \<open>lo\<close> iterations, more before fewer. An iteration that consumes
  nothing is not taken, so there are no more iterations than characters.
\<close>

primrec greedy :: "(rx_state \<Rightarrow> rx_state list) \<Rightarrow> nat \<Rightarrow> nat \<Rightarrow> nat option \<Rightarrow> rx_state \<Rightarrow> rx_state list" where
  "greedy step 0 lo hi m = (if lo = 0 then [m] else [])"
| "greedy step (Suc fuel) lo hi m =
     (if hi = Some 0 then []
      else concat (map (greedy step fuel (lo - 1) (map_option (\<lambda>n. n - 1) hi)) (filter (\<lambda>m'. fst m < fst m') (step m)))) @
     (if lo = 0 then [m] else [])"

text \<open>The states after a match, in the order in which a backtracking search finds them.\<close>

primrec rx_matches :: "unicode_tables \<Rightarrow> string list \<Rightarrow> rx \<Rightarrow> rx_state \<Rightarrow> rx_state list" where
  "rx_matches u t Eps = (\<lambda>m. [m])"
| "rx_matches u t (Chars p) = (\<lambda>m. if fst m < length t \<and> p (t ! fst m) then [(Suc (fst m), snd m)] else [])"
| "rx_matches u t WordBoundary = (\<lambda>m. if word_boundary u t (fst m) then [m] else [])"
| "rx_matches u t (Then r s) = (\<lambda>m. concat (map (rx_matches u t s) (rx_matches u t r m)))"
| "rx_matches u t (Or r s) = (\<lambda>m. rx_matches u t r m @ rx_matches u t s m)"
| "rx_matches u t (Repeat lo hi r) = (\<lambda>m. greedy (rx_matches u t r) (length t) lo hi m)"
| "rx_matches u t (Group k r) = (\<lambda>m. map (\<lambda>m'. (fst m', (k, fst m, fst m') # snd m')) (rx_matches u t r m))"

definition rx_find :: "unicode_tables \<Rightarrow> string list \<Rightarrow> rx \<Rightarrow> nat \<Rightarrow> (nat \<times> rx_state) option" where
  "rx_find u t r s =
     (case filter (\<lambda>i. rx_matches u t r (i, []) \<noteq> []) [s..<Suc (length t)] of
        [] \<Rightarrow> None
      | i # _ \<Rightarrow> Some (i, hd (rx_matches u t r (i, []))))"

definition segment :: "nat \<Rightarrow> nat \<Rightarrow> 'a list \<Rightarrow> 'a list" where
  "segment i j t = take (j - i) (drop i t)"

definition ascii :: "(char \<Rightarrow> bool) \<Rightarrow> string \<Rightarrow> bool" where
  "ascii p c = (case c of [b] \<Rightarrow> p b | _ \<Rightarrow> False)"

definition lower :: string where
  "lower = ''abcdefghijklmnopqrstuvwxyz''"

definition upper :: string where
  "upper = ''ABCDEFGHIJKLMNOPQRSTUVWXYZ''"

definition decimal :: string where
  "decimal = ''0123456789''"

definition name_char :: "string \<Rightarrow> bool" where
  "name_char = ascii (\<lambda>b. b \<in> set (upper @ lower @ decimal @ ''_''))"

text \<open>The text of a group; of a group that took no part in the match or does not exist, nothing.\<close>

definition capture :: "string list \<Rightarrow> (nat \<times> nat \<times> nat) list \<Rightarrow> string list \<Rightarrow> string list" where
  "capture t caps name =
     (if list_all (ascii is_ascii_digit) name
      then (case map_of caps (digits_value 0 (concat name)) of Some (i, j) \<Rightarrow> segment i j t | None \<Rightarrow> [])
      else [])"

text \<open>The replacement: \<open>$\<close> and the longest name after it stand for a group, \<open>$$\<close> for a dollar sign.\<close>

function rx_expand :: "string list \<Rightarrow> (nat \<times> nat \<times> nat) list \<Rightarrow> string list \<Rightarrow> string list" where
  "rx_expand t caps [] = []"
| "rx_expand t caps (c # cs) =
     (if c \<noteq> ''$'' then c # rx_expand t caps cs
      else if cs \<noteq> [] \<and> hd cs = ''$'' then ''$'' # rx_expand t caps (tl cs)
      else if takeWhile name_char cs = [] then ''$'' # rx_expand t caps cs
      else capture t caps (takeWhile name_char cs) @ rx_expand t caps (dropWhile name_char cs))"
  by pat_completeness auto
termination
  by (relation "measure (\<lambda>(t, caps, cs). length cs)") (auto simp: le_imp_less_Suc length_dropWhile_le)

text \<open>
  \<open>Regex::replace_all\<close>: every match is replaced and the search goes on behind it, behind the next
  character if the match is empty. There are at most as many matches as positions.
\<close>

primrec replace_from :: "unicode_tables \<Rightarrow> string list \<Rightarrow> rx \<Rightarrow> string list \<Rightarrow> nat \<Rightarrow> nat \<Rightarrow> string list" where
  "replace_from u t r rep 0 s = drop s t"
| "replace_from u t r rep (Suc fuel) s =
     (case rx_find u t r s of
        None \<Rightarrow> drop s t
      | Some (i, j, caps) \<Rightarrow>
          segment s i t @ rx_expand t caps rep @
          (if i < j then replace_from u t r rep fuel j
           else segment i (Suc i) t @ replace_from u t r rep fuel (Suc i)))"

definition replace_text :: "unicode_tables \<Rightarrow> rx \<Rightarrow> string list \<Rightarrow> string list \<Rightarrow> string list" where
  "replace_text u r t rep = replace_from u t r rep (Suc (length t)) 0"

definition documented_regex :: "unicode_tables \<Rightarrow> (rx \<Rightarrow> string \<Rightarrow> string \<Rightarrow> string) \<Rightarrow> bool" where
  "documented_regex u replace_all \<longleftrightarrow>
     (\<forall>r s rep. replace_all r s rep = concat (replace_text u r (utf8_chars s) (utf8_chars rep)))"

definition ascii_word :: "char \<Rightarrow> bool" where
  "ascii_word b \<longleftrightarrow> name_char [b]"

definition ascii_space :: "char \<Rightarrow> bool" where
  "ascii_space b \<longleftrightarrow> b \<in> {CHR 0x09, CHR 0x0A, CHR 0x0B, CHR 0x0C, CHR 0x0D, CHR '' ''}"

text \<open>What the Unicode classes are on ASCII, and that white space is no word character.\<close>

definition documented_tables :: "unicode_tables \<Rightarrow> bool" where
  "documented_tables u \<longleftrightarrow>
     (\<forall>b. (of_char b :: nat) < 128 \<longrightarrow> uc_word u [b] = ascii_word b \<and> uc_space u [b] = ascii_space b) \<and>
     (\<forall>c. uc_space u c \<longrightarrow> \<not> uc_word u c)"

section \<open>The patterns\<close>

definition seq :: "rx list \<Rightarrow> rx" where
  "seq rs = foldr Then rs Eps"

definition one_of :: "rx list \<Rightarrow> rx" where
  "one_of rs = foldr Or (butlast rs) (last rs)"

definition in_set :: "string \<Rightarrow> rx" where
  "in_set bs = Chars (ascii (\<lambda>b. b \<in> set bs))"

definition opt :: "rx \<Rightarrow> rx" where
  "opt r = Repeat 0 (Some 1) r"

definition spaces :: "unicode_tables \<Rightarrow> nat \<Rightarrow> rx" where
  "spaces u lo = Repeat lo None (Chars (uc_space u))"

text \<open>A literal, and one under the flag \<open>(?i)\<close>.\<close>

definition lit :: "string \<Rightarrow> rx" where
  "lit s = seq (map (\<lambda>b. in_set [b]) s)"

definition lit_i :: "unicode_tables \<Rightarrow> string \<Rightarrow> rx" where
  "lit_i u s = seq (map (\<lambda>b. Chars (\<lambda>c. uc_fold u c [b])) s)"

definition DQ :: char where
  "DQ = CHR 0x22"

definition SQ :: char where
  "SQ = CHR 0x27"

text \<open>The negated class at the end of paths and URLs: no white space, quote, closing bracket or comma.\<close>

definition link_char :: "unicode_tables \<Rightarrow> rx" where
  "link_char u = Chars (\<lambda>c. \<not> uc_space u c \<and> \<not> ascii (\<lambda>b. b \<in> set ([DQ, SQ] @ '')]}>,'')) c)"

definition storage_url_pattern :: "unicode_tables \<Rightarrow> rx" where
  "storage_url_pattern u =
     seq [WordBoundary,
          one_of [seq [lit_i u ''s3'', opt (lit_i u ''a'')], seq [lit_i u ''abfs'', opt (lit_i u ''s'')],
                  seq [lit_i u ''wasb'', opt (lit_i u ''s'')], lit_i u ''gs'', lit_i u ''dbfs''],
          lit ''://'', Repeat 1 None (link_char u)]"

definition url_pattern :: "unicode_tables \<Rightarrow> rx" where
  "url_pattern u = seq [WordBoundary, lit_i u ''http'', opt (lit_i u ''s''), lit ''://'', Repeat 1 None (link_char u)]"

definition volume_path_pattern :: "unicode_tables \<Rightarrow> rx" where
  "volume_path_pattern u =
     seq [lit ''/'', one_of [lit_i u ''Volumes'', lit_i u ''dbfs'', lit_i u ''mnt'', lit_i u ''__unitystorage''],
          Repeat 1 None (seq [lit ''/'', Repeat 1 None (link_char u)])]"

definition authorization_pattern :: "unicode_tables \<Rightarrow> rx" where
  "authorization_pattern u =
     seq [WordBoundary,
          Group 1 (seq [lit_i u ''authorization'', spaces u 0, in_set '':='', spaces u 0, lit_i u ''bearer'', spaces u 1]),
          Repeat 1 None (Chars (\<lambda>c. \<not> uc_space u c \<and> \<not> ascii (\<lambda>b. b \<in> set '',;'') c))]"

definition bearer_pattern :: "unicode_tables \<Rightarrow> rx" where
  "bearer_pattern u =
     seq [WordBoundary, Group 1 (seq [lit_i u ''bearer'', spaces u 1]),
          Repeat 1 None (Chars (\<lambda>c. list_ex (\<lambda>b. uc_fold u c [b]) (upper @ lower @ decimal @ ''._~+/-='')))]"

definition databricks_token_pattern :: rx where
  "databricks_token_pattern =
     seq [WordBoundary, lit ''dapi'', Repeat 16 None (in_set (upper @ lower @ decimal)), WordBoundary]"

definition jwt_part :: rx where
  "jwt_part = Repeat 1 None (in_set (upper @ lower @ decimal @ ''_-''))"

definition jwt_pattern :: rx where
  "jwt_pattern = seq [WordBoundary, lit ''eyJ'', jwt_part, lit ''.'', jwt_part, lit ''.'', jwt_part, WordBoundary]"

definition access_key_pattern :: rx where
  "access_key_pattern =
     seq [WordBoundary, one_of [lit ''AKIA'', lit ''ASIA''], Repeat 16 (Some 16) (in_set (decimal @ upper)), WordBoundary]"

text \<open>A name whose parts may be joined by an underscore, by a hyphen or directly.\<close>

definition joined :: "unicode_tables \<Rightarrow> string list \<Rightarrow> rx" where
  "joined u parts = seq (tl (concat (map (\<lambda>p. [opt (in_set ''_-''), lit_i u p]) parts)))"

definition sensitive_keys :: "unicode_tables \<Rightarrow> rx list" where
  "sensitive_keys u =
     [joined u [''access'', ''key'', ''id''], joined u [''aws'', ''access'', ''key'', ''id''],
      joined u [''secret'', ''access'', ''key''], joined u [''aws'', ''secret'', ''access'', ''key''],
      joined u [''session'', ''token''], joined u [''aws'', ''session'', ''token''], joined u [''security'', ''token''],
      lit_i u ''x-amz-credential'', lit_i u ''x-amz-signature'', lit_i u ''x-amz-security-token'',
      lit_i u ''databricks-token'', lit_i u ''authorization'',
      joined u [''access'', ''token''], joined u [''refresh'', ''token''], joined u [''id'', ''token''], lit_i u ''token'',
      joined u [''client'', ''secret''], lit_i u ''password'', joined u [''workspace'', ''id''], joined u [''workspace'', ''url''],
      joined u [''warehouse'', ''id''], joined u [''table'', ''id''], joined u [''full'', ''name''], joined u [''catalog'', ''name''],
      joined u [''schema'', ''name''], joined u [''storage'', ''location''], joined u [''credential'', ''name''],
      joined u [''external'', ''location''], lit_i u ''url'', lit_i u ''path'']"

definition key_value_pattern :: "unicode_tables \<Rightarrow> rx" where
  "key_value_pattern u =
     seq [Group 1 (seq [opt (in_set [DQ]), one_of (sensitive_keys u), opt (in_set [DQ]), spaces u 0, in_set '':='', spaces u 0]),
          opt (in_set [DQ]),
          Repeat 1 None (Chars (\<lambda>c. \<not> uc_space u c \<and> \<not> ascii (\<lambda>b. b \<in> set ([DQ, SQ] @ '',}]'')) c))]"

text \<open>A statement given by name between two quotes.\<close>

definition quoted_sql_pattern :: "unicode_tables \<Rightarrow> char \<Rightarrow> rx" where
  "quoted_sql_pattern u quote =
     seq [WordBoundary, Group 1 (one_of [lit_i u ''sql'', lit_i u ''query'', lit_i u ''statement'']), WordBoundary,
          spaces u 0, in_set '':='', spaces u 0,
          in_set [quote], Repeat 0 None (Chars (\<lambda>c. c \<noteq> [quote])), in_set [quote]]"

definition statement_pattern :: "unicode_tables \<Rightarrow> rx" where
  "statement_pattern u =
     seq [WordBoundary,
          one_of (map (lit_i u) [''select'', ''with'', ''insert'', ''update'', ''delete'', ''merge'', ''create'', ''drop'',
            ''alter'', ''describe'', ''show'', ''explain'']),
          WordBoundary, Repeat 0 (Some 2000) (Chars (\<lambda>c. c \<noteq> '';'')), in_set '';'']"

definition redaction_patterns :: "unicode_tables \<Rightarrow> (rx \<times> string) list" where
  "redaction_patterns u =
     [(storage_url_pattern u, ''[REDACTED_PATH]''),
      (url_pattern u, ''[REDACTED_URL]''),
      (volume_path_pattern u, ''[REDACTED_PATH]''),
      (authorization_pattern u, ''$1[REDACTED]''),
      (bearer_pattern u, ''$1[REDACTED]''),
      (databricks_token_pattern, ''[REDACTED_DATABRICKS_TOKEN]''),
      (jwt_pattern, ''[REDACTED_TOKEN]''),
      (access_key_pattern, ''[REDACTED_AWS_ACCESS_KEY]''),
      (key_value_pattern u, ''$1[REDACTED]''),
      (quoted_sql_pattern u DQ, ''$1=[REDACTED_SQL]''),
      (quoted_sql_pattern u SQ, ''$1=[REDACTED_SQL]''),
      (statement_pattern u, ''[REDACTED_SQL]'')]"

definition redacted_internal_message :: "(rx \<Rightarrow> string \<Rightarrow> string \<Rightarrow> string) \<Rightarrow> unicode_tables \<Rightarrow> harbor_error \<Rightarrow> string" where
  "redacted_internal_message replace_all u e = redact_sensitive replace_all (redaction_patterns u) (error_to_string e)"

text \<open>The event that \<open>log_internal\<close> writes when a request fails.\<close>

record log_event =
  le_error_code :: string
  le_http_status :: nat
  le_internal_error :: string
  le_context :: string

definition log_internal ::
  "(rx \<Rightarrow> string \<Rightarrow> string \<Rightarrow> string) \<Rightarrow> unicode_tables \<Rightarrow> string \<Rightarrow> harbor_error \<Rightarrow> log_event" where
  "log_internal replace_all u context e =
     \<lparr>le_error_code = ce_code (client_error e), le_http_status = status_code e,
      le_internal_error = redacted_internal_message replace_all u e, le_context = context\<rparr>"

end
