(* ===== verification/Redaction_Properties.thy ===== *)
theory Redaction_Properties
  imports Redaction
begin

text \<open>
  No access token survives redaction. A secret is exposed where it stands between two word
  boundaries. A replacement can only expose what was exposed before if it cuts the text outside
  of words and puts a marker into the gap; each pattern after the one that removes a kind of
  secret is shown to cut in this way.
\<close>

section \<open>Slices and word boundaries\<close>

definition inside_word :: "unicode_tables \<Rightarrow> string list \<Rightarrow> nat \<Rightarrow> bool" where
  "inside_word u t i \<longleftrightarrow> 0 < i \<and> word_at u t (i - 1) \<and> word_at u t i"

lemma boundary_not_inside: "word_boundary u t i \<Longrightarrow> \<not> inside_word u t i"
  by (auto simp: word_boundary_def inside_word_def)

lemma length_segment [simp]: "length (segment i j t) = min (length t - i) (j - i)"
  by (simp add: segment_def min.commute)

lemma nth_segment: "k < j - i \<Longrightarrow> k < length t - i \<Longrightarrow> segment i j t ! k = t ! (i + k)"
  by (simp add: segment_def)

lemma segment_segment: "s + j \<le> g \<Longrightarrow> segment i j (segment s g t) = segment (s + i) (s + j) t"
  by (simp add: segment_def drop_take min_def add.commute)

lemma segment_split: "i \<le> j \<Longrightarrow> j \<le> k \<Longrightarrow> segment i j t @ segment j k t = segment i k t"
proof -
  assume "i \<le> j" "j \<le> k"
  then have "k - i = (j - i) + (k - j)" "drop j t = drop (j - i) (drop i t)" by simp_all
  then show ?thesis unfolding segment_def by (simp only: take_add)
qed

lemma segment_to_end: "drop i t = segment i (length t) t"
  by (simp add: segment_def)

lemma set_segment: "set (segment i j t) \<subseteq> set t"
  by (auto simp: segment_def dest: in_set_takeD in_set_dropD)

definition exposes_at :: "unicode_tables \<Rightarrow> (string list \<Rightarrow> bool) \<Rightarrow> string list \<Rightarrow> nat \<Rightarrow> nat \<Rightarrow> bool" where
  "exposes_at u S t i j \<longleftrightarrow> i < j \<and> j \<le> length t \<and> S (segment i j t) \<and> word_boundary u t i \<and> word_boundary u t j"

definition exposes :: "unicode_tables \<Rightarrow> (string list \<Rightarrow> bool) \<Rightarrow> string list \<Rightarrow> bool" where
  "exposes u S t \<longleftrightarrow> (\<exists>i j. exposes_at u S t i j)"

lemma word_at_segment: "word_at u (segment s g t) k \<longleftrightarrow> k < g - s \<and> word_at u t (s + k)"
  by (auto simp: word_at_def nth_segment)

text \<open>A boundary of a part of a text is one of the text, if the part is not cut out of a word.\<close>

lemma word_boundary_segment:
  assumes "word_boundary u (segment s g t) k" "k \<le> g - s" "s \<le> g" "\<not> inside_word u t s" "\<not> inside_word u t g"
  shows "word_boundary u t (s + k)"
proof (cases "k = 0")
  case True
  then show ?thesis using assms by (auto simp: word_boundary_def word_at_segment inside_word_def)
next
  case False
  then have "s + (k - 1) = s + k - 1" by simp
  then show ?thesis using assms False
    by (cases "k = g - s") (auto simp: word_boundary_def word_at_segment inside_word_def)
qed

lemma exposes_segment:
  assumes "exposes_at u S (segment s g t) i j" "s \<le> g" "g \<le> length t" "\<not> inside_word u t s" "\<not> inside_word u t g"
  shows "exposes_at u S t (s + i) (s + j)"
proof -
  have "i < j" "j \<le> g - s" using assms by (auto simp: exposes_at_def)
  with assms show ?thesis
    by (auto simp: exposes_at_def segment_segment intro: word_boundary_segment)
qed

section \<open>Markers\<close>

text \<open>
  A secret of kind \<open>S\<close> has no bracket or equals sign and does not begin inside of a marker.
\<close>

definition marks :: "unicode_tables \<Rightarrow> (string list \<Rightarrow> bool) \<Rightarrow> string list \<Rightarrow> bool" where
  "marks u S mid \<longleftrightarrow> mid \<noteq> [] \<and> \<not> uc_word u (hd mid) \<and> \<not> uc_word u (last mid) \<and>
     (\<forall>w. S w \<longrightarrow> hd mid \<notin> set w \<and> last mid \<notin> set w) \<and> (\<forall>i j. \<not> S (segment i j mid))"

lemma segment_append_left: "j \<le> length x \<Longrightarrow> segment i j (x @ y) = segment i j x"
  by (auto simp: segment_def)

lemma segment_append_right: "length x \<le> i \<Longrightarrow> segment i j (x @ y) = segment (i - length x) (j - length x) y"
  by (auto simp: segment_def)

lemma in_segment: "i \<le> k \<Longrightarrow> k < j \<Longrightarrow> j \<le> length t \<Longrightarrow> t ! k \<in> set (segment i j t)"
  using nth_segment [of "k - i" j i t] nth_mem [of "k - i" "segment i j t"] by auto

lemma exposes_append_marked:
  assumes "exposes u S (x @ mid @ y)" "marks u S mid"
  shows "exposes u S x \<or> exposes u S y"
proof -
  let ?t = "x @ mid @ y" and ?a = "length x" and ?b = "length x + length mid"
  have m: "mid \<noteq> []" "0 < length mid" and w: "\<not> uc_word u (hd mid)" "\<not> uc_word u (last mid)" using assms(2) by (auto simp: marks_def)
  have ends: "?t ! ?a = hd mid" "?t ! (?b - 1) = last mid"
  proof -
    obtain h as where "mid = h # as" using m(1) by (cases mid) auto
    then show "?t ! ?a = hd mid" by simp
    obtain bs l where "mid = bs @ [l]" using m(1) by (cases mid rule: rev_cases) auto
    then show "?t ! (?b - 1) = last mid" by (simp add: nth_append)
  qed
  then have nw: "\<not> word_at u ?t ?a" "\<not> word_at u ?t (?b - 1)" using w by (auto simp: word_at_def)
  obtain i j where e: "exposes_at u S ?t i j" using assms(1) by (auto simp: exposes_def)
  then have S: "S (segment i j ?t)" and ij: "i < j" "j \<le> length ?t" by (auto simp: exposes_at_def)
  have out: "\<not> (i \<le> ?a \<and> ?a < j)" "\<not> (i \<le> ?b - 1 \<and> ?b - 1 < j)"
    using S assms(2) ends in_segment [of i ?a j ?t] in_segment [of i "?b - 1" j ?t] ij by (auto simp: marks_def)
  consider "j \<le> ?a" | "?b \<le> i" | "?a < i" "j < ?b" using out m(2) ij by linarith
  then show ?thesis
  proof cases
    case 1
    have "word_at u x k = word_at u ?t k" if "k < ?a" for k using that by (simp add: word_at_def nth_append)
    moreover have "\<not> word_at u x ?a" by (simp add: word_at_def)
    ultimately have "word_boundary u x k = word_boundary u ?t k" if "k \<le> ?a" for k
      using that nw(1) by (cases "k = ?a") (auto simp: word_boundary_def)
    then have "exposes_at u S x i j" using e 1 by (simp add: exposes_at_def segment_append_left)
    then show ?thesis by (auto simp: exposes_def)
  next
    case 2
    have shift: "word_at u ?t (?b + k) = word_at u y k" for k by (simp add: word_at_def nth_append)
    have "word_boundary u y (k - ?b) = word_boundary u ?t k" if "?b \<le> k" for k
    proof (cases "k = ?b")
      case True
      then show ?thesis using shift [of 0] nw(2) by (simp add: word_boundary_def)
    next
      case False
      then have "k = ?b + (k - ?b)" "k - 1 = ?b + (k - ?b - 1)" using that by simp_all
      then have "word_at u ?t k = word_at u y (k - ?b)" "word_at u ?t (k - 1) = word_at u y (k - ?b - 1)"
        using shift by metis+
      then show ?thesis using False that by (simp add: word_boundary_def)
    qed
    moreover have "segment i j ?t = segment (i - ?b) (j - ?b) y"
      using 2 segment_append_right [of "x @ mid" i j y] by simp
    ultimately have "exposes_at u S y (i - ?b) (j - ?b)" using e 2 ij by (auto simp: exposes_at_def)
    then show ?thesis by (auto simp: exposes_def)
  next
    case 3
    then have "segment i j ?t = segment (i - ?a) (j - ?a) mid"
      by (simp add: segment_append_right segment_append_left)
    then show ?thesis using S assms(2) by (simp add: marks_def)
  qed
qed

section \<open>Replacements that cut outside of words\<close>

text \<open>
  A match from \<open>i\<close> to \<open>j\<close> keeps the text up to \<open>g\<close> and replaces the rest of the match by a marker.
\<close>

definition cuts :: "unicode_tables \<Rightarrow> (string list \<Rightarrow> bool) \<Rightarrow> string list \<Rightarrow> rx \<Rightarrow> string list \<Rightarrow> bool" where
  "cuts u S t r rep \<longleftrightarrow>
     (\<forall>i j caps. i \<le> length t \<and> rx_matches u t r (i, []) \<noteq> [] \<and> hd (rx_matches u t r (i, [])) = (j, caps) \<longrightarrow>
        i < j \<and> j \<le> length t \<and> \<not> inside_word u t j \<and>
        (\<exists>g mid. rx_expand t caps rep = segment i g t @ mid \<and> i \<le> g \<and> g \<le> j \<and> \<not> inside_word u t g \<and> marks u S mid))"

lemma rx_find_Some:
  assumes "rx_find u t r s = Some (i, m)"
  shows "s \<le> i" "i \<le> length t" "rx_matches u t r (i, []) \<noteq> []" "hd (rx_matches u t r (i, [])) = m"
    "\<And>k. s \<le> k \<Longrightarrow> k < i \<Longrightarrow> rx_matches u t r (k, []) = []"
proof -
  let ?P = "\<lambda>i. rx_matches u t r (i, []) \<noteq> []"
  obtain rest where f: "filter ?P [s..<Suc (length t)] = i # rest" "hd (rx_matches u t r (i, [])) = m"
    using assms by (auto simp: rx_find_def split: list.splits)
  then have "i \<in> set (filter ?P [s..<Suc (length t)])" by simp
  then show "s \<le> i" "i \<le> length t" "?P i" "hd (rx_matches u t r (i, [])) = m" using f(2) by auto
  fix k assume k: "s \<le> k" "k < i"
  show "rx_matches u t r (k, []) = []"
  proof (rule ccontr)
    assume "?P k"
    with k \<open>i \<le> length t\<close> have "k \<in> set (filter ?P [s..<Suc (length t)])" by auto
    moreover have "sorted (filter ?P [s..<Suc (length t)])" by (simp add: sorted_wrt_filter del: upt_Suc)
    ultimately have "k \<in> set (i # rest)" "sorted (i # rest)" by (simp_all only: f(1))
    then show False using k(2) by auto
  qed
qed

lemma rx_find_None: "rx_find u t r s = None \<Longrightarrow> s \<le> k \<Longrightarrow> k \<le> length t \<Longrightarrow> rx_matches u t r (k, []) = []"
  by (auto simp: rx_find_def filter_empty_conv simp del: upt_Suc split: list.splits)

lemma replace_from_exposes:
  assumes "cuts u S t r rep" "s \<le> length t" "\<not> inside_word u t s"
    and "exposes u S (replace_from u t r rep fuel s)"
  shows "exposes u S t"
  using assms(2-)
proof (induction fuel arbitrary: s)
  case (Suc fuel)
  note whole = exposes_segment [of u S s _ t]
  show ?case
  proof (cases "rx_find u t r s")
    case None
    then show ?thesis using Suc.prems exposes_segment [of u S s "length t" t]
      by (auto simp: exposes_def segment_to_end inside_word_def word_at_def)
  next
    case (Some f)
    then obtain i j caps where f: "f = (i, j, caps)" by (cases f)
    note found = rx_find_Some [OF Some [unfolded f]]
    have "i \<le> length t \<and> rx_matches u t r (i, []) \<noteq> [] \<and> hd (rx_matches u t r (i, [])) = (j, caps)"
      using found(2-4) by blast
    then obtain g mid where g: "i < j" "j \<le> length t" "\<not> inside_word u t j" "rx_expand t caps rep = segment i g t @ mid"
        "i \<le> g" "g \<le> j" "\<not> inside_word u t g" "marks u S mid"
      using assms(1) unfolding cuts_def by blast
    have "replace_from u t r rep (Suc fuel) s = segment s g t @ mid @ replace_from u t r rep fuel j"
      using Some f g(1,4,5) found(1) by (simp add: segment_split [symmetric, of s i g])
    with Suc.prems(3) have "exposes u S (segment s g t) \<or> exposes u S (replace_from u t r rep fuel j)"
      using exposes_append_marked [OF _ g(8)] by metis
    then show ?thesis
    proof
      assume "exposes u S (segment s g t)"
      then show ?thesis using exposes_segment [of u S s g t] found(1) g Suc.prems(2) by (fastforce simp: exposes_def)
    next
      assume "exposes u S (replace_from u t r rep fuel j)"
      then show ?thesis using Suc.IH [of j] g(2,3) by blast
    qed
  qed
qed (auto simp: exposes_def segment_to_end inside_word_def word_at_def dest!: exposes_segment)

lemma replace_text_exposes: "cuts u S t r rep \<Longrightarrow> exposes u S (replace_text u r t rep) \<Longrightarrow> exposes u S t"
  unfolding replace_text_def using replace_from_exposes [of u S t r rep 0 "Suc (length t)"] by (simp add: inside_word_def del: replace_from.simps)

text \<open>A pattern that matches wherever a secret is exposed leaves none.\<close>

lemma replace_from_removes:
  assumes "cuts u S t r rep" and whole: "\<And>caps. rx_expand t caps rep = rep" "marks u S rep"
    and complete: "\<And>i j. exposes_at u S t i j \<Longrightarrow> rx_matches u t r (i, []) \<noteq> []"
    and "\<And>i. rx_matches u t r (i, []) \<noteq> [] \<Longrightarrow> \<not> inside_word u t i"
    and "s \<le> length t" "\<not> inside_word u t s" "length t - s < fuel"
  shows "\<not> exposes u S (replace_from u t r rep fuel s)"
  using assms(6-)
proof (induction fuel arbitrary: s)
  case (Suc fuel)
  have bound: "i \<le> length t" if "exposes_at u S t i j" for i j using that by (simp add: exposes_at_def)
  show ?case
  proof (cases "rx_find u t r s")
    case None
    have "False" if "exposes_at u S (drop s t) i j" for i j
    proof -
      have e: "exposes_at u S t (s + i) (s + j)"
        using exposes_segment [of u S s "length t" t i j] that Suc.prems by (simp add: segment_to_end inside_word_def word_at_def)
      then show False using complete [OF e] rx_find_None [OF None _ bound [OF e]] by simp
    qed
    then show ?thesis using None by (auto simp: exposes_def)
  next
    case (Some f)
    then obtain i j caps where f: "f = (i, j, caps)" by (cases f)
    note found = rx_find_Some [OF Some [unfolded f]]
    have m: "i \<le> length t \<and> rx_matches u t r (i, []) \<noteq> [] \<and> hd (rx_matches u t r (i, [])) = (j, caps)"
      using found(2-4) by blast
    then have g: "i < j" "j \<le> length t" "\<not> inside_word u t j" using assms(1) unfolding cuts_def by blast+
    have "\<not> exposes_at u S (segment s i t) a b" for a b
    proof
      assume e: "exposes_at u S (segment s i t) a b"
      then have "exposes_at u S t (s + a) (s + b)"
        using exposes_segment [OF e found(1,2) Suc.prems(2)] assms(5) found(3) by blast
      moreover have "s + a < i" using e by (auto simp: exposes_at_def)
      ultimately show False using complete found(5) [of "s + a"] by auto
    qed
    moreover have "\<not> exposes u S (replace_from u t r rep fuel j)"
      using Suc.IH [of j] g found(1) Suc.prems by linarith
    moreover have "replace_from u t r rep (Suc fuel) s = segment s i t @ rep @ replace_from u t r rep fuel j"
      using Some f g(1) whole(1) by simp
    ultimately show ?thesis
      using exposes_append_marked [OF _ whole(2), of "segment s i t"] by (metis exposes_def)
  qed
qed simp

section \<open>What a match consumes\<close>

primrec min_len :: "rx \<Rightarrow> nat" where
  "min_len Eps = 0"
| "min_len (Chars p) = 1"
| "min_len WordBoundary = 0"
| "min_len (Then r s) = min_len r + min_len s"
| "min_len (Or r s) = min (min_len r) (min_len s)"
| "min_len (Repeat lo hi r) = lo * min_len r"
| "min_len (Group k r) = min_len r"

primrec no_group :: "rx \<Rightarrow> bool" where
  "no_group Eps = True"
| "no_group (Chars p) = True"
| "no_group WordBoundary = True"
| "no_group (Then r s) = (no_group r \<and> no_group s)"
| "no_group (Or r s) = (no_group r \<and> no_group s)"
| "no_group (Repeat lo hi r) = no_group r"
| "no_group (Group k r) = False"

lemma greedy_bounds:
  assumes "\<And>m m'. m' \<in> set (step m) \<Longrightarrow> fst m \<le> n \<Longrightarrow> fst m + d \<le> fst m' \<and> fst m' \<le> n"
    and "m' \<in> set (greedy step fuel lo hi m)" "fst m \<le> n"
  shows "fst m + lo * d \<le> fst m' \<and> fst m' \<le> n"
  using assms(2-)
proof (induction fuel arbitrary: lo hi m)
  case (Suc fuel)
  show ?case
  proof (cases "lo = 0 \<and> m' = m")
    case False
    then obtain m1 where m1: "m1 \<in> set (step m)" "m' \<in> set (greedy step fuel (lo - 1) (map_option (\<lambda>n. n - 1) hi) m1)"
      using Suc.prems(1) by (auto split: if_splits)
    have "fst m + d \<le> fst m1" "fst m1 \<le> n" using assms(1) [OF m1(1) Suc.prems(2)] by auto
    moreover have "fst m1 + (lo - 1) * d \<le> fst m' \<and> fst m' \<le> n" using Suc.IH [OF m1(2)] \<open>fst m1 \<le> n\<close> by blast
    ultimately show ?thesis by (cases lo) auto
  qed (use Suc.prems in auto)
qed (auto split: if_splits)

lemma matches_bounds:
  "m' \<in> set (rx_matches u t r m) \<Longrightarrow> fst m \<le> length t \<Longrightarrow> fst m + min_len r \<le> fst m' \<and> fst m' \<le> length t"
proof (induction r arbitrary: m m')
  case (Then r s)
  then obtain m1 where "m1 \<in> set (rx_matches u t r m)" "m' \<in> set (rx_matches u t s m1)" by auto
  then show ?case using Then.IH(1) [of m1 m] Then.IH(2) [of m' m1] Then.prems(2) by auto
next
  case (Or r s)
  then have "m' \<in> set (rx_matches u t r m) \<or> m' \<in> set (rx_matches u t s m)" by simp
  then show ?case using Or.IH(1) [of m' m] Or.IH(2) [of m' m] Or.prems(2) by (auto simp: min_def)
next
  case (Repeat lo hi r)
  then show ?case using greedy_bounds [of "rx_matches u t r" "length t" "min_len r" m' "length t" lo hi m] by auto
next
  case (Group k r)
  then obtain m1 where "m1 \<in> set (rx_matches u t r m)" "fst m' = fst m1" by auto
  then show ?case using Group.IH [of m1 m] Group.prems(2) by simp
qed (auto split: if_splits)

lemma greedy_keeps:
  "(\<And>m m'. m' \<in> set (step m) \<Longrightarrow> snd m' = snd m) \<Longrightarrow> m' \<in> set (greedy step fuel lo hi m) \<Longrightarrow> snd m' = snd m"
proof (induction fuel arbitrary: lo hi m)
  case (Suc fuel)
  then consider "m' = m" | m1 where "m1 \<in> set (step m)" "m' \<in> set (greedy step fuel (lo - 1) (map_option (\<lambda>n. n - 1) hi) m1)"
    by (auto split: if_splits)
  then show ?case
  proof cases
    case 2
    then show ?thesis using Suc.IH [OF Suc.prems(1) 2(2)] Suc.prems(1) [OF 2(1)] by simp
  qed simp
qed (auto split: if_splits)

lemma matches_keep_groups: "no_group r \<Longrightarrow> m' \<in> set (rx_matches u t r m) \<Longrightarrow> snd m' = snd m"
proof (induction r arbitrary: m m')
  case (Repeat lo hi r)
  have step: "snd m' = snd m" if "m' \<in> set (rx_matches u t r m)" for m m'
    using Repeat.prems(1) by (intro Repeat.IH that) simp
  have "m' \<in> set (greedy (rx_matches u t r) (length t) lo hi m)" using Repeat.prems(2) by simp
  then show ?case by (rule greedy_keeps [rotated]) (rule step)
next
  case (Then r s)
  then obtain m1 where "m1 \<in> set (rx_matches u t r m)" "m' \<in> set (rx_matches u t s m1)" by auto
  then show ?case using Then.IH(1) [of m1 m] Then.IH(2) [of m' m1] Then.prems(1) by simp
next
  case (Or r s)
  then have "m' \<in> set (rx_matches u t r m) \<or> m' \<in> set (rx_matches u t s m)" by simp
  then show ?case using Or.IH(1) [of m' m] Or.IH(2) [of m' m] Or.prems(1) by auto
qed (auto split: if_splits)

lemma matches_seq [simp]:
  "rx_matches u t (seq []) m = [m]"
  "rx_matches u t (seq (r # rs)) m = concat (map (rx_matches u t (seq rs)) (rx_matches u t r m))"
  by (simp_all add: seq_def)

lemma matches_seq_append:
  "rx_matches u t (seq (rs @ ss)) m = concat (map (rx_matches u t (seq ss)) (rx_matches u t (seq rs) m))"
proof (induction rs arbitrary: m)
  case (Cons r rs)
  have "concat (map (\<lambda>m. concat (map f (g m))) ms) = concat (map f (concat (map g ms)))"
    for f :: "rx_state \<Rightarrow> rx_state list" and g :: "rx_state \<Rightarrow> rx_state list" and ms
    by (induction ms) simp_all
  then show ?case by (simp add: Cons.IH [abs_def])
qed simp

lemma matches_seq_single: "rx_matches u t (seq [r]) = rx_matches u t r"
  by (rule ext) (simp add: seq_def)

lemma hd_concat_map: "concat (map f ms) \<noteq> [] \<Longrightarrow> hd (concat (map f ms)) = x \<Longrightarrow> \<exists>m \<in> set ms. f m \<noteq> [] \<and> hd (f m) = x"
  by (induction ms) (auto simp: hd_append split: if_splits)

text \<open>The last character and the last boundary of a match.\<close>

lemma seq_ends_with:
  assumes "m' \<in> set (rx_matches u t (seq (rs @ [Chars p])) m)"
  shows "0 < fst m' \<and> p (t ! (fst m' - 1))"
  using assms by (auto simp: matches_seq_append split: if_splits)

lemma seq_ends_at_boundary:
  assumes "m' \<in> set (rx_matches u t (seq (rs @ [WordBoundary])) m)"
  shows "word_boundary u t (fst m')"
  using assms by (auto simp: matches_seq_append split: if_splits)

section \<open>Repeated characters\<close>

lemma repeat_chars_sound:
  assumes "m' \<in> set (rx_matches u t (Repeat lo hi (Chars p)) m)"
  shows "fst m \<le> fst m' \<and> (\<forall>k. fst m \<le> k \<and> k < fst m' \<longrightarrow> p (t ! k))"
proof -
  have "fst m \<le> fst m' \<and> (\<forall>k. fst m \<le> k \<and> k < fst m' \<longrightarrow> p (t ! k))"
    if "m' \<in> set (greedy (rx_matches u t (Chars p)) fuel lo hi m)" for fuel
    using that
  proof (induction fuel arbitrary: lo hi m)
    case (Suc fuel)
    show ?case
    proof (cases "m' = m")
      case False
      then have p: "p (t ! fst m)" and "m' \<in> set (greedy (rx_matches u t (Chars p)) fuel (lo - 1) (map_option (\<lambda>n. n - 1) hi) (Suc (fst m), snd m))"
        using Suc.prems by (auto split: if_splits)
      then have IH: "Suc (fst m) \<le> fst m'" "\<And>k. Suc (fst m) \<le> k \<Longrightarrow> k < fst m' \<Longrightarrow> p (t ! k)"
        using Suc.IH by fastforce+
      have "p (t ! k)" if "fst m \<le> k" "k < fst m'" for k using p IH(2) [of k] that by (cases "k = fst m") auto
      then show ?thesis using IH(1) by simp
    qed auto
  qed (auto split: if_splits)
  with assms show ?thesis by simp
qed

lemma repeat_chars_complete:
  assumes "fst m + lo \<le> j" "hi = None \<or> (\<exists>h. hi = Some h \<and> j \<le> fst m + h)" "j \<le> length t"
    and "\<And>k. fst m \<le> k \<Longrightarrow> k < j \<Longrightarrow> p (t ! k)"
  shows "(j, snd m) \<in> set (rx_matches u t (Repeat lo hi (Chars p)) m)"
proof -
  have "(j, snd m) \<in> set (greedy (rx_matches u t (Chars p)) fuel lo hi m)" if "j - fst m \<le> fuel" for fuel
    using that assms
  proof (induction fuel arbitrary: lo hi m)
    case 0
    then show ?case by (cases m) auto
  next
    case (Suc fuel)
    show ?case
    proof (cases "j = fst m")
      case True
      then show ?thesis using Suc.prems by (cases m) auto
    next
      case False
      then have "fst m < j" using Suc.prems by simp
      then have "hi \<noteq> Some 0" "p (t ! fst m)" "fst m < length t" using Suc.prems by auto
      moreover have "(j, snd m) \<in> set (greedy (rx_matches u t (Chars p)) fuel (lo - 1) (map_option (\<lambda>n. n - 1) hi) (Suc (fst m), snd m))"
        using Suc.IH [of "(Suc (fst m), snd m)" "lo - 1" "map_option (\<lambda>n. n - 1) hi"] Suc.prems \<open>fst m < j\<close> by (cases hi) auto
      ultimately show ?thesis by simp
    qed
  qed
  then show ?thesis using assms(3) by simp
qed

text \<open>The first match of an unbounded repetition ends where its class ends.\<close>

lemma repeat_chars_maximal:
  assumes "rx_matches u t (Repeat lo None (Chars p)) m \<noteq> []" "fst m \<le> length t"
  shows "fst (hd (rx_matches u t (Repeat lo None (Chars p)) m)) < length t \<Longrightarrow>
         \<not> p (t ! fst (hd (rx_matches u t (Repeat lo None (Chars p)) m)))"
proof -
  let ?g = "greedy (rx_matches u t (Chars p))"
  have nonempty: "?g fuel 0 None m \<noteq> []" for fuel m by (cases fuel) simp_all
  have "fst (hd (?g fuel lo None m)) < length t \<longrightarrow> \<not> p (t ! fst (hd (?g fuel lo None m)))"
    if "length t - fst m \<le> fuel" "fst m \<le> length t" "?g fuel lo None m \<noteq> []" for fuel
    using that
  proof (induction fuel arbitrary: lo m)
    case (Suc fuel)
    show ?case
    proof (cases "fst m < length t \<and> p (t ! fst m)")
      case True
      let ?m = "(Suc (fst m), snd m)"
      have e: "?g (Suc fuel) lo None m = ?g fuel (lo - 1) None ?m @ (if lo = 0 then [m] else [])" using True by simp
      then have ne: "?g fuel (lo - 1) None ?m \<noteq> []" using Suc.prems(3) nonempty [of fuel ?m] by (cases lo) auto
      then have "hd (?g (Suc fuel) lo None m) = hd (?g fuel (lo - 1) None ?m)" using e by simp
      then show ?thesis using Suc.IH [of ?m "lo - 1"] Suc.prems ne True by auto
    next
      case False
      then show ?thesis using Suc.prems by (auto split: if_splits)
    qed
  qed (auto split: if_splits)
  from this [of "length t"] show "fst (hd (rx_matches u t (Repeat lo None (Chars p)) m)) < length t \<Longrightarrow>
         \<not> p (t ! fst (hd (rx_matches u t (Repeat lo None (Chars p)) m)))"
    using assms by simp
qed

section \<open>Kinds of secrets\<close>

definition singles :: "string \<Rightarrow> string list" where
  "singles s = map (\<lambda>b. [b]) s"

definition databricks_token :: "string list \<Rightarrow> bool" where
  "databricks_token w \<longleftrightarrow> (\<exists>ds. w = singles (''dapi'' @ ds) \<and> 16 \<le> length ds \<and> set ds \<subseteq> set (upper @ lower @ decimal))"

definition json_web_token :: "string list \<Rightarrow> bool" where
  "json_web_token w \<longleftrightarrow>
     (\<exists>a b c. w = singles (''eyJ'' @ a @ ''.'' @ b @ ''.'' @ c) \<and> a \<noteq> [] \<and> b \<noteq> [] \<and> c \<noteq> [] \<and>
        set (a @ b @ c) \<subseteq> set (upper @ lower @ decimal @ ''_-''))"

definition access_key_id :: "string list \<Rightarrow> bool" where
  "access_key_id w \<longleftrightarrow>
     (\<exists>p ds. w = singles (p @ ds) \<and> p \<in> {''AKIA'', ''ASIA''} \<and> length ds = 16 \<and> set ds \<subseteq> set (decimal @ upper))"

text \<open>What they have in common: how they begin, and that they have no bracket or equals sign.\<close>

definition secret_like :: "string list \<Rightarrow> bool" where
  "secret_like w \<longleftrightarrow>
     (\<exists>s. w = singles s \<and> take 3 s \<in> {''dap'', ''eyJ'', ''AKI'', ''ASI''} \<and> CHR ''['' \<notin> set s \<and> CHR '']'' \<notin> set s \<and> CHR ''='' \<notin> set s)"

lemma alphabets: "CHR ''['' \<notin> set (upper @ lower @ decimal @ ''_-.'')" "CHR '']'' \<notin> set (upper @ lower @ decimal @ ''_-.'')"
    "CHR ''='' \<notin> set (upper @ lower @ decimal @ ''_-.'')"
  by code_simp+

lemma secret_like_singles:
  assumes "take 3 s \<in> {''dap'', ''eyJ'', ''AKI'', ''ASI''}" "set s \<subseteq> set (upper @ lower @ decimal @ ''_-.'')"
  shows "secret_like (singles s)"
  unfolding secret_like_def using assms alphabets by (intro exI [of _ s]) blast

lemma alphabet_parts:
  fixes all :: "char set"
  defines "all \<equiv> set (upper @ lower @ decimal @ ''_-.'')"
  shows "set ''dapi'' \<subseteq> all" "set ''eyJ'' \<subseteq> all" "set ''AKIA'' \<subseteq> all" "set ''ASIA'' \<subseteq> all" "set ''.'' \<subseteq> all"
    "set (upper @ lower @ decimal) \<subseteq> all" "set (upper @ lower @ decimal @ ''_-'') \<subseteq> all" "set (decimal @ upper) \<subseteq> all"
  unfolding all_def by code_simp+

lemma secret_kinds: "databricks_token w \<Longrightarrow> secret_like w" "json_web_token w \<Longrightarrow> secret_like w" "access_key_id w \<Longrightarrow> secret_like w"
proof -
  show "secret_like w" if w: "databricks_token w"
  proof -
    obtain ds where ds: "w = singles (''dapi'' @ ds)" "set ds \<subseteq> set (upper @ lower @ decimal)" using w unfolding databricks_token_def by blast
    show ?thesis unfolding ds(1)
      by (rule secret_like_singles, simp, unfold set_append [of "''dapi''"] Un_subset_iff)
         (intro conjI alphabet_parts(1) subset_trans [OF ds(2) alphabet_parts(6)])
  qed
  show "secret_like w" if w: "json_web_token w"
  proof -
    obtain a b c where d: "w = singles (''eyJ'' @ a @ ''.'' @ b @ ''.'' @ c)" "set (a @ b @ c) \<subseteq> set (upper @ lower @ decimal @ ''_-'')"
      using w unfolding json_web_token_def by blast
    have "set (a @ b @ c) \<subseteq> set (upper @ lower @ decimal @ ''_-.'')" by (rule subset_trans [OF d(2) alphabet_parts(7)])
    then have "set a \<subseteq> set (upper @ lower @ decimal @ ''_-.'')" "set b \<subseteq> set (upper @ lower @ decimal @ ''_-.'')"
      "set c \<subseteq> set (upper @ lower @ decimal @ ''_-.'')" unfolding set_append [of a] set_append [of b] by blast+
    then show ?thesis unfolding d(1)
      by (intro secret_like_singles) (simp, unfold set_append [of "''eyJ''"] set_append [of a] set_append [of "''.''"] set_append [of b] Un_subset_iff,
          intro conjI alphabet_parts)
  qed
  show "secret_like w" if w: "access_key_id w"
  proof -
    obtain p ds where d: "w = singles (p @ ds)" "p \<in> {''AKIA'', ''ASIA''}" "set ds \<subseteq> set (decimal @ upper)"
      using w unfolding access_key_id_def by blast
    have "set p \<subseteq> set (upper @ lower @ decimal @ ''_-.'')" using d(2) alphabet_parts(3,4) by blast
    with subset_trans [OF d(3) alphabet_parts(8)] have "set (p @ ds) \<subseteq> set (upper @ lower @ decimal @ ''_-.'')"
      unfolding set_append [of p] by blast
    moreover have "take 3 (p @ ds) \<in> {''dap'', ''eyJ'', ''AKI'', ''ASI''}" using d(2) by auto
    ultimately show ?thesis unfolding d(1) by (intro secret_like_singles)
  qed
qed

section \<open>The markers\<close>

definition no_start :: "string \<Rightarrow> bool" where
  "no_start s \<longleftrightarrow> list_all (\<lambda>i. take 3 (drop i s) \<notin> {''dap'', ''eyJ'', ''AKI'', ''ASI''}) [0..<length s]"

lemma segment_singles: "segment i j (singles s) = singles (segment i j s)"
  by (simp add: segment_def singles_def drop_map take_map)

lemma singles_eq [simp]: "singles a = singles b \<longleftrightarrow> a = b"
  unfolding singles_def by (rule inj_map_eq_map) (simp add: inj_def)

lemma documented_ascii:
  assumes "documented_tables u" "(of_char b :: nat) < 128"
  shows "uc_word u [b] = ascii_word b" "uc_space u [b] = ascii_space b"
  using assms by (auto simp: documented_tables_def)

lemma punctuation:
  assumes "documented_tables u" "b \<in> set ([DQ, SQ] @ ''=[]:;,}'')"
  shows "\<not> uc_word u [b]"
proof -
  have "list_all (\<lambda>b. (of_char b :: nat) < 128 \<and> \<not> ascii_word b) ([DQ, SQ] @ ''=[]:;,}'')" by code_simp
  then show ?thesis using assms documented_ascii(1) by (auto simp: list_all_iff)
qed

lemma marks_singles:
  assumes "documented_tables u" "s = h # x @ '']''" "h \<in> set ''=[''" "no_start s" "\<And>w. S w \<Longrightarrow> secret_like w"
  shows "marks u S (singles s)"
proof -
  have ends: "hd (singles s) = [h]" "last (singles s) = '']''" "singles s \<noteq> []" using assms(2) by (simp_all add: singles_def)
  have "\<not> secret_like (segment i j (singles s))" for i j
  proof
    assume "secret_like (segment i j (singles s))"
    then obtain v where v: "segment i j s = v" "take 3 v \<in> {''dap'', ''eyJ'', ''AKI'', ''ASI''}"
      unfolding secret_like_def segment_singles singles_eq by blast
    then have t: "take 3 (take (j - i) (drop i s)) \<in> {''dap'', ''eyJ'', ''AKI'', ''ASI''}" (is "?w \<in> _")
      unfolding segment_def by simp
    then have "length ?w = 3" by (elim insertE) (simp_all only: list.size, simp_all)
    then have "i < length s" "?w = take 3 (drop i s)" by (auto simp: min_def split: if_splits)
    then show False using t assms(4) by (auto simp: no_start_def list_all_iff)
  qed
  moreover have "[h] \<notin> set w \<and> '']'' \<notin> set w" if "secret_like w" for w
    using that assms(3) by (auto simp: secret_like_def singles_def)
  ultimately show ?thesis
    using ends assms(5) punctuation [OF assms(1), of h] punctuation [OF assms(1), of "CHR '']''"] assms(3)
    unfolding marks_def by auto
qed

lemma markers:
  assumes "documented_tables u" "\<And>w. S w \<Longrightarrow> secret_like w"
  shows "marks u S (singles ''[REDACTED_DATABRICKS_TOKEN]'')" "marks u S (singles ''[REDACTED_TOKEN]'')"
    "marks u S (singles ''[REDACTED_AWS_ACCESS_KEY]'')" "marks u S (singles ''[REDACTED]'')"
    "marks u S (singles ''=[REDACTED_SQL]'')" "marks u S (singles ''[REDACTED_SQL]'')"
proof -
  note m = marks_singles [OF assms(1) _ _ _ assms(2)]
  have n: "no_start ''[REDACTED_DATABRICKS_TOKEN]''" "no_start ''[REDACTED_TOKEN]''" "no_start ''[REDACTED_AWS_ACCESS_KEY]''"
    "no_start ''[REDACTED]''" "no_start ''=[REDACTED_SQL]''" "no_start ''[REDACTED_SQL]''" by code_simp+
  show "marks u S (singles ''[REDACTED_DATABRICKS_TOKEN]'')" by (rule m [of _ "CHR ''[''" "''REDACTED_DATABRICKS_TOKEN''"]) (simp_all add: n)
  show "marks u S (singles ''[REDACTED_TOKEN]'')" by (rule m [of _ "CHR ''[''" "''REDACTED_TOKEN''"]) (simp_all add: n)
  show "marks u S (singles ''[REDACTED_AWS_ACCESS_KEY]'')" by (rule m [of _ "CHR ''[''" "''REDACTED_AWS_ACCESS_KEY''"]) (simp_all add: n)
  show "marks u S (singles ''[REDACTED]'')" by (rule m [of _ "CHR ''[''" "''REDACTED''"]) (simp_all add: n)
  show "marks u S (singles ''=[REDACTED_SQL]'')" by (rule m [of _ "CHR ''=''" "''[REDACTED_SQL''"]) (simp_all add: n)
  show "marks u S (singles ''[REDACTED_SQL]'')" by (rule m [of _ "CHR ''[''" "''REDACTED_SQL''"]) (simp_all add: n)
qed

section \<open>Replacement texts\<close>

lemma rx_expand_plain: "''$'' \<notin> set rep \<Longrightarrow> rx_expand t caps rep = rep"
  by (induction rep) auto

lemma rx_expand_group:
  assumes "list_all (\<lambda>b. b \<noteq> CHR ''$'') rest" "rest \<noteq> []" "\<not> name_char [hd rest]"
  shows "rx_expand t [(1, i, g)] (singles (''$1'' @ rest)) = segment i g t @ singles rest"
proof -
  have one: "name_char ''1''" "ascii is_ascii_digit ''1''" "digits_value 0 ''1'' = 1" by code_simp+
  have split: "takeWhile name_char (''1'' # singles rest) = [''1'']" "dropWhile name_char (''1'' # singles rest) = singles rest"
    using assms(2,3) one(1) by (cases rest; simp add: singles_def)+
  have "rx_expand t [(1, i, g)] (singles rest) = singles rest"
    by (rule rx_expand_plain) (use assms(1) in \<open>auto simp: singles_def list_all_iff\<close>)
  then show ?thesis using split one by (simp add: singles_def capture_def)
qed

lemma groups:
  "rx_expand t [(1, i, g)] (singles ''$1[REDACTED]'') = segment i g t @ singles ''[REDACTED]''"
  "rx_expand t [(1, i, g)] (singles ''$1=[REDACTED_SQL]'') = segment i g t @ singles ''=[REDACTED_SQL]''"
proof -
  have "\<not> name_char ''[''" "\<not> name_char ''=''" by code_simp+
  then show "rx_expand t [(1, i, g)] (singles ''$1[REDACTED]'') = segment i g t @ singles ''[REDACTED]''"
      "rx_expand t [(1, i, g)] (singles ''$1=[REDACTED_SQL]'') = segment i g t @ singles ''=[REDACTED_SQL]''"
    using rx_expand_group [of "''[REDACTED]''" t i g] rx_expand_group [of "''=[REDACTED_SQL]''" t i g] by simp_all
qed

section \<open>How the patterns cut\<close>

lemma inside_after_nonword: "\<not> word_at u t (i - 1) \<Longrightarrow> \<not> inside_word u t i"
  by (simp add: inside_word_def)

lemma nonword_char: "0 < i \<and> p (t ! (i - 1)) \<Longrightarrow> (\<And>c. p c \<Longrightarrow> \<not> uc_word u c) \<Longrightarrow> \<not> inside_word u t i"
  by (auto simp: inside_word_def word_at_def)

lemma ascii_nonword: "documented_tables u \<Longrightarrow> set bs \<subseteq> set ([DQ, SQ] @ ''=[]:;,}'') \<Longrightarrow> ascii (\<lambda>b. b \<in> set bs) c \<Longrightarrow> \<not> uc_word u c"
proof -
  assume u: "documented_tables u" and bs: "set bs \<subseteq> set ([DQ, SQ] @ ''=[]:;,}'')" and "ascii (\<lambda>b. b \<in> set bs) c"
  then obtain b where "c = [b]" "b \<in> set bs" unfolding ascii_def by (auto split: list.splits)
  then show ?thesis using punctuation [OF u subsetD [OF bs]] by blast
qed

lemma ends_with_punctuation:
  assumes "documented_tables u" "set bs \<subseteq> set ([DQ, SQ] @ ''=[]:;,}'')" "m \<in> set (rx_matches u t (seq (rs @ [in_set bs])) m0)"
  shows "\<not> inside_word u t (fst m)"
  by (rule nonword_char [where p = "ascii (\<lambda>b. b \<in> set bs)"], rule seq_ends_with [OF assms(3) [unfolded in_set_def]])
     (rule ascii_nonword [OF assms(1,2)])

text \<open>A replacement without groups of a match that begins at a boundary.\<close>

lemma cuts_whole:
  assumes "\<And>i m. i \<le> length t \<Longrightarrow> m \<in> set (rx_matches u t r (i, [])) \<Longrightarrow> word_boundary u t i \<and> \<not> inside_word u t (fst m)"
    and "0 < min_len r" "marks u S (singles s)" "CHR ''$'' \<notin> set s"
  shows "cuts u S t r (singles s)"
  unfolding cuts_def
proof (intro allI impI)
  fix i j caps
  assume a: "i \<le> length t \<and> rx_matches u t r (i, []) \<noteq> [] \<and> hd (rx_matches u t r (i, [])) = (j, caps)"
  then have m: "(j, caps) \<in> set (rx_matches u t r (i, []))" by (metis hd_in_set)
  have b: "i < j" "j \<le> length t" using matches_bounds [OF m] a assms(2) by auto
  have w: "\<not> inside_word u t i" "\<not> inside_word u t j" using assms(1) [OF _ m] a boundary_not_inside by auto
  have "rx_expand t caps (singles s) = segment i i t @ singles s"
    using assms(4) rx_expand_plain [of "singles s"] by (auto simp: segment_def singles_def)
  then show "i < j \<and> j \<le> length t \<and> \<not> inside_word u t j \<and>
      (\<exists>g mid. rx_expand t caps (singles s) = segment i g t @ mid \<and> i \<le> g \<and> g \<le> j \<and> \<not> inside_word u t g \<and> marks u S mid)"
    using b w assms(3) by (metis less_imp_le order_refl)
qed

lemma starts_at_boundary: "m \<in> set (rx_matches u t (seq (WordBoundary # rs)) m0) \<Longrightarrow> word_boundary u t (fst m0)"
  by (auto split: if_splits)

lemma cuts_between_boundaries:
  assumes "r = seq (WordBoundary # rs @ [WordBoundary])" "0 < min_len r" "marks u S (singles s)" "CHR ''$'' \<notin> set s"
  shows "cuts u S t r (singles s)"
proof (rule cuts_whole [OF _ assms(2-4)])
  fix i m assume m: "m \<in> set (rx_matches u t r (i, []))"
  then have "word_boundary u t i" unfolding assms(1) by (auto dest: starts_at_boundary)
  moreover have "word_boundary u t (fst m)"
    using seq_ends_at_boundary [of m u t "WordBoundary # rs" "(i, [])"] m unfolding assms(1) by simp
  ultimately show "word_boundary u t i \<and> \<not> inside_word u t (fst m)" using boundary_not_inside by blast
qed

lemma min_len_seq: "min_len (seq rs) = sum_list (map min_len rs)"
  by (induction rs) (simp_all add: seq_def)

lemma min_len_lit [simp]: "min_len (lit s) = length s" "min_len (lit_i u s) = length s"
  by (induction s) (simp_all add: lit_def lit_i_def min_len_seq in_set_def)

lemma cuts_tokens:
  assumes "documented_tables u" "\<And>w. S w \<Longrightarrow> secret_like w"
  shows "cuts u S t databricks_token_pattern (singles ''[REDACTED_DATABRICKS_TOKEN]'')"
    "cuts u S t jwt_pattern (singles ''[REDACTED_TOKEN]'')"
    "cuts u S t access_key_pattern (singles ''[REDACTED_AWS_ACCESS_KEY]'')"
proof -
  note m = markers [OF assms]
  show "cuts u S t databricks_token_pattern (singles ''[REDACTED_DATABRICKS_TOKEN]'')"
    by (rule cuts_between_boundaries [OF _ _ m(1), where rs = "[lit ''dapi'', Repeat 16 None (in_set (upper @ lower @ decimal))]"])
       (simp_all add: databricks_token_pattern_def min_len_seq)
  show "cuts u S t jwt_pattern (singles ''[REDACTED_TOKEN]'')"
    by (rule cuts_between_boundaries [OF _ _ m(2), where rs = "[lit ''eyJ'', jwt_part, lit ''.'', jwt_part, lit ''.'', jwt_part]"])
       (simp_all add: jwt_pattern_def min_len_seq)
  show "cuts u S t access_key_pattern (singles ''[REDACTED_AWS_ACCESS_KEY]'')"
    by (rule cuts_between_boundaries [OF _ _ m(3), where rs = "[one_of [lit ''AKIA'', lit ''ASIA''], Repeat 16 (Some 16) (in_set (decimal @ upper))]"])
       (simp_all add: access_key_pattern_def min_len_seq in_set_def)
qed

lemma cuts_statement:
  assumes "documented_tables u" "\<And>w. S w \<Longrightarrow> secret_like w"
  shows "cuts u S t (statement_pattern u) (singles ''[REDACTED_SQL]'')"
proof (rule cuts_whole [OF _ _ markers(6) [OF assms]])
  let ?words = "[''select'', ''with'', ''insert'', ''update'', ''delete'', ''merge'', ''create'', ''drop'', ''alter'', ''describe'', ''show'', ''explain'']"
  let ?rs = "[one_of (map (lit_i u) ?words), WordBoundary, Repeat 0 (Some 2000) (Chars (\<lambda>c. c \<noteq> '';''))]"
  have p: "statement_pattern u = seq (WordBoundary # ?rs @ [in_set '';''])" by (simp add: statement_pattern_def)
  fix i m assume m: "m \<in> set (rx_matches u t (statement_pattern u) (i, []))"
  have "word_boundary u t i" using m starts_at_boundary [of m u t "?rs @ [in_set '';'']" "(i, [])"] unfolding p by simp
  moreover have "\<not> inside_word u t (fst m)"
    using m ends_with_punctuation [OF assms(1), of "'';''" m t "WordBoundary # ?rs" "(i, [])"] unfolding p by simp
  ultimately show "word_boundary u t i \<and> \<not> inside_word u t (fst m)" by blast
qed (simp_all add: statement_pattern_def min_len_seq in_set_def)

text \<open>A replacement that keeps the first group.\<close>

lemma cuts_group:
  assumes "\<And>i j caps. i \<le> length t \<Longrightarrow> rx_matches u t r (i, []) \<noteq> [] \<Longrightarrow> hd (rx_matches u t r (i, [])) = (j, caps) \<Longrightarrow>
      \<exists>g. caps = [(1, i, g)] \<and> i \<le> g \<and> g \<le> j \<and> \<not> inside_word u t g \<and> \<not> inside_word u t j"
    and "0 < min_len r" "marks u S mid" "\<And>i g. rx_expand t [(1, i, g)] rep = segment i g t @ mid"
  shows "cuts u S t r rep"
  unfolding cuts_def
proof (intro allI impI)
  fix i j caps
  assume a: "i \<le> length t \<and> rx_matches u t r (i, []) \<noteq> [] \<and> hd (rx_matches u t r (i, [])) = (j, caps)"
  then have m: "(j, caps) \<in> set (rx_matches u t r (i, []))" by (metis hd_in_set)
  have b: "i < j" "j \<le> length t" using matches_bounds [OF m] a assms(2) by auto
  obtain g where g: "caps = [(1, i, g)]" "i \<le> g" "g \<le> j" "\<not> inside_word u t g" "\<not> inside_word u t j" using assms(1) a by blast
  then show "i < j \<and> j \<le> length t \<and> \<not> inside_word u t j \<and>
      (\<exists>g mid. rx_expand t caps rep = segment i g t @ mid \<and> i \<le> g \<and> g \<le> j \<and> \<not> inside_word u t g \<and> marks u S mid)"
    using b assms(3,4) by blast
qed

lemma no_group_seq: "no_group (seq rs) = list_all no_group rs"
  by (induction rs) (simp_all add: seq_def)

lemma no_group_one_of: "rs \<noteq> [] \<Longrightarrow> no_group (one_of rs) = list_all no_group rs"
  by (induction rs) (auto simp: one_of_def)

lemma no_group_parts [simp]: "no_group (lit s)" "no_group (lit_i u s)" "no_group (in_set s)" "no_group (spaces u n)"
    "no_group (opt r) = no_group r" "no_group (joined u ps)"
  by (cases ps; auto simp: lit_def lit_i_def in_set_def spaces_def opt_def joined_def no_group_seq list_all_iff)+

lemma group_of_match:
  assumes "m \<in> set (rx_matches u t (seq (Group k r # rs)) (i, []))" "no_group r" "no_group (seq rs)"
  obtains g where "(g, []) \<in> set (rx_matches u t r (i, []))" "m \<in> set (rx_matches u t (seq rs) (g, [(k, i, g)]))" "snd m = [(k, i, g)]"
proof -
  obtain m1 where m1: "m1 \<in> set (rx_matches u t r (i, []))" "m \<in> set (rx_matches u t (seq rs) (fst m1, (k, i, fst m1) # snd m1))"
    using assms(1) by auto
  have "snd m1 = []" using matches_keep_groups [OF assms(2) m1(1)] by simp
  then obtain g where g: "m1 = (g, [])" by (cases m1) auto
  have "snd m = snd (fst m1, (k, i, fst m1) # snd m1)" by (rule matches_keep_groups [OF assms(3) m1(2)])
  then show ?thesis using m1 unfolding g by (intro that [of g]) simp_all
qed

lemma cuts_quoted_sql:
  assumes "documented_tables u" "\<And>w. S w \<Longrightarrow> secret_like w" "q \<in> {DQ, SQ}"
  shows "cuts u S t (quoted_sql_pattern u q) (singles ''$1=[REDACTED_SQL]'')"
proof (rule cuts_group [OF _ _ markers(5) [OF assms(1,2)] groups(2)])
  let ?r = "one_of [lit_i u ''sql'', lit_i u ''query'', lit_i u ''statement'']"
  let ?rs = "[spaces u 0, in_set '':='', spaces u 0, in_set [q], Repeat 0 None (Chars (\<lambda>c. c \<noteq> [q]))]"
  have p: "quoted_sql_pattern u q = seq (WordBoundary # Group 1 ?r # WordBoundary # ?rs @ [in_set [q]])" by (simp add: quoted_sql_pattern_def)
  fix i j caps
  assume i: "i \<le> length t" and ne: "rx_matches u t (quoted_sql_pattern u q) (i, []) \<noteq> []"
    and "hd (rx_matches u t (quoted_sql_pattern u q) (i, [])) = (j, caps)"
  then have m: "(j, caps) \<in> set (rx_matches u t (quoted_sql_pattern u q) (i, []))" by (metis hd_in_set)
  then have m': "(j, caps) \<in> set (rx_matches u t (seq (Group 1 ?r # WordBoundary # ?rs @ [in_set [q]])) (i, []))"
    unfolding p matches_seq(2) [of u t WordBoundary] by (auto split: if_splits)
  obtain g where g: "(g, []) \<in> set (rx_matches u t ?r (i, []))" "(j, caps) \<in> set (rx_matches u t (seq (WordBoundary # ?rs @ [in_set [q]])) (g, [(1, i, g)]))"
      "snd (j, caps) = [(1, i, g)]"
    by (rule group_of_match [OF m']) (simp_all add: no_group_one_of no_group_seq)
  have "i \<le> g" "g \<le> length t" using matches_bounds [OF g(1)] i by auto
  moreover have "g \<le> j" using matches_bounds [OF g(2)] \<open>g \<le> length t\<close> by auto
  moreover have "\<not> inside_word u t g" using starts_at_boundary [OF g(2)] boundary_not_inside by simp
  moreover have "\<not> inside_word u t j"
    using g(2) assms(3) ends_with_punctuation [OF assms(1), of "[q]" "(j, caps)" t "WordBoundary # ?rs" "(g, [(1, i, g)])"] by auto
  ultimately show "\<exists>g. caps = [(1, i, g)] \<and> i \<le> g \<and> g \<le> j \<and> \<not> inside_word u t g \<and> \<not> inside_word u t j" using g(3) by auto
qed (simp add: quoted_sql_pattern_def min_len_seq in_set_def)

text \<open>
  A key and its separator end in white space or in the separator, and the value extends to the
  next white space, quote, comma or bracket.
\<close>

lemma ends_after_separator:
  assumes "documented_tables u" "m \<in> set (rx_matches u t (seq (rs @ [in_set '':='', spaces u 0])) m0)"
  shows "\<not> inside_word u t (fst m)"
proof -
  obtain m1 where m1: "m1 \<in> set (rx_matches u t (seq (rs @ [in_set '':=''])) m0)" "m \<in> set (rx_matches u t (spaces u 0) m1)"
    using assms(2) by (auto simp: matches_seq_append)
  have sp: "fst m1 \<le> fst m" "\<And>k. fst m1 \<le> k \<Longrightarrow> k < fst m \<Longrightarrow> uc_space u (t ! k)"
    using repeat_chars_sound [OF m1(2) [unfolded spaces_def]] by auto
  show ?thesis
  proof (cases "fst m1 = fst m")
    case True
    then show ?thesis using ends_with_punctuation [OF assms(1) _ m1(1)] by simp
  next
    case False
    then have "uc_space u (t ! (fst m - 1))" using sp(1) sp(2) [of "fst m - 1"] by simp
    then show ?thesis using assms(1) by (intro nonword_char [of _ "uc_space u"]) (use False sp(1) in \<open>auto simp: documented_tables_def\<close>)
  qed
qed

lemma cuts_key_value:
  assumes "documented_tables u" "\<And>w. S w \<Longrightarrow> secret_like w"
  shows "cuts u S t (key_value_pattern u) (singles ''$1[REDACTED]'')"
proof (rule cuts_group [OF _ _ markers(4) [OF assms] groups(1)])
  let ?k = "[opt (in_set [DQ]), one_of (sensitive_keys u), opt (in_set [DQ]), spaces u 0]"
  let ?r = "seq (?k @ [in_set '':='', spaces u 0])"
  let ?c = "\<lambda>c. \<not> uc_space u c \<and> \<not> ascii (\<lambda>b. b \<in> set ([DQ, SQ] @ '',}]'')) c"
  let ?v = "Repeat 1 None (Chars ?c)"
  have p: "key_value_pattern u = seq (Group 1 ?r # [opt (in_set [DQ]), ?v])" by (simp add: key_value_pattern_def)
  fix i j caps
  assume i: "i \<le> length t" and ne: "rx_matches u t (key_value_pattern u) (i, []) \<noteq> []"
    and hd: "hd (rx_matches u t (key_value_pattern u) (i, [])) = (j, caps)"
  have m: "(j, caps) \<in> set (rx_matches u t (seq (Group 1 ?r # [opt (in_set [DQ]), ?v])) (i, []))"
    using hd_in_set [OF ne] unfolding hd unfolding p .
  obtain g where g: "(g, []) \<in> set (rx_matches u t ?r (i, []))" "(j, caps) \<in> set (rx_matches u t (seq [opt (in_set [DQ]), ?v]) (g, [(1, i, g)]))"
      "snd (j, caps) = [(1, i, g)]"
    by (rule group_of_match [OF m]) (simp_all add: no_group_one_of no_group_seq sensitive_keys_def)
  have "i \<le> g" "g \<le> length t" using matches_bounds [OF g(1)] i by auto
  moreover have "g \<le> j" using matches_bounds [OF g(2)] \<open>g \<le> length t\<close> by auto
  moreover have "\<not> inside_word u t g" using ends_after_separator [OF assms(1) g(1)] by simp
  moreover have "\<not> inside_word u t j"
  proof -
    have "concat (map (rx_matches u t ?v) (rx_matches u t (seq [Group 1 ?r, opt (in_set [DQ])]) (i, []))) = rx_matches u t (key_value_pattern u) (i, [])"
      (is "concat (map ?f ?ms) = _")
      unfolding p using matches_seq_append [of u t "[Group 1 ?r, opt (in_set [DQ])]" "[?v]" "(i, [])"]
      by (simp only: matches_seq_single append.simps)
    note first = this
    obtain m1 where m1: "m1 \<in> set ?ms" "?f m1 \<noteq> []" "hd (?f m1) = (j, caps)"
      using hd_concat_map [of ?f ?ms "(j, caps)"] ne hd unfolding first by blast
    have "fst m1 \<le> length t" using matches_bounds [OF m1(1)] i by simp
    from repeat_chars_maximal [OF m1(2) this] have "j < length t \<longrightarrow> \<not> ?c (t ! j)" unfolding m1(3) by simp
    then have "\<not> word_at u t j"
      using assms(1) ascii_nonword [OF assms(1), of "[DQ, SQ] @ '',}]''" "t ! j"] by (auto simp: word_at_def documented_tables_def)
    then show ?thesis by (simp add: inside_word_def)
  qed
  ultimately show "\<exists>g. caps = [(1, i, g)] \<and> i \<le> g \<and> g \<le> j \<and> \<not> inside_word u t g \<and> \<not> inside_word u t j" using g(3) by auto
qed (simp add: key_value_pattern_def min_len_seq in_set_def opt_def spaces_def)

section \<open>Every exposed secret is matched\<close>

definition spells :: "string list \<Rightarrow> nat \<Rightarrow> string \<Rightarrow> bool" where
  "spells t i s \<longleftrightarrow> i + length s \<le> length t \<and> (\<forall>k < length s. t ! (i + k) = [s ! k])"

lemma spells_append: "spells t i (a @ b) \<longleftrightarrow> spells t i a \<and> spells t (i + length a) b"
proof
  assume "spells t i (a @ b)"
  then have le: "i + length a + length b \<le> length t" and nth: "\<And>k. k < length a + length b \<Longrightarrow> t ! (i + k) = [(a @ b) ! k]"
    by (auto simp: spells_def)
  have "t ! (i + k) = [a ! k]" if "k < length a" for k using nth [of k] that by (simp add: nth_append)
  moreover have "t ! (i + length a + k) = [b ! k]" if "k < length b" for k using nth [of "length a + k"] that by (simp add: add.assoc)
  ultimately show "spells t i a \<and> spells t (i + length a) b" using le by (simp add: spells_def)
next
  assume ab: "spells t i a \<and> spells t (i + length a) b"
  have "t ! (i + k) = [(a @ b) ! k]" if "k < length a + length b" for k
  proof (cases "k < length a")
    case False
    define l where "l = k - length a"
    with False that have "k = length a + l" "l < length b" by simp_all
    then show ?thesis using ab by (simp add: spells_def nth_append add.assoc)
  qed (use ab in \<open>simp add: spells_def nth_append\<close>)
  then show "spells t i (a @ b)" using ab by (simp add: spells_def add.assoc)
qed

lemma spells_Cons: "spells t i (b # s) \<longleftrightarrow> i < length t \<and> t ! i = [b] \<and> spells t (Suc i) s"
  using spells_append [of t i "[b]" s] by (auto simp: spells_def)

lemma spells_segment:
  assumes "segment i j t = singles s" "i < j" "j \<le> length t"
  shows "spells t i s" "j = i + length s"
proof -
  have "length (segment i j t) = length s" unfolding assms(1) by (simp add: singles_def)
  then show l: "j = i + length s" using assms(2,3) by simp
  have "t ! (i + k) = [s ! k]" if "k < length s" for k
    using nth_segment [of k j i t] that assms(3) l unfolding assms(1) by (simp add: singles_def)
  then show "spells t i s" using l assms(3) by (simp add: spells_def)
qed

lemma lit_complete: "spells t i s \<Longrightarrow> (i + length s, c) \<in> set (rx_matches u t (lit s) (i, c))"
proof (induction s arbitrary: i)
  case (Cons b s)
  then show ?case using Cons.IH [of "Suc i"] by (auto simp: lit_def spells_Cons in_set_def ascii_def)
qed (simp add: lit_def)

lemma repeat_complete:
  assumes "spells t i s" "set s \<subseteq> set bs" "lo \<le> length s" "hi = None \<or> hi = Some (length s)"
  shows "(i + length s, c) \<in> set (rx_matches u t (Repeat lo hi (in_set bs)) (i, c))"
proof -
  have "ascii (\<lambda>b. b \<in> set bs) (t ! k)" if "i \<le> k" "k < i + length s" for k
  proof -
    define l where "l = k - i"
    with that have l: "k = i + l" "l < length s" by simp_all
    then have "t ! k = [s ! l]" "s ! l \<in> set s" using assms(1) by (simp_all add: spells_def)
    then show ?thesis using assms(2) by (auto simp: ascii_def)
  qed
  then show ?thesis unfolding in_set_def
    using repeat_chars_complete [of "(i, c)" lo "i + length s" hi t "ascii (\<lambda>b. b \<in> set bs)" u] assms by (auto simp: spells_def)
qed

lemma seq_Cons_complete:
  "m1 \<in> set (rx_matches u t r m) \<Longrightarrow> m2 \<in> set (rx_matches u t (seq rs) m1) \<Longrightarrow> m2 \<in> set (rx_matches u t (seq (r # rs)) m)"
  by auto

lemma boundary_complete: "word_boundary u t i \<Longrightarrow> (i, c) \<in> set (rx_matches u t WordBoundary (i, c))"
  by simp

lemma seq_end: "m \<in> set (rx_matches u t (seq []) m)"
  by simp

lemma databricks_token_complete:
  assumes "exposes_at u databricks_token t i j"
  shows "rx_matches u t databricks_token_pattern (i, []) \<noteq> []"
proof -
  have b: "word_boundary u t i" "word_boundary u t j" "i < j" "j \<le> length t" and "databricks_token (segment i j t)"
    using assms by (auto simp: exposes_at_def)
  then obtain ds where ds: "segment i j t = singles (''dapi'' @ ds)" "16 \<le> length ds" "set ds \<subseteq> set (upper @ lower @ decimal)"
    unfolding databricks_token_def by blast
  note sp = spells_segment [OF ds(1) b(3,4)]
  have s: "spells t i ''dapi''" "spells t (i + length ''dapi'') ds" using sp(1) unfolding spells_append by blast+
  have j: "j = i + length ''dapi'' + length ds" using sp(2) by simp
  have "(j, []) \<in> set (rx_matches u t databricks_token_pattern (i, []))"
    unfolding databricks_token_pattern_def
    by (rule seq_Cons_complete [OF boundary_complete [OF b(1)]], rule seq_Cons_complete [OF lit_complete [OF s(1)]],
        rule seq_Cons_complete [OF repeat_complete [OF s(2) ds(3,2)]], simp, unfold j [symmetric],
        rule seq_Cons_complete [OF boundary_complete [OF b(2)] seq_end])
  then show ?thesis by auto
qed

lemma json_web_token_complete:
  assumes "exposes_at u json_web_token t i j"
  shows "rx_matches u t jwt_pattern (i, []) \<noteq> []"
proof -
  have e: "word_boundary u t i" "word_boundary u t j" "i < j" "j \<le> length t" and "json_web_token (segment i j t)"
    using assms by (auto simp: exposes_at_def)
  then obtain a b c where d: "segment i j t = singles (''eyJ'' @ a @ ''.'' @ b @ ''.'' @ c)" "a \<noteq> []" "b \<noteq> []" "c \<noteq> []"
      "set (a @ b @ c) \<subseteq> set (upper @ lower @ decimal @ ''_-'')"
    unfolding json_web_token_def by blast
  note sp = spells_segment [OF d(1) e(3,4)]
  let ?i1 = "i + length ''eyJ''" let ?i2 = "?i1 + length a" let ?i3 = "?i2 + length ''.''" let ?i4 = "?i3 + length b" let ?i5 = "?i4 + length ''.''"
  have s: "spells t i ''eyJ''" "spells t ?i1 a" "spells t ?i2 ''.''" "spells t ?i3 b" "spells t ?i4 ''.''" "spells t ?i5 c"
    using sp(1) unfolding spells_append by blast+
  have j: "j = ?i5 + length c" using sp(2) by simp
  have part: "(k + length x, caps) \<in> set (rx_matches u t jwt_part (k, caps))"
    if "spells t k x" "x \<noteq> []" "set x \<subseteq> set (a @ b @ c)" for k x caps
    unfolding jwt_part_def by (rule repeat_complete [OF that(1) subset_trans [OF that(3) d(5)]]) (use that(2) in \<open>simp_all add: Suc_le_eq\<close>)
  have sub: "set a \<subseteq> set (a @ b @ c)" "set b \<subseteq> set (a @ b @ c)" "set c \<subseteq> set (a @ b @ c)" by auto
  have "(j, []) \<in> set (rx_matches u t jwt_pattern (i, []))"
    unfolding jwt_pattern_def j
    by (rule seq_Cons_complete [OF boundary_complete [OF e(1)]], rule seq_Cons_complete [OF lit_complete [OF s(1)]],
        rule seq_Cons_complete [OF part [OF s(2) d(2) sub(1)]], rule seq_Cons_complete [OF lit_complete [OF s(3)]],
        rule seq_Cons_complete [OF part [OF s(4) d(3) sub(2)]], rule seq_Cons_complete [OF lit_complete [OF s(5)]],
        rule seq_Cons_complete [OF part [OF s(6) d(4) sub(3)]],
        rule seq_Cons_complete [OF boundary_complete [OF e(2) [unfolded j]] seq_end])
  then show ?thesis by auto
qed

lemma access_key_complete:
  assumes "exposes_at u access_key_id t i j"
  shows "rx_matches u t access_key_pattern (i, []) \<noteq> []"
proof -
  have b: "word_boundary u t i" "word_boundary u t j" "i < j" "j \<le> length t" and "access_key_id (segment i j t)"
    using assms by (auto simp: exposes_at_def)
  then obtain p ds where ds: "segment i j t = singles (p @ ds)" "p \<in> {''AKIA'', ''ASIA''}" "length ds = 16" "set ds \<subseteq> set (decimal @ upper)"
    unfolding access_key_id_def by blast
  note sp = spells_segment [OF ds(1) b(3,4)]
  have s: "spells t i p" "spells t (i + length p) ds" using sp(1) unfolding spells_append by blast+
  have j: "j = i + length p + length ds" using sp(2) by simp
  have "(i + length p, []) \<in> set (rx_matches u t (lit p) (i, []))" by (rule lit_complete [OF s(1)])
  then have p: "(i + length p, []) \<in> set (rx_matches u t (one_of [lit ''AKIA'', lit ''ASIA'']) (i, []))" using ds(2) by (auto simp: one_of_def)
  have "(j, []) \<in> set (rx_matches u t access_key_pattern (i, []))"
    unfolding access_key_pattern_def j
    by (rule seq_Cons_complete [OF boundary_complete [OF b(1)]], rule seq_Cons_complete [OF p],
        rule seq_Cons_complete [OF repeat_complete [OF s(2) ds(4)]], simp add: ds(3), simp add: ds(3),
        rule seq_Cons_complete [OF boundary_complete [OF b(2) [unfolded j]] seq_end])
  then show ?thesis by auto
qed

section \<open>Texts and their characters\<close>

definition char_ok :: "string \<Rightarrow> bool" where
  "char_ok c \<longleftrightarrow> whole_char c \<and> starts_char c"

lemma utf8_chars_of_concat: "list_all char_ok cs \<Longrightarrow> utf8_chars (concat cs) = cs"
  by (rule utf8_chars_concat) (cases cs; auto simp: char_chunks_def char_ok_def list_all_iff)

lemma utf8_chars_ok:
  assumes "s = [] \<or> \<not> is_continuation (hd s)"
  shows "list_all char_ok (utf8_chars s)"
proof (cases "s = []")
  case False
  then obtain ds rest where "utf8_chars s = (hd s # ds) # rest" using utf8_chars_head by blast
  then show ?thesis using utf8_chars_chunks [of s] assms False by (auto simp: char_chunks_def char_ok_def starts_char_def list_all_iff)
qed simp

lemma valid_str_hd: "valid_str s \<Longrightarrow> s = [] \<or> \<not> is_continuation (hd s)"
  by (cases s) (auto simp: valid_str_def utf8_valid_def str_bytes_def is_continuation_def utf8_cont_def Let_def split: if_splits)

definition ascii_only :: "string \<Rightarrow> bool" where
  "ascii_only s \<longleftrightarrow> list_all (\<lambda>b. (of_char b :: nat) < 128) s"

lemma char_ok_ascii: "(of_char b :: nat) < 128 \<Longrightarrow> char_ok [b]"
  by (simp add: char_ok_def starts_char_def is_continuation_def utf8_cont_def)

lemma utf8_chars_ascii: "ascii_only s \<Longrightarrow> utf8_chars s = singles s"
proof -
  assume "ascii_only s"
  then have "list_all char_ok (singles s)" by (auto simp: ascii_only_def singles_def list_all_iff char_ok_ascii)
  moreover have "concat (singles s) = s" by (induction s) (simp_all add: singles_def)
  ultimately show ?thesis using utf8_chars_of_concat [of "singles s"] by simp
qed

lemma set_capture: "set (capture t caps name) \<subseteq> set t"
proof (cases "map_of caps (digits_value 0 (concat name))")
  case (Some p)
  obtain i j where p: "p = (i, j)" by (cases p)
  show ?thesis unfolding capture_def Some p option.case prod.case using set_segment [of i j t]
    by (cases "list_all (ascii is_ascii_digit) name") (simp_all only: if_True if_False list.set empty_subsetI)
next
  case None
  show ?thesis unfolding capture_def None option.case by (simp only: if_cancel list.set empty_subsetI)
qed

lemma set_rx_expand: "set (rx_expand t caps rep) \<subseteq> insert ''$'' (set t \<union> set rep)"
proof (induction t caps rep rule: rx_expand.induct)
  case (2 t caps c cs)
  have "set (tl cs) \<subseteq> set cs" "set (dropWhile name_char cs) \<subseteq> set cs" by (cases cs) (auto dest: set_dropWhileD)
  then show ?case using 2 set_capture [of t caps "takeWhile name_char cs"] by simp blast
qed simp

lemma set_replace_from: "set (replace_from u t r rep fuel s) \<subseteq> insert ''$'' (set t \<union> set rep)"
proof (induction fuel arbitrary: s)
  case (Suc fuel)
  show ?case
  proof (cases "rx_find u t r s")
    case (Some f)
    then obtain i j caps where f: "f = (i, j, caps)" by (cases f)
    show ?thesis using Some f Suc.IH [of j] Suc.IH [of "Suc i"] set_rx_expand [of t caps rep] set_segment [of s i t] set_segment [of i "Suc i" t] by auto
  qed (use set_drop_subset in fastforce)
qed (use set_drop_subset in fastforce)

lemma replace_text_chars:
  assumes "list_all char_ok t" "ascii_only rep"
  shows "list_all char_ok (replace_text u r t (singles rep))"
proof -
  have "char_ok ''$''" by (rule char_ok_ascii) simp
  then show ?thesis using assms set_replace_from [of u t r "singles rep" "Suc (length t)" 0] char_ok_ascii
    unfolding replace_text_def by (auto simp: list_all_iff singles_def ascii_only_def simp del: replace_from.simps)
qed

definition redact_text :: "unicode_tables \<Rightarrow> (rx \<times> string) list \<Rightarrow> string list \<Rightarrow> string list" where
  "redact_text u patterns t = foldl (\<lambda>t (r, rep). replace_text u r t (singles rep)) t patterns"

lemma redact_sensitive_chars:
  assumes "documented_regex u replace_all" "list_all (\<lambda>(r, rep). ascii_only rep) patterns" "list_all char_ok (utf8_chars s)"
  shows "utf8_chars (redact_sensitive replace_all patterns s) = redact_text u patterns (utf8_chars s)"
  using assms(2,3)
proof (induction patterns arbitrary: s)
  case (Cons p patterns)
  obtain r rep where p: "p = (r, rep)" by (cases p)
  have rep: "ascii_only rep" using Cons.prems(1) p by simp
  let ?t = "replace_text u r (utf8_chars s) (singles rep)"
  have ok: "list_all char_ok ?t" by (rule replace_text_chars [OF Cons.prems(2) rep])
  have "replace_all r s rep = concat ?t" using assms(1) utf8_chars_ascii [OF rep] by (simp add: documented_regex_def)
  then have t: "utf8_chars (replace_all r s rep) = ?t" using utf8_chars_of_concat [OF ok] by simp
  then show ?case using Cons.IH [of "replace_all r s rep"] Cons.prems(1) ok by (simp add: p redact_sensitive_def redact_text_def)
qed (simp add: redact_sensitive_def redact_text_def)

lemma replacements_ascii: "list_all (\<lambda>(r, rep). ascii_only rep) (redaction_patterns u)"
proof -
  have "list_all ascii_only [''[REDACTED_PATH]'', ''[REDACTED_URL]'', ''$1[REDACTED]'', ''[REDACTED_DATABRICKS_TOKEN]'', ''[REDACTED_TOKEN]'',
      ''[REDACTED_AWS_ACCESS_KEY]'', ''$1=[REDACTED_SQL]'', ''[REDACTED_SQL]'']" by code_simp
  then show ?thesis by (simp add: redaction_patterns_def)
qed

section \<open>No token survives\<close>

lemma removes:
  assumes "r = seq (WordBoundary # rs)" "cuts u S t r (singles rep)" "marks u S (singles rep)" "CHR ''$'' \<notin> set rep"
    and "\<And>i j. exposes_at u S t i j \<Longrightarrow> rx_matches u t r (i, []) \<noteq> []"
  shows "\<not> exposes u S (replace_text u r t (singles rep))"
  unfolding replace_text_def
proof (rule replace_from_removes [OF assms(2) _ assms(3,5)])
  show "rx_expand t caps (singles rep) = singles rep" for caps
    by (rule rx_expand_plain) (use assms(4) in \<open>auto simp: singles_def\<close>)
  show "\<not> inside_word u t i" if "rx_matches u t r (i, []) \<noteq> []" for i
    using starts_at_boundary [of "hd (rx_matches u t r (i, []))" u t rs "(i, [])"] hd_in_set [OF that] boundary_not_inside
    unfolding assms(1) by auto
qed (simp_all add: inside_word_def)

lemma later_patterns_keep:
  assumes "documented_tables u" "\<And>w. S w \<Longrightarrow> secret_like w" "\<not> exposes u S t"
  shows "\<not> exposes u S (redact_text u (drop 8 (redaction_patterns u)) t)"
    "\<not> exposes u S (redact_text u (drop 7 (redaction_patterns u)) t)"
    "\<not> exposes u S (redact_text u (drop 6 (redaction_patterns u)) t)"
proof -
  have keep: "\<not> exposes u S (replace_text u r t rep)" if "\<not> exposes u S t" "cuts u S t r rep" for t r rep
    using that replace_text_exposes by blast
  have c: "cuts u S t (key_value_pattern u) (singles ''$1[REDACTED]'')" "cuts u S t (statement_pattern u) (singles ''[REDACTED_SQL]'')"
      "cuts u S t (quoted_sql_pattern u DQ) (singles ''$1=[REDACTED_SQL]'')" "cuts u S t (quoted_sql_pattern u SQ) (singles ''$1=[REDACTED_SQL]'')"
      "cuts u S t jwt_pattern (singles ''[REDACTED_TOKEN]'')" "cuts u S t access_key_pattern (singles ''[REDACTED_AWS_ACCESS_KEY]'')" for t
    by (rule cuts_key_value cuts_statement cuts_quoted_sql cuts_tokens; (rule assms | simp); assumption?)+
  have late: "\<not> exposes u S (redact_text u (drop 8 (redaction_patterns u)) t)" if "\<not> exposes u S t" for t
  proof -
    have "redact_text u (drop 8 (redaction_patterns u)) t =
        replace_text u (statement_pattern u) (replace_text u (quoted_sql_pattern u SQ) (replace_text u (quoted_sql_pattern u DQ)
          (replace_text u (key_value_pattern u) t (singles ''$1[REDACTED]'')) (singles ''$1=[REDACTED_SQL]'')) (singles ''$1=[REDACTED_SQL]''))
          (singles ''[REDACTED_SQL]'')"
      by (simp add: redact_text_def redaction_patterns_def)
    then show ?thesis
      by (simp only:) (intro keep that c)
  qed
  have key: "\<not> exposes u S (redact_text u (drop 7 (redaction_patterns u)) t)" if "\<not> exposes u S t" for t
  proof -
    have "redact_text u (drop 7 (redaction_patterns u)) t =
        redact_text u (drop 8 (redaction_patterns u)) (replace_text u access_key_pattern t (singles ''[REDACTED_AWS_ACCESS_KEY]''))"
      by (simp add: redact_text_def redaction_patterns_def)
    then show ?thesis by (simp only:) (intro late keep that c)
  qed
  show "\<not> exposes u S (redact_text u (drop 8 (redaction_patterns u)) t)" "\<not> exposes u S (redact_text u (drop 7 (redaction_patterns u)) t)"
    using late key assms(3) by blast+
  have "redact_text u (drop 6 (redaction_patterns u)) t =
      redact_text u (drop 7 (redaction_patterns u)) (replace_text u jwt_pattern t (singles ''[REDACTED_TOKEN]''))"
    by (simp add: redact_text_def redaction_patterns_def)
  then show "\<not> exposes u S (redact_text u (drop 6 (redaction_patterns u)) t)"
    by (simp only:) (intro key keep assms(3) c)
qed

lemma redact_text_split: "redact_text u ps t = redact_text u (drop k ps) (redact_text u (take k ps) t)"
  by (metis append_take_drop_id foldl_append redact_text_def)

lemma no_token_survives:
  assumes "documented_tables u" "documented_regex u replace_all" "valid_str message" "S \<in> {databricks_token, json_web_token, access_key_id}"
  shows "\<not> exposes u S (utf8_chars (redact_sensitive replace_all (redaction_patterns u) message))"
proof -
  define t where "t k = redact_text u (take k (redaction_patterns u)) (utf8_chars message)" for k
  have step: "t 6 = replace_text u databricks_token_pattern (t 5) (singles ''[REDACTED_DATABRICKS_TOKEN]'')"
    "t 7 = replace_text u jwt_pattern (t 6) (singles ''[REDACTED_TOKEN]'')"
    "t 8 = replace_text u access_key_pattern (t 7) (singles ''[REDACTED_AWS_ACCESS_KEY]'')"
    by (simp_all add: t_def redact_text_def redaction_patterns_def)
  have dapi: "\<not> exposes u databricks_token (t 6)" unfolding step(1)
  proof (rule removes)
    show "databricks_token_pattern = seq (WordBoundary # [lit ''dapi'', Repeat 16 None (in_set (upper @ lower @ decimal)), WordBoundary])"
      by (simp add: databricks_token_pattern_def)
  qed (rule cuts_tokens markers databricks_token_complete, (rule assms secret_kinds | assumption)+ | simp | assumption)+
  have jwt: "\<not> exposes u json_web_token (t 7)" unfolding step(2)
  proof (rule removes)
    show "jwt_pattern = seq (WordBoundary # [lit ''eyJ'', jwt_part, lit ''.'', jwt_part, lit ''.'', jwt_part, WordBoundary])"
      by (simp add: jwt_pattern_def)
  qed (rule cuts_tokens markers json_web_token_complete, (rule assms secret_kinds | assumption)+ | simp | assumption)+
  have key: "\<not> exposes u access_key_id (t 8)" unfolding step(3)
  proof (rule removes)
    show "access_key_pattern = seq (WordBoundary # [one_of [lit ''AKIA'', lit ''ASIA''], Repeat 16 (Some 16) (in_set (decimal @ upper)), WordBoundary])"
      by (simp add: access_key_pattern_def)
  qed (rule cuts_tokens markers access_key_complete, (rule assms secret_kinds | assumption)+ | simp | assumption)+
  have all: "utf8_chars (redact_sensitive replace_all (redaction_patterns u) message) = redact_text u (drop k (redaction_patterns u)) (t k)" for k
    using redact_sensitive_chars [OF assms(2) replacements_ascii utf8_chars_ok [OF valid_str_hd [OF assms(3)]]] redact_text_split
    by (simp add: t_def)
  consider "S = databricks_token" | "S = json_web_token" | "S = access_key_id" using assms(4) by blast
  then show ?thesis
  proof cases
    case 1
    show ?thesis unfolding all [of 6] 1 by (rule later_patterns_keep(3) [OF assms(1) _ dapi]) (rule secret_kinds)
  next
    case 2
    show ?thesis unfolding all [of 7] 2 by (rule later_patterns_keep(2) [OF assms(1) _ jwt]) (rule secret_kinds)
  next
    case 3
    show ?thesis unfolding all [of 8] 3 by (rule later_patterns_keep(1) [OF assms(1) _ key]) (rule secret_kinds)
  qed
qed

text \<open>
  C9. No access token survives redaction: whatever text is redacted, the result has no Databricks
  token, no JSON web token and no AWS access key between two word boundaries, under the documented
  meaning of regular expressions and of the Unicode classes; in particular the event that is
  logged for an error has none.
\<close>

theorem tokens_are_redacted:
  assumes "documented_tables u" "documented_regex u replace_all" "valid_str message" "valid_str (error_to_string e)"
    and "S \<in> {databricks_token, json_web_token, access_key_id}"
  shows "\<not> exposes u S (utf8_chars (redact_sensitive replace_all (redaction_patterns u) message)) \<and>
    \<not> exposes u S (utf8_chars (le_internal_error (log_internal replace_all u context e)))"
  using no_token_survives [OF assms(1,2,3,5)] no_token_survives [OF assms(1,2,4,5)]
  by (simp add: log_internal_def redacted_internal_message_def)

text \<open>The classes of Unicode restricted to ASCII, and the documented meaning itself as the engine.\<close>

definition ascii_tables :: unicode_tables where
  "ascii_tables = \<lparr>uc_word = ascii ascii_word, uc_space = ascii ascii_space, uc_fold = eq_ignore_ascii_case\<rparr>"

definition reference_replace_all :: "rx \<Rightarrow> string \<Rightarrow> string \<Rightarrow> string" where
  "reference_replace_all r s rep = concat (replace_text ascii_tables r (utf8_chars s) (utf8_chars rep))"

lemma ascii_tables_documented: "documented_tables ascii_tables"
proof -
  have "\<not> ascii_word b" if "ascii_space b" for b
  proof -
    have "list_all (\<lambda>b. \<not> ascii_word b) [CHR 0x09, CHR 0x0A, CHR 0x0B, CHR 0x0C, CHR 0x0D, CHR '' '']" by code_simp
    then show ?thesis using that by (auto simp: ascii_space_def)
  qed
  then show ?thesis by (auto simp: documented_tables_def ascii_tables_def ascii_def split: list.splits)
qed

lemma exposes_token_at_end:
  assumes "drop i t = singles (''dapi'' @ ds)" "16 \<le> length ds" "set ds \<subseteq> set (upper @ lower @ decimal)"
    "word_boundary u t i" "word_boundary u t (length t)"
  shows "exposes u databricks_token t"
proof -
  have "length (drop i t) = 4 + length ds" unfolding assms(1) by (simp add: singles_def)
  then have "i < length t" by simp
  moreover have "databricks_token (segment i (length t) t)"
    unfolding databricks_token_def segment_to_end [symmetric] using assms(1-3) by blast
  ultimately show ?thesis using assms(4,5) unfolding exposes_def exposes_at_def by blast
qed

theorem tokens_are_redacted_witness:
  "\<not> exposes ascii_tables databricks_token
      (utf8_chars (redact_sensitive reference_replace_all (redaction_patterns ascii_tables) ''failed with dapi0123456789abcdef'')) \<and>
   exposes ascii_tables databricks_token (utf8_chars ''failed with dapi0123456789abcdef'')"
proof
  have valid: "valid_str ''failed with dapi0123456789abcdef''" "valid_str (error_to_string MissingBearerToken)" by code_simp+
  have "documented_regex ascii_tables reference_replace_all" by (simp add: documented_regex_def reference_replace_all_def)
  from tokens_are_redacted [OF ascii_tables_documented this valid(1), of MissingBearerToken databricks_token]
  show "\<not> exposes ascii_tables databricks_token
      (utf8_chars (redact_sensitive reference_replace_all (redaction_patterns ascii_tables) ''failed with dapi0123456789abcdef''))" using valid(2) by simp
  show "exposes ascii_tables databricks_token (utf8_chars ''failed with dapi0123456789abcdef'')"
  proof (rule exposes_token_at_end [where i = 12 and ds = "''0123456789abcdef''"])
    show "drop 12 (utf8_chars ''failed with dapi0123456789abcdef'') = singles (''dapi'' @ ''0123456789abcdef'')" by code_simp
    show "16 \<le> length ''0123456789abcdef''" by code_simp
    show "set ''0123456789abcdef'' \<subseteq> set (upper @ lower @ decimal)" by code_simp
    show "word_boundary ascii_tables (utf8_chars ''failed with dapi0123456789abcdef'') 12" by code_simp
    show "word_boundary ascii_tables (utf8_chars ''failed with dapi0123456789abcdef'') (length (utf8_chars ''failed with dapi0123456789abcdef''))" by code_simp
  qed
qed

end
