(* ===== verification/Spec2Isabelle.thy ===== *)
theory Spec2Isabelle
  imports Example_Service Wire_Properties Table_Cache_Properties Catalog_Properties Sql_Properties Engine_Properties
    Provider_Properties Information_Properties Server_Properties Redaction_Properties
begin

text \<open>
  HarborSQL answers the SQL of Databricks clients: it speaks their Thrift protocol over HTTP, keeps
  sessions and operations, rewrites and plans each statement with DataFusion, reads Delta tables
  with the credentials that Unity Catalog issues for the caller's token, and sends the rows back.
  This library models the implementation under \<open>src/src\<close> and proves what its parts promise, alone
  and together. The theorems of this theory are about the Thrift service as a whole; those about
  the other components are in the theories named \<open>..._Properties\<close> and in \<open>Observability\<close>.

  \<^bold>\<open>How a request runs.\<close> \<open>server.rs\<close> takes the token from the request and calls the Thrift service
  or, for \<open>/api/v1/query\<close>, the engine. \<open>thrift.rs\<close> decodes the message, finds the session or
  operation, and spawns a task for a statement; later requests poll it, fetch pages of its result,
  cancel or close it. The task calls \<open>QueryEngine::execute\<close> (\<open>engine.rs\<close>), which tries the statement
  as a \<open>SHOW\<close> statement (\<open>engine/metadata\<close>) and as a \<open>CREATE OR REPLACE TABLE\<close> (\<open>engine/write.rs\<close>),
  rewrites it, and plans it against the catalog (\<open>engine/catalog.rs\<close>,
  \<open>engine/information_schema.rs\<close>); tables are opened through the table cache (\<open>table_cache.rs\<close>) and
  read through the store of their own credentials. Collected batches are paged and encoded by
  \<open>thrift/result_encoding.rs\<close>.

  \<^bold>\<open>Theories and sources.\<close>
  \<^item> \<open>Harbor_Prelude\<close>: the types and the parts of Rust's standard library that the components share.
  \<^item> \<open>Async_Programs\<close>: code that shares state under locks, as programs of atomic actions with
    rely and guarantee, and the interleaving of a pool of them. \<open>Effect_Programs\<close>: code by its
    requests to the world outside, with runs against any environment, dropped futures included.
  \<^item> \<open>Harbor_Error\<close>, \<open>Redaction\<close>: \<open>error.rs\<close> (and the recovery of errors in \<open>engine.rs\<close>).
  \<^item> \<open>Thrift_Codec\<close>, \<open>Thrift_Requests\<close>, \<open>Thrift_Responses\<close>: \<open>thrift/codec.rs\<close>,
    \<open>thrift/protocol.rs\<close> and the readers and writers of \<open>thrift.rs\<close>.
  \<^item> \<open>Query_Results\<close>, \<open>Result_Encoding\<close>: results and paging (\<open>engine.rs\<close>, \<open>engine/results.rs\<close>) and
    \<open>thrift/result_encoding.rs\<close>.
  \<^item> \<open>Thrift_State\<close>, \<open>Thrift_Service\<close>: \<open>thrift/state.rs\<close> and the service of \<open>thrift.rs\<close>: one function
    per critical section, one program per method and handler. \<open>Thrift_Invariant\<close>,
    \<open>Thrift_Isolation\<close>, \<open>Thrift_Lifecycle\<close> and \<open>Thrift_Requests_Run\<close> hold their lemmas.
  \<^item> \<open>Table_Cache\<close>, \<open>Table_Cache_Waiting\<close>: \<open>table_cache.rs\<close> as a step relation.
  \<^item> \<open>Show_Statements\<close>, \<open>Metadata\<close>, \<open>Metadata_Results\<close>: \<open>engine/metadata\<close>.
  \<^item> \<open>Unity_Catalog\<close>, \<open>Configuration\<close>, \<open>Udfs\<close>: \<open>unity.rs\<close>, \<open>config.rs\<close>, \<open>udf.rs\<close>.
  \<^item> \<open>Sql_Rewrite\<close>, \<open>Sql_Semantics\<close>: the rewriting of SQL in \<open>engine.rs\<close>, and a reference
    semantics of the expressions it touches.
  \<^item> \<open>Object_Routing\<close>, \<open>Catalog_Provider\<close>, \<open>Information_Schema\<close>: the object stores of
    \<open>engine.rs\<close>, \<open>engine/catalog.rs\<close>, \<open>engine/information_schema.rs\<close>.
  \<^item> \<open>Writes\<close>, \<open>Engine\<close>: \<open>engine/write.rs\<close> and \<open>execute\<close> in \<open>engine.rs\<close>.
  \<^item> \<open>Observability\<close>, \<open>Server\<close>: \<open>observability.rs\<close>; \<open>server.rs\<close> and \<open>main.rs\<close>.
  \<^item> \<open>Service_Engine\<close>: the service of \<open>thrift.rs\<close> with the engine behind it. \<open>Example_Service\<close>: a
    concrete one for the witnesses.

  \<^bold>\<open>What the lemmas show.\<close> Of the Thrift service: an invariant of every reachable state, isolation
  of principals, progress of operations, termination of requests, that fetched rows come from the
  engine's run of the caller's own statement, and the exact effect of opening, closing, fetching and cleaning up. Of the wire: requests and responses
  are read and written as the protocol says, \<open>skip\<close> stops at its depth, pages cover a result once
  and in order, and a row set encodes the requested window. Of the cache: loads are not run twice
  at once, results belong to the key and are fresh, the size is bounded, no wake-up is lost,
  invalidation detaches. Of the engine: rewriting keeps values and text, writes are guarded and
  followed by an invalidation, what a successful statement has done, each object is read with the
  store of its table, each table with credentials granted to the caller. Of the metadata: \<open>SHOW\<close>
  statements are parsed back, listings are complete, filters lose no rows, columns are in order. Of
  the rest: tokens are read as sent and required, redaction leaves no access token, metrics are
  sums of what was observed, an accepted configuration is safe.

  \<^bold>\<open>Interfaces.\<close> \<open>rely_guarantee\<close> and \<open>pool\<close> (interleaved programs), \<open>service_sections\<close> (what every
  critical section must guarantee, proved once for all handlers), \<open>result_store\<close> (the trait
  \<open>ResultStore\<close>) and \<open>struct_body\<close> (readers of Thrift structs) are locales; each is interpreted on
  the model's definitions.

  \<^bold>\<open>Loops and fuel.\<close> Readers of the codec recurse on a remaining length or nesting depth and are
  total. \<open>list_loop\<close> of the Unity client may run forever, so it is a partial function with \<open>None\<close> for
  that, and it is proved to return when the service has finitely many pages. Programs that wait are
  not enabled while they wait; that they can go on is proved where it holds. Searches of regular
  expressions use the length of the text as fuel, enough because every iteration consumes a
  character.

  \<^bold>\<open>Parameters.\<close> Code outside the repository is an argument: UUIDs (assumed not to repeat), SHA-256
  and HMAC (assumed collision-free where principals are told apart), the regex, url, chrono, Arrow,
  sqlparser, DataFusion and delta-rs crates, HTTP, the clock and the environment. Instants are
  natural numbers; integers that can overflow have their width and wrap, as in the release profile.
  Mutexes are not poisoned: no code under them panics. A dropped future may have had the effect of
  the request it was waiting for or not. The calls to Unity within one metadata statement are a
  function of their arguments.

  \<^bold>\<open>Not modelled.\<close> Planning and execution inside DataFusion, the write inside delta-rs and the
  session configuration of the engine: third-party code, answered by the environment. Tracing,
  spans and log output: no behaviour of the program depends on them (what is written to a log about
  an error is \<open>log_internal\<close>). The listener, body limits and request identifiers of axum and tower:
  the routes themselves are in \<open>Server\<close>. The tests.
\<close>

section \<open>The service under every interleaving\<close>

text \<open>
  C1. In every state that any interleaving of requests, dropped requests, background tasks and
  clock ticks reaches, the service invariant holds: sessions and operations stay within the
  configured maxima and have distinct identifiers, all issued by the UUID source; an operation
  belongs to the same principal as its session; every running operation has a task of its own
  that nobody has asked to abort; every recorded failure is one of the fixed client errors; every
  recorded result is one that the operation's own task, given its principal's token, may have.
\<close>

theorem service_invariant:
  assumes "uuids_unique sv" "reachable sv w"
  shows "service_inv sv w"
proof -
  have "unique_service sv" using assms(1) by (rule unique_service.intro)
  then show ?thesis using assms(2) by (rule unique_service.reachable_inv)
qed

theorem service_invariant_witness: "service_inv example_service started_world"
  by (rule service_invariant [OF example_unique example_reachable(2)])

text \<open>
  C2. Requests are isolated from other principals: whatever other requests do in between, no
  action of a request with a token changes a session of another principal, except to remove it
  once it has been idle for too long, or an operation of another principal, except to record
  that its task has finished or to remove it with its session or once it has been kept long
  enough; whatever a request adds belongs to the token's own principal.
\<close>

theorem requests_isolated:
  assumes "uuids_unique sv" "service_inv sv w"
  shows "rg (rely sv) (isolated sv (sv_fingerprint sv token)) (\<lambda>_ _. True) (handle_request sv token body) w \<and>
    rg (rely sv) (isolated sv (sv_fingerprint sv token)) (\<lambda>_ _. True) (query_history sv token query_id) w"
proof -
  have "unique_service sv" using assms(1) by (rule unique_service.intro)
  then show ?thesis using unique_service.isolated_requests assms(2) by blast
qed

lemma example_inv: "service_inv example_service opened_world" "service_inv example_service started_world"
    "service_inv example_service finished_world"
  using example.reachable_inv example_reachable by blast+

theorem requests_isolated_witness:
  "rg (rely example_service) (isolated example_service (str_bytes ''mallory'')) (\<lambda>_ _. True)
     (handle_request example_service ''mallory'' execute_call) started_world"
  using requests_isolated [OF example_unique example_inv(2), of "''mallory''" execute_call] by simp

text \<open>
  C8. No action of any request, whatever others do in between, moves an operation back in its
  life (running, refreshing, completed), and none changes an operation that has completed: its
  result, error and duration stay as they are until it is removed.
\<close>

theorem operations_move_forward:
  assumes "uuids_unique sv" "service_inv sv w"
  shows "rg (rely sv) (progressing sv) (\<lambda>_ _. True) (handle_request sv token body) w \<and>
    rg (rely sv) (progressing sv) (\<lambda>_ _. True) (query_history sv token query_id) w \<and>
    rg (rely sv) (progressing sv) (\<lambda>_ _. True) (cleanup_expired sv) w"
proof -
  have "unique_service sv" using assms(1) by (rule unique_service.intro)
  then show ?thesis using unique_service.progressing_requests assms(2) by blast
qed

theorem operations_move_forward_witness:
  "rg (rely example_service) (progressing example_service) (\<lambda>_ _. True) (cleanup_expired example_service) finished_world"
  using operations_move_forward [OF example_unique example_inv(3)] by blast

section \<open>What a request answers\<close>

lemma returns_run: "returns p \<Longrightarrow> \<exists>x w'. run p w = Some (x, w')"
  unfolding returns_def by fastforce

text \<open>
  C10. An operation can be used only with its secret and its owner's token. With any other handle
  or token the answer to every operation request is the one for an operation that does not
  exist, and it does not depend on whether it does.
\<close>

theorem unauthorized_requests_learn_nothing:
  assumes "distinct_keys (w_operations w)" "\<not> authorized sv h token w"
    and args: "read_args (msg_payload msg) (read_operation_req (sv_uuid_string sv)) = Some (Inr (Some h))"
    and fetch: "read_args (msg_payload msg) (read_fetch_results_req (sv_uuid_string sv)) = Some (Inr request)"
      "frr_operation_handle request = Some h"
  shows
    "map_option fst (run (rpc_get_operation_status sv token msg) w) = Some (Inr (write_get_operation_status_invalid (msg_seqid msg))) \<and>
     map_option fst (run (rpc_get_query_id sv token msg) w) = Some (Inr (write_get_query_id_response (msg_seqid msg) [])) \<and>
     map_option fst (run (rpc_get_result_set_metadata sv token msg) w) = Some (Inr (write_get_result_set_metadata_invalid (msg_seqid msg))) \<and>
     map_option fst (run (rpc_fetch_results sv token msg) w) = Some (Inr (write_fetch_results_invalid (msg_seqid msg))) \<and>
     map_option fst (run (rpc_close_operation sv token msg) w) = Some (Inr (write_close_operation_response (msg_seqid msg) False)) \<and>
     map_option fst (run (rpc_cancel_operation sv token msg) w) = Some (Inr (write_cancel_operation_response (msg_seqid msg) False))"
proof -
  have lookup: "\<exists>w'. run (with_operation sv (Some h) token answer) w = Some (None, w')" for answer :: "operation_state \<Rightarrow> bytes"
    using returns_methods(2) [of sv "Some h" token answer] with_operation_unauthorized [OF assms(1,2), of answer]
    by (metis returns_run)
  have remove: "\<exists>w'. run (remove_operation sv (Some h) token) w = Some (False, w')"
    using returns_methods(3) [of sv "Some h" token] remove_operation_unauthorized [OF assms(1,2)] by (metis returns_run)
  have cancel: "\<exists>w'. run (cancel_operation sv (Some h) token) w = Some (False, w')"
    using returns_methods(4) [of sv "Some h" token] cancel_operation_unauthorized [OF assms(1,2)] by (metis returns_run)
  show ?thesis
    unfolding rpc_get_operation_status_def rpc_get_query_id_def rpc_get_result_set_metadata_def rpc_fetch_results_def
      rpc_close_operation_def rpc_cancel_operation_def
    using lookup [of "write_get_operation_status_response (msg_seqid msg)"]
      lookup [of "\<lambda>_. write_get_query_id_response (msg_seqid msg) (handle_id (Some h))"]
      lookup [of "metadata_of_operation sv (msg_seqid msg)"] lookup [of "rows_of_operation sv (msg_seqid msg) request"]
      remove cancel
    by (auto simp: run_with_args [OF args] run_with_args [OF fetch(1)] fetch(2) run_pbind)
qed

definition status_call :: bytes where
  "status_call = write_field T_STRUCT 1
     (write_field T_STRUCT 1 (write_operation_handle_with_type operation_guid operation_secret True EXECUTE_STATEMENT) @
      write_stop) @ write_stop"

lemma status_call_args:
  "read_args status_call (read_operation_req bytes_str) = Some (Inr (Some operation_handle))"
  "read_args status_call (read_fetch_results_req bytes_str) =
     Some (Inr \<lparr>frr_operation_handle = Some operation_handle, frr_start_row_offset = None, frr_max_rows = None\<rparr>)"
proof -
  note handle = parses_operation_handle [of operation_guid operation_secret bytes_str True EXECUTE_STATEMENT]
  have 1: "parses (operation_field bytes_str None T_STRUCT 1)
      (write_operation_handle_with_type operation_guid operation_secret True EXECUTE_STATEMENT) (Some operation_handle)"
    using handle by (simp add: operation_field_def operation_handle_def)
  show "read_args status_call (read_operation_req bytes_str) = Some (Inr (Some operation_handle))"
    unfolding status_call_def read_operation_req_def
    by (intro args_of_call parses_struct_field [where body = "operation_field bytes_str", OF _ 1] parses_struct_stop)
       (simp add: valid_field_type_def)
  have 2: "parses (fetch_results_field bytes_str \<lparr>frr_operation_handle = None, frr_start_row_offset = None, frr_max_rows = None\<rparr> T_STRUCT 1)
      (write_operation_handle_with_type operation_guid operation_secret True EXECUTE_STATEMENT)
      \<lparr>frr_operation_handle = Some operation_handle, frr_start_row_offset = None, frr_max_rows = None\<rparr>"
    using parses_bind_rret_eq [OF handle, of _ "\<lambda>h. \<lparr>frr_operation_handle = h, frr_start_row_offset = None, frr_max_rows = None\<rparr>"]
    by (simp add: fetch_results_field_def operation_handle_def)
  show "read_args status_call (read_fetch_results_req bytes_str) =
     Some (Inr \<lparr>frr_operation_handle = Some operation_handle, frr_start_row_offset = None, frr_max_rows = None\<rparr>)"
    unfolding status_call_def read_fetch_results_req_def
    by (intro args_of_call parses_struct_field [where body = "fetch_results_field bytes_str", OF _ 2] parses_struct_stop)
       (simp add: valid_field_type_def)
qed

theorem unauthorized_requests_learn_nothing_witness:
  "map_option fst (run (rpc_fetch_results example_service ''mallory''
       \<lparr>msg_name = ''FetchResults'', msg_type = T_MESSAGE_CALL, msg_seqid = 9, msg_payload = status_call\<rparr>) finished_world)
     = Some (Inr (write_fetch_results_invalid 9))"
proof -
  have "\<not> authorized example_service operation_handle ''mallory'' finished_world"
    by (simp add: authorized_def operation_handle_def finished_world_def set_task_def started_world_def
        operation_matches_def example_operation_def str_bytes_def)
  moreover have "distinct_keys (w_operations finished_world)"
    using example_inv(3) by (simp add: service_inv_def)
  ultimately show ?thesis
    using unauthorized_requests_learn_nothing [of finished_world example_service operation_handle "''mallory''"
        "\<lparr>msg_name = ''FetchResults'', msg_type = T_MESSAGE_CALL, msg_seqid = 9, msg_payload = status_call\<rparr>"]
      status_call_args by simp
qed



section \<open>Sessions\<close>

lemma card_length_distinct_keys: "distinct_keys m \<Longrightarrow> card (dom (map_of m)) = length m"
  by (metis distinct_card dom_map_of_conv_image_fst length_map list.set_map)

text \<open>
  C23. Opening a session: after the clean-up, if the maximum number of sessions is reached the
  request is refused and the sessions stay as they are; otherwise the answer carries a fresh
  identifier and secret, and the new session is stored under that identifier with that secret,
  the token's fingerprint, the requested catalog and schema (or the configured defaults) and the
  current time, while every other session stays as it is.
\<close>

theorem open_session_effect:
  fixes sv :: svc and w :: world and msg :: message and request :: open_session_req
  assumes "distinct_keys (w_sessions w)" "distinct_keys (w_operations w)"
    and args: "read_args (msg_payload msg) read_open_session_req = Some (Inr request)"
  defines "catalog \<equiv> (case osr_catalog request of Some c \<Rightarrow> c | None \<Rightarrow> cfg_default_catalog (sv_config sv))"
    and "schema \<equiv> (case osr_schema request of Some s \<Rightarrow> s | None \<Rightarrow> cfg_default_schema (sv_config sv))"
    and "guid \<equiv> sv_uuid sv (w_uuids w)" and "secret \<equiv> sv_uuid sv (Suc (w_uuids w))"
  shows "\<exists>reply w'. run (rpc_open_session sv token msg) w = Some (Inr reply, w') \<and>
    (if cfg_max_sessions (sv_config sv) \<le> card (dom (live_session sv w))
     then reply = write_open_session_error (msg_seqid msg) ''maximum session count exceeded'' \<and>
       map_of (w_sessions w') = live_session sv w
     else reply = write_open_session_response (msg_seqid msg) guid secret catalog schema (osr_get_info_types request) \<and>
       map_of (w_sessions w') = (live_session sv w)(sv_uuid_string sv guid \<mapsto>
         \<lparr>ss_id = sv_uuid_string sv guid, ss_secret = secret, ss_token_fingerprint = sv_fingerprint sv token,
          ss_catalog = catalog, ss_schema = schema, ss_last_access = w_now w\<rparr>))"
proof -
  obtain v where v: "run (cleanup_expired sv) w = Some ((), v)" "map_of (w_sessions v) = live_session sv w"
    "distinct_keys (w_sessions v)" "w_now v = w_now w" "w_uuids v = w_uuids w"
    by (rule run_cleanup_live [OF assms(1,2)])
  have "card (dom (live_session sv w)) = length (w_sessions v)"
    using v(3) unfolding v(2) [symmetric] by (metis card_length_distinct_keys)
  then show ?thesis
    unfolding rpc_open_session_def run_with_args [OF args]
    by (simp add: run_pbind v open_session_section_def draw_uuids_def Let_def update_conv' assms(4-7) fun_upd_def)
qed

theorem open_session_effect_witness:
  "\<exists>reply w'. run (rpc_open_session example_service ''token''
       \<lparr>msg_name = ''OpenSession'', msg_type = T_MESSAGE_CALL, msg_seqid = 5, msg_payload = write_field T_STRUCT 1 write_stop @ write_stop\<rparr>)
     opened_world = Some (Inr reply, w') \<and> reply = write_open_session_error 5 ''maximum session count exceeded''"
proof -
  have args: "read_args (write_field T_STRUCT 1 write_stop @ write_stop) read_open_session_req =
      Some (Inr \<lparr>osr_catalog = None, osr_schema = None, osr_get_info_types = []\<rparr>)"
    unfolding read_open_session_req_def by (intro args_of_call parses_struct_stop)
  have "live_session example_service opened_world = [bytes_str session_guid \<mapsto> example_session]"
    by (auto simp: live_session_def session_expired_at_def opened_world_def service_new_def example_session_def
        session_is_expired_def)
  then show ?thesis
    using open_session_effect [of opened_world "\<lparr>msg_name = ''OpenSession'', msg_type = T_MESSAGE_CALL, msg_seqid = 5,
        msg_payload = write_field T_STRUCT 1 write_stop @ write_stop\<rparr>" _ example_service "''token''"] args example_inv(1)
    by (auto simp: service_inv_def simp del: T_STRUCT_def)
qed

text \<open>
  C24. Closing a session succeeds exactly with its secret and its owner's token. Then the session
  is gone, every operation of it is gone with it and the tasks of the running ones are
  aborted, and nothing else changes; otherwise nothing changes at all.
\<close>

theorem close_session_effect:
  assumes "distinct_keys (w_operations w)"
  shows "\<exists>w'. run (remove_session sv (Some h) token) w = Some (session_authorized sv h token w, w') \<and>
    (if session_authorized sv h token w
     then map_of (w_sessions w') = (map_of (w_sessions w))(h_id h := None) \<and>
       (\<forall>k. map_of (w_operations w') k =
          (case map_of (w_operations w) k of
             Some op \<Rightarrow> if os_session_id op = h_id h then None else Some op
           | None \<Rightarrow> None)) \<and>
       (\<forall>k op since t. (k, op) \<in> set (w_operations w) \<longrightarrow> os_session_id op = h_id h \<longrightarrow> os_state op = Running since t \<longrightarrow>
          t \<in> set (w_aborted w'))
     else w' = w)"
proof (cases "session_authorized sv h token w")
  case False
  then show ?thesis by (simp add: run_remove_session)
next
  case True
  let ?w = "remove_operations_section (h_id h) (w\<lparr>w_sessions := AList.delete (h_id h) (w_sessions w)\<rparr>)"
  have "map_of (w_sessions ?w) = (map_of (w_sessions w))(h_id h := None)"
    by (simp add: remove_operations_section_def delete_conv')
  moreover have "map_of (w_operations ?w) k =
      (case map_of (w_operations w) k of Some op \<Rightarrow> if os_session_id op = h_id h then None else Some op | None \<Rightarrow> None)" for k
    using assms by (auto simp: remove_operations_section_def map_of_filter_distinct simp del: map_of_eq_Some_iff split: option.split)
  moreover have "t \<in> set (w_aborted ?w)"
    if "(k, op) \<in> set (w_operations w)" "os_session_id op = h_id h" "os_state op = Running since t" for k op since t
    using that by (force simp: remove_operations_section_def abort_def)
  ultimately show ?thesis using True by (auto simp: run_remove_session simp del: map_of_eq_Some_iff)
qed

theorem close_session_effect_witness:
  "\<exists>w'. run (remove_session example_service (Some session_handle) ''token'') started_world = Some (True, w') \<and>
     0 \<in> set (w_aborted w')"
proof -
  have auth: "session_authorized example_service session_handle ''token'' started_world"
    by (simp add: session_authorized_def session_handle_def started_world_def opened_world_def session_matches_def
        example_session_def)
  have op: "(bytes_str operation_guid, example_operation) \<in> set (w_operations started_world)"
    "os_session_id example_operation = h_id session_handle" "os_state example_operation = Running 10 0"
    by (simp_all add: started_world_def example_operation_def session_handle_def)
  from close_session_effect [OF service_invD(2) [OF example_inv(2)], of example_service session_handle "''token''"]
  obtain w' where "run (remove_session example_service (Some session_handle) ''token'') started_world = Some (True, w')"
    "\<forall>k op since t. (k, op) \<in> set (w_operations started_world) \<longrightarrow> os_session_id op = h_id session_handle \<longrightarrow>
       os_state op = Running since t \<longrightarrow> t \<in> set (w_aborted w')"
    unfolding eqTrueI [OF auth] if_True by blast
  with op show ?thesis by blast
qed

text \<open>
  The clean-up, exactly: it removes the sessions that have been idle for the configured time
  and no others; it records the outcome of every operation whose task has finished; it removes the
  operations of removed sessions and the completed ones whose time to live has passed, and no
  others.
\<close>

lemma cleanup_effect:
  assumes "distinct_keys (w_sessions w)" "distinct_keys (w_operations w)"
  shows "\<exists>w'. run (cleanup_expired sv) w = Some ((), w') \<and>
    (\<forall>k. map_of (w_sessions w') k =
       (case map_of (w_sessions w) k of
          Some s \<Rightarrow> if session_is_expired s (w_now w) (cfg_idle_session_timeout (sv_config sv)) then None else Some s
        | None \<Rightarrow> None)) \<and>
    (\<forall>k. map_of (w_operations w') k =
       (case map_of (w_operations w) k of
          Some op \<Rightarrow>
            if session_expired_at sv w (os_session_id op) \<or>
               operation_is_expired (refreshed w op) (w_now w) (cfg_completed_operation_ttl (sv_config sv))
            then None else Some (refreshed w op)
        | None \<Rightarrow> None))"
proof -
  obtain w' where w': "run (cleanup_expired sv) w = Some ((), w')"
    "map_of (w_sessions w') = live_session sv w" "map_of (w_operations w') = live_operation sv w"
    by (rule run_cleanup_live [OF assms])
  have "live_session sv w k = (case map_of (w_sessions w) k of
      Some s \<Rightarrow> if session_is_expired s (w_now w) (cfg_idle_session_timeout (sv_config sv)) then None else Some s
    | None \<Rightarrow> None)" for k
    by (simp add: live_session_def session_expired_at_def split: option.split del: map_of_eq_Some_iff)
  with w' show ?thesis by (auto simp: live_operation_def simp del: map_of_eq_Some_iff)
qed

section \<open>Operations\<close>

text \<open>
  C25. The outcome of a finished task reaches the client with the next request: if an operation's
  task has finished, its session is alive and results are kept for some time at all, then
  fetching with the operation's handle and its owner's token answers with the rows of the
  result, or with the client error the task ended with.
\<close>

theorem finished_result_is_fetched:
  assumes "distinct_keys (w_sessions w)" "distinct_keys (w_operations w)"
    and op: "map_of (w_operations w) (h_id h) = Some op" "os_state op = Running since t"
    and finished: "join_result w t = Some (Inr completion)"
    and auth: "operation_matches sv h token op"
    and alive: "\<not> session_expired_at sv w (os_session_id op)" "0 < cfg_completed_operation_ttl (sv_config sv)"
    and args: "read_args (msg_payload msg) (read_fetch_results_req (sv_uuid_string sv)) = Some (Inr request)"
      "frr_operation_handle request = Some h"
  shows "map_option fst (run (rpc_fetch_results sv token msg) w) = Some (Inr
    (case oc_result completion of
       Inr result \<Rightarrow> write_fetch_results_response (sv_fns sv) (msg_seqid msg) result True
         (case frr_start_row_offset request of Some off \<Rightarrow> off | None \<Rightarrow> 0) (frr_max_rows request)
     | Inl error \<Rightarrow> write_fetch_results_not_ready (msg_seqid msg) (Some (status_message error))))"
proof -
  let ?op = "op\<lparr>os_state := from_completion (w_now w) completion\<rparr>"
  have refreshed: "refreshed w op = ?op" by (simp add: refreshed_def op(2) finished)
  have "\<not> operation_is_expired ?op (w_now w) (cfg_completed_operation_ttl (sv_config sv))"
    using alive(2) by (simp add: operation_is_expired_def from_completion_def split: sum.split)
  then have live: "live_operation sv w (h_id h) = Some ?op"
    using op(1) alive(1) by (simp add: live_operation_def refreshed del: map_of_eq_Some_iff)
  have matches: "operation_matches sv h token ?op" using auth by (simp add: operation_matches_def)
  obtain w' where "run (rpc_fetch_results sv token msg) w = Some (Inr (rows_of_operation sv (msg_seqid msg) request ?op), w')"
    using run_fetch_results [OF assms(1,2) args, of token] unfolding live by (simp only: option.case matches if_True) blast
  then show ?thesis by (auto simp: rows_of_operation_def from_completion_def split: sum.split)
qed

theorem finished_result_is_fetched_witness:
  "map_option fst (run (rpc_fetch_results example_service ''token''
       \<lparr>msg_name = ''FetchResults'', msg_type = T_MESSAGE_CALL, msg_seqid = 9, msg_payload = status_call\<rparr>) finished_world)
     = Some (Inr (write_fetch_results_response example_fns 9 (empty_result (\<lambda>_. 0)) True 0 None))"
proof -
  have "map_of (w_operations finished_world) (h_id operation_handle) = Some example_operation"
    "join_result finished_world 0 = Some (Inr example_completion)"
    "operation_matches example_service operation_handle ''token'' example_operation"
    "\<not> session_expired_at example_service finished_world (os_session_id example_operation)"
    by (simp_all add: finished_world_def set_task_def started_world_def opened_world_def service_new_def operation_handle_def
        join_result_def operation_matches_def example_operation_def example_session_def session_expired_at_def
        session_is_expired_def)
  with finished_result_is_fetched [OF service_invD(1,2) [OF example_inv(3)], of operation_handle example_operation 10 0
      example_completion example_service "''token''"
      "\<lparr>msg_name = ''FetchResults'', msg_type = T_MESSAGE_CALL, msg_seqid = 9, msg_payload = status_call\<rparr>"] status_call_args(2)
  show ?thesis
    by (simp add: example_operation_def [THEN arg_cong [where f = os_state], simplified] example_completion_def)
qed

text \<open>
  C3. A client is sent only rows that were computed for it: in every state the service can reach,
  fetching answers that the handle is invalid, or that the operation is running, canceled or
  failed with one of the fixed client errors, or with rows of a result that the engine produced
  for this very operation's statement or metadata request, run with a token of the caller's
  fingerprint.
\<close>

theorem fetched_rows_were_computed_for_caller:
  assumes unique: "uuids_unique (with_engine ef cfg sv)" and reach: "reachable (with_engine ef cfg sv) w"
    and args: "read_args (msg_payload msg) (read_fetch_results_req (sv_uuid_string sv)) = Some (Inr request)"
      "frr_operation_handle request = Some h"
  shows "\<exists>reply w'. run (rpc_fetch_results (with_engine ef cfg sv) token msg) w = Some (Inr reply, w') \<and>
    (reply = write_fetch_results_invalid (msg_seqid msg) \<or>
     (\<exists>m. reply = write_fetch_results_not_ready (msg_seqid msg) (Some m) \<and> no_result_message m) \<or>
     (\<exists>result.
        reply = write_fetch_results_response (sv_fns sv) (msg_seqid msg) result True
          (case frr_start_row_offset request of Some off \<Rightarrow> off | None \<Rightarrow> 0) (frr_max_rows request) \<and>
        (\<exists>(job, st) \<in> set (w_tasks w). job_id job = h_id h \<and>
           sv_fingerprint sv (job_token job) = sv_fingerprint sv token \<and> produces ef cfg job result)))"
proof -
  let ?sv = "with_engine ef cfg sv" and ?rows = "rows_of_operation (with_engine ef cfg sv) (msg_seqid msg) request"
  have "unique_service ?sv" using unique by (rule unique_service.intro)
  then have inv: "service_inv ?sv w" using reach by (rule unique_service.reachable_inv)
  obtain w' where run: "run (rpc_fetch_results ?sv token msg) w =
      Some (Inr (case live_operation ?sv w (h_id h) of
          Some op \<Rightarrow> if operation_matches ?sv h token op then ?rows op else write_fetch_results_invalid (msg_seqid msg)
        | None \<Rightarrow> write_fetch_results_invalid (msg_seqid msg)), w')"
    using run_fetch_results [OF service_invD(1,2) [OF inv] _ args(2), of msg ?sv token] args(1) by auto
  have own: "\<exists>(job, st) \<in> set (w_tasks w). job_id job = h_id h \<and>
      sv_fingerprint sv (job_token job) = sv_fingerprint sv token \<and> produces ef cfg job result"
    if "live_operation ?sv w (h_id h) = Some op" "operation_matches ?sv h token op" "execution_result (os_state op) = Some result"
    for op result
    using computed_produced [OF live_result_computed [OF inv that(1,3)]] that(2) by (simp add: operation_matches_def)
  show ?thesis
  proof (cases "\<exists>op. live_operation ?sv w (h_id h) = Some op \<and> operation_matches ?sv h token op")
    case False
    with run show ?thesis by (auto split: option.splits if_splits)
  next
    case True
    then obtain op where op: "live_operation ?sv w (h_id h) = Some op" "operation_matches ?sv h token op" by blast
    with run have reply: "run (rpc_fetch_results ?sv token msg) w = Some (Inr (?rows op), w')" by simp
    show ?thesis
    proof (cases "execution_result (os_state op)")
      case None
      then have "?rows op = write_fetch_results_not_ready (msg_seqid msg) (error_message (os_state op))"
        by (simp add: rows_of_operation_def)
      with reply live_no_result [OF inv op(1) None] show ?thesis by auto
    next
      case (Some result)
      then have "?rows op = write_fetch_results_response (sv_fns sv) (msg_seqid msg) result True
          (case frr_start_row_offset request of Some off \<Rightarrow> off | None \<Rightarrow> 0) (frr_max_rows request)"
        by (simp add: rows_of_operation_def)
      with reply own [OF op Some] show ?thesis by blast
    qed
  qed
qed

theorem fetched_rows_were_computed_for_caller_witness:
  "\<exists>reply w'. run (rpc_fetch_results example_service ''token''
       \<lparr>msg_name = ''FetchResults'', msg_type = T_MESSAGE_CALL, msg_seqid = 9, msg_payload = status_call\<rparr>) finished_world =
     Some (Inr reply, w') \<and>
    (reply = write_fetch_results_invalid 9 \<or>
     (\<exists>m. reply = write_fetch_results_not_ready 9 (Some m) \<and> no_result_message m) \<or>
     (\<exists>result. reply = write_fetch_results_response example_fns 9 result True 0 None \<and>
        (\<exists>(job, st) \<in> set (w_tasks finished_world). job_id job = bytes_str operation_guid \<and>
           str_bytes (job_token job) = str_bytes ''token'' \<and> produces example_engine service_config job result)))"
proof -
  let ?msg = "\<lparr>msg_name = ''FetchResults'', msg_type = T_MESSAGE_CALL, msg_seqid = 9, msg_payload = status_call\<rparr>"
  let ?request = "\<lparr>frr_operation_handle = Some operation_handle, frr_start_row_offset = None, frr_max_rows = None\<rparr>"
  have base: "sv_uuid_string example_base = bytes_str" "sv_fingerprint example_base = str_bytes" "sv_fns example_base = example_fns"
    by (simp_all add: example_base_def)
  have args: "read_args (msg_payload ?msg) (read_fetch_results_req (sv_uuid_string example_base)) = Some (Inr ?request)"
    "frr_operation_handle ?request = Some operation_handle"
    using status_call_args(2) by (simp_all add: base)
  show ?thesis
    using fetched_rows_were_computed_for_caller [OF example_unique [unfolded example_service_def]
        example_reachable(3) [unfolded example_service_def] args, of "''token''"]
    unfolding example_service_def [symmetric] base by (simp add: operation_handle_def)
qed

text \<open>
  Cancelling succeeds exactly for a live operation with its secret and its owner's token. A
  running operation then is canceled and its task is aborted; one that has completed keeps its
  outcome; every other operation is as the clean-up left it.
\<close>

lemma cancel_effect:
  assumes "distinct_keys (w_sessions w)" "distinct_keys (w_operations w)"
  shows "\<exists>valid w'. run (cancel_operation sv (Some h) token) w = Some (valid, w') \<and>
    (valid \<longleftrightarrow> (\<exists>op. live_operation sv w (h_id h) = Some op \<and> operation_matches sv h token op)) \<and>
    (\<forall>k. k \<noteq> h_id h \<or> \<not> valid \<longrightarrow> map_of (w_operations w') k = live_operation sv w k) \<and>
    (valid \<longrightarrow> (\<forall>op. live_operation sv w (h_id h) = Some op \<longrightarrow>
       (case os_state op of
          Running since t \<Rightarrow> t \<in> set (w_aborted w') \<and>
            map_of (w_operations w') (h_id h) = Some (op\<lparr>os_state := Canceled (elapsed_ms (w_now w') since) (w_now w')\<rparr>)
        | _ \<Rightarrow> map_of (w_operations w') (h_id h) = Some op)))"
proof -
  obtain v where v: "map_of (w_operations v) = live_operation sv w"
    "run (cancel_operation sv (Some h) token) w = Some (cancel_operation_section sv h token v)"
    by (rule run_cancel_operation [OF assms])
  show ?thesis
  proof (cases "live_operation sv w (h_id h)")
    case None
    then show ?thesis using v by (intro exI [of _ False]) (simp add: cancel_operation_section_def)
  next
    case (Some op)
    show ?thesis
    proof (cases "operation_matches sv h token op")
      case False
      then show ?thesis using v Some by (intro exI [of _ False]) (simp add: cancel_operation_section_def)
    next
      case True
      obtain op' ts where c: "cancel (w_now v) op = (op', ts)" by fastforce
      let ?w = "v\<lparr>w_operations := AList.update (h_id h) op' (w_operations v), w_aborted := ts @ w_aborted v\<rparr>"
      have "run (cancel_operation sv (Some h) token) w = Some (True, ?w)"
        using v Some True c by (simp add: cancel_operation_section_def)
      moreover have "map_of (w_operations ?w) = (live_operation sv w)(h_id h \<mapsto> op')"
        using v(1) by (simp add: update_conv')
      moreover have "case os_state op of
          Running since t \<Rightarrow> ts = [t] \<and> op' = op\<lparr>os_state := Canceled (elapsed_ms (w_now ?w) since) (w_now ?w)\<rparr>
        | _ \<Rightarrow> op' = op"
        using c by (cases "os_state op") (auto simp: cancel_def abort_def)
      ultimately show ?thesis
        using Some True by (intro exI [of _ True] exI [of _ ?w]) (auto split: operation_execution.splits)
    qed
  qed
qed

text \<open>
  An operation left in the state \<open>Refreshing\<close>, as by a request that is dropped between
  taking a finished task and recording its result, stays there: as long as its session is
  alive, neither the clean-up nor a cancellation changes or removes it, at any later time.
\<close>

lemma abandoned_refresh_persists:
  assumes "distinct_keys (w_sessions w)" "distinct_keys (w_operations w)"
    and op: "map_of (w_operations w) (h_id h) = Some op" "os_state op = Refreshing since"
    and alive: "\<not> session_expired_at sv w (os_session_id op)"
  shows "(\<exists>w'. run (cleanup_expired sv) w = Some ((), w') \<and> map_of (w_operations w') (h_id h) = Some op) \<and>
    (\<exists>valid w'. run (cancel_operation sv (Some h) token) w = Some (valid, w') \<and> map_of (w_operations w') (h_id h) = Some op)"
proof -
  have live: "live_operation sv w (h_id h) = Some op"
    using op alive by (simp add: live_operation_def refreshed_def operation_is_expired_def del: map_of_eq_Some_iff)
  obtain v where v: "run (cleanup_expired sv) w = Some ((), v)" "map_of (w_operations v) = live_operation sv w"
    "run (cancel_operation sv (Some h) token) w = Some (cancel_operation_section sv h token v)"
    by (rule run_cancel_operation [OF assms(1,2)])
  obtain valid w' where w': "cancel_operation_section sv h token v = (valid, w')" by fastforce
  then have "map_of (w_operations w') (h_id h) = Some op"
    using v(2) live op(2) by (auto simp: cancel_operation_section_def cancel_def update_conv' split: if_splits)
  with v live w' show ?thesis by auto
qed

definition stuck_world :: world where
  "stuck_world = finished_world\<lparr>w_operations := [(bytes_str operation_guid, example_operation\<lparr>os_state := Refreshing 10\<rparr>)]\<rparr>"

lemma stuck_reachable: "reachable example_service stuck_world"
proof -
  have fin: "is_finished finished_world 0"
    by (simp add: is_finished_def finished_world_def set_task_def started_world_def)
  obtain p1 where p1: "step_prog (cleanup_expired example_service) finished_world = Some (finished_world, p1)"
    "\<exists>p2. step_prog p1 finished_world = Some (stuck_world, p2)"
    using fin
    by (auto simp: cleanup_expired_def refresh_finished_operations_def atomic_def has_finished_task_def refresh_operation_def
        take_finished_section_def take_finished_task_def step_prog_pbind stuck_world_def
        finished_world_def set_task_def started_world_def example_operation_def)
  then show ?thesis
    using reachable_dropped [OF example_reachable(3) service_request.intros(3) p1(1)] by blast
qed

text \<open>
  The end of a metadata task, exactly: if the request that started it still waits, the
  operation takes the task's outcome whatever state it was in, so even one that was canceled
  meanwhile becomes finished or failed; if nobody waits, the operation is removed.
\<close>

lemma columns_task_overwrites_state:
  "map_of (w_operations (complete_columns_section query_id t completion w)) query_id =
     (if t \<in> set (w_receivers w)
      then map_option (\<lambda>op. op\<lparr>os_state := from_completion (w_now w) completion\<rparr>) (map_of (w_operations w) query_id)
      else None) \<and>
   (k \<noteq> query_id \<longrightarrow> map_of (w_operations (complete_columns_section query_id t completion w)) k = map_of (w_operations w) k) \<and>
   (t \<in> set (w_receivers w) \<longrightarrow>
      map_of (w_outcomes (complete_columns_section query_id t completion w)) t = Some (operation_completion_outcome completion))"
  by (cases "map_of (w_operations w) query_id")
     (auto simp: complete_columns_section_def Let_def update_conv' delete_conv' simp del: map_of_eq_Some_iff)

end
